(* ===== verification/Prelude.thy ===== *)
theory Prelude
  imports
    Complex_Main
    "HOL-Library.Sublist"
    "HOL-Library.Multiset"
    "HOL-Library.AList"
    "HOL-Library.Char_ord"
    "HOL-Library.List_Lexorder"
    "HOL-Library.Product_Lexorder"
begin

section \<open>Prelude: the Python values the components share\<close>

text \<open>
  What the development takes from the Python language and its standard library: text
  operations on \<^typ>\<open>string\<close> (one \<^typ>\<open>char\<close> per code point, so text is restricted to the
  code points 0 to 255), insertion-ordered dictionaries as association lists, stable sorting
  in both directions, counters, decimal rendering and \<open>round\<close>. Generic lemmas that several
  components use are collected here, in the simpset or in the collections
  \<open>text_simps\<close>, \<open>dict_simps\<close> and \<open>order_simps\<close>.
\<close>

named_theorems text_simps \<open>evaluation of Python text operations\<close>
named_theorems dict_simps \<open>insertion-ordered dictionaries\<close>
named_theorems order_simps \<open>sorting and selecting by position\<close>

subsection \<open>Text\<close>

abbreviation char_code :: "char \<Rightarrow> nat" where
  "char_code \<equiv> of_char"

text \<open>\<open>str.isspace\<close> on one character, as \<open>strip\<close> and \<open>split\<close> use it.\<close>

definition py_space :: "char \<Rightarrow> bool" where
  "py_space c \<longleftrightarrow> (let n = char_code c in
     (9 \<le> n \<and> n \<le> 13) \<or> (28 \<le> n \<and> n \<le> 32) \<or> n = 133 \<or> n = 160)"

definition py_lstrip :: "string \<Rightarrow> string" where
  "py_lstrip s = dropWhile py_space s"

definition py_rstrip :: "string \<Rightarrow> string" where
  "py_rstrip s = rev (dropWhile py_space (rev s))"

definition py_strip :: "string \<Rightarrow> string" where
  "py_strip s = py_rstrip (py_lstrip s)"

text \<open>\<open>str.lower\<close>; \<open>casefold\<close> differs from it on the sharp s only (code point 181, whose
  folding is outside the modelled range, is kept).\<close>

definition lower_char :: "char \<Rightarrow> char" where
  "lower_char c = (let n = char_code c in
     if (65 \<le> n \<and> n \<le> 90) \<or> (192 \<le> n \<and> n \<le> 222 \<and> n \<noteq> 215) then char_of (n + 32) else c)"

definition py_lower :: "string \<Rightarrow> string" where
  "py_lower s = map lower_char s"

definition py_casefold :: "string \<Rightarrow> string" where
  "py_casefold s = concat (map (\<lambda>c. if char_code c = 223 then ''ss'' else [lower_char c]) s)"

definition py_digit :: "char \<Rightarrow> bool" where
  "py_digit c \<longleftrightarrow> 48 \<le> char_code c \<and> char_code c \<le> 57"

definition py_isdigit :: "string \<Rightarrow> bool" where
  "py_isdigit s \<longleftrightarrow> s \<noteq> [] \<and> list_all (\<lambda>c. py_digit c \<or> char_code c \<in> {178, 179, 185}) s"

definition py_alnum :: "char \<Rightarrow> bool" where
  "py_alnum c \<longleftrightarrow> (let n = char_code c in
     py_digit c \<or> (65 \<le> n \<and> n \<le> 90) \<or> (97 \<le> n \<and> n \<le> 122)
     \<or> n \<in> {170, 178, 179, 181, 185, 186, 188, 189, 190}
     \<or> (192 \<le> n \<and> n \<noteq> 215 \<and> n \<noteq> 247))"

definition starts_with :: "string \<Rightarrow> string \<Rightarrow> bool" where
  "starts_with s p \<longleftrightarrow> take (length p) s = p"

definition ends_with :: "string \<Rightarrow> string \<Rightarrow> bool" where
  "ends_with s p \<longleftrightarrow> length p \<le> length s \<and> drop (length s - length p) s = p"

definition remove_prefix :: "string \<Rightarrow> string \<Rightarrow> string" where
  "remove_prefix s p = (if starts_with s p then drop (length p) s else s)"

text \<open>\<open>sub in s\<close> for strings.\<close>

fun str_in :: "string \<Rightarrow> string \<Rightarrow> bool" where
  "str_in p [] \<longleftrightarrow> p = []"
| "str_in p (c # cs) \<longleftrightarrow> starts_with (c # cs) p \<or> str_in p cs"

definition replace_char :: "char \<Rightarrow> char \<Rightarrow> string \<Rightarrow> string" where
  "replace_char a b s = map (\<lambda>c. if c = a then b else c) s"

abbreviation backslash :: char where
  "backslash \<equiv> CHR 0x5C"

text \<open>\<open>str.partition(sep)\<close> for a one-character separator: before, found, after.\<close>

fun partition_char :: "char \<Rightarrow> string \<Rightarrow> string \<times> bool \<times> string" where
  "partition_char a [] = ([], False, [])"
| "partition_char a (c # cs) =
     (if c = a then ([], True, cs)
      else (let (p, f, q) = partition_char a cs in (c # p, f, q)))"

text \<open>\<open>str.split(sep)\<close> for a one-character separator; the result is never empty.\<close>

fun split_char :: "char \<Rightarrow> string \<Rightarrow> string list" where
  "split_char a [] = [[]]"
| "split_char a (c # cs) =
     (if c = a then [] # split_char a cs
      else (case split_char a cs of [] \<Rightarrow> [[c]] | w # ws \<Rightarrow> (c # w) # ws))"

text \<open>\<open>str.split()\<close> on runs of whitespace, and \<open>sep.join\<close>.\<close>

fun words_from :: "string \<Rightarrow> string \<Rightarrow> string list" where
  "words_from acc [] = (if acc = [] then [] else [rev acc])"
| "words_from acc (c # cs) =
     (if py_space c then (if acc = [] then words_from [] cs else rev acc # words_from [] cs)
      else words_from (c # acc) cs)"

definition py_split :: "string \<Rightarrow> string list" where
  "py_split s = words_from [] s"

fun join :: "string \<Rightarrow> string list \<Rightarrow> string" where
  "join sep [] = []"
| "join sep [s] = s"
| "join sep (s # t # ss) = s @ sep @ join sep (t # ss)"

text \<open>\<open>str.splitlines()\<close>: every line boundary of the modelled range, a carriage return
  followed by a newline counting once, and no empty last line.\<close>

definition line_break :: "char \<Rightarrow> bool" where
  "line_break c \<longleftrightarrow> (let n = char_code c in
     (10 \<le> n \<and> n \<le> 13) \<or> (28 \<le> n \<and> n \<le> 30) \<or> n = 133)"

fun lines_from :: "bool \<Rightarrow> string \<Rightarrow> string \<Rightarrow> string list" where
  "lines_from keep acc [] = (if acc = [] then [] else [rev acc])"
| "lines_from keep acc (c # cs) =
     (if c = CHR 0x0D \<and> cs \<noteq> [] \<and> hd cs = CHR 0x0A
      then (rev acc @ (if keep then [c, hd cs] else [])) # lines_from keep [] (tl cs)
      else if line_break c
      then (rev acc @ (if keep then [c] else [])) # lines_from keep [] cs
      else lines_from keep (c # acc) cs)"

definition split_lines :: "string \<Rightarrow> string list" where
  "split_lines s = lines_from False [] s"

definition split_lines_keep :: "string \<Rightarrow> string list" where
  "split_lines_keep s = lines_from True [] s"

lemma starts_with_simps [simp, text_simps]:
  "starts_with s []"
  "starts_with [] (p # ps) \<longleftrightarrow> False"
  "starts_with (c # cs) (p # ps) \<longleftrightarrow> c = p \<and> starts_with cs ps"
  by (auto simp: starts_with_def)

lemma starts_with_append [simp, text_simps]: "starts_with (p @ s) p"
  by (simp add: starts_with_def)

lemma starts_with_iff: "starts_with s p \<longleftrightarrow> (\<exists>t. s = p @ t)"
  by (metis append_take_drop_id starts_with_append starts_with_def)

lemma remove_prefix_append [simp, text_simps]: "remove_prefix (p @ s) p = s"
  by (simp add: remove_prefix_def)

lemma py_strip_fixed:
  "\<lbrakk>s = [] \<or> \<not> py_space (hd s); s = [] \<or> \<not> py_space (last s)\<rbrakk> \<Longrightarrow> py_strip s = s"
proof -
  assume "s = [] \<or> \<not> py_space (hd s)" "s = [] \<or> \<not> py_space (last s)"
  then have "dropWhile py_space s = s" "dropWhile py_space (rev s) = rev s"
    by (auto simp: dropWhile_eq_self_iff hd_rev)
  then show ?thesis
    by (simp add: py_strip_def py_lstrip_def py_rstrip_def)
qed

lemma set_py_rstrip: "set (py_rstrip s) \<subseteq> set s"
  by (auto simp: py_rstrip_def dest: set_dropWhileD)

lemma length_py_rstrip: "length (py_rstrip s) \<le> length s"
  by (simp add: py_rstrip_def length_dropWhile_le [of py_space "rev s", simplified])

text \<open>A text without line boundaries stays one line.\<close>

definition one_line :: "string \<Rightarrow> bool" where
  "one_line s \<longleftrightarrow> list_all (\<lambda>c. \<not> line_break c) s"

definition unlines :: "string list \<Rightarrow> string" where
  "unlines ls = concat (map (\<lambda>l. l @ [CHR 0x0A]) ls)"

lemma lines_from_line:
  "one_line l \<Longrightarrow> lines_from False acc (l @ CHR 0x0A # rest) = (rev acc @ l) # lines_from False [] rest"
  by (induction l arbitrary: acc) (auto simp: one_line_def line_break_def Let_def)

lemma split_lines_unlines: "list_all one_line ls \<Longrightarrow> split_lines (unlines ls) = ls"
  unfolding split_lines_def unlines_def by (induction ls) (simp_all add: lines_from_line)

subsection \<open>Ordered dictionaries, stable sorting, first occurrences\<close>

text \<open>A \<open>dict\<close> is the association list of its items in insertion order: \<^const>\<open>AList.update\<close> keeps
  the position of a key that is there and appends a new one, \<^const>\<open>AList.delete\<close> is \<open>pop\<close>.\<close>

abbreviation dict_set :: "'k \<Rightarrow> 'v \<Rightarrow> ('k \<times> 'v) list \<Rightarrow> ('k \<times> 'v) list" where
  "dict_set \<equiv> AList.update"

abbreviation dict_pop :: "'k \<Rightarrow> ('k \<times> 'v) list \<Rightarrow> ('k \<times> 'v) list" where
  "dict_pop \<equiv> AList.delete"

abbreviation dict_get :: "('k \<times> 'v) list \<Rightarrow> 'k \<Rightarrow> 'v option" where
  "dict_get \<equiv> map_of"

definition dict_get_or :: "('k \<times> 'v) list \<Rightarrow> 'k \<Rightarrow> 'v \<Rightarrow> 'v" where
  "dict_get_or d k v = (case dict_get d k of None \<Rightarrow> v | Some w \<Rightarrow> w)"

text \<open>A dict comprehension \<open>{key(x): val(x) for x in xs}\<close>: a later item overwrites.\<close>

definition dict_of :: "('a \<Rightarrow> 'k) \<Rightarrow> ('a \<Rightarrow> 'v) \<Rightarrow> 'a list \<Rightarrow> ('k \<times> 'v) list" where
  "dict_of key val xs = fold (\<lambda>x d. dict_set (key x) (val x) d) xs []"

lemma map_of_fold_dict_set:
  "map_of (fold (\<lambda>x d. dict_set (key x) (val x) d) xs d) k =
     (case find (\<lambda>x. key x = k) (rev xs) of None \<Rightarrow> map_of d k | Some x \<Rightarrow> Some (val x))"
  by (induction xs rule: rev_induct) (auto simp: update_conv')

lemma dict_get_dict_of [dict_simps]:
  "dict_get (dict_of key val xs) k = map_option val (find (\<lambda>x. key x = k) (rev xs))"
  by (simp add: dict_of_def map_of_fold_dict_set split: option.splits)

lemma dict_of_None_iff: "dict_get (dict_of key val xs) k = None \<longleftrightarrow> k \<notin> key ` set xs"
  by (auto simp: dict_simps find_None_iff)

lemma find_SomeD: "find p xs = Some x \<Longrightarrow> x \<in> set xs \<and> p x"
  by (induction xs) (auto split: if_splits)

lemma dict_of_SomeD: "dict_get (dict_of key val xs) k = Some v \<Longrightarrow> \<exists>x\<in>set xs. key x = k \<and> val x = v"
  by (auto simp: dict_simps dest!: find_SomeD)

lemma distinct_dict_set [simp]: "distinct (map fst d) \<Longrightarrow> distinct (map fst (dict_set k v d))"
  by (rule distinct_update)

lemma distinct_dict_of: "distinct (map fst (dict_of key val xs))"
  unfolding dict_of_def by (induction xs rule: rev_induct) simp_all

lemma dict_set_entries: "(k', v') \<in> set (dict_set k v d) \<Longrightarrow> (k', v') = (k, v) \<or> (k', v') \<in> set d"
  by (induction d) (auto split: if_splits)

lemma dict_set_new: "k \<notin> fst ` set d \<Longrightarrow> dict_set k v d = d @ [(k, v)]"
  by (induction d) auto

lemma map_of_keyed: "map_of (map (\<lambda>d. (key d, d)) ds) k = find (\<lambda>d. key d = k) ds"
  by (induction ds) auto

text \<open>Results that may be an error.\<close>

lemma map_sum_eq_Inr: "map_sum id g x = Inr y \<longleftrightarrow> (\<exists>z. x = Inr z \<and> y = g z)"
  by (cases x) auto

text \<open>\<open>collections.Counter\<close> over a sequence.\<close>

definition counter :: "'a list \<Rightarrow> ('a \<times> int) list" where
  "counter xs = fold (\<lambda>x d. dict_set x (dict_get_or d x 0 + 1) d) xs []"

text \<open>\<open>sorted(set(...))\<close>, and \<open>list.sort(key=..., reverse=True)\<close>, which is stable too.\<close>

definition sorted_set :: "'a::linorder list \<Rightarrow> 'a list" where
  "sorted_set xs = sort (remdups xs)"

definition sort_desc :: "('a \<Rightarrow> 'k::linorder) \<Rightarrow> 'a list \<Rightarrow> 'a list" where
  "sort_desc key xs = rev (sort_key key (rev xs))"

lemma set_sorted_set [simp]: "set (sorted_set xs) = set xs"
  by (simp add: sorted_set_def)

lemma distinct_sorted_set [simp]: "distinct (sorted_set xs)"
  by (simp add: sorted_set_def)

lemma sorted_sorted_set [simp]: "sorted (sorted_set xs)"
  by (simp add: sorted_set_def)

lemma sorted_set_cong: "set xs = set ys \<Longrightarrow> sorted_set xs = sorted_set ys"
  by (rule sorted_distinct_set_unique) simp_all

lemma sort_desc_basics [simp]:
  "set (sort_desc key xs) = set xs"
  "length (sort_desc key xs) = length xs"
  "mset (sort_desc key xs) = mset xs"
  by (simp_all add: sort_desc_def)

lemma distinct_sort_desc [simp]: "distinct (map f (sort_desc key xs)) = distinct (map f xs)"
proof -
  have "mset (map f (sort_desc key xs)) = mset (map f xs)" by simp
  then show ?thesis by (rule mset_eq_imp_distinct_iff)
qed

lemma sort_desc_sorted: "sorted (rev (map key (sort_desc key xs)))"
  by (simp add: sort_desc_def rev_map)

text \<open>\<open>list(dict.fromkeys(xs))\<close>: the first occurrence of each value, in order.\<close>

fun uniq_from :: "'a list \<Rightarrow> 'a list \<Rightarrow> 'a list" where
  "uniq_from seen [] = []"
| "uniq_from seen (x # xs) =
     (if x \<in> set seen then uniq_from seen xs else x # uniq_from (x # seen) xs)"

definition uniq :: "'a list \<Rightarrow> 'a list" where
  "uniq xs = uniq_from [] xs"

lemma set_uniq_from: "set (uniq_from seen xs) = set xs - set seen"
  by (induction xs arbitrary: seen) auto

lemma distinct_uniq_from: "distinct (uniq_from seen xs)"
  by (induction xs arbitrary: seen) (auto simp: set_uniq_from)

lemma set_uniq [simp]: "set (uniq xs) = set xs"
  by (simp add: uniq_def set_uniq_from)

lemma distinct_uniq [simp]: "distinct (uniq xs)"
  by (simp add: uniq_def distinct_uniq_from)

text \<open>\<open>next((i for i, x in enumerate(xs) if p(x)), None)\<close>.\<close>

fun first_index :: "('a \<Rightarrow> bool) \<Rightarrow> 'a list \<Rightarrow> nat option" where
  "first_index p [] = None"
| "first_index p (x # xs) = (if p x then Some 0 else map_option Suc (first_index p xs))"

lemma first_index_None: "first_index p xs = None \<longleftrightarrow> list_all (\<lambda>x. \<not> p x) xs"
  by (induction xs) auto

lemma first_index_Some:
  "first_index p xs = Some i \<Longrightarrow> i < length xs \<and> p (xs ! i) \<and> list_all (\<lambda>x. \<not> p x) (take i xs)"
  by (induction xs arbitrary: i) (auto split: if_splits)

lemma first_index_least:
  assumes "first_index p xs = Some i" and "j < length xs" and "p (xs ! j)"
  shows "i \<le> j"
proof (rule ccontr)
  assume "\<not> i \<le> j"
  with assms(2) have "xs ! j \<in> set (take i xs)" by (force simp: in_set_conv_nth)
  with first_index_Some [OF assms(1)] assms(3) show False by (auto simp: list_all_iff)
qed

definition indexed :: "'a list \<Rightarrow> (nat \<times> 'a) list" where
  "indexed xs = zip [0..<length xs] xs"

lemma map_indexed [simp]: "map snd (indexed xs) = xs" "map fst (indexed xs) = [0..<length xs]"
  by (simp_all add: indexed_def)

lemma set_indexed: "set (indexed xs) = {(i, xs ! i) | i. i < length xs}"
proof -
  have "{([0..<length xs] ! i, xs ! i) | i. i < length xs} = {(i, xs ! i) | i. i < length xs}"
    by (auto cong: conj_cong simp: nth_upt) (metis add.left_neutral nth_upt)+
  then show ?thesis by (simp add: indexed_def set_zip)
qed

lemma length_indexed [simp]: "length (indexed xs) = length xs"
  by (simp add: indexed_def)

lemma list_ex_filter_Nil: "filter p xs = [] \<longleftrightarrow> \<not> list_ex p xs"
  by (induction xs) auto

text \<open>Loops and lists.\<close>

lemma fold_inv: "\<lbrakk>P s; \<And>x s. x \<in> set xs \<Longrightarrow> P s \<Longrightarrow> P (f x s)\<rbrakk> \<Longrightarrow> P (fold f xs s)"
  by (induction xs arbitrary: s) simp_all

lemma mset_filter_split: "mset (filter p xs) + mset (filter (\<lambda>x. \<not> p x) xs) = mset xs"
  by (induction xs) simp_all

lemma subseq_distinct: "\<lbrakk>subseq xs ys; distinct ys\<rbrakk> \<Longrightarrow> distinct xs"
  by (auto simp: subseq_conv_nths)

lemma distinct_singleton: "\<lbrakk>distinct xs; set xs = {x}\<rbrakk> \<Longrightarrow> xs = [x]"
  by (cases xs; cases "tl xs") auto

subsection \<open>Decimal numerals\<close>

definition digit_char :: "nat \<Rightarrow> char" where
  "digit_char d = char_of (48 + d)"

definition digit_val :: "char \<Rightarrow> nat" where
  "digit_val c = char_code c - 48"

fun str_nat :: "nat \<Rightarrow> string" where
  "str_nat n = (if n < 10 then [digit_char n] else str_nat (n div 10) @ [digit_char (n mod 10)])"

declare str_nat.simps [simp del]

definition str_int :: "int \<Rightarrow> string" where
  "str_int i = (if i < 0 then CHR ''-'' # str_nat (nat (- i)) else str_nat (nat i))"

definition nat_of_digits :: "string \<Rightarrow> nat" where
  "nat_of_digits s = foldl (\<lambda>n c. 10 * n + digit_val c) 0 s"

lemma digit_val_char [simp]: "d < 10 \<Longrightarrow> digit_val (digit_char d) = d"
  by (simp add: digit_val_def digit_char_def)

lemma py_digit_char [simp]: "d < 10 \<Longrightarrow> py_digit (digit_char d)"
  by (simp add: py_digit_def digit_char_def)

lemma str_nat_nonempty [simp]: "str_nat n \<noteq> []"
  by (subst str_nat.simps) simp

lemma str_nat_digits [simp]: "list_all py_digit (str_nat n)"
proof (induction n rule: str_nat.induct)
  case (1 n)
  then show ?case
    by (subst str_nat.simps) auto
qed

text \<open>Printing a number and reading the digits back gives the number.\<close>

lemma nat_of_digits_str_nat [simp]: "nat_of_digits (str_nat n) = n"
proof (induction n rule: str_nat.induct)
  case (1 n)
  show ?case
  proof (cases "n < 10")
    case True
    then show ?thesis
      by (subst str_nat.simps) (simp add: nat_of_digits_def)
  next
    case False
    with 1 have "nat_of_digits (str_nat (n div 10)) = n div 10" by simp
    with False show ?thesis
      by (subst str_nat.simps) (simp add: nat_of_digits_def)
  qed
qed

text \<open>\<open>round(x, k)\<close> on the exact value, ties to the even neighbour.\<close>

definition round_half_even :: "rat \<Rightarrow> int" where
  "round_half_even x = (let f = floor x; r = x - of_int f in
     if r < 1 / 2 then f else if 1 / 2 < r then f + 1
     else if even f then f else f + 1)"

definition py_round :: "nat \<Rightarrow> rat \<Rightarrow> rat" where
  "py_round k x = of_int (round_half_even (x * 10 ^ k)) / 10 ^ k"

lemma round_half_even_of_int [simp]: "round_half_even (of_int i) = i"
  by (simp add: round_half_even_def Let_def)

lemma round_half_even_mono:
  assumes "x \<le> y"
  shows "round_half_even x \<le> round_half_even y"
proof -
  have le: "floor x \<le> floor y" using assms by (rule floor_mono)
  have bounds: "floor z \<le> round_half_even z" "round_half_even z \<le> floor z + 1" for z
    by (auto simp: round_half_even_def Let_def)
  show ?thesis
  proof (cases "floor x = floor y")
    case True
    with assms show ?thesis by (auto simp: round_half_even_def Let_def)
  next
    case False
    with le have "floor x + 1 \<le> floor y" by simp
    with bounds(1)[of y] bounds(2)[of x] show ?thesis by linarith
  qed
qed

lemma py_round_mono: "x \<le> y \<Longrightarrow> py_round k x \<le> py_round k y"
  by (simp add: py_round_def divide_right_mono round_half_even_mono mult_right_mono)

lemma py_round_0 [simp]: "py_round k 0 = 0"
  using round_half_even_of_int [of 0] by (simp add: py_round_def)

lemma py_round_1 [simp]: "py_round k 1 = 1"
  using round_half_even_of_int [of "10 ^ k"] by (simp add: py_round_def)

text \<open>The format \<open>{x:.1%}\<close>: a percentage with one decimal.\<close>

definition fmt_percent1 :: "rat \<Rightarrow> string" where
  "fmt_percent1 x = (let t = round_half_even (x * 1000); u = abs t in
     (if t < 0 then ''-'' else []) @ str_int (u div 10) @ ''.'' @ str_int (u mod 10) @ ''%'')"

subsection \<open>Identifiers and instants\<close>

text \<open>The field patterns \<open>[a-z0-9][a-z0-9._-]*\<close> and \<open>[A-Za-z_][A-Za-z0-9_]*\<close>.\<close>

definition lower_or_digit :: "char \<Rightarrow> bool" where
  "lower_or_digit c \<longleftrightarrow> py_digit c \<or> (97 \<le> char_code c \<and> char_code c \<le> 122)"

definition letter_or_underscore :: "char \<Rightarrow> bool" where
  "letter_or_underscore c \<longleftrightarrow> c = CHR ''_'' \<or> (65 \<le> char_code c \<and> char_code c \<le> 90)
     \<or> (97 \<le> char_code c \<and> char_code c \<le> 122)"

definition policy_id_ok :: "string \<Rightarrow> bool" where
  "policy_id_ok s \<longleftrightarrow> s \<noteq> [] \<and> lower_or_digit (hd s)
     \<and> list_all (\<lambda>c. lower_or_digit c \<or> c \<in> set ''._-'') (tl s)"

definition env_name_ok :: "string \<Rightarrow> bool" where
  "env_name_ok s \<longleftrightarrow> s \<noteq> [] \<and> letter_or_underscore (hd s)
     \<and> list_all (\<lambda>c. letter_or_underscore c \<or> py_digit c) (tl s)"

text \<open>A \<open>datetime\<close>: the wall clock in microseconds and, for an aware value, its UTC offset.\<close>

datatype datetime = Datetime (dt_clock: int) (dt_offset: "int option")

end
