(* ===== verification/Model_Config.thy ===== *)
theory Model_Config
  imports Prelude
begin

section \<open>The data model: enumerations, rules, memory and configuration\<close>

text \<open>
  \<open>src/apex_ray/models.py\<close> up to \<open>ReviewConfig\<close>. A \<open>StrEnum\<close> and a \<open>Literal\<close> are a datatype
  with a \<open>_value\<close> function to the stored text; a model class is a record whose fields keep the
  class's order and names behind a prefix; \<open>default_\<close> is the instance built with no arguments
  and \<open>valid_\<close> the constraints the field declarations state. The cross-field validator of
  \<open>LLMAPIConfig\<close> is not modelled here: it validates URLs.
\<close>

subsection \<open>Enumerations\<close>

datatype target_mode =
    TM_BASE
  | TM_STAGED
  | TM_WORKTREE
  | TM_PATCH

primrec target_mode_value :: "target_mode \<Rightarrow> string" where
  "target_mode_value TM_BASE = ''base''"
| "target_mode_value TM_STAGED = ''staged''"
| "target_mode_value TM_WORKTREE = ''worktree''"
| "target_mode_value TM_PATCH = ''patch''"

datatype file_status =
    ST_ADDED
  | ST_MODIFIED
  | ST_DELETED
  | ST_RENAMED
  | ST_COPIED

primrec file_status_value :: "file_status \<Rightarrow> string" where
  "file_status_value ST_ADDED = ''added''"
| "file_status_value ST_MODIFIED = ''modified''"
| "file_status_value ST_DELETED = ''deleted''"
| "file_status_value ST_RENAMED = ''renamed''"
| "file_status_value ST_COPIED = ''copied''"

datatype file_kind =
    FK_SOURCE
  | FK_TEST
  | FK_CONFIG
  | FK_MIGRATION
  | FK_SCHEMA
  | FK_DEPENDENCY
  | FK_LOCKFILE
  | FK_DOCS
  | FK_GENERATED
  | FK_VENDORED
  | FK_UNKNOWN

primrec file_kind_value :: "file_kind \<Rightarrow> string" where
  "file_kind_value FK_SOURCE = ''source''"
| "file_kind_value FK_TEST = ''test''"
| "file_kind_value FK_CONFIG = ''config''"
| "file_kind_value FK_MIGRATION = ''migration''"
| "file_kind_value FK_SCHEMA = ''schema''"
| "file_kind_value FK_DEPENDENCY = ''dependency''"
| "file_kind_value FK_LOCKFILE = ''lockfile''"
| "file_kind_value FK_DOCS = ''docs''"
| "file_kind_value FK_GENERATED = ''generated''"
| "file_kind_value FK_VENDORED = ''vendored''"
| "file_kind_value FK_UNKNOWN = ''unknown''"

datatype diff_line_kind =
    DL_CONTEXT
  | DL_ADD
  | DL_DELETE

primrec diff_line_kind_value :: "diff_line_kind \<Rightarrow> string" where
  "diff_line_kind_value DL_CONTEXT = ''context''"
| "diff_line_kind_value DL_ADD = ''add''"
| "diff_line_kind_value DL_DELETE = ''delete''"

datatype risk_severity =
    RS_CRITICAL
  | RS_HIGH
  | RS_MEDIUM
  | RS_LOW

primrec risk_severity_value :: "risk_severity \<Rightarrow> string" where
  "risk_severity_value RS_CRITICAL = ''critical''"
| "risk_severity_value RS_HIGH = ''high''"
| "risk_severity_value RS_MEDIUM = ''medium''"
| "risk_severity_value RS_LOW = ''low''"

datatype llm_provider_name =
    PN_FAKE
  | PN_CODEX_CLI
  | PN_CLAUDE_CODE_CLI
  | PN_OPENAI_API
  | PN_ANTHROPIC_API
  | PN_DEEPSEEK_API
  | PN_QWEN_API
  | PN_KIMI_API
  | PN_ZAI_API
  | PN_OPENAI_COMPATIBLE

primrec llm_provider_name_value :: "llm_provider_name \<Rightarrow> string" where
  "llm_provider_name_value PN_FAKE = ''fake''"
| "llm_provider_name_value PN_CODEX_CLI = ''codex_cli''"
| "llm_provider_name_value PN_CLAUDE_CODE_CLI = ''claude_code_cli''"
| "llm_provider_name_value PN_OPENAI_API = ''openai_api''"
| "llm_provider_name_value PN_ANTHROPIC_API = ''anthropic_api''"
| "llm_provider_name_value PN_DEEPSEEK_API = ''deepseek_api''"
| "llm_provider_name_value PN_QWEN_API = ''qwen_api''"
| "llm_provider_name_value PN_KIMI_API = ''kimi_api''"
| "llm_provider_name_value PN_ZAI_API = ''zai_api''"
| "llm_provider_name_value PN_OPENAI_COMPATIBLE = ''openai_compatible''"

datatype llmapi_protocol =
    AP_OPENAI_RESPONSES
  | AP_ANTHROPIC_MESSAGES
  | AP_OPENAI_CHAT

primrec llmapi_protocol_value :: "llmapi_protocol \<Rightarrow> string" where
  "llmapi_protocol_value AP_OPENAI_RESPONSES = ''openai_responses''"
| "llmapi_protocol_value AP_ANTHROPIC_MESSAGES = ''anthropic_messages''"
| "llmapi_protocol_value AP_OPENAI_CHAT = ''openai_chat''"

datatype llm_structured_output =
    SO_JSON_SCHEMA
  | SO_JSON_OBJECT
  | SO_PROMPT_ONLY

primrec llm_structured_output_value :: "llm_structured_output \<Rightarrow> string" where
  "llm_structured_output_value SO_JSON_SCHEMA = ''json_schema''"
| "llm_structured_output_value SO_JSON_OBJECT = ''json_object''"
| "llm_structured_output_value SO_PROMPT_ONLY = ''prompt_only''"

datatype llm_coverage_mode =
    CM_FAST
  | CM_BALANCED
  | CM_EXHAUSTIVE

primrec llm_coverage_mode_value :: "llm_coverage_mode \<Rightarrow> string" where
  "llm_coverage_mode_value CM_FAST = ''fast''"
| "llm_coverage_mode_value CM_BALANCED = ''balanced''"
| "llm_coverage_mode_value CM_EXHAUSTIVE = ''exhaustive''"

datatype llm_reasoning_effort =
    RE_NONE
  | RE_MINIMAL
  | RE_LOW
  | RE_MEDIUM
  | RE_HIGH
  | RE_XHIGH
  | RE_MAX

primrec llm_reasoning_effort_value :: "llm_reasoning_effort \<Rightarrow> string" where
  "llm_reasoning_effort_value RE_NONE = ''none''"
| "llm_reasoning_effort_value RE_MINIMAL = ''minimal''"
| "llm_reasoning_effort_value RE_LOW = ''low''"
| "llm_reasoning_effort_value RE_MEDIUM = ''medium''"
| "llm_reasoning_effort_value RE_HIGH = ''high''"
| "llm_reasoning_effort_value RE_XHIGH = ''xhigh''"
| "llm_reasoning_effort_value RE_MAX = ''max''"

datatype progress_mode =
    PM_AUTO
  | PM_ALWAYS
  | PM_NEVER

primrec progress_mode_value :: "progress_mode \<Rightarrow> string" where
  "progress_mode_value PM_AUTO = ''auto''"
| "progress_mode_value PM_ALWAYS = ''always''"
| "progress_mode_value PM_NEVER = ''never''"

datatype finding_severity =
    FS_CRITICAL
  | FS_HIGH
  | FS_MEDIUM
  | FS_LOW

primrec finding_severity_value :: "finding_severity \<Rightarrow> string" where
  "finding_severity_value FS_CRITICAL = ''critical''"
| "finding_severity_value FS_HIGH = ''high''"
| "finding_severity_value FS_MEDIUM = ''medium''"
| "finding_severity_value FS_LOW = ''low''"

datatype finding_confidence =
    FC_HIGH
  | FC_MEDIUM
  | FC_LOW

primrec finding_confidence_value :: "finding_confidence \<Rightarrow> string" where
  "finding_confidence_value FC_HIGH = ''high''"
| "finding_confidence_value FC_MEDIUM = ''medium''"
| "finding_confidence_value FC_LOW = ''low''"

datatype rule_mode =
    RM_ADVISORY
  | RM_STRICT

primrec rule_mode_value :: "rule_mode \<Rightarrow> string" where
  "rule_mode_value RM_ADVISORY = ''advisory''"
| "rule_mode_value RM_STRICT = ''strict''"

datatype memory_kind =
    MK_INVARIANT
  | MK_BUG_PATTERN
  | MK_FALSE_POSITIVE
  | MK_SEVERITY_CALIBRATION
  | MK_GLOSSARY

primrec memory_kind_value :: "memory_kind \<Rightarrow> string" where
  "memory_kind_value MK_INVARIANT = ''invariant''"
| "memory_kind_value MK_BUG_PATTERN = ''bug_pattern''"
| "memory_kind_value MK_FALSE_POSITIVE = ''false_positive''"
| "memory_kind_value MK_SEVERITY_CALIBRATION = ''severity_calibration''"
| "memory_kind_value MK_GLOSSARY = ''glossary''"

subsection \<open>Rules and memory cards\<close>

record rule_triggers =
  rt_imports :: "string list"
  rt_symbols :: "string list"
  rt_risk :: "string list"
  rt_text :: "string list"

definition default_rule_triggers :: rule_triggers where
  "default_rule_triggers = \<lparr>
     rt_imports = [],
     rt_symbols = [],
     rt_risk = [],
     rt_text = []\<rparr>"

record review_rule =
  rr_id :: "string"
  rr_title :: "string"
  rr_severity :: "finding_severity"
  rr_mode :: "rule_mode"
  rr_paths :: "string list"
  rr_context_paths :: "string list"
  rr_resolution_surfaces :: "string list"
  rr_exclude_paths :: "string list"
  rr_triggers :: "rule_triggers"
  rr_model :: "string option"
  rr_verify :: "string option"
  rr_body :: "string"
  rr_source_path :: "string option"

record rule_match =
  rm_id :: "string"
  rm_title :: "string"
  rm_severity :: "finding_severity"
  rm_mode :: "rule_mode"
  rm_resolution_surfaces :: "string list"
  rm_model :: "string option"
  rm_verify :: "string option"
  rm_source_path :: "string option"

datatype memory_audience =
    AU_REVIEW
  | AU_VERIFY
  | AU_BOTH

primrec memory_audience_value :: "memory_audience \<Rightarrow> string" where
  "memory_audience_value AU_REVIEW = ''review''"
| "memory_audience_value AU_VERIFY = ''verify''"
| "memory_audience_value AU_BOTH = ''both''"

record memory_card =
  mc_id :: "string"
  mc_title :: "string"
  mc_kind :: "memory_kind"
  mc_severity :: "finding_severity"
  mc_paths :: "string list"
  mc_context_paths :: "string list"
  mc_exclude_paths :: "string list"
  mc_triggers :: "rule_triggers"
  mc_tags :: "string list"
  mc_applies_to :: "memory_audience option"
  mc_max_prompt_chars :: "int option"
  mc_body :: "string"
  mc_source_path :: "string option"

definition valid_memory_card :: "memory_card \<Rightarrow> bool" where
  "valid_memory_card c \<longleftrightarrow>
     (case mc_max_prompt_chars c of None \<Rightarrow> True | Some x \<Rightarrow> 0 < x)"

record memory_match =
  mm_id :: "string"
  mm_title :: "string"
  mm_kind :: "memory_kind"
  mm_severity :: "finding_severity"
  mm_applies_to :: "memory_audience"
  mm_source_path :: "string option"
  mm_score :: "int"
  mm_reason :: "string"
  mm_rendered :: "string"
  mm_prompt_chars :: "int"

record memory_omission =
  mo_id :: "string"
  mo_title :: "string"
  mo_kind :: "memory_kind"
  mo_reason :: "string"
  mo_score :: "int"
  mo_source_path :: "string option"

subsection \<open>Context, memory, risk and provider configuration\<close>

record context_config =
  cc_max_changed_snippets :: "int"
  cc_max_changed_snippet_lines :: "int"
  cc_max_hunk_snippets :: "int"
  cc_hunk_context_lines :: "int"
  cc_max_reference_snippets :: "int"
  cc_reference_snippet_context_lines :: "int"
  cc_max_related_test_snippets :: "int"
  cc_max_related_test_snippet_lines :: "int"
  cc_max_pack_chars :: "int"

definition default_context_config :: context_config where
  "default_context_config = \<lparr>
     cc_max_changed_snippets = 6,
     cc_max_changed_snippet_lines = 180,
     cc_max_hunk_snippets = 4,
     cc_hunk_context_lines = 8,
     cc_max_reference_snippets = 8,
     cc_reference_snippet_context_lines = 4,
     cc_max_related_test_snippets = 4,
     cc_max_related_test_snippet_lines = 24,
     cc_max_pack_chars = 40000\<rparr>"

definition valid_context_config :: "context_config \<Rightarrow> bool" where
  "valid_context_config c \<longleftrightarrow>
     0 < cc_max_changed_snippets c \<and>
     0 < cc_max_changed_snippet_lines c \<and>
     0 < cc_max_hunk_snippets c \<and>
     0 < cc_hunk_context_lines c \<and>
     0 < cc_max_reference_snippets c \<and>
     0 < cc_reference_snippet_context_lines c \<and>
     0 < cc_max_related_test_snippets c \<and>
     0 < cc_max_related_test_snippet_lines c \<and>
     0 < cc_max_pack_chars c"

record memory_config =
  mcfg_enabled :: "bool"
  mcfg_paths :: "string list"
  mcfg_max_cards_per_pack :: "int"
  mcfg_max_chars_per_pack :: "int"
  mcfg_max_chars_per_card :: "int"
  mcfg_max_context_ratio :: "rat"

definition default_memory_config :: memory_config where
  "default_memory_config = \<lparr>
     mcfg_enabled = True,
     mcfg_paths = [''.apex-ray/memory''],
     mcfg_max_cards_per_pack = 4,
     mcfg_max_chars_per_pack = 2400,
     mcfg_max_chars_per_card = 700,
     mcfg_max_context_ratio = 1 / 10\<rparr>"

definition valid_memory_config :: "memory_config \<Rightarrow> bool" where
  "valid_memory_config c \<longleftrightarrow>
     0 \<le> mcfg_max_cards_per_pack c \<and>
     0 \<le> mcfg_max_chars_per_pack c \<and>
     0 < mcfg_max_chars_per_card c \<and>
     0 \<le> mcfg_max_context_ratio c \<and> mcfg_max_context_ratio c \<le> 1"

record risk_rule =
  rk_id :: "string"
  rk_title :: "string"
  rk_severity :: "risk_severity"
  rk_score :: "int option"
  rk_paths :: "string list"
  rk_exclude_paths :: "string list"
  rk_languages :: "string list"
  rk_file_kinds :: "file_kind list"
  rk_statuses :: "file_status list"
  rk_text :: "string list"
  rk_risk :: "string list"
  rk_categories :: "string list"
  rk_reviewer_tags :: "string list"
  rk_guidance :: "string"

definition valid_risk_rule :: "risk_rule \<Rightarrow> bool" where
  "valid_risk_rule c \<longleftrightarrow>
     rk_id c \<noteq> [] \<and> policy_id_ok (rk_id c) \<and>
     (case rk_score c of None \<Rightarrow> True | Some x \<Rightarrow> 0 \<le> x \<and> x \<le> 100)"

record risk_config =
  rcfg_built_in_enabled :: "bool"
  rcfg_rules :: "risk_rule list"

definition default_risk_config :: risk_config where
  "default_risk_config = \<lparr>
     rcfg_built_in_enabled = True,
     rcfg_rules = []\<rparr>"

definition valid_risk_config :: "risk_config \<Rightarrow> bool" where
  "valid_risk_config c \<longleftrightarrow>
     list_all valid_risk_rule (rcfg_rules c)"

record llmapi_config =
  api_protocol :: "llmapi_protocol option"
  api_structured_output :: "llm_structured_output option"
  api_base_url :: "string option"
  api_base_url_env :: "string option"
  api_api_key_env :: "string option"
  api_allowed_hosts_env :: "string"
  api_headers_from_env :: "(string \<times> string) list"
  api_api_version :: "string option"
  api_max_output_tokens :: "int"
  api_max_retries :: "int"
  api_retry_backoff_seconds :: "rat"
  api_retry_max_seconds :: "rat"
  api_use_system_proxy :: "bool"
  api_allow_insecure_loopback_http :: "bool"

definition default_llmapi_config :: llmapi_config where
  "default_llmapi_config = \<lparr>
     api_protocol = None,
     api_structured_output = None,
     api_base_url = None,
     api_base_url_env = None,
     api_api_key_env = None,
     api_allowed_hosts_env = ''APEX_RAY_API_ALLOWED_HOSTS'',
     api_headers_from_env = [],
     api_api_version = None,
     api_max_output_tokens = 4096,
     api_max_retries = 2,
     api_retry_backoff_seconds = 1 / 2,
     api_retry_max_seconds = 8,
     api_use_system_proxy = True,
     api_allow_insecure_loopback_http = False\<rparr>"

definition valid_llmapi_config :: "llmapi_config \<Rightarrow> bool" where
  "valid_llmapi_config c \<longleftrightarrow>
     (case api_base_url_env c of None \<Rightarrow> True | Some x \<Rightarrow> env_name_ok (x)) \<and>
     (case api_api_key_env c of None \<Rightarrow> True | Some x \<Rightarrow> env_name_ok (x)) \<and>
     env_name_ok (api_allowed_hosts_env c) \<and>
     0 < api_max_output_tokens c \<and>
     0 \<le> api_max_retries c \<and> api_max_retries c \<le> 8 \<and>
     0 < api_retry_backoff_seconds c \<and> api_retry_backoff_seconds c \<le> 60 \<and>
     0 < api_retry_max_seconds c \<and> api_retry_max_seconds c \<le> 300"

record llm_profile =
  pf_provider :: "llm_provider_name option"
  pf_model :: "string option"
  pf_effort :: "llm_reasoning_effort option"
  pf_timeout_seconds :: "int option"
  pf_codex_path :: "string option"
  pf_claude_path :: "string option"
  pf_api :: "llmapi_config option"

definition default_llm_profile :: llm_profile where
  "default_llm_profile = \<lparr>
     pf_provider = None,
     pf_model = None,
     pf_effort = None,
     pf_timeout_seconds = None,
     pf_codex_path = None,
     pf_claude_path = None,
     pf_api = None\<rparr>"

definition valid_llm_profile :: "llm_profile \<Rightarrow> bool" where
  "valid_llm_profile c \<longleftrightarrow>
     (case pf_timeout_seconds c of None \<Rightarrow> True | Some x \<Rightarrow> 0 < x) \<and>
     (case pf_api c of None \<Rightarrow> True | Some x \<Rightarrow> valid_llmapi_config x)"

record llm_routing_condition =
  rcond_risk :: "string list"
  rcond_rule_severity :: "finding_severity list"
  rcond_finding_severity :: "finding_severity list"
  rcond_finding_confidence :: "finding_confidence list"
  rcond_file_kind :: "file_kind list"
  rcond_exclude_file_kind :: "file_kind list"
  rcond_strict_rule :: "bool"
  rcond_pack_truncated :: "bool"
  rcond_min_pack_chars :: "int option"

definition default_llm_routing_condition :: llm_routing_condition where
  "default_llm_routing_condition = \<lparr>
     rcond_risk = [],
     rcond_rule_severity = [],
     rcond_finding_severity = [],
     rcond_finding_confidence = [],
     rcond_file_kind = [],
     rcond_exclude_file_kind = [],
     rcond_strict_rule = False,
     rcond_pack_truncated = False,
     rcond_min_pack_chars = None\<rparr>"

definition valid_llm_routing_condition :: "llm_routing_condition \<Rightarrow> bool" where
  "valid_llm_routing_condition c \<longleftrightarrow>
     (case rcond_min_pack_chars c of None \<Rightarrow> True | Some x \<Rightarrow> 0 < x)"

record llm_routing_config =
  rtg_review_profile :: "string option"
  rtg_verify_profile :: "string option"
  rtg_escalated_review_profile :: "string option"
  rtg_escalated_verify_profile :: "string option"
  rtg_escalate_review_when :: "llm_routing_condition"
  rtg_escalate_verify_when :: "llm_routing_condition"

definition default_llm_routing_config :: llm_routing_config where
  "default_llm_routing_config = \<lparr>
     rtg_review_profile = None,
     rtg_verify_profile = None,
     rtg_escalated_review_profile = None,
     rtg_escalated_verify_profile = None,
     rtg_escalate_review_when = default_llm_routing_condition,
     rtg_escalate_verify_when = default_llm_routing_condition\<rparr>"

definition valid_llm_routing_config :: "llm_routing_config \<Rightarrow> bool" where
  "valid_llm_routing_config c \<longleftrightarrow>
     valid_llm_routing_condition (rtg_escalate_review_when c) \<and>
     valid_llm_routing_condition (rtg_escalate_verify_when c)"

subsection \<open>Review configuration\<close>

datatype review_depth =
    RD_DEEP
  | RD_SHALLOW

primrec review_depth_value :: "review_depth \<Rightarrow> string" where
  "review_depth_value RD_DEEP = ''deep''"
| "review_depth_value RD_SHALLOW = ''shallow''"

record llm_config =
  lc_enabled :: "bool"
  lc_provider :: "llm_provider_name"
  lc_model :: "string option"
  lc_effort :: "llm_reasoning_effort option"
  lc_timeout_seconds :: "int"
  lc_jobs :: "int"
  lc_max_consecutive_provider_failures :: "int"
  lc_max_packs :: "int"
  lc_coverage_mode :: "llm_coverage_mode"
  lc_max_deep_packs :: "int option"
  lc_max_input_tokens :: "int option"
  lc_min_source_line_coverage :: "rat"
  lc_min_high_risk_coverage :: "rat"
  lc_review_depth :: "review_depth"
  lc_codex_path :: "string"
  lc_claude_path :: "string"
  lc_api :: "llmapi_config"
  lc_verify :: "bool"
  lc_cache_enabled :: "bool"
  lc_cache_dir :: "string option"
  lc_refresh_cache :: "bool"
  lc_profiles :: "(string \<times> llm_profile) list"
  lc_routing :: "llm_routing_config"

definition default_llm_config :: llm_config where
  "default_llm_config = \<lparr>
     lc_enabled = False,
     lc_provider = PN_CODEX_CLI,
     lc_model = None,
     lc_effort = None,
     lc_timeout_seconds = 300,
     lc_jobs = 1,
     lc_max_consecutive_provider_failures = 3,
     lc_max_packs = 64,
     lc_coverage_mode = CM_BALANCED,
     lc_max_deep_packs = Some (48),
     lc_max_input_tokens = Some (300000),
     lc_min_source_line_coverage = 0,
     lc_min_high_risk_coverage = 0,
     lc_review_depth = RD_DEEP,
     lc_codex_path = ''codex'',
     lc_claude_path = ''claude'',
     lc_api = default_llmapi_config,
     lc_verify = True,
     lc_cache_enabled = True,
     lc_cache_dir = None,
     lc_refresh_cache = False,
     lc_profiles = [],
     lc_routing = default_llm_routing_config\<rparr>"

definition valid_llm_config :: "llm_config \<Rightarrow> bool" where
  "valid_llm_config c \<longleftrightarrow>
     0 < lc_timeout_seconds c \<and>
     1 \<le> lc_jobs c \<and>
     1 \<le> lc_max_consecutive_provider_failures c \<and> lc_max_consecutive_provider_failures c \<le> 100 \<and>
     0 < lc_max_packs c \<and>
     (case lc_max_deep_packs c of None \<Rightarrow> True | Some x \<Rightarrow> 0 < x) \<and>
     (case lc_max_input_tokens c of None \<Rightarrow> True | Some x \<Rightarrow> 0 < x) \<and>
     0 \<le> lc_min_source_line_coverage c \<and> lc_min_source_line_coverage c \<le> 1 \<and>
     0 \<le> lc_min_high_risk_coverage c \<and> lc_min_high_risk_coverage c \<le> 1 \<and>
     valid_llmapi_config (lc_api c) \<and>
     list_all (\<lambda>kv. valid_llm_profile (snd kv)) (lc_profiles c) \<and>
     valid_llm_routing_config (lc_routing c)"

datatype reviewer_depth =
    RVD_BALANCED
  | RVD_DEEP
  | RVD_SHALLOW

primrec reviewer_depth_value :: "reviewer_depth \<Rightarrow> string" where
  "reviewer_depth_value RVD_BALANCED = ''balanced''"
| "reviewer_depth_value RVD_DEEP = ''deep''"
| "reviewer_depth_value RVD_SHALLOW = ''shallow''"

record reviewer_config =
  rv_id :: "string"
  rv_name :: "string"
  rv_enabled :: "bool"
  rv_focus :: "string"
  rv_instructions :: "string list"
  rv_paths :: "string list"
  rv_exclude_paths :: "string list"
  rv_file_kinds :: "file_kind list"
  rv_risk :: "string list"
  rv_risk_tags :: "string list"
  rv_profile :: "string option"
  rv_verify_profile :: "string option"
  rv_coverage_mode :: "llm_coverage_mode option"
  rv_review_depth :: "reviewer_depth"
  rv_max_packs :: "int option"
  rv_max_deep_packs :: "int option"
  rv_max_input_tokens :: "int option"
  rv_verify :: "bool option"
  rv_required :: "bool"

definition valid_reviewer_config :: "reviewer_config \<Rightarrow> bool" where
  "valid_reviewer_config c \<longleftrightarrow>
     rv_id c \<noteq> [] \<and> policy_id_ok (rv_id c) \<and>
     (case rv_max_packs c of None \<Rightarrow> True | Some x \<Rightarrow> 0 < x) \<and>
     (case rv_max_deep_packs c of None \<Rightarrow> True | Some x \<Rightarrow> 0 < x) \<and>
     (case rv_max_input_tokens c of None \<Rightarrow> True | Some x \<Rightarrow> 0 < x)"

datatype flutter_mode =
    FL_AUTO
  | FL_ENABLED
  | FL_DISABLED

primrec flutter_mode_value :: "flutter_mode \<Rightarrow> string" where
  "flutter_mode_value FL_AUTO = ''auto''"
| "flutter_mode_value FL_ENABLED = ''enabled''"
| "flutter_mode_value FL_DISABLED = ''disabled''"

record dart_analyzer_config =
  dac_enabled :: "bool"
  dac_command :: "string list"
  dac_flutter :: "flutter_mode"
  dac_plugins :: "bool"
  dac_max_changed_symbols :: "int"
  dac_max_references_per_symbol :: "int"
  dac_max_callees_per_symbol :: "int"
  dac_max_related_tests_per_file :: "int"
  dac_max_dependency_package_anchors :: "int"

definition default_dart_analyzer_config :: dart_analyzer_config where
  "default_dart_analyzer_config = \<lparr>
     dac_enabled = True,
     dac_command = [],
     dac_flutter = FL_AUTO,
     dac_plugins = True,
     dac_max_changed_symbols = 80,
     dac_max_references_per_symbol = 24,
     dac_max_callees_per_symbol = 16,
     dac_max_related_tests_per_file = 12,
     dac_max_dependency_package_anchors = 16\<rparr>"

definition valid_dart_analyzer_config :: "dart_analyzer_config \<Rightarrow> bool" where
  "valid_dart_analyzer_config c \<longleftrightarrow>
     0 < dac_max_changed_symbols c \<and>
     0 < dac_max_references_per_symbol c \<and>
     0 < dac_max_callees_per_symbol c \<and>
     0 < dac_max_related_tests_per_file c \<and>
     0 < dac_max_dependency_package_anchors c"

record analyzer_config =
  ac_index_cache_enabled :: "bool"
  ac_index_cache_dir :: "string option"
  ac_refresh_index_cache :: "bool"
  ac_timeout_seconds :: "int"
  ac_changed_file_shard_size :: "int"
  ac_adaptive_sharding :: "bool"
  ac_large_change_file_threshold :: "int"
  ac_large_change_shard_size :: "int"
  ac_script_path :: "string option"
  ac_dart :: "dart_analyzer_config"

definition default_analyzer_config :: analyzer_config where
  "default_analyzer_config = \<lparr>
     ac_index_cache_enabled = True,
     ac_index_cache_dir = None,
     ac_refresh_index_cache = False,
     ac_timeout_seconds = 120,
     ac_changed_file_shard_size = 40,
     ac_adaptive_sharding = True,
     ac_large_change_file_threshold = 20,
     ac_large_change_shard_size = 4,
     ac_script_path = None,
     ac_dart = default_dart_analyzer_config\<rparr>"

definition valid_analyzer_config :: "analyzer_config \<Rightarrow> bool" where
  "valid_analyzer_config c \<longleftrightarrow>
     0 < ac_timeout_seconds c \<and>
     0 < ac_changed_file_shard_size c \<and>
     0 < ac_large_change_file_threshold c \<and>
     0 < ac_large_change_shard_size c \<and>
     valid_dart_analyzer_config (ac_dart c)"

record local_data_config =
  ldc_root :: "string"

definition default_local_data_config :: local_data_config where
  "default_local_data_config = \<lparr>
     ldc_root = ''.apex-ray''\<rparr>"

datatype path_mode =
    PA_ANONYMIZED
  | PA_FULL

primrec path_mode_value :: "path_mode \<Rightarrow> string" where
  "path_mode_value PA_ANONYMIZED = ''anonymized''"
| "path_mode_value PA_FULL = ''full''"

record telemetry_config =
  tc_enabled :: "bool"
  tc_path :: "string"
  tc_path_mode :: "path_mode"

definition default_telemetry_config :: telemetry_config where
  "default_telemetry_config = \<lparr>
     tc_enabled = False,
     tc_path = ''.apex-ray/telemetry/review-runs.jsonl'',
     tc_path_mode = PA_FULL\<rparr>"

datatype compression =
    CO_NONE
  | CO_GZIP
  | CO_AUTO

primrec compression_value :: "compression \<Rightarrow> string" where
  "compression_value CO_NONE = ''none''"
| "compression_value CO_GZIP = ''gzip''"
| "compression_value CO_AUTO = ''auto''"

record reports_config =
  rpc_archive :: "bool"
  rpc_archive_dir :: "string"
  rpc_retention :: "int option"
  rpc_compression :: "compression"
  rpc_compression_min_bytes :: "int"

definition default_reports_config :: reports_config where
  "default_reports_config = \<lparr>
     rpc_archive = False,
     rpc_archive_dir = ''.apex-ray/reports/runs'',
     rpc_retention = Some (20),
     rpc_compression = CO_NONE,
     rpc_compression_min_bytes = 65536\<rparr>"

definition valid_reports_config :: "reports_config \<Rightarrow> bool" where
  "valid_reports_config c \<longleftrightarrow>
     (case rpc_retention c of None \<Rightarrow> True | Some x \<Rightarrow> 1 \<le> x) \<and>
     0 \<le> rpc_compression_min_bytes c"

record triage_config =
  trc_enabled :: "bool"
  trc_state_path :: "string"
  trc_events_path :: "string"
  trc_default_expiry_days :: "int"
  trc_max_active_suppressions :: "int"
  trc_events_retention_days :: "int option"

definition default_triage_config :: triage_config where
  "default_triage_config = \<lparr>
     trc_enabled = True,
     trc_state_path = ''.apex-ray/triage/suppressions.json'',
     trc_events_path = ''.apex-ray/triage/events.jsonl'',
     trc_default_expiry_days = 14,
     trc_max_active_suppressions = 200,
     trc_events_retention_days = Some (90)\<rparr>"

definition valid_triage_config :: "triage_config \<Rightarrow> bool" where
  "valid_triage_config c \<longleftrightarrow>
     1 \<le> trc_default_expiry_days c \<and>
     1 \<le> trc_max_active_suppressions c \<and>
     (case trc_events_retention_days c of None \<Rightarrow> True | Some x \<Rightarrow> 1 \<le> x)"

datatype uncertain_fallback =
    UF_BLOCK

primrec uncertain_fallback_value :: "uncertain_fallback \<Rightarrow> string" where
  "uncertain_fallback_value UF_BLOCK = ''block''"

record incremental_pre_push_retry_config =
  irc_enabled :: "bool"
  irc_state_path :: "string"
  irc_fallback_on_uncertain_resolution :: "uncertain_fallback"
  irc_max_resolution_calls_per_retry :: "int"

definition default_incremental_pre_push_retry_config :: incremental_pre_push_retry_config where
  "default_incremental_pre_push_retry_config = \<lparr>
     irc_enabled = False,
     irc_state_path = ''.apex-ray/reports/pre-push-state.json'',
     irc_fallback_on_uncertain_resolution = UF_BLOCK,
     irc_max_resolution_calls_per_retry = 8\<rparr>"

definition valid_incremental_pre_push_retry_config :: "incremental_pre_push_retry_config \<Rightarrow> bool" where
  "valid_incremental_pre_push_retry_config c \<longleftrightarrow>
     1 \<le> irc_max_resolution_calls_per_retry c \<and> irc_max_resolution_calls_per_retry c \<le> 64"

datatype partial_severity =
    PS_NONE
  | PS_MINOR
  | PS_MAJOR
  | PS_CRITICAL

primrec partial_severity_value :: "partial_severity \<Rightarrow> string" where
  "partial_severity_value PS_NONE = ''none''"
| "partial_severity_value PS_MINOR = ''minor''"
| "partial_severity_value PS_MAJOR = ''major''"
| "partial_severity_value PS_CRITICAL = ''critical''"

datatype stdout_format =
    SF_AGENT
  | SF_COMPACT

primrec stdout_format_value :: "stdout_format \<Rightarrow> string" where
  "stdout_format_value SF_AGENT = ''agent''"
| "stdout_format_value SF_COMPACT = ''compact''"

record pre_push_gate_config =
  gc_enabled :: "bool"
  gc_fetch_base :: "bool"
  gc_min_finding_severity :: "finding_severity option"
  gc_require_verified_findings :: "bool"
  gc_fail_on_quality_gate :: "bool"
  gc_fail_on_partial_severity :: "partial_severity option"
  gc_max_stdout_findings :: "int"
  gc_stdout_format :: "stdout_format"
  gc_auto_followup :: "bool option"
  gc_auto_followup_max_pack_reviews :: "int option"
  gc_auto_followup_p0 :: "bool"
  gc_auto_followup_p0_max_pack_reviews :: "int"
  gc_progress :: "progress_mode"
  gc_progress_interval_seconds :: "rat"
  gc_incremental_retry :: "incremental_pre_push_retry_config"

definition default_pre_push_gate_config :: pre_push_gate_config where
  "default_pre_push_gate_config = \<lparr>
     gc_enabled = True,
     gc_fetch_base = False,
     gc_min_finding_severity = Some FS_HIGH,
     gc_require_verified_findings = True,
     gc_fail_on_quality_gate = True,
     gc_fail_on_partial_severity = Some (PS_CRITICAL),
     gc_max_stdout_findings = 10,
     gc_stdout_format = SF_AGENT,
     gc_auto_followup = None,
     gc_auto_followup_max_pack_reviews = None,
     gc_auto_followup_p0 = True,
     gc_auto_followup_p0_max_pack_reviews = 16,
     gc_progress = PM_AUTO,
     gc_progress_interval_seconds = 5,
     gc_incremental_retry = default_incremental_pre_push_retry_config\<rparr>"

definition valid_pre_push_gate_config :: "pre_push_gate_config \<Rightarrow> bool" where
  "valid_pre_push_gate_config c \<longleftrightarrow>
     0 \<le> gc_max_stdout_findings c \<and>
     (case gc_auto_followup_max_pack_reviews c of None \<Rightarrow> True | Some x \<Rightarrow> 0 < x) \<and>
     0 < gc_auto_followup_p0_max_pack_reviews c \<and>
     0 \<le> gc_progress_interval_seconds c \<and>
     valid_incremental_pre_push_retry_config (gc_incremental_retry c)"

record gates_config =
  gcs_pre_push :: "pre_push_gate_config"

definition default_gates_config :: gates_config where
  "default_gates_config = \<lparr>
     gcs_pre_push = default_pre_push_gate_config\<rparr>"

definition valid_gates_config :: "gates_config \<Rightarrow> bool" where
  "valid_gates_config c \<longleftrightarrow>
     valid_pre_push_gate_config (gcs_pre_push c)"

record review_config =
  rc_base :: "string"
  rc_ignore :: "string list"
  rc_languages :: "string list"
  rc_rules :: "string list"
  rc_rule_paths :: "string list"
  rc_rule_definitions :: "review_rule list"
  rc_memory :: "memory_config"
  rc_memory_definitions :: "memory_card list"
  rc_risk :: "risk_config"
  rc_analyzer :: "analyzer_config"
  rc_context :: "context_config"
  rc_local_data :: "local_data_config"
  rc_llm :: "llm_config"
  rc_reviewers :: "reviewer_config list"
  rc_telemetry :: "telemetry_config"
  rc_reports :: "reports_config"
  rc_triage :: "triage_config"
  rc_gates :: "gates_config"

definition default_review_config :: review_config where
  "default_review_config = \<lparr>
     rc_base = ''main'',
     rc_ignore = [''**/*.lock'', ''**/generated/**''],
     rc_languages = [],
     rc_rules = [],
     rc_rule_paths = [''.apex-ray/rules''],
     rc_rule_definitions = [],
     rc_memory = default_memory_config,
     rc_memory_definitions = [],
     rc_risk = default_risk_config,
     rc_analyzer = default_analyzer_config,
     rc_context = default_context_config,
     rc_local_data = default_local_data_config,
     rc_llm = default_llm_config,
     rc_reviewers = [],
     rc_telemetry = default_telemetry_config,
     rc_reports = default_reports_config,
     rc_triage = default_triage_config,
     rc_gates = default_gates_config\<rparr>"

definition valid_review_config :: "review_config \<Rightarrow> bool" where
  "valid_review_config c \<longleftrightarrow>
     valid_memory_config (rc_memory c) \<and>
     list_all valid_memory_card (rc_memory_definitions c) \<and>
     valid_risk_config (rc_risk c) \<and>
     valid_analyzer_config (rc_analyzer c) \<and>
     valid_context_config (rc_context c) \<and>
     valid_llm_config (rc_llm c) \<and>
     list_all valid_reviewer_config (rc_reviewers c) \<and>
     valid_reports_config (rc_reports c) \<and>
     valid_triage_config (rc_triage c) \<and>
     valid_gates_config (rc_gates c)"

end
