(* ===== verification/Model_Diff.thy ===== *)
theory Model_Diff
  imports Model_Config
begin

section \<open>The data model: project, diff and review input\<close>

text \<open>
  \<open>src/apex_ray/models.py\<close>: \<open>ProjectProfile\<close>, the parsed diff with its hunks and risk signals, and
  the immutable identity of a reviewed input.
\<close>

subsection \<open>Project, diff, hunks and signals\<close>

record project_profile =
  pp_root :: "string"
  pp_is_git_repo :: "bool"
  pp_config_path :: "string option"
  pp_detected_languages :: "string list"
  pp_package_managers :: "string list"
  pp_framework_hints :: "string list"
  pp_ignored_patterns :: "string list"

record diff_line =
  dl_kind :: "diff_line_kind"
  dl_content :: "string"
  dl_old_line :: "int option"
  dl_new_line :: "int option"

record risk_signal =
  rs_kind :: "string"
  rs_severity :: "risk_severity"
  rs_reason :: "string"
  rs_file :: "string"
  rs_line :: "int option"
  rs_score :: "int"
  rs_source :: "string"
  rs_rule_id :: "string option"
  rs_categories :: "string list"
  rs_reviewer_tags :: "string list"
  rs_guidance :: "string"

definition valid_risk_signal :: "risk_signal \<Rightarrow> bool" where
  "valid_risk_signal c \<longleftrightarrow>
     0 \<le> rs_score c \<and> rs_score c \<le> 100"

record changed_hunk =
  hk_old_start :: "int"
  hk_old_lines :: "int"
  hk_new_start :: "int"
  hk_new_lines :: "int"
  hk_section_header :: "string"
  hk_lines :: "diff_line list"
  hk_risk_signals :: "risk_signal list"

definition valid_changed_hunk :: "changed_hunk \<Rightarrow> bool" where
  "valid_changed_hunk c \<longleftrightarrow>
     list_all valid_risk_signal (hk_risk_signals c)"

record changed_file =
  cf_old_path :: "string option"
  cf_new_path :: "string option"
  cf_status :: "file_status"
  cf_language :: "string"
  cf_file_kind :: "file_kind"
  cf_additions :: "int"
  cf_deletions :: "int"
  cf_hunks :: "changed_hunk list"
  cf_risk_signals :: "risk_signal list"
  cf_is_ignored :: "bool"
  cf_ignore_reason :: "string option"

definition valid_changed_file :: "changed_file \<Rightarrow> bool" where
  "valid_changed_file c \<longleftrightarrow>
     list_all valid_changed_hunk (cf_hunks c) \<and>
     list_all valid_risk_signal (cf_risk_signals c)"

record diff_stats =
  ds_files_changed :: "int"
  ds_additions :: "int"
  ds_deletions :: "int"
  ds_ignored_files :: "int"

definition default_diff_stats :: diff_stats where
  "default_diff_stats = \<lparr>
     ds_files_changed = 0,
     ds_additions = 0,
     ds_deletions = 0,
     ds_ignored_files = 0\<rparr>"

record diff_summary =
  dsum_base :: "string option"
  dsum_target_mode :: "target_mode"
  dsum_files :: "changed_file list"
  dsum_stats :: "diff_stats"
  dsum_warnings :: "string list"

definition valid_diff_summary :: "diff_summary \<Rightarrow> bool" where
  "valid_diff_summary c \<longleftrightarrow>
     list_all valid_changed_file (dsum_files c)"

datatype snapshot_schema =
    SV_REVIEW_INPUT_SNAPSHOT_V1

primrec snapshot_schema_value :: "snapshot_schema \<Rightarrow> string" where
  "snapshot_schema_value SV_REVIEW_INPUT_SNAPSHOT_V1 = ''review-input-snapshot/v1''"

record review_input_snapshot =
  snap_schema_version :: "snapshot_schema"
  snap_target_mode :: "target_mode"
  snap_base_ref :: "string option"
  snap_head_sha :: "string option"
  snap_merge_base_sha :: "string option"
  snap_range_start_sha :: "string option"
  snap_diff_sha256 :: "string"

text \<open>\<open>ChangedFile.path\<close>: the empty string counts as missing, as in the code's \<open>or\<close>.\<close>

definition cf_path :: "changed_file \<Rightarrow> string" where
  "cf_path f =
     (case cf_new_path f of
        Some p \<Rightarrow> if p \<noteq> [] then p
                  else (case cf_old_path f of Some q \<Rightarrow> if q \<noteq> [] then q else ''<unknown>''
                                            | None \<Rightarrow> ''<unknown>'')
      | None \<Rightarrow> (case cf_old_path f of Some q \<Rightarrow> if q \<noteq> [] then q else ''<unknown>''
                                     | None \<Rightarrow> ''<unknown>''))"

subsection \<open>Validation of a review input snapshot\<close>

text \<open>\<open>re.fullmatch\<close> of 40 or 64, or exactly 64, lowercase hexadecimal digits.\<close>

definition hex_lower :: "string \<Rightarrow> bool" where
  "hex_lower s \<longleftrightarrow> list_all (\<lambda>c. c \<in> set ''0123456789abcdef'') s"

definition git_object_id :: "string \<Rightarrow> bool" where
  "git_object_id s \<longleftrightarrow> hex_lower s \<and> (length s = 40 \<or> length s = 64)"

definition sha256_digest :: "string \<Rightarrow> bool" where
  "sha256_digest s \<longleftrightarrow> hex_lower s \<and> length s = 64"

definition object_id_field_ok :: "string option \<Rightarrow> bool" where
  "object_id_field_ok v \<longleftrightarrow> (case v of None \<Rightarrow> True | Some s \<Rightarrow> git_object_id s)"

definition base_ref_ok :: "string option \<Rightarrow> bool" where
  "base_ref_ok v \<longleftrightarrow> (case v of None \<Rightarrow> True
     | Some b \<Rightarrow> b \<noteq> [] \<and> \<not> starts_with b ''-'' \<and> list_all (\<lambda>c. 32 \<le> char_code c) b)"

datatype snapshot_error =
    Bad_Object_Id string
  | Bad_Diff_Digest
  | Bad_Base_Ref
  | Base_Identity_Missing
  | Base_With_Range
  | Head_Missing target_mode
  | Base_Or_Range_Present target_mode
  | Range_Identity_Missing
  | Range_With_Merge_Base
  | Detached_With_Identity

text \<open>\<open>ReviewInputSnapshot.validate_git_identity\<close>: the first failing check raises.\<close>

definition validate_git_identity ::
  "review_input_snapshot \<Rightarrow> snapshot_error + review_input_snapshot" where
  "validate_git_identity s =
     (if \<not> object_id_field_ok (snap_head_sha s) then Inl (Bad_Object_Id ''head_sha'')
      else if \<not> object_id_field_ok (snap_merge_base_sha s) then Inl (Bad_Object_Id ''merge_base_sha'')
      else if \<not> object_id_field_ok (snap_range_start_sha s) then Inl (Bad_Object_Id ''range_start_sha'')
      else if \<not> sha256_digest (snap_diff_sha256 s) then Inl Bad_Diff_Digest
      else if \<not> base_ref_ok (snap_base_ref s) then Inl Bad_Base_Ref
      else if snap_target_mode s = TM_BASE then
        (if snap_base_ref s = None \<or> snap_head_sha s = None \<or> snap_merge_base_sha s = None
         then Inl Base_Identity_Missing
         else if snap_range_start_sha s \<noteq> None then Inl Base_With_Range
         else Inr s)
      else if snap_target_mode s = TM_STAGED \<or> snap_target_mode s = TM_WORKTREE then
        (if snap_head_sha s = None then Inl (Head_Missing (snap_target_mode s))
         else if snap_base_ref s \<noteq> None \<or> snap_merge_base_sha s \<noteq> None \<or> snap_range_start_sha s \<noteq> None
         then Inl (Base_Or_Range_Present (snap_target_mode s))
         else Inr s)
      else if snap_range_start_sha s \<noteq> None then
        (if snap_head_sha s = None \<or> snap_base_ref s = None then Inl Range_Identity_Missing
         else if snap_merge_base_sha s \<noteq> None then Inl Range_With_Merge_Base
         else Inr s)
      else if snap_base_ref s \<noteq> None \<or> snap_head_sha s \<noteq> None \<or> snap_merge_base_sha s \<noteq> None
      then Inl Detached_With_Identity
      else Inr s)"

end
