(* ===== verification/Model_Pack.thy ===== *)
theory Model_Pack
  imports Model_Diff
begin

section \<open>The data model: analyzer results and context packs\<close>

text \<open>
  \<open>src/apex_ray/models.py\<close>: what the analyzers return and the context pack, the unit of review.
\<close>

subsection \<open>Analyzer results\<close>

record analyzer_reference =
  ar_file :: "string"
  ar_line :: "int"
  ar_end_line :: "int option"
  ar_text :: "string"
  ar_kind :: "string"

record analyzer_symbol =
  sy_name :: "string"
  sy_kind :: "string"
  sy_start_line :: "int"
  sy_end_line :: "int"
  sy_exported :: "bool"
  sy_signature :: "string"
  sy_references :: "analyzer_reference list"
  sy_callees :: "analyzer_reference list"
  sy_contracts :: "analyzer_reference list"
  sy_metadata :: "analyzer_reference list"

record analyzer_file =
  af_path :: "string"
  af_tsconfig_path :: "string option"
  af_symbols :: "analyzer_symbol list"
  af_imports :: "string list"
  af_exports :: "string list"
  af_related_tests :: "string list"
  af_changed_symbols :: "analyzer_symbol list"
  af_uncovered_changed_ranges :: "(int \<times> int) list"
  af_warnings :: "string list"

record analyzer_index_cache_stats =
  ics_path :: "string"
  ics_files :: "int"
  ics_hits :: "int"
  ics_misses :: "int"
  ics_written :: "bool"

datatype shard_failure_status =
    SFS_FAILED
  | SFS_TIMEOUT
  | SFS_SKIPPED

primrec shard_failure_status_value :: "shard_failure_status \<Rightarrow> string" where
  "shard_failure_status_value SFS_FAILED = ''failed''"
| "shard_failure_status_value SFS_TIMEOUT = ''timeout''"
| "shard_failure_status_value SFS_SKIPPED = ''skipped''"

record analyzer_shard_failure =
  sf_index :: "int"
  sf_total :: "int"
  sf_files :: "string list"
  sf_reason :: "string"
  sf_status :: "shard_failure_status"

record analyzer_warning_summary =
  ws_message :: "string"
  ws_occurrences :: "int"
  ws_shard_indexes :: "int list"

definition valid_analyzer_warning_summary :: "analyzer_warning_summary \<Rightarrow> bool" where
  "valid_analyzer_warning_summary c \<longleftrightarrow>
     1 \<le> ws_occurrences c"

datatype analyzer_partial_reason =
    APR_REPOSITORY_INVENTORY_PARTIAL
  | APR_CONFIGURATION_DISCOVERY_PARTIAL
  | APR_WORKSPACE_INDEX_PARTIAL
  | APR_ANALYSIS_TIME_BUDGET_EXHAUSTED
  | APR_PROGRAM_CONTEXT_INCOMPLETE
  | APR_CHANGED_FILE_ANALYSIS_INCOMPLETE
  | APR_SHARD_FAILED
  | APR_SHARD_TIMEOUT
  | APR_SHARD_SKIPPED
  | APR_PARTIAL_REASON_UNSPECIFIED

primrec analyzer_partial_reason_value :: "analyzer_partial_reason \<Rightarrow> string" where
  "analyzer_partial_reason_value APR_REPOSITORY_INVENTORY_PARTIAL = ''repository_inventory_partial''"
| "analyzer_partial_reason_value APR_CONFIGURATION_DISCOVERY_PARTIAL = ''configuration_discovery_partial''"
| "analyzer_partial_reason_value APR_WORKSPACE_INDEX_PARTIAL = ''workspace_index_partial''"
| "analyzer_partial_reason_value APR_ANALYSIS_TIME_BUDGET_EXHAUSTED = ''analysis_time_budget_exhausted''"
| "analyzer_partial_reason_value APR_PROGRAM_CONTEXT_INCOMPLETE = ''program_context_incomplete''"
| "analyzer_partial_reason_value APR_CHANGED_FILE_ANALYSIS_INCOMPLETE = ''changed_file_analysis_incomplete''"
| "analyzer_partial_reason_value APR_SHARD_FAILED = ''shard_failed''"
| "analyzer_partial_reason_value APR_SHARD_TIMEOUT = ''shard_timeout''"
| "analyzer_partial_reason_value APR_SHARD_SKIPPED = ''shard_skipped''"
| "analyzer_partial_reason_value APR_PARTIAL_REASON_UNSPECIFIED = ''partial_reason_unspecified''"

datatype analyzer_coverage_scope =
    ACS_ANALYZER
  | ACS_REPOSITORY_INVENTORY
  | ACS_CONFIGURATION
  | ACS_WORKSPACE_INDEX
  | ACS_PROGRAM_CONTEXTS
  | ACS_CHANGED_FILES
  | ACS_SHARDS

primrec analyzer_coverage_scope_value :: "analyzer_coverage_scope \<Rightarrow> string" where
  "analyzer_coverage_scope_value ACS_ANALYZER = ''analyzer''"
| "analyzer_coverage_scope_value ACS_REPOSITORY_INVENTORY = ''repository_inventory''"
| "analyzer_coverage_scope_value ACS_CONFIGURATION = ''configuration''"
| "analyzer_coverage_scope_value ACS_WORKSPACE_INDEX = ''workspace_index''"
| "analyzer_coverage_scope_value ACS_PROGRAM_CONTEXTS = ''program_contexts''"
| "analyzer_coverage_scope_value ACS_CHANGED_FILES = ''changed_files''"
| "analyzer_coverage_scope_value ACS_SHARDS = ''shards''"

record analyzer_coverage_signal =
  acs_partial :: "bool"
  acs_reason_codes :: "analyzer_partial_reason list"
  acs_scopes :: "analyzer_coverage_scope list"
  acs_failed_file_count :: "int"

definition default_analyzer_coverage_signal :: analyzer_coverage_signal where
  "default_analyzer_coverage_signal = \<lparr>
     acs_partial = False,
     acs_reason_codes = [],
     acs_scopes = [],
     acs_failed_file_count = 0\<rparr>"

definition valid_analyzer_coverage_signal :: "analyzer_coverage_signal \<Rightarrow> bool" where
  "valid_analyzer_coverage_signal c \<longleftrightarrow>
     0 \<le> acs_failed_file_count c"

datatype shard_status =
    SST_COMPLETE
  | SST_PARTIAL
  | SST_FAILED
  | SST_TIMEOUT
  | SST_SKIPPED

primrec shard_status_value :: "shard_status \<Rightarrow> string" where
  "shard_status_value SST_COMPLETE = ''complete''"
| "shard_status_value SST_PARTIAL = ''partial''"
| "shard_status_value SST_FAILED = ''failed''"
| "shard_status_value SST_TIMEOUT = ''timeout''"
| "shard_status_value SST_SKIPPED = ''skipped''"

record analyzer_shard_metrics =
  sm_index :: "int"
  sm_total :: "int"
  sm_status :: "shard_status"
  sm_wall_duration_ms :: "int"
  sm_stage_durations_ms :: "(string \<times> int) list"
  sm_changed_file_count :: "int"
  sm_analyzed_file_count :: "int"
  sm_failed_file_count :: "int"
  sm_warning_count :: "int"
  sm_partial_reason_codes :: "analyzer_partial_reason list"
  sm_index_cache_hits :: "int"
  sm_index_cache_misses :: "int"

definition default_analyzer_shard_metrics :: analyzer_shard_metrics where
  "default_analyzer_shard_metrics = \<lparr>
     sm_index = 1,
     sm_total = 1,
     sm_status = SST_COMPLETE,
     sm_wall_duration_ms = 0,
     sm_stage_durations_ms = [],
     sm_changed_file_count = 0,
     sm_analyzed_file_count = 0,
     sm_failed_file_count = 0,
     sm_warning_count = 0,
     sm_partial_reason_codes = [],
     sm_index_cache_hits = 0,
     sm_index_cache_misses = 0\<rparr>"

definition valid_analyzer_shard_metrics :: "analyzer_shard_metrics \<Rightarrow> bool" where
  "valid_analyzer_shard_metrics c \<longleftrightarrow>
     1 \<le> sm_index c \<and>
     1 \<le> sm_total c \<and>
     0 \<le> sm_wall_duration_ms c \<and>
     0 \<le> sm_changed_file_count c \<and>
     0 \<le> sm_analyzed_file_count c \<and>
     0 \<le> sm_failed_file_count c \<and>
     0 \<le> sm_warning_count c \<and>
     0 \<le> sm_index_cache_hits c \<and>
     0 \<le> sm_index_cache_misses c"

record analyzer_metrics =
  am_wall_duration_ms :: "int"
  am_stage_durations_ms :: "(string \<times> int) list"
  am_shards :: "analyzer_shard_metrics list"

definition default_analyzer_metrics :: analyzer_metrics where
  "default_analyzer_metrics = \<lparr>
     am_wall_duration_ms = 0,
     am_stage_durations_ms = [],
     am_shards = []\<rparr>"

definition valid_analyzer_metrics :: "analyzer_metrics \<Rightarrow> bool" where
  "valid_analyzer_metrics c \<longleftrightarrow>
     0 \<le> am_wall_duration_ms c \<and>
     list_all valid_analyzer_shard_metrics (am_shards c)"

record analyzer_result =
  ares_language :: "string"
  ares_project_root :: "string"
  ares_tsconfig_path :: "string option"
  ares_files :: "analyzer_file list"
  ares_warnings :: "string list"
  ares_warning_summaries :: "analyzer_warning_summary list"
  ares_index_cache :: "analyzer_index_cache_stats option"
  ares_partial :: "bool"
  ares_coverage :: "analyzer_coverage_signal option"
  ares_metrics :: "analyzer_metrics option"
  ares_failed_files :: "string list"
  ares_shard_failures :: "analyzer_shard_failure list"

definition valid_analyzer_result :: "analyzer_result \<Rightarrow> bool" where
  "valid_analyzer_result c \<longleftrightarrow>
     list_all valid_analyzer_warning_summary (ares_warning_summaries c) \<and>
     (case ares_coverage c of None \<Rightarrow> True | Some x \<Rightarrow> valid_analyzer_coverage_signal x) \<and>
     (case ares_metrics c of None \<Rightarrow> True | Some x \<Rightarrow> valid_analyzer_metrics x)"

subsection \<open>Context packs\<close>

record code_snippet =
  cs_file :: "string"
  cs_start_line :: "int"
  cs_end_line :: "int"
  cs_code :: "string"

record context_pack_stats =
  st_diff_lines :: "int"
  st_changed_snippet_lines :: "int"
  st_reference_snippet_lines :: "int"
  st_callee_snippet_lines :: "int"
  st_contract_snippet_lines :: "int"
  st_metadata_snippet_lines :: "int"
  st_related_test_snippet_lines :: "int"
  st_memory_cards :: "int"
  st_memory_chars :: "int"
  st_estimated_chars :: "int"
  st_truncated :: "bool"
  st_truncation_notes :: "string list"
  st_policy_key :: "string"

definition default_context_pack_stats :: context_pack_stats where
  "default_context_pack_stats = \<lparr>
     st_diff_lines = 0,
     st_changed_snippet_lines = 0,
     st_reference_snippet_lines = 0,
     st_callee_snippet_lines = 0,
     st_contract_snippet_lines = 0,
     st_metadata_snippet_lines = 0,
     st_related_test_snippet_lines = 0,
     st_memory_cards = 0,
     st_memory_chars = 0,
     st_estimated_chars = 0,
     st_truncated = False,
     st_truncation_notes = [],
     st_policy_key = []\<rparr>"

record reviewer_prompt_context =
  rpx_id :: "string"
  rpx_name :: "string"
  rpx_focus :: "string"
  rpx_instructions :: "string list"

record context_pack =
  cp_id :: "string"
  cp_file :: "string"
  cp_file_kind :: "file_kind"
  cp_changed_lines :: "(int \<times> int) list"
  cp_impact_notes :: "string list"
  cp_diff_snippet :: "string list"
  cp_changed_snippets :: "code_snippet list"
  cp_symbol :: "analyzer_symbol option"
  cp_symbols :: "analyzer_symbol list"
  cp_imports :: "string list"
  cp_exports :: "string list"
  cp_related_tests :: "string list"
  cp_references :: "analyzer_reference list"
  cp_callees :: "analyzer_reference list"
  cp_contracts :: "analyzer_reference list"
  cp_metadata :: "analyzer_reference list"
  cp_reference_snippets :: "code_snippet list"
  cp_callee_snippets :: "code_snippet list"
  cp_contract_snippets :: "code_snippet list"
  cp_metadata_snippets :: "code_snippet list"
  cp_related_test_snippets :: "code_snippet list"
  cp_risk_signals :: "risk_signal list"
  cp_rules :: "string list"
  cp_rule_matches :: "rule_match list"
  cp_memory_matches :: "memory_match list"
  cp_memory_omissions :: "memory_omission list"
  cp_reviewer :: "reviewer_prompt_context option"
  cp_warnings :: "string list"
  cp_analyzer_coverage :: "analyzer_coverage_signal option"
  cp_stats :: "context_pack_stats"

definition valid_context_pack :: "context_pack \<Rightarrow> bool" where
  "valid_context_pack c \<longleftrightarrow>
     list_all valid_risk_signal (cp_risk_signals c) \<and>
     (case cp_analyzer_coverage c of None \<Rightarrow> True | Some x \<Rightarrow> valid_analyzer_coverage_signal x)"

end
