(* ===== verification/Model_Finding.thy ===== *)
theory Model_Finding
  imports Model_Pack
begin

section \<open>The data model: findings, verifications and provider runs\<close>

text \<open>
  \<open>src/apex_ray/models.py\<close>: findings, verifier decisions, resolutions, usage and the run log.
\<close>

subsection \<open>Findings and decisions\<close>

record finding =
  fi_title :: "string"
  fi_severity :: "finding_severity"
  fi_confidence :: "finding_confidence"
  fi_file :: "string"
  fi_line :: "int option"
  fi_failure_mode :: "string"
  fi_evidence :: "string"
  fi_suggested_fix :: "string"
  fi_suggested_test :: "string"
  fi_context_pack_id :: "string"
  fi_reviewer_ids :: "string list"
  fi_reviewer_context_pack_ids :: "(string \<times> string list) list"

record finding_response =
  fr_findings :: "finding list"

definition default_finding_response :: finding_response where
  "default_finding_response = \<lparr>
     fr_findings = []\<rparr>"

record verification_response =
  vr_approved :: "bool"
  vr_confidence :: "finding_confidence"
  vr_reason :: "string"

record verification_decision =
  vd_finding_index :: "int"
  vd_approved :: "bool"
  vd_confidence :: "finding_confidence"
  vd_reason :: "string"

definition valid_verification_decision :: "verification_decision \<Rightarrow> bool" where
  "valid_verification_decision c \<longleftrightarrow>
     0 \<le> vd_finding_index c"

record verification_batch_response =
  vbr_decisions :: "verification_decision list"

definition default_verification_batch_response :: verification_batch_response where
  "default_verification_batch_response = \<lparr>
     vbr_decisions = []\<rparr>"

definition valid_verification_batch_response :: "verification_batch_response \<Rightarrow> bool" where
  "valid_verification_batch_response c \<longleftrightarrow>
     list_all valid_verification_decision (vbr_decisions c)"

record finding_verification =
  fv_finding :: "finding"
  fv_reviewer_id :: "string"
  fv_approved :: "bool"
  fv_confidence :: "finding_confidence"
  fv_reason :: "string"
  fv_review_snapshot_id :: "string option"
  fv_superseded :: "bool"
  fv_superseded_reason :: "string option"

datatype finding_resolution_status =
    FR_RESOLVED
  | FR_STILL_PRESENT
  | FR_UNCERTAIN

primrec finding_resolution_status_value :: "finding_resolution_status \<Rightarrow> string" where
  "finding_resolution_status_value FR_RESOLVED = ''resolved''"
| "finding_resolution_status_value FR_STILL_PRESENT = ''still_present''"
| "finding_resolution_status_value FR_UNCERTAIN = ''uncertain''"

record finding_resolution_response =
  frr_status :: "finding_resolution_status"
  frr_confidence :: "finding_confidence"
  frr_reason :: "string"
  frr_evidence :: "string"
  frr_suggested_next_action :: "string"

record finding_resolution =
  fre_finding :: "finding"
  fre_status :: "finding_resolution_status"
  fre_confidence :: "finding_confidence"
  fre_reason :: "string"
  fre_evidence :: "string"
  fre_suggested_next_action :: "string"

subsection \<open>Usage and runs\<close>

record llm_usage =
  us_source :: "string"
  us_input_tokens :: "int"
  us_cached_input_tokens :: "int"
  us_output_tokens :: "int"
  us_reasoning_output_tokens :: "int"
  us_total_tokens :: "int"
  us_cache_read_input_tokens :: "int"
  us_cache_creation_input_tokens :: "int"
  us_estimated_cost_usd :: "rat option"

record llm_review_result =
  lrr_findings :: "finding list"
  lrr_usage :: "llm_usage option"

definition default_llm_review_result :: llm_review_result where
  "default_llm_review_result = \<lparr>
     lrr_findings = [],
     lrr_usage = None\<rparr>"

record llm_verification_result =
  lvr_verifications :: "finding_verification list"
  lvr_usage :: "llm_usage option"

definition default_llm_verification_result :: llm_verification_result where
  "default_llm_verification_result = \<lparr>
     lvr_verifications = [],
     lvr_usage = None\<rparr>"

record llm_run =
  run_kind :: "string"
  run_provider :: "string"
  run_model :: "string option"
  run_effort :: "string option"
  run_profile :: "string option"
  run_route_reason :: "string option"
  run_prompt_version :: "string option"
  run_reviewer_id :: "string"
  run_context_pack_id :: "string"
  run_status :: "string"
  run_duration_ms :: "int"
  run_input_chars :: "int"
  run_estimated_input_tokens :: "int"
  run_actual_input_tokens :: "int"
  run_actual_cached_input_tokens :: "int"
  run_actual_output_tokens :: "int"
  run_actual_reasoning_output_tokens :: "int"
  run_actual_total_tokens :: "int"
  run_actual_cache_read_input_tokens :: "int"
  run_actual_cache_creation_input_tokens :: "int"
  run_estimated_saved_input_tokens :: "int"
  run_estimated_cost_usd :: "rat option"
  run_usage_source :: "string option"
  run_findings_count :: "int"
  run_cache_hit :: "bool"
  run_cache_hits :: "int"
  run_cache_misses :: "int"
  run_cache_key :: "string option"
  run_error :: "string option"

end
