(* ===== verification/Model_Report.thy ===== *)
theory Model_Report
  imports Model_Finding
begin

section \<open>The data model: selection, coverage and the report\<close>

text \<open>
  \<open>src/apex_ray/models.py\<close>: selection and coverage summaries and \<open>ReviewReport\<close>, with the computed
  \<open>completion_status\<close> and the consistency check of \<open>ReviewCoverageCompletion\<close>.
\<close>

subsection \<open>Selection and coverage\<close>

record report_summary =
  rsum_files_by_kind :: "(string \<times> int) list"
  rsum_files_by_language :: "(string \<times> int) list"
  rsum_risk_by_severity :: "(string \<times> int) list"
  rsum_total_risk_signals :: "int"

definition default_report_summary :: report_summary where
  "default_report_summary = \<lparr>
     rsum_files_by_kind = [],
     rsum_files_by_language = [],
     rsum_risk_by_severity = [],
     rsum_total_risk_signals = 0\<rparr>"

record llm_route_summary =
  rts_kind :: "string"
  rts_reviewer_id :: "string"
  rts_provider :: "string"
  rts_model :: "string option"
  rts_effort :: "string option"
  rts_profile :: "string option"
  rts_route_reason :: "string option"
  rts_status :: "string"
  rts_runs :: "int"
  rts_findings_count :: "int"
  rts_duration_ms :: "int"
  rts_input_chars :: "int"
  rts_estimated_input_tokens :: "int"
  rts_actual_input_tokens :: "int"
  rts_actual_cached_input_tokens :: "int"
  rts_actual_output_tokens :: "int"
  rts_actual_reasoning_output_tokens :: "int"
  rts_actual_total_tokens :: "int"
  rts_actual_cache_read_input_tokens :: "int"
  rts_actual_cache_creation_input_tokens :: "int"
  rts_estimated_saved_input_tokens :: "int"
  rts_estimated_cost_usd :: "rat option"
  rts_usage_sources :: "string list"
  rts_cache_hits :: "int"
  rts_cache_misses :: "int"
  rts_errors :: "int"

record llm_selection_stage_summary =
  sst_stage :: "string"
  sst_budget_packs :: "int option"
  sst_budget_tokens :: "int option"
  sst_selected_estimated_tokens :: "int"
  sst_selected_context_pack_ids :: "string list"
  sst_unselected_context_pack_ids :: "string list"
  sst_reason :: "string"

record llm_context_selection =
  sel_total_context_pack_ids :: "string list"
  sel_selected_context_pack_ids :: "string list"
  sel_deep_selected_context_pack_ids :: "string list"
  sel_shallow_selected_context_pack_ids :: "string list"
  sel_unselected_context_pack_ids :: "string list"
  sel_over_budget_context_pack_ids :: "string list"
  sel_over_token_budget_context_pack_ids :: "string list"
  sel_skipped_context_pack_reasons :: "(string \<times> string) list"
  sel_stages :: "llm_selection_stage_summary list"

definition default_llm_context_selection :: llm_context_selection where
  "default_llm_context_selection = \<lparr>
     sel_total_context_pack_ids = [],
     sel_selected_context_pack_ids = [],
     sel_deep_selected_context_pack_ids = [],
     sel_shallow_selected_context_pack_ids = [],
     sel_unselected_context_pack_ids = [],
     sel_over_budget_context_pack_ids = [],
     sel_over_token_budget_context_pack_ids = [],
     sel_skipped_context_pack_reasons = [],
     sel_stages = []\<rparr>"

record llm_residual_risk_summary =
  rrs_context_pack_id :: "string"
  rrs_file :: "string"
  rrs_file_kind :: "file_kind"
  rrs_priority :: "string"
  rrs_reason :: "string"
  rrs_risk_by_severity :: "(string \<times> int) list"
  rrs_rule_modes :: "(string \<times> int) list"
  rrs_rule_severities :: "(string \<times> int) list"
  rrs_estimated_chars :: "int"
  rrs_truncated :: "bool"

record llm_pack_review_status =
  prs_context_pack_id :: "string"
  prs_file :: "string"
  prs_file_kind :: "file_kind"
  prs_status :: "string"
  prs_priority :: "string option"
  prs_slice :: "string"
  prs_reason :: "string"
  prs_review_depth :: "review_depth option"
  prs_estimated_chars :: "int"
  prs_changed_lines :: "(int \<times> int) list"
  prs_changed_symbols :: "string list"
  prs_error :: "string option"

record llm_coverage_todo =
  todo_context_pack_id :: "string"
  todo_file :: "string"
  todo_reviewer_id :: "string option"
  todo_file_kind :: "file_kind"
  todo_priority :: "string"
  todo_slice :: "string"
  todo_reason :: "string"
  todo_suggested_command :: "string"
  todo_estimated_chars :: "int"
  todo_changed_lines :: "(int \<times> int) list"
  todo_changed_symbols :: "string list"

record llm_file_coverage_summary =
  fcs_file :: "string"
  fcs_file_kind :: "file_kind"
  fcs_total_context_packs :: "int"
  fcs_reviewed_context_packs :: "int"
  fcs_unreviewed_context_packs :: "int"
  fcs_cluster_context_packs :: "int"
  fcs_file_context_packs :: "int"
  fcs_symbol_context_packs :: "int"
  fcs_over_budget_context_packs :: "int"
  fcs_truncated_context_packs :: "int"
  fcs_risk_by_severity :: "(string \<times> int) list"
  fcs_residual_priority :: "string option"
  fcs_reviewed_changed_lines :: "(int \<times> int) list"
  fcs_unreviewed_changed_lines :: "(int \<times> int) list"
  fcs_reviewed_changed_symbols :: "string list"
  fcs_unreviewed_changed_symbols :: "string list"
  fcs_reviewed_context_pack_ids :: "string list"
  fcs_unreviewed_context_pack_ids :: "string list"

record llm_slice_coverage_summary =
  scs_slice :: "string"
  scs_total_context_packs :: "int"
  scs_reviewed_context_packs :: "int"
  scs_unreviewed_context_packs :: "int"
  scs_deep_reviewed_context_packs :: "int"
  scs_shallow_reviewed_context_packs :: "int"
  scs_high_risk_context_packs :: "int"
  scs_reviewed_high_risk_context_packs :: "int"
  scs_residual_priority :: "string option"
  scs_reviewed_context_pack_ids :: "string list"
  scs_unreviewed_context_pack_ids :: "string list"

datatype reviewer_status =
    RST_NOT_APPLICABLE
  | RST_PASS
  | RST_WARN
  | RST_FAIL

primrec reviewer_status_value :: "reviewer_status \<Rightarrow> string" where
  "reviewer_status_value RST_NOT_APPLICABLE = ''not_applicable''"
| "reviewer_status_value RST_PASS = ''pass''"
| "reviewer_status_value RST_WARN = ''warn''"
| "reviewer_status_value RST_FAIL = ''fail''"

record llm_reviewer_coverage_summary =
  rcs_reviewer_id :: "string"
  rcs_required :: "bool"
  rcs_verify_enabled :: "bool"
  rcs_coverage_mode :: "llm_coverage_mode option"
  rcs_review_depth :: "reviewer_depth option"
  rcs_max_packs :: "int option"
  rcs_max_deep_packs :: "int option"
  rcs_max_input_tokens :: "int option"
  rcs_status :: "reviewer_status"
  rcs_reasons :: "string list"
  rcs_matching_context_packs :: "int"
  rcs_selected_context_packs :: "int"
  rcs_reviewed_context_packs :: "int"
  rcs_failed_review_runs :: "int"
  rcs_failed_verify_runs :: "int"
  rcs_matching_context_pack_ids :: "string list"
  rcs_selected_context_pack_ids :: "string list"
  rcs_reviewed_context_pack_ids :: "string list"
  rcs_estimated_input_tokens :: "int"
  rcs_actual_total_tokens :: "int"
  rcs_estimated_cost_usd :: "rat option"

record llm_coverage_summary =
  cov_enabled :: "bool"
  cov_verify_enabled :: "bool"
  cov_max_packs :: "int"
  cov_coverage_mode :: "llm_coverage_mode"
  cov_max_deep_packs :: "int option"
  cov_max_input_tokens :: "int option"
  cov_total_context_packs :: "int"
  cov_reviewed_context_packs :: "int"
  cov_unreviewed_context_packs :: "int"
  cov_coverage_ratio :: "rat"
  cov_source_changed_line_coverage_ratio :: "rat"
  cov_high_risk_coverage_ratio :: "rat"
  cov_high_risk_context_packs :: "int"
  cov_reviewed_high_risk_context_packs :: "int"
  cov_shallow_only_high_risk_context_pack_ids :: "string list"
  cov_quality_gate_status :: "string"
  cov_quality_gate_reasons :: "string list"
  cov_partial_severity :: "partial_severity"
  cov_partial_reasons :: "string list"
  cov_reviewed_context_pack_ids :: "string list"
  cov_unreviewed_context_pack_ids :: "string list"
  cov_unreviewed_context_pack_reasons :: "(string \<times> string) list"
  cov_pack_statuses :: "llm_pack_review_status list"
  cov_coverage_todos :: "llm_coverage_todo list"
  cov_over_budget_context_pack_ids :: "string list"
  cov_over_token_budget_context_pack_ids :: "string list"
  cov_truncated_context_pack_ids :: "string list"
  cov_deep_selected_context_pack_ids :: "string list"
  cov_shallow_selected_context_pack_ids :: "string list"
  cov_deep_reviewed_context_pack_ids :: "string list"
  cov_shallow_reviewed_context_pack_ids :: "string list"
  cov_deep_reviewed_context_packs :: "int"
  cov_shallow_reviewed_context_packs :: "int"
  cov_residual_risk_p0_context_pack_ids :: "string list"
  cov_residual_risk_p1_context_pack_ids :: "string list"
  cov_residual_risk_context_packs :: "llm_residual_risk_summary list"
  cov_file_coverage :: "llm_file_coverage_summary list"
  cov_slice_coverage :: "llm_slice_coverage_summary list"
  cov_reviewers :: "llm_reviewer_coverage_summary list"
  cov_cluster_context_packs :: "int"
  cov_file_context_packs :: "int"
  cov_symbol_context_packs :: "int"
  cov_reviewed_files :: "string list"
  cov_unreviewed_files :: "string list"
  cov_review_runs :: "int"
  cov_verify_runs :: "int"
  cov_failed_review_runs :: "int"
  cov_failed_verify_runs :: "int"
  cov_run_status_counts :: "(string \<times> int) list"
  cov_total_duration_ms :: "int"
  cov_input_chars :: "int"
  cov_estimated_input_tokens :: "int"
  cov_actual_input_tokens :: "int"
  cov_actual_cached_input_tokens :: "int"
  cov_actual_output_tokens :: "int"
  cov_actual_reasoning_output_tokens :: "int"
  cov_actual_total_tokens :: "int"
  cov_actual_cache_read_input_tokens :: "int"
  cov_actual_cache_creation_input_tokens :: "int"
  cov_estimated_saved_input_tokens :: "int"
  cov_estimated_cost_usd :: "rat option"
  cov_usage_sources :: "string list"
  cov_cache_hits :: "int"
  cov_cache_misses :: "int"
  cov_routes :: "llm_route_summary list"

definition default_llm_coverage_summary :: llm_coverage_summary where
  "default_llm_coverage_summary = \<lparr>
     cov_enabled = False,
     cov_verify_enabled = False,
     cov_max_packs = 0,
     cov_coverage_mode = CM_BALANCED,
     cov_max_deep_packs = None,
     cov_max_input_tokens = None,
     cov_total_context_packs = 0,
     cov_reviewed_context_packs = 0,
     cov_unreviewed_context_packs = 0,
     cov_coverage_ratio = 0,
     cov_source_changed_line_coverage_ratio = 0,
     cov_high_risk_coverage_ratio = 0,
     cov_high_risk_context_packs = 0,
     cov_reviewed_high_risk_context_packs = 0,
     cov_shallow_only_high_risk_context_pack_ids = [],
     cov_quality_gate_status = ''disabled'',
     cov_quality_gate_reasons = [],
     cov_partial_severity = PS_NONE,
     cov_partial_reasons = [],
     cov_reviewed_context_pack_ids = [],
     cov_unreviewed_context_pack_ids = [],
     cov_unreviewed_context_pack_reasons = [],
     cov_pack_statuses = [],
     cov_coverage_todos = [],
     cov_over_budget_context_pack_ids = [],
     cov_over_token_budget_context_pack_ids = [],
     cov_truncated_context_pack_ids = [],
     cov_deep_selected_context_pack_ids = [],
     cov_shallow_selected_context_pack_ids = [],
     cov_deep_reviewed_context_pack_ids = [],
     cov_shallow_reviewed_context_pack_ids = [],
     cov_deep_reviewed_context_packs = 0,
     cov_shallow_reviewed_context_packs = 0,
     cov_residual_risk_p0_context_pack_ids = [],
     cov_residual_risk_p1_context_pack_ids = [],
     cov_residual_risk_context_packs = [],
     cov_file_coverage = [],
     cov_slice_coverage = [],
     cov_reviewers = [],
     cov_cluster_context_packs = 0,
     cov_file_context_packs = 0,
     cov_symbol_context_packs = 0,
     cov_reviewed_files = [],
     cov_unreviewed_files = [],
     cov_review_runs = 0,
     cov_verify_runs = 0,
     cov_failed_review_runs = 0,
     cov_failed_verify_runs = 0,
     cov_run_status_counts = [],
     cov_total_duration_ms = 0,
     cov_input_chars = 0,
     cov_estimated_input_tokens = 0,
     cov_actual_input_tokens = 0,
     cov_actual_cached_input_tokens = 0,
     cov_actual_output_tokens = 0,
     cov_actual_reasoning_output_tokens = 0,
     cov_actual_total_tokens = 0,
     cov_actual_cache_read_input_tokens = 0,
     cov_actual_cache_creation_input_tokens = 0,
     cov_estimated_saved_input_tokens = 0,
     cov_estimated_cost_usd = None,
     cov_usage_sources = [],
     cov_cache_hits = 0,
     cov_cache_misses = 0,
     cov_routes = []\<rparr>"

datatype coverage_stop_reason =
    CSR_COMPLETE
  | CSR_NO_ELIGIBLE_WORK
  | CSR_NO_PROGRESS
  | CSR_MAX_BATCHES

primrec coverage_stop_reason_value :: "coverage_stop_reason \<Rightarrow> string" where
  "coverage_stop_reason_value CSR_COMPLETE = ''complete''"
| "coverage_stop_reason_value CSR_NO_ELIGIBLE_WORK = ''no_eligible_work''"
| "coverage_stop_reason_value CSR_NO_PROGRESS = ''no_progress''"
| "coverage_stop_reason_value CSR_MAX_BATCHES = ''max_batches''"

datatype completion_outcome =
    CPO_COMPLETE
  | CPO_INCOMPLETE

primrec completion_outcome_value :: "completion_outcome \<Rightarrow> string" where
  "completion_outcome_value CPO_COMPLETE = ''complete''"
| "completion_outcome_value CPO_INCOMPLETE = ''incomplete''"

record review_coverage_completion =
  rcc_status :: "completion_outcome"
  rcc_reviewer_ids :: "string list"
  rcc_batches :: "int"
  rcc_stop_reason :: "coverage_stop_reason"

definition valid_review_coverage_completion :: "review_coverage_completion \<Rightarrow> bool" where
  "valid_review_coverage_completion c \<longleftrightarrow>
     0 \<le> rcc_batches c"

record memory_summary =
  msum_enabled :: "bool"
  msum_loaded_cards :: "int"
  msum_matched_cards :: "int"
  msum_applied_cards :: "int"
  msum_omitted_cards :: "int"
  msum_applied_card_ids :: "string list"
  msum_omitted_card_reasons :: "(string \<times> string) list"
  msum_total_prompt_chars :: "int"

definition default_memory_summary :: memory_summary where
  "default_memory_summary = \<lparr>
     msum_enabled = False,
     msum_loaded_cards = 0,
     msum_matched_cards = 0,
     msum_applied_cards = 0,
     msum_omitted_cards = 0,
     msum_applied_card_ids = [],
     msum_omitted_card_reasons = [],
     msum_total_prompt_chars = 0\<rparr>"

subsection \<open>The report\<close>

record review_report =
  rep_schema_version :: "string"
  rep_project :: "project_profile"
  rep_config :: "review_config"
  rep_diff :: "diff_summary"
  rep_input_snapshot :: "review_input_snapshot option"
  rep_summary :: "report_summary"
  rep_llm_selection :: "llm_context_selection option"
  rep_reviewer_selections :: "(string \<times> llm_context_selection) list"
  rep_reviewer_scope_ids :: "string list option"
  rep_stage_durations_ms :: "(string \<times> int) list"
  rep_llm_coverage :: "llm_coverage_summary"
  rep_coverage_completion :: "review_coverage_completion option"
  rep_memory_summary :: "memory_summary"
  rep_rules :: "string list"
  rep_analyzer_results :: "analyzer_result list"
  rep_context_packs :: "context_pack list"
  rep_findings :: "finding list"
  rep_verifications :: "finding_verification list"
  rep_llm_runs :: "llm_run list"
  rep_generated_at :: "datetime"
  rep_version :: "string"

definition valid_review_report :: "review_report \<Rightarrow> bool" where
  "valid_review_report c \<longleftrightarrow>
     valid_review_config (rep_config c) \<and>
     valid_diff_summary (rep_diff c) \<and>
     (case rep_coverage_completion c of None \<Rightarrow> True | Some x \<Rightarrow> valid_review_coverage_completion x) \<and>
     list_all valid_analyzer_result (rep_analyzer_results c) \<and>
     list_all valid_context_pack (rep_context_packs c)"

subsection \<open>Computed completion status\<close>

datatype completion_status = COMP_DISABLED | COMP_COMPLETE | COMP_PARTIAL | COMP_INCOMPLETE

primrec completion_status_value :: "completion_status \<Rightarrow> string" where
  "completion_status_value COMP_DISABLED = ''disabled''"
| "completion_status_value COMP_COMPLETE = ''complete''"
| "completion_status_value COMP_PARTIAL = ''partial''"
| "completion_status_value COMP_INCOMPLETE = ''incomplete''"

text \<open>\<open>LLMCoverageSummary.completion_status\<close>.\<close>

definition cov_completion_status :: "llm_coverage_summary \<Rightarrow> completion_status" where
  "cov_completion_status c =
     (if \<not> cov_enabled c then COMP_DISABLED
      else
        let assignment_debt = list_ex (\<lambda>r. rcs_reviewed_context_packs r < rcs_matching_context_packs r) (cov_reviewers c);
            status_debt = list_ex (\<lambda>r. rcs_status r = RST_WARN \<or> rcs_status r = RST_FAIL) (cov_reviewers c);
            required_failed = list_ex (\<lambda>r. rcs_required r \<and> rcs_status r = RST_FAIL) (cov_reviewers c);
            run_failed = list_ex (\<lambda>r. rcs_failed_review_runs r \<noteq> 0 \<or> rcs_failed_verify_runs r \<noteq> 0) (cov_reviewers c);
            failed_pack = list_ex (\<lambda>s. starts_with (prs_status s) ''failed_'') (cov_pack_statuses c)
        in if failed_pack \<or> run_failed \<or> cov_over_budget_context_pack_ids c \<noteq> [] \<or> required_failed
           then COMP_INCOMPLETE
           else if cov_unreviewed_context_packs c = 0 \<and> cov_partial_severity c = PS_NONE
             \<and> \<not> assignment_debt \<and> \<not> status_debt
           then COMP_COMPLETE
           else COMP_PARTIAL)"

datatype completion_error = Duplicate_Reviewer_Ids | Inconsistent_Stop_Reason

text \<open>\<open>ReviewCoverageCompletion.validate_contract\<close>.\<close>

definition validate_completion_contract ::
  "review_coverage_completion \<Rightarrow> completion_error + review_coverage_completion" where
  "validate_completion_contract c =
     (if \<not> distinct (rcc_reviewer_ids c) then Inl Duplicate_Reviewer_Ids
      else if (rcc_status c = CPO_COMPLETE) \<noteq> (rcc_stop_reason c = CSR_COMPLETE)
      then Inl Inconsistent_Stop_Reason
      else Inr c)"

end
