(* ===== verification/Line_Ranges.thy ===== *)
theory Line_Ranges
  imports Prelude
begin

section \<open>Line ranges\<close>

text \<open>
  \<open>src/apex_ray/line_ranges.py\<close>: merging, counting and subtracting lists of inclusive line
  ranges. The abstract value of a list of ranges is the set of lines it covers; the locale
  \<open>range_algebra\<close> states what the coverage reports rely on, and is interpreted on the three
  functions.
\<close>

type_synonym line_range = "int \<times> int"

subsection \<open>The operations\<close>

text \<open>The loop of \<open>merge_line_ranges\<close>: only the last merged range can still grow.\<close>

fun merge_from :: "line_range \<Rightarrow> line_range list \<Rightarrow> line_range list" where
  "merge_from (ps, pe) [] = [(ps, pe)]"
| "merge_from (ps, pe) ((s, e) # rest) =
     (if s \<le> pe + 1 then merge_from (ps, max pe e) rest
      else (ps, pe) # merge_from (s, e) rest)"

definition ordered_ranges :: "line_range list \<Rightarrow> line_range list" where
  "ordered_ranges ranges =
     sort (map (\<lambda>(s, e). (min s e, max s e)) (filter (\<lambda>(s, e). 0 < s \<and> 0 < e) ranges))"

definition merge_line_ranges :: "line_range list \<Rightarrow> line_range list" where
  "merge_line_ranges ranges =
     (case ordered_ranges ranges of [] \<Rightarrow> [] | r # rs \<Rightarrow> merge_from r rs)"

definition line_range_count :: "line_range list \<Rightarrow> int" where
  "line_range_count ranges = sum_list (map (\<lambda>(s, e). max 0 (e - s + 1)) ranges)"

text \<open>One covered range cut out of one fragment, then out of every fragment.\<close>

definition cut_fragment :: "line_range \<Rightarrow> line_range \<Rightarrow> line_range list" where
  "cut_fragment cov frag =
     (let (cs, ce) = cov; (fs, fe) = frag in
      if ce < fs \<or> fe < cs then [(fs, fe)]
      else (if fs < cs then [(fs, cs - 1)] else []) @ (if ce < fe then [(ce + 1, fe)] else []))"

fun cut_all :: "line_range list \<Rightarrow> line_range list \<Rightarrow> line_range list" where
  "cut_all [] fragments = fragments"
| "cut_all (c # cs) fragments =
     (let next_fragments = concat (map (cut_fragment c) fragments) in
      if next_fragments = [] then [] else cut_all cs next_fragments)"

definition subtract_line_ranges :: "line_range list \<Rightarrow> line_range list \<Rightarrow> line_range list" where
  "subtract_line_ranges ranges covered =
     merge_line_ranges (concat (map (\<lambda>r. cut_all covered [r]) ranges))"

subsection \<open>The lines a list of ranges covers\<close>

definition range_lines :: "line_range \<Rightarrow> int set" where
  "range_lines r = {fst r..snd r}"

definition lines_of :: "line_range list \<Rightarrow> int set" where
  "lines_of rs = (\<Union>r\<in>set rs. range_lines r)"

definition proper_range :: "line_range \<Rightarrow> bool" where
  "proper_range r \<longleftrightarrow> 0 < fst r \<and> fst r \<le> snd r"

definition canonical :: "line_range list \<Rightarrow> bool" where
  "canonical rs \<longleftrightarrow> list_all proper_range rs \<and> sorted_wrt (\<lambda>a b. snd a + 1 < fst b) rs"

lemma canonical_proper: "canonical rs \<Longrightarrow> list_all proper_range rs"
  by (simp add: canonical_def)

text \<open>What an arbitrary list of ranges is read as: reversed ranges are turned round and
  ranges that touch a line below 1 are dropped.\<close>

definition read_lines :: "line_range list \<Rightarrow> int set" where
  "read_lines rs = lines_of (map (\<lambda>(s, e). (min s e, max s e)) (filter (\<lambda>(s, e). 0 < s \<and> 0 < e) rs))"

lemma lines_of_simps [simp]:
  "lines_of [] = {}"
  "lines_of (r # rs) = range_lines r \<union> lines_of rs"
  "lines_of (rs @ rs') = lines_of rs \<union> lines_of rs'"
  by (auto simp: lines_of_def)

lemma lines_of_set_cong: "set rs = set rs' \<Longrightarrow> lines_of rs = lines_of rs'"
  by (simp add: lines_of_def)

lemma finite_lines_of [simp]: "finite (lines_of rs)"
  by (simp add: lines_of_def range_lines_def)

lemma read_lines_proper:
  assumes "list_all proper_range rs"
  shows "read_lines rs = lines_of rs"
proof -
  have "map (\<lambda>(s, e). (min s e, max s e)) (filter (\<lambda>(s, e). 0 < s \<and> 0 < e) rs) = rs"
    using assms by (induction rs) (auto simp: proper_range_def)
  then show ?thesis by (simp only: read_lines_def)
qed

lemma read_lines_ordered: "lines_of (ordered_ranges rs) = read_lines rs"
  by (simp add: ordered_ranges_def read_lines_def lines_of_def)

lemma ordered_ranges_sorted: "sorted (map fst (ordered_ranges rs))"
proof -
  have "sorted xs \<Longrightarrow> sorted (map fst xs)" for xs :: "line_range list"
    by (induction xs) (auto simp: less_eq_prod_def)
  then show ?thesis
    by (simp add: ordered_ranges_def)
qed

lemma ordered_ranges_proper: "list_all proper_range (ordered_ranges rs)"
  by (auto simp: ordered_ranges_def list_all_iff proper_range_def)

subsection \<open>Merging\<close>

lemma merge_from_lines:
  "\<lbrakk>s \<le> e; list_all proper_range rs; sorted (s # map fst rs)\<rbrakk>
    \<Longrightarrow> lines_of (merge_from (s, e) rs) = lines_of ((s, e) # rs)"
proof (induction "(s, e)" rs arbitrary: s e rule: merge_from.induct)
  case (2 ps pe s e rest)
  show ?case
  proof (cases "s \<le> pe + 1")
    case True
    with 2 have "{ps..max pe e} = {ps..pe} \<union> {s..e}" by (auto simp: proper_range_def)
    with True 2 show ?thesis by (simp add: range_lines_def Un_assoc le_max_iff_disj)
  next
    case False
    with 2 show ?thesis by (simp add: proper_range_def)
  qed
qed simp

lemma merge_from_starts: "\<lbrakk>sorted (s # map fst rs); r \<in> set (merge_from (s, e) rs)\<rbrakk> \<Longrightarrow> s \<le> fst r"
  by (induction "(s, e)" rs arbitrary: s e rule: merge_from.induct) (fastforce split: if_splits)+

lemma merge_from_canonical:
  "\<lbrakk>proper_range (s, e); list_all proper_range rs; sorted (s # map fst rs)\<rbrakk>
    \<Longrightarrow> canonical (merge_from (s, e) rs)"
proof (induction "(s, e)" rs arbitrary: s e rule: merge_from.induct)
  case (1 ps pe)
  then show ?case by (simp add: canonical_def)
next
  case (2 ps pe s e rest)
  show ?case
  proof (cases "s \<le> pe + 1")
    case True
    with 2 show ?thesis by (auto simp: proper_range_def max_def)
  next
    case False
    with 2 have tail: "canonical (merge_from (s, e) rest)" by simp
    have "pe + 1 < fst r" if "r \<in> set (merge_from (s, e) rest)" for r
      using merge_from_starts [OF _ that] 2 False by force
    with tail 2 False show ?thesis by (auto simp: canonical_def)
  qed
qed

lemma merge_canonical: "canonical (merge_line_ranges rs)"
proof (cases "ordered_ranges rs")
  case Nil
  then show ?thesis by (simp add: merge_line_ranges_def canonical_def)
next
  case (Cons r rest)
  with ordered_ranges_proper [of rs] ordered_ranges_sorted [of rs] show ?thesis
    by (cases r) (auto simp: merge_line_ranges_def intro: merge_from_canonical)
qed

lemma merge_lines: "lines_of (merge_line_ranges rs) = read_lines rs"
proof (cases "ordered_ranges rs")
  case Nil
  with read_lines_ordered [of rs] show ?thesis by (simp add: merge_line_ranges_def)
next
  case (Cons r rest)
  obtain s e where r: "r = (s, e)" by force
  have "lines_of (merge_from (s, e) rest) = lines_of ((s, e) # rest)"
    using ordered_ranges_proper [of rs] ordered_ranges_sorted [of rs]
    by (intro merge_from_lines) (auto simp: Cons r proper_range_def)
  with read_lines_ordered [of rs] show ?thesis
    by (simp add: merge_line_ranges_def Cons r)
qed

subsection \<open>Canonical lists are determined by their lines\<close>

lemma canonical_Cons:
  "canonical ((s, e) # rs) \<longleftrightarrow> 0 < s \<and> s \<le> e \<and> (\<forall>r\<in>set rs. e + 1 < fst r) \<and> canonical rs"
  by (auto simp: canonical_def proper_range_def)

lemma canonical_head_least:
  assumes "canonical ((s, e) # rs)" and "x \<in> lines_of ((s, e) # rs)"
  shows "s \<le> x"
  using assms by (fastforce simp: canonical_Cons lines_of_def range_lines_def)

lemma canonical_head_gap:
  assumes "canonical ((s, e) # rs)"
  shows "e + 1 \<notin> lines_of ((s, e) # rs)"
  using assms by (fastforce simp: canonical_Cons lines_of_def range_lines_def)

lemma canonical_head_lines: "canonical ((s, e) # rs) \<Longrightarrow> {s..e} \<subseteq> lines_of ((s, e) # rs)"
  by (auto simp: range_lines_def)

lemma canonical_tail_lines:
  "canonical ((s, e) # rs) \<Longrightarrow> lines_of rs = {x \<in> lines_of ((s, e) # rs). e < x}"
  by (fastforce simp: canonical_Cons lines_of_def range_lines_def)

lemma canonical_unique:
  "\<lbrakk>canonical rs; canonical rs'; lines_of rs = lines_of rs'\<rbrakk> \<Longrightarrow> rs = rs'"
proof (induction rs arbitrary: rs')
  case Nil
  then show ?case
    by (cases rs') (auto simp: canonical_def proper_range_def range_lines_def)
next
  case (Cons r rs)
  obtain s e where r: "r = (s, e)" by force
  have "s \<in> lines_of (r # rs)" using Cons.prems(1) by (auto simp: r canonical_Cons range_lines_def)
  with Cons.prems(3) obtain s' e' rs'' where rs': "rs' = (s', e') # rs''"
    by (cases rs') (auto)
  note c = Cons.prems(1) [unfolded r] and c' = Cons.prems(2) [unfolded rs']
  have eq: "lines_of ((s, e) # rs) = lines_of ((s', e') # rs'')"
    using Cons.prems(3) by (simp add: r rs')
  have "s \<in> lines_of ((s, e) # rs)" "s' \<in> lines_of ((s', e') # rs'')"
    using c c' by (auto simp: canonical_Cons range_lines_def)
  with eq canonical_head_least [OF c] canonical_head_least [OF c'] have ss: "s = s'"
    by (metis order.antisym)
  have ee: "e = e'"
  proof (rule ccontr)
    assume "e \<noteq> e'"
    then consider "e < e'" | "e' < e" by linarith
    then show False
    proof cases
      case 1
      then have "e + 1 \<in> {s'..e'}" using c by (auto simp: canonical_Cons ss)
      with canonical_head_lines [OF c'] canonical_head_gap [OF c] eq show False by blast
    next
      case 2
      then have "e' + 1 \<in> {s..e}" using c' by (auto simp: canonical_Cons ss)
      with canonical_head_lines [OF c] canonical_head_gap [OF c'] eq show False by blast
    qed
  qed
  have "lines_of rs = lines_of rs''"
    by (simp only: canonical_tail_lines [OF c] canonical_tail_lines [OF c'] eq) (simp add: ee)
  with Cons.IH c c' have "rs = rs''" by (simp add: canonical_Cons)
  with ss ee show ?case by (simp add: r rs')
qed

lemma canonical_count: "canonical rs \<Longrightarrow> line_range_count rs = int (card (lines_of rs))"
proof (induction rs)
  case Nil
  then show ?case by (simp add: line_range_count_def)
next
  case (Cons r rs)
  obtain s e where r: "r = (s, e)" by force
  from Cons.prems have c: "s \<le> e" "\<forall>q\<in>set rs. e + 1 < fst q" "canonical rs"
    by (auto simp: r canonical_Cons)
  have "{s..e} \<inter> lines_of rs = {}"
    using c by (fastforce simp: lines_of_def range_lines_def)
  then have "card (lines_of (r # rs)) = nat (e - s + 1) + card (lines_of rs)"
    by (simp add: r range_lines_def card_Un_disjoint)
  with Cons.IH c show ?case
    by (simp add: line_range_count_def r)
qed

subsection \<open>Subtraction\<close>

lemma cut_fragment_lines:
  "fs \<le> fe \<Longrightarrow> lines_of (cut_fragment (cs, ce) (fs, fe)) = {fs..fe} - {cs..ce}"
  by (auto simp: cut_fragment_def range_lines_def)

lemma cut_fragment_proper:
  "proper_range f \<Longrightarrow> list_all proper_range (cut_fragment c f)"
  by (auto simp: cut_fragment_def proper_range_def Let_def split: prod.splits)

lemma cut_step:
  assumes "list_all proper_range fs"
  shows "list_all proper_range (concat (map (cut_fragment c) fs))"
    and "lines_of (concat (map (cut_fragment c) fs)) = lines_of fs - range_lines c"
proof -
  show "list_all proper_range (concat (map (cut_fragment c) fs))"
    using assms by (induction fs) (simp_all add: cut_fragment_proper)
  show "lines_of (concat (map (cut_fragment c) fs)) = lines_of fs - range_lines c"
    using assms
  proof (induction fs)
    case (Cons f fs)
    then show ?case
      by (cases c; cases f) (auto simp: cut_fragment_lines proper_range_def range_lines_def)
  qed simp
qed

lemma cut_all_spec:
  "list_all proper_range fs \<Longrightarrow>
     list_all proper_range (cut_all cs fs) \<and> lines_of (cut_all cs fs) = lines_of fs - lines_of cs"
proof (induction cs arbitrary: fs)
  case (Cons c cs)
  note step = cut_step [OF Cons.prems, of c]
  show ?case
  proof (cases "concat (map (cut_fragment c) fs) = []")
    case True
    with step(2) have "lines_of fs - range_lines c = {}" by (metis lines_of_simps(1))
    then show ?thesis using True by auto
  next
    case False
    with Cons.IH [OF step(1)] step(2) show ?thesis by (auto simp: Let_def)
  qed
qed simp

lemma subtract_lines:
  assumes "list_all proper_range rs"
  shows "lines_of (subtract_line_ranges rs cs) = lines_of rs - lines_of cs"
proof -
  let ?parts = "concat (map (\<lambda>r. cut_all cs [r]) rs)"
  have "list_all proper_range ?parts"
    using assms by (induction rs) (simp_all add: cut_all_spec)
  then have "lines_of (subtract_line_ranges rs cs) = lines_of ?parts"
    by (simp add: subtract_line_ranges_def merge_lines read_lines_proper)
  also have "\<dots> = lines_of rs - lines_of cs"
    using assms by (induction rs) (auto simp: cut_all_spec)
  finally show ?thesis .
qed

lemma subtract_canonical: "canonical (subtract_line_ranges rs cs)"
  by (simp add: subtract_line_ranges_def merge_canonical)

subsection \<open>The interface of the coverage reports\<close>

locale range_algebra =
  fixes merge :: "line_range list \<Rightarrow> line_range list"
    and subtract :: "line_range list \<Rightarrow> line_range list \<Rightarrow> line_range list"
    and size_of :: "line_range list \<Rightarrow> int"
  assumes merge_reads: "lines_of (merge rs) = read_lines rs"
    and merge_normal: "canonical (merge rs)"
    and subtract_removes: "list_all proper_range rs \<Longrightarrow> lines_of (subtract rs cs) = lines_of rs - lines_of cs"
    and subtract_normal: "canonical (subtract rs cs)"
    and size_card: "canonical rs \<Longrightarrow> size_of rs = int (card (lines_of rs))"
begin

lemma merge_proper: "list_all proper_range (merge rs)"
  by (rule canonical_proper [OF merge_normal])

lemma merge_fixed: "canonical rs \<Longrightarrow> merge rs = rs"
  by (rule canonical_unique) (simp_all add: merge_normal merge_reads read_lines_proper canonical_proper)

lemma merge_extensional: "read_lines rs = read_lines rs' \<Longrightarrow> merge rs = merge rs'"
  by (rule canonical_unique) (simp_all add: merge_normal merge_reads)

lemma split_partition:
  "lines_of (merge as) \<union> lines_of (subtract (merge bs) (merge as)) = read_lines as \<union> read_lines bs"
  "lines_of (merge as) \<inter> lines_of (subtract (merge bs) (merge as)) = {}"
  by (auto simp: merge_reads subtract_removes merge_proper)

lemma split_count:
  "size_of (merge as) + size_of (subtract (merge bs) (merge as)) =
     int (card (read_lines as \<union> read_lines bs))"
proof -
  have "size_of (merge as) + size_of (subtract (merge bs) (merge as)) =
      int (card (lines_of (merge as)) + card (lines_of (subtract (merge bs) (merge as))))"
    by (simp add: size_card merge_normal subtract_normal)
  also have "\<dots> = int (card (lines_of (merge as) \<union> lines_of (subtract (merge bs) (merge as))))"
    using split_partition(2) by (simp add: card_Un_disjoint)
  finally show ?thesis by (simp only: split_partition(1))
qed

end

interpretation ranges: range_algebra merge_line_ranges subtract_line_ranges line_range_count
  by unfold_locales
    (simp_all add: merge_lines merge_canonical subtract_lines subtract_canonical canonical_count)

subsection \<open>What the code's functions compute\<close>

text \<open>C24: Merging computes a normal form: the result is ordered, positive and free of touching or
  overlapping ranges, and two inputs are merged to the same list exactly when they denote the
  same lines (reversed ranges turned round, ranges touching a line below 1 dropped).\<close>

theorem merge_line_ranges_normal_form:
  "canonical (merge_line_ranges rs) \<and> lines_of (merge_line_ranges rs) = read_lines rs
   \<and> (merge_line_ranges rs = merge_line_ranges rs' \<longleftrightarrow> read_lines rs = read_lines rs')"
  using ranges.merge_extensional [of rs rs'] by (metis merge_canonical merge_lines)

text \<open>C25: Covered and uncovered lines partition the reviewable ones: subtracting the covered ranges
  leaves disjoint lines, together they are all lines of both, and the two line counts add up to
  the number of distinct lines.\<close>

theorem covered_uncovered_partition:
  "lines_of (merge_line_ranges as) \<union> lines_of (subtract_line_ranges (merge_line_ranges bs) (merge_line_ranges as))
     = read_lines as \<union> read_lines bs
   \<and> lines_of (merge_line_ranges as) \<inter> lines_of (subtract_line_ranges (merge_line_ranges bs) (merge_line_ranges as)) = {}
   \<and> line_range_count (merge_line_ranges as)
       + line_range_count (subtract_line_ranges (merge_line_ranges bs) (merge_line_ranges as))
     = int (card (read_lines as \<union> read_lines bs))"
  by (intro conjI ranges.split_partition ranges.split_count)

end
