(* ===== verification/Path_Matching.thy ===== *)
theory Path_Matching
  imports Prelude
begin

section \<open>Path patterns\<close>

text \<open>
  \<open>src/apex_ray/path_matching.py\<close>, with the part of \<open>fnmatch\<close> it calls: shell patterns with
  \<open>*\<close>, \<open>?\<close> and bracket classes, and the rule that a \<open>**/\<close> step may match no directory at all.
  The variants of a pattern are computed by a worklist; \<open>shortens\<close> is the relation the
  worklist closes under.
\<close>

subsection \<open>Shell patterns\<close>

datatype class_item = Single char | Range char char

datatype glob_item = Star | AnyChar | Exact char | Class bool "class_item list"

fun class_items :: "string \<Rightarrow> class_item list" where
  "class_items [] = []"
| "class_items (a # CHR ''-'' # b # rest) = Range a b # class_items rest"
| "class_items (a # rest) = Single a # class_items rest"

text \<open>The characters of a bracket up to its closing bracket: a closing bracket that comes
  first, or right after the negation sign, stands for itself.\<close>

definition until_bracket :: "string \<Rightarrow> (string \<times> string) option" where
  "until_bracket s = (let (body, found, rest) = partition_char (CHR '']'') s in
     if found then Some (body, rest) else None)"

definition bracket_body :: "string \<Rightarrow> (string \<times> string) option" where
  "bracket_body s = (case s of
       [] \<Rightarrow> None
     | c # cs \<Rightarrow> (if c = CHR '']''
                 then map_option (\<lambda>(b, r). (c # b, r)) (until_bracket cs)
                 else until_bracket s))"

lemma partition_char_length: "partition_char a s = (p, f, q) \<Longrightarrow> length q \<le> length s"
proof (induction s arbitrary: p f q)
  case (Cons c s)
  obtain p' f' q' where "partition_char a s = (p', f', q')" by (metis prod_cases3)
  with Cons show ?case by (fastforce split: if_splits)
qed simp

lemma until_bracket_length: "until_bracket s = Some (b, r) \<Longrightarrow> length r \<le> length s"
  by (auto simp: until_bracket_def split: prod.splits if_splits dest: partition_char_length)

lemma bracket_body_length: "bracket_body s = Some (b, r) \<Longrightarrow> length r \<le> length s"
  by (auto simp: bracket_body_def split: list.splits if_splits dest: until_bracket_length)

function glob_items :: "string \<Rightarrow> glob_item list" where
  "glob_items [] = []"
| "glob_items (c # cs) =
     (if c = CHR ''*'' then Star # glob_items cs
      else if c = CHR ''?'' then AnyChar # glob_items cs
      else if c = CHR ''['' then
        (let neg = (cs \<noteq> [] \<and> hd cs = CHR ''!''); inner = (if neg then tl cs else cs) in
         case bracket_body inner of
           None \<Rightarrow> Exact c # glob_items cs
         | Some (body, rest) \<Rightarrow> Class neg (class_items body) # glob_items rest)
      else Exact c # glob_items cs)"
  by pat_completeness auto
termination
proof (relation "measure length", goal_cases)
  case (5 c cs neg inner p body rest)
  then have "length rest \<le> length inner" by (auto dest: bracket_body_length)
  with 5 show ?case by (auto split: if_splits)
qed auto

fun in_class_item :: "char \<Rightarrow> class_item \<Rightarrow> bool" where
  "in_class_item c (Single a) \<longleftrightarrow> c = a"
| "in_class_item c (Range a b) \<longleftrightarrow> char_code a \<le> char_code c \<and> char_code c \<le> char_code b"

fun glob_match :: "glob_item list \<Rightarrow> string \<Rightarrow> bool" where
  "glob_match [] s \<longleftrightarrow> s = []"
| "glob_match (Star # ps) [] \<longleftrightarrow> glob_match ps []"
| "glob_match (Star # ps) (c # cs) \<longleftrightarrow> glob_match ps (c # cs) \<or> glob_match (Star # ps) cs"
| "glob_match (AnyChar # ps) [] \<longleftrightarrow> False"
| "glob_match (AnyChar # ps) (c # cs) \<longleftrightarrow> glob_match ps cs"
| "glob_match (Exact a # ps) [] \<longleftrightarrow> False"
| "glob_match (Exact a # ps) (c # cs) \<longleftrightarrow> c = a \<and> glob_match ps cs"
| "glob_match (Class neg items # ps) [] \<longleftrightarrow> False"
| "glob_match (Class neg items # ps) (c # cs) \<longleftrightarrow>
     (list_ex (in_class_item c) items \<noteq> neg) \<and> glob_match ps cs"

text \<open>\<open>fnmatch.fnmatchcase(name, pat)\<close>; \<open>fnmatch.fnmatch\<close> is the same function on POSIX.\<close>

definition fnmatch :: "string \<Rightarrow> string \<Rightarrow> bool" where
  "fnmatch name pat = glob_match (glob_items pat) name"

definition plain_char :: "char \<Rightarrow> bool" where
  "plain_char c \<longleftrightarrow> c \<noteq> CHR ''*'' \<and> c \<noteq> CHR ''?'' \<and> c \<noteq> CHR ''[''"

lemma glob_items_plain: "list_all plain_char s \<Longrightarrow> glob_items s = map Exact s"
  by (induction s) (auto simp: plain_char_def)

lemma glob_match_exact: "glob_match (map Exact p) s \<longleftrightarrow> s = p"
proof (induction p arbitrary: s)
  case (Cons a p)
  then show ?case by (cases s) auto
qed simp

lemma glob_match_star: "glob_match (Star # ps) s \<longleftrightarrow> (\<exists>n. glob_match ps (drop n s))"
proof (induction s)
  case (Cons c cs)
  show ?case
  proof
    assume "glob_match (Star # ps) (c # cs)"
    then consider "glob_match ps (drop 0 (c # cs))" | n where "glob_match ps (drop n cs)"
      using Cons.IH by auto
    then show "\<exists>n. glob_match ps (drop n (c # cs))"
    proof cases
      case 2
      then have "glob_match ps (drop (Suc n) (c # cs))" by simp
      then show ?thesis by blast
    qed blast
  next
    assume "\<exists>n. glob_match ps (drop n (c # cs))"
    then obtain n where "glob_match ps (drop n (c # cs))" by blast
    with Cons.IH show "glob_match (Star # ps) (c # cs)" by (cases n) auto
  qed
qed simp

text \<open>A pattern without special characters matches exactly itself.\<close>

lemma fnmatch_plain: "list_all plain_char p \<Longrightarrow> fnmatch s p \<longleftrightarrow> s = p"
  by (simp add: fnmatch_def glob_items_plain glob_match_exact)

subsection \<open>Normalised paths\<close>

definition normalize_path :: "string \<Rightarrow> string" where
  "normalize_path value = remove_prefix (replace_char backslash (CHR ''/'') (py_strip value)) ''./''"

subsection \<open>Variants of a pattern\<close>

text \<open>\<open>str.find\<close>: the position of the first occurrence.\<close>

fun find_sub :: "string \<Rightarrow> string \<Rightarrow> nat option" where
  "find_sub p [] = (if p = [] then Some 0 else None)"
| "find_sub p (c # cs) =
     (if starts_with (c # cs) p then Some 0 else map_option Suc (find_sub p cs))"

definition drop_leading :: "string \<Rightarrow> string option" where
  "drop_leading s = (if starts_with s ''**/'' then Some (drop 3 s) else None)"

definition drop_inner :: "string \<Rightarrow> string option" where
  "drop_inner s = (case find_sub ''/**/'' s of
       None \<Rightarrow> None
     | Some i \<Rightarrow> Some (take i s @ ''/'' @ drop (i + 4) s))"

text \<open>One step of the code's loop body: a shortened candidate is recorded and queued unless
  it is known.\<close>

definition note_variant :: "string option \<Rightarrow> string list \<times> string list \<Rightarrow> string list \<times> string list" where
  "note_variant v st = (let (variants, pending) = st in
     case v of None \<Rightarrow> (variants, pending)
     | Some s \<Rightarrow> if s \<in> set variants then (variants, pending) else (variants @ [s], pending @ [s]))"

definition expand_candidate :: "string \<Rightarrow> string list \<times> string list \<Rightarrow> string list \<times> string list" where
  "expand_candidate s st = note_variant (drop_inner s) (note_variant (drop_leading s) st)"

definition pending_weight :: "string list \<Rightarrow> nat" where
  "pending_weight pending = sum_list (map (\<lambda>s. 3 ^ length s) pending)"

lemma find_sub_bound: "find_sub p s = Some i \<Longrightarrow> i + length p \<le> length s \<and> take (length p) (drop i s) = p"
proof (induction s arbitrary: i)
  case Nil
  then show ?case by (simp split: if_splits)
next
  case (Cons c cs)
  show ?case
  proof (cases "starts_with (c # cs) p")
    case True
    with Cons.prems have i: "i = 0" by simp
    from True have eq: "take (length p) (c # cs) = p" by (simp only: starts_with_def)
    then have "length (take (length p) (c # cs)) = length p" by (rule arg_cong)
    then have "length p \<le> length (c # cs)" by (simp add: min_def split: if_splits)
    with i eq show ?thesis by simp
  next
    case False
    with Cons.prems obtain j where "find_sub p cs = Some j" "i = Suc j" by auto
    with Cons.IH show ?thesis by simp
  qed
qed

lemma drop_leading_shorter: "drop_leading s = Some t \<Longrightarrow> length t < length s"
  by (cases s) (auto simp: drop_leading_def starts_with_def split: if_splits)

lemma drop_inner_shorter: "drop_inner s = Some t \<Longrightarrow> length t < length s"
  by (auto simp: drop_inner_def split: option.splits dest!: find_sub_bound)

lemma pending_weight_note:
  "(\<And>t. v = Some t \<Longrightarrow> length t < n) \<Longrightarrow>
     3 * pending_weight (snd (note_variant v (vs, ps))) \<le> 3 * pending_weight ps + 3 ^ n"
proof (cases v)
  case (Some t)
  assume "\<And>t. v = Some t \<Longrightarrow> length t < n"
  with Some have "Suc (length t) \<le> n" by simp
  then have "(3::nat) ^ Suc (length t) \<le> 3 ^ n" by (rule power_increasing) simp
  with Some show ?thesis by (simp add: note_variant_def pending_weight_def)
qed (simp add: note_variant_def)

lemma pending_weight_expand:
  "pending_weight (snd (expand_candidate s (vs, ps))) < pending_weight ps + 3 ^ length s"
proof -
  obtain vs1 ps1 where one: "note_variant (drop_leading s) (vs, ps) = (vs1, ps1)" by force
  have eq: "expand_candidate s (vs, ps) = note_variant (drop_inner s) (vs1, ps1)"
    by (simp add: expand_candidate_def one)
  have "3 * pending_weight ps1 \<le> 3 * pending_weight ps + 3 ^ length s"
    using pending_weight_note [of "drop_leading s" "length s" vs ps] drop_leading_shorter one by simp
  moreover have "3 * pending_weight (snd (note_variant (drop_inner s) (vs1, ps1)))
      \<le> 3 * pending_weight ps1 + 3 ^ length s"
    using pending_weight_note [of "drop_inner s" "length s" vs1 ps1] drop_inner_shorter by simp
  moreover have "(0::nat) < 3 ^ length s" by simp
  ultimately show ?thesis unfolding eq by linarith
qed

lemma pending_weight_last:
  "ps \<noteq> [] \<Longrightarrow> pending_weight ps = pending_weight (butlast ps) + 3 ^ length (last ps)"
  by (induction ps) (auto simp: pending_weight_def)

function variants_loop :: "string list \<Rightarrow> string list \<Rightarrow> string list" where
  "variants_loop variants pending =
     (if pending = [] then variants
      else let (variants', pending') = expand_candidate (last pending) (variants, butlast pending)
           in variants_loop variants' pending')"
  by pat_completeness auto
termination
proof (relation "measure (\<lambda>(vs, ps). pending_weight ps)", goal_cases)
  case (2 variants pending x variants' pending')
  from 2 have "expand_candidate (last pending) (variants, butlast pending) = (variants', pending')"
    by simp
  with pending_weight_expand [of "last pending" variants "butlast pending"] pending_weight_last [OF 2(1)]
  show ?case by simp
qed simp

declare variants_loop.simps [simp del]

definition glob_variants :: "string \<Rightarrow> string list" where
  "glob_variants pattern = variants_loop [pattern] [pattern]"

definition path_matches_any :: "string \<Rightarrow> string list \<Rightarrow> bool" where
  "path_matches_any path patterns = list_ex (\<lambda>pattern.
     normalize_path path = normalize_path pattern
     \<or> list_ex (fnmatch (normalize_path path)) (glob_variants (normalize_path pattern))) patterns"

subsection \<open>The worklist computes a closure\<close>

inductive shortens :: "string \<Rightarrow> string \<Rightarrow> bool" where
  leading: "drop_leading s = Some t \<Longrightarrow> shortens s t"
| inner: "drop_inner s = Some t \<Longrightarrow> shortens s t"

inductive_simps shortens_iff: "shortens s t"

text \<open>What the loop keeps: the pending candidates are known, every known candidate that is no
  longer pending has its shortenings known, and every known candidate comes from the pattern.\<close>

definition variants_inv :: "string \<Rightarrow> string list \<Rightarrow> string list \<Rightarrow> bool" where
  "variants_inv p vs ps \<longleftrightarrow> p \<in> set vs \<and> set ps \<subseteq> set vs
     \<and> (\<forall>s\<in>set vs. shortens\<^sup>*\<^sup>* p s)
     \<and> (\<forall>s\<in>set vs. s \<notin> set ps \<longrightarrow> (\<forall>t. shortens s t \<longrightarrow> t \<in> set vs))"

lemma set_note_variant:
  "set (fst (note_variant v (vs, ps))) = set vs \<union> set_option v"
  "set (snd (note_variant v (vs, ps))) = set ps \<union> (set_option v - set vs)"
  by (auto simp: note_variant_def split: option.splits)

lemma set_expand_candidate:
  "set (fst (expand_candidate s (vs, ps))) = set vs \<union> {t. shortens s t}"
  "set (snd (expand_candidate s (vs, ps))) = set ps \<union> ({t. shortens s t} - set vs)"
proof -
  obtain vs1 ps1 where one: "note_variant (drop_leading s) (vs, ps) = (vs1, ps1)" by force
  have "set vs1 = set vs \<union> set_option (drop_leading s)"
       "set ps1 = set ps \<union> (set_option (drop_leading s) - set vs)"
    using set_note_variant [of "drop_leading s" vs ps] one by simp_all
  moreover have "{t. shortens s t} = set_option (drop_leading s) \<union> set_option (drop_inner s)"
    by (auto simp: shortens_iff)
  ultimately show "set (fst (expand_candidate s (vs, ps))) = set vs \<union> {t. shortens s t}"
    and "set (snd (expand_candidate s (vs, ps))) = set ps \<union> ({t. shortens s t} - set vs)"
    by (auto simp: expand_candidate_def one set_note_variant)
qed

lemma variants_inv_step:
  assumes "variants_inv p vs (ps @ [s])"
  shows "variants_inv p (fst (expand_candidate s (vs, ps))) (snd (expand_candidate s (vs, ps)))"
  using assms unfolding variants_inv_def set_expand_candidate
  by (auto intro: rtranclp.rtrancl_into_rtrancl)

lemma variants_loop_closure: "variants_inv p vs ps \<Longrightarrow> variants_inv p (variants_loop vs ps) []"
proof (induction vs ps rule: variants_loop.induct)
  case (1 vs ps)
  show ?case
  proof (cases "ps = []")
    case True
    with 1 show ?thesis by (simp add: variants_loop.simps)
  next
    case False
    obtain vs' ps' where st: "expand_candidate (last ps) (vs, butlast ps) = (vs', ps')" by force
    have "variants_inv p vs' ps'"
      using variants_inv_step [of p vs "butlast ps" "last ps"] 1(2) False st by simp
    with 1(1) [OF False] st False show ?thesis
      by (simp add: variants_loop.simps [of vs ps])
  qed
qed

lemma set_glob_variants: "set (glob_variants p) = {s. shortens\<^sup>*\<^sup>* p s}"
proof -
  have inv: "variants_inv p (glob_variants p) []"
    unfolding glob_variants_def by (rule variants_loop_closure) (simp add: variants_inv_def)
  then have start: "p \<in> set (glob_variants p)"
    and closed: "s \<in> set (glob_variants p) \<Longrightarrow> shortens s t \<Longrightarrow> t \<in> set (glob_variants p)"
    and sound: "s \<in> set (glob_variants p) \<Longrightarrow> shortens\<^sup>*\<^sup>* p s" for s t
    unfolding variants_inv_def by simp_all
  have "s \<in> set (glob_variants p)" if "shortens\<^sup>*\<^sup>* p s" for s
    using that by (induction rule: rtranclp_induct) (blast intro: start closed)+
  with sound show ?thesis by blast
qed


end
