(* ===== verification/Diff_Parser.thy ===== *)
theory Diff_Parser
  imports Model_Diff Path_Matching
begin

section \<open>The unified diff parser\<close>

text \<open>
  \<open>src/apex_ray/diff.py\<close>: the two regular expressions as functions on a line, one step of the
  line loop over a state record, and the summary. The current hunk is the last hunk of the
  current file (the code appends the object to the file and goes on mutating it), so the
  state keeps only whether there is one.
\<close>

subsection \<open>Headers\<close>

text \<open>\<open>DIFF_HEADER_RE\<close>: the first group is as short as possible.\<close>

definition match_diff_header :: "string \<Rightarrow> (string \<times> string) option" where
  "match_diff_header line =
     (if starts_with line ''diff --git a/'' then
        (let rest = drop 13 line in
         case find_sub '' b/'' rest of
           None \<Rightarrow> None
         | Some i \<Rightarrow> Some (take i rest, drop (i + 3) rest))
      else None)"

text \<open>\<open>(\<d>+)\<close> and the optional \<open>,(\<d>+)\<close>; both return what follows them.\<close>

definition read_number :: "string \<Rightarrow> (nat \<times> string) option" where
  "read_number s = (let ds = takeWhile py_digit s in
     if ds = [] then None else Some (nat_of_digits ds, dropWhile py_digit s))"

definition read_count :: "string \<Rightarrow> nat option \<times> string" where
  "read_count s = (case s of
       [] \<Rightarrow> (None, s)
     | c # cs \<Rightarrow> if c = CHR '','' then
                  (case read_number cs of None \<Rightarrow> (None, s) | Some (n, r) \<Rightarrow> (Some n, r))
                else (None, s))"

definition expect :: "string \<Rightarrow> string \<Rightarrow> string option" where
  "expect p s = (if starts_with s p then Some (drop (length p) s) else None)"

text \<open>\<open>HUNK_RE\<close>: old start and count, new start and count, section header.\<close>

definition match_hunk :: "string \<Rightarrow> (nat \<times> nat option \<times> nat \<times> nat option \<times> string) option" where
  "match_hunk line =
     Option.bind (expect ''@@ -'' line) (\<lambda>s1.
     Option.bind (read_number s1) (\<lambda>(os, s2).
     let (oc, s3) = read_count s2 in
     Option.bind (expect '' +'' s3) (\<lambda>s4.
     Option.bind (read_number s4) (\<lambda>(ns, s5).
     let (nc, s6) = read_count s5 in
     Option.bind (expect '' @@'' s6) (\<lambda>s7.
     Some (os, oc, ns, nc, remove_prefix s7 '' ''))))))"

definition parse_marker_path :: "string \<Rightarrow> string option" where
  "parse_marker_path value = (let v = py_strip value in
     if v = ''/dev/null'' then None
     else if starts_with v ''a/'' \<or> starts_with v ''b/'' then Some (drop 2 v)
     else Some v)"

subsection \<open>The line loop\<close>

record parse_state =
  ps_files :: "changed_file list"
  ps_current :: "changed_file option"
  ps_in_hunk :: bool
  ps_old_line :: int
  ps_new_line :: int
  ps_warnings :: "string list"

definition initial_parse_state :: parse_state where
  "initial_parse_state = \<lparr>ps_files = [], ps_current = None, ps_in_hunk = False,
     ps_old_line = 0, ps_new_line = 0, ps_warnings = []\<rparr>"

definition new_changed_file :: "string \<Rightarrow> string \<Rightarrow> changed_file" where
  "new_changed_file old new = \<lparr>cf_old_path = Some old, cf_new_path = Some new, cf_status = ST_MODIFIED,
     cf_language = ''unknown'', cf_file_kind = FK_UNKNOWN, cf_additions = 0, cf_deletions = 0,
     cf_hunks = [], cf_risk_signals = [], cf_is_ignored = False, cf_ignore_reason = None\<rparr>"

definition new_hunk :: "nat \<Rightarrow> nat option \<Rightarrow> nat \<Rightarrow> nat option \<Rightarrow> string \<Rightarrow> changed_hunk" where
  "new_hunk os oc ns nc header = \<lparr>hk_old_start = int os,
     hk_old_lines = (case oc of None \<Rightarrow> 1 | Some n \<Rightarrow> int n),
     hk_new_start = int ns,
     hk_new_lines = (case nc of None \<Rightarrow> 1 | Some n \<Rightarrow> int n),
     hk_section_header = header, hk_lines = [], hk_risk_signals = []\<rparr>"

definition close_file :: "parse_state \<Rightarrow> changed_file list" where
  "close_file st = ps_files st @ (case ps_current st of None \<Rightarrow> [] | Some f \<Rightarrow> [f])"

text \<open>\<open>current_hunk.lines.append(...)\<close>.\<close>

definition append_line :: "diff_line \<Rightarrow> changed_file \<Rightarrow> changed_file" where
  "append_line l f = f\<lparr>cf_hunks := (case rev (cf_hunks f) of
       [] \<Rightarrow> []
     | h # hs \<Rightarrow> rev hs @ [h\<lparr>hk_lines := hk_lines h @ [l]\<rparr>])\<rparr>"

definition renamed_or_copied :: "changed_file \<Rightarrow> bool" where
  "renamed_or_copied f \<longleftrightarrow> cf_status f = ST_RENAMED \<or> cf_status f = ST_COPIED"

definition rest_after :: "string \<Rightarrow> string \<Rightarrow> string" where
  "rest_after line p = py_strip (remove_prefix line p)"

text \<open>The lines between the file header and the first hunk; \<open>None\<close> when the line is none of
  them and the code goes on.\<close>

definition file_line_step :: "bool \<Rightarrow> string \<Rightarrow> changed_file \<Rightarrow> changed_file option" where
  "file_line_step in_hunk line f =
     (if starts_with line ''new file mode'' then Some (f\<lparr>cf_status := ST_ADDED\<rparr>)
      else if starts_with line ''deleted file mode'' then Some (f\<lparr>cf_status := ST_DELETED\<rparr>)
      else if starts_with line ''rename from '' then
        Some (f\<lparr>cf_status := ST_RENAMED, cf_old_path := Some (rest_after line ''rename from '')\<rparr>)
      else if starts_with line ''rename to '' then
        Some (f\<lparr>cf_status := ST_RENAMED, cf_new_path := Some (rest_after line ''rename to '')\<rparr>)
      else if starts_with line ''copy from '' then
        Some (f\<lparr>cf_status := ST_COPIED, cf_old_path := Some (rest_after line ''copy from '')\<rparr>)
      else if starts_with line ''copy to '' then
        Some (f\<lparr>cf_status := ST_COPIED, cf_new_path := Some (rest_after line ''copy to '')\<rparr>)
      else if \<not> in_hunk \<and> starts_with line ''--- '' then
        Some (case parse_marker_path (drop 4 line) of
            None \<Rightarrow> f\<lparr>cf_old_path := None\<rparr>
          | Some p \<Rightarrow> if renamed_or_copied f then f else f\<lparr>cf_old_path := Some p\<rparr>)
      else if \<not> in_hunk \<and> starts_with line ''+++ '' then
        Some (case parse_marker_path (drop 4 line) of
            None \<Rightarrow> f\<lparr>cf_new_path := None\<rparr>
          | Some p \<Rightarrow> if renamed_or_copied f then f else f\<lparr>cf_new_path := Some p\<rparr>)
      else None)"

text \<open>A line inside a hunk: the file, the two line counters and the warnings.\<close>

definition hunk_line_step :: "string \<Rightarrow> changed_file \<Rightarrow> parse_state \<Rightarrow> parse_state" where
  "hunk_line_step line f st =
     (let o_line = ps_old_line st; n_line = ps_new_line st in
      if starts_with line ''+'' then
        st\<lparr>ps_current := Some ((append_line \<lparr>dl_kind = DL_ADD, dl_content = drop 1 line,
              dl_old_line = None, dl_new_line = Some n_line\<rparr> f)\<lparr>cf_additions := cf_additions f + 1\<rparr>),
           ps_new_line := n_line + 1\<rparr>
      else if starts_with line ''-'' then
        st\<lparr>ps_current := Some ((append_line \<lparr>dl_kind = DL_DELETE, dl_content = drop 1 line,
              dl_old_line = Some o_line, dl_new_line = None\<rparr> f)\<lparr>cf_deletions := cf_deletions f + 1\<rparr>),
           ps_old_line := o_line + 1\<rparr>
      else if starts_with line '' '' \<or> line = [] then
        st\<lparr>ps_current := Some (append_line \<lparr>dl_kind = DL_CONTEXT, dl_content = drop 1 line,
              dl_old_line = Some o_line, dl_new_line = Some n_line\<rparr> f),
           ps_old_line := o_line + 1, ps_new_line := n_line + 1\<rparr>
      else if starts_with line [backslash] then st
      else st\<lparr>ps_warnings := ps_warnings st @
             [''Unrecognized hunk line in '' @ cf_path f @ '': '' @ take 80 line]\<rparr>)"

definition parse_step :: "string \<Rightarrow> parse_state \<Rightarrow> parse_state" where
  "parse_step line st =
     (case match_diff_header line of
        Some (old, new) \<Rightarrow>
          st\<lparr>ps_files := close_file st, ps_current := Some (new_changed_file old new), ps_in_hunk := False\<rparr>
      | None \<Rightarrow>
        (case ps_current st of
           None \<Rightarrow> (if py_strip line \<noteq> [] then st\<lparr>ps_warnings := ps_warnings st @
                     [''Ignored diff line before file header: '' @ take 80 line]\<rparr>
                   else st)
         | Some f \<Rightarrow>
           (case file_line_step (ps_in_hunk st) line f of
              Some f' \<Rightarrow> st\<lparr>ps_current := Some f'\<rparr>
            | None \<Rightarrow>
              (case match_hunk line of
                 Some (os, oc, ns, nc, header) \<Rightarrow>
                   st\<lparr>ps_current := Some (f\<lparr>cf_hunks := cf_hunks f @ [new_hunk os oc ns nc header]\<rparr>),
                      ps_in_hunk := True, ps_old_line := int os, ps_new_line := int ns\<rparr>
               | None \<Rightarrow> (if ps_in_hunk st then hunk_line_step line f st else st)))))"

definition parse_lines :: "string list \<Rightarrow> parse_state \<Rightarrow> parse_state" where
  "parse_lines lines st = fold parse_step lines st"

definition parse_unified_diff :: "string \<Rightarrow> target_mode \<Rightarrow> string option \<Rightarrow> diff_summary" where
  "parse_unified_diff text target_mode base =
     (let st = parse_lines (split_lines text) initial_parse_state;
          files = close_file st
      in \<lparr>dsum_base = base, dsum_target_mode = target_mode, dsum_files = files,
          dsum_stats = \<lparr>ds_files_changed = int (length files),
             ds_additions = sum_list (map cf_additions files),
             ds_deletions = sum_list (map cf_deletions files), ds_ignored_files = 0\<rparr>,
          dsum_warnings = ps_warnings st\<rparr>)"

subsection \<open>Counters and line numbers\<close>

definition count_kind :: "diff_line_kind \<Rightarrow> changed_hunk list \<Rightarrow> int" where
  "count_kind k hs = int (length (filter (\<lambda>l. dl_kind l = k) (concat (map hk_lines hs))))"

text \<open>The lines of a hunk carry consecutive old and new numbers from the two starts.\<close>

fun numbered :: "int \<Rightarrow> int \<Rightarrow> diff_line list \<Rightarrow> bool" where
  "numbered a b [] \<longleftrightarrow> True"
| "numbered a b (l # ls) \<longleftrightarrow> (case dl_kind l of
       DL_ADD \<Rightarrow> dl_old_line l = None \<and> dl_new_line l = Some b \<and> numbered a (b + 1) ls
     | DL_DELETE \<Rightarrow> dl_old_line l = Some a \<and> dl_new_line l = None \<and> numbered (a + 1) b ls
     | DL_CONTEXT \<Rightarrow> dl_old_line l = Some a \<and> dl_new_line l = Some b \<and> numbered (a + 1) (b + 1) ls)"

definition old_span :: "diff_line list \<Rightarrow> int" where
  "old_span ls = int (length (filter (\<lambda>l. dl_kind l \<noteq> DL_ADD) ls))"

definition new_span :: "diff_line list \<Rightarrow> int" where
  "new_span ls = int (length (filter (\<lambda>l. dl_kind l \<noteq> DL_DELETE) ls))"

definition hunk_numbered :: "changed_hunk \<Rightarrow> bool" where
  "hunk_numbered h \<longleftrightarrow> numbered (hk_old_start h) (hk_new_start h) (hk_lines h)"

definition file_counted :: "changed_file \<Rightarrow> bool" where
  "file_counted f \<longleftrightarrow> cf_additions f = count_kind DL_ADD (cf_hunks f)
     \<and> cf_deletions f = count_kind DL_DELETE (cf_hunks f)
     \<and> list_all hunk_numbered (cf_hunks f)"

lemma numbered_append:
  "numbered a b (ls @ ls') \<longleftrightarrow> numbered a b ls \<and> numbered (a + old_span ls) (b + new_span ls) ls'"
  by (induction ls arbitrary: a b)
    (auto simp: old_span_def new_span_def algebra_simps split: diff_line_kind.splits)

lemma count_kind_simps [simp]:
  "count_kind k [] = 0"
  "count_kind k (hs @ hs') = count_kind k hs + count_kind k hs'"
  by (simp_all add: count_kind_def)

text \<open>The state invariant: every file is counted and numbered, and inside a hunk the two
  counters are where the last hunk ends.\<close>

definition parse_inv :: "parse_state \<Rightarrow> bool" where
  "parse_inv st \<longleftrightarrow> list_all file_counted (ps_files st)
     \<and> (case ps_current st of None \<Rightarrow> \<not> ps_in_hunk st | Some f \<Rightarrow> file_counted f
         \<and> (ps_in_hunk st \<longrightarrow> cf_hunks f \<noteq> []
             \<and> ps_old_line st = hk_old_start (last (cf_hunks f)) + old_span (hk_lines (last (cf_hunks f)))
             \<and> ps_new_line st = hk_new_start (last (cf_hunks f)) + new_span (hk_lines (last (cf_hunks f)))))"

lemma append_line_hunks:
  "cf_hunks f = hs @ [h] \<Longrightarrow> cf_hunks (append_line l f) = hs @ [h\<lparr>hk_lines := hk_lines h @ [l]\<rparr>]"
  by (simp add: append_line_def)

lemma append_line_other [simp]:
  "cf_additions (append_line l f) = cf_additions f"
  "cf_deletions (append_line l f) = cf_deletions f"
  by (simp_all add: append_line_def)

lemma span_snoc [simp]:
  "old_span (ls @ [l]) = old_span ls + (if dl_kind l = DL_ADD then 0 else 1)"
  "new_span (ls @ [l]) = new_span ls + (if dl_kind l = DL_DELETE then 0 else 1)"
  by (simp_all add: old_span_def new_span_def)

lemma file_line_step_hunks:
  "file_line_step b line f = Some f' \<Longrightarrow>
     cf_hunks f' = cf_hunks f \<and> cf_additions f' = cf_additions f \<and> cf_deletions f' = cf_deletions f"
  by (auto simp: file_line_step_def split: if_splits option.splits)

lemma hunk_line_step_inv:
  assumes "parse_inv st" and "ps_current st = Some f" and "ps_in_hunk st"
  shows "parse_inv (hunk_line_step line f st)"
proof -
  from assms have "cf_hunks f \<noteq> []" by (simp add: parse_inv_def)
  then obtain hs h where f: "cf_hunks f = hs @ [h]" by (metis append_butlast_last_id)
  have "list_all file_counted (ps_files st)" "file_counted f"
    "ps_old_line st = hk_old_start h + old_span (hk_lines h)"
    "ps_new_line st = hk_new_start h + new_span (hk_lines h)"
    using assms f by (simp_all add: parse_inv_def)
  then show ?thesis
    using assms f
    by (auto simp: hunk_line_step_def Let_def parse_inv_def file_counted_def hunk_numbered_def
        append_line_hunks [OF f] numbered_append count_kind_def)
qed

lemma parse_step_inv: "parse_inv st \<Longrightarrow> parse_inv (parse_step line st)"
proof (cases "match_diff_header line")
  case (Some p)
  moreover assume "parse_inv st"
  ultimately show ?thesis
    by (cases p) (auto simp: parse_step_def parse_inv_def close_file_def new_changed_file_def
        file_counted_def split: option.splits)
next
  case None
  assume inv: "parse_inv st"
  show ?thesis
  proof (cases "ps_current st")
    case cur: None
    with inv None show ?thesis by (simp add: parse_step_def parse_inv_def)
  next
    case cur: (Some f)
    show ?thesis
    proof (cases "file_line_step (ps_in_hunk st) line f")
      case (Some f')
      with inv None cur file_line_step_hunks [OF Some] show ?thesis
        by (simp add: parse_step_def parse_inv_def file_counted_def)
    next
      case none: None
      show ?thesis
      proof (cases "match_hunk line")
        case (Some m)
        with inv None cur none show ?thesis
          by (cases m) (auto simp: parse_step_def parse_inv_def file_counted_def new_hunk_def
              hunk_numbered_def count_kind_def old_span_def new_span_def)
      next
        case no_hunk: None
        with inv None cur none hunk_line_step_inv [of st f line] show ?thesis
          by (simp add: parse_step_def)
      qed
    qed
  qed
qed

lemma parse_lines_inv: "parse_inv st \<Longrightarrow> parse_inv (parse_lines ls st)"
  unfolding parse_lines_def by (induction ls arbitrary: st) (simp_all add: parse_step_inv)

lemma close_file_counted: "parse_inv st \<Longrightarrow> list_all file_counted (close_file st)"
  by (auto simp: parse_inv_def close_file_def split: option.splits)

lemma initial_parse_inv: "parse_inv initial_parse_state"
  by (simp add: parse_inv_def initial_parse_state_def)

end
