(* ===== verification/Diff_Roundtrip.thy ===== *)
theory Diff_Roundtrip
  imports Diff_Parser
begin

section \<open>Reading back what git writes\<close>

text \<open>
  The text \<open>git diff\<close> prints for a list of changed files, as a function, and the theorem that
  \<open>parse_unified_diff\<close> (\<open>src/apex_ray/diff.py\<close>) reads the files back from it: paths, status,
  hunks, line kinds, contents, line numbers, counters, without a warning. The printer is the
  abstract specification of the parser; \<open>git_file\<close> says which files git can print.
\<close>

subsection \<open>The printer\<close>

definition git_line :: "diff_line \<Rightarrow> string" where
  "git_line l = (case dl_kind l of
      DL_ADD \<Rightarrow> CHR ''+'' | DL_DELETE \<Rightarrow> CHR ''-'' | DL_CONTEXT \<Rightarrow> CHR '' '') # dl_content l"

definition git_hunk_header :: "changed_hunk \<Rightarrow> string" where
  "git_hunk_header h = ''@@ -'' @ str_nat (nat (hk_old_start h)) @ '','' @ str_nat (nat (hk_old_lines h))
     @ '' +'' @ str_nat (nat (hk_new_start h)) @ '','' @ str_nat (nat (hk_new_lines h))
     @ '' @@'' @ (if hk_section_header h = [] then [] else '' '' @ hk_section_header h)"

definition git_hunk :: "changed_hunk \<Rightarrow> string list" where
  "git_hunk h = git_hunk_header h # map git_line (hk_lines h)"

definition git_old_name :: "changed_file \<Rightarrow> string" where
  "git_old_name f = (case cf_old_path f of Some p \<Rightarrow> p | None \<Rightarrow> the (cf_new_path f))"

definition git_new_name :: "changed_file \<Rightarrow> string" where
  "git_new_name f = (case cf_new_path f of Some p \<Rightarrow> p | None \<Rightarrow> the (cf_old_path f))"

definition git_status_lines :: "changed_file \<Rightarrow> string list" where
  "git_status_lines f = (case cf_status f of
      ST_MODIFIED \<Rightarrow> []
    | ST_ADDED \<Rightarrow> [''new file mode 100644'']
    | ST_DELETED \<Rightarrow> [''deleted file mode 100644'']
    | ST_RENAMED \<Rightarrow> [''rename from '' @ git_old_name f, ''rename to '' @ git_new_name f]
    | ST_COPIED \<Rightarrow> [''copy from '' @ git_old_name f, ''copy to '' @ git_new_name f])"

definition git_markers :: "changed_file \<Rightarrow> string list" where
  "git_markers f = (if cf_hunks f = [] then [] else
     [(case cf_old_path f of None \<Rightarrow> ''--- /dev/null'' | Some p \<Rightarrow> ''--- a/'' @ p),
      (case cf_new_path f of None \<Rightarrow> ''+++ /dev/null'' | Some p \<Rightarrow> ''+++ b/'' @ p)])"

definition git_file_lines :: "changed_file \<Rightarrow> string list" where
  "git_file_lines f = (''diff --git a/'' @ git_old_name f @ '' b/'' @ git_new_name f)
     # git_status_lines f @ git_markers f @ concat (map git_hunk (cf_hunks f))"

definition git_diff :: "changed_file list \<Rightarrow> string" where
  "git_diff fs = unlines (concat (map git_file_lines fs))"

subsection \<open>What git can print\<close>

definition git_path :: "string \<Rightarrow> bool" where
  "git_path p \<longleftrightarrow> p \<noteq> [] \<and> one_line p \<and> \<not> py_space (hd p) \<and> \<not> py_space (last p)
     \<and> find_sub '' b/'' p = None"

definition git_hunk_ok :: "changed_hunk \<Rightarrow> bool" where
  "git_hunk_ok h \<longleftrightarrow> 0 \<le> hk_old_start h \<and> 0 \<le> hk_old_lines h \<and> 0 \<le> hk_new_start h \<and> 0 \<le> hk_new_lines h
     \<and> one_line (hk_section_header h) \<and> hk_risk_signals h = [] \<and> hunk_numbered h
     \<and> list_all (\<lambda>l. one_line (dl_content l)) (hk_lines h)"

definition git_names_ok :: "changed_file \<Rightarrow> bool" where
  "git_names_ok f \<longleftrightarrow> (case cf_status f of
       ST_MODIFIED \<Rightarrow> cf_old_path f = cf_new_path f \<and> cf_new_path f \<noteq> None
     | ST_ADDED \<Rightarrow> cf_new_path f \<noteq> None
         \<and> cf_old_path f = (if cf_hunks f = [] then cf_new_path f else None)
     | ST_DELETED \<Rightarrow> cf_old_path f \<noteq> None
         \<and> cf_new_path f = (if cf_hunks f = [] then cf_old_path f else None)
     | _ \<Rightarrow> cf_old_path f \<noteq> None \<and> cf_new_path f \<noteq> None)"

definition git_file :: "changed_file \<Rightarrow> bool" where
  "git_file f \<longleftrightarrow> git_names_ok f \<and> git_path (git_old_name f) \<and> git_path (git_new_name f)
     \<and> file_counted f \<and> list_all git_hunk_ok (cf_hunks f)
     \<and> cf_language f = ''unknown'' \<and> cf_file_kind f = FK_UNKNOWN \<and> cf_risk_signals f = []
     \<and> \<not> cf_is_ignored f \<and> cf_ignore_reason f = None"

subsection \<open>Reading single lines\<close>

lemma find_sub_boundary:
  "find_sub '' b/'' p = None \<Longrightarrow> find_sub '' b/'' (p @ '' b/'' @ q) = Some (length p)"
proof (induction p)
  case Nil
  then show ?case by simp
next
  case (Cons c p)
  then have no: "\<not> starts_with (c # p) '' b/''" and rest: "find_sub '' b/'' p = None"
    by (auto split: if_splits option.splits)
  have "\<not> starts_with (c # p @ '' b/'' @ q) '' b/''"
    using no by (cases p; cases "tl p") auto
  with Cons.IH [OF rest] show ?case by simp
qed

lemma match_diff_header_git:
  "git_path a \<Longrightarrow> match_diff_header (''diff --git a/'' @ a @ '' b/'' @ b) = Some (a, b)"
  using find_sub_boundary [of a b] by (simp add: match_diff_header_def git_path_def)

lemma read_number_str [simp]:
  "r = [] \<or> \<not> py_digit (hd r) \<Longrightarrow> read_number (str_nat n @ r) = Some (n, r)"
proof -
  assume r: "r = [] \<or> \<not> py_digit (hd r)"
  have d: "\<forall>c\<in>set (str_nat n). py_digit c"
    using str_nat_digits [of n] by (simp add: list_all_iff)
  then have "takeWhile py_digit (str_nat n @ r) = str_nat n"
    "dropWhile py_digit (str_nat n @ r) = r"
    using r by (cases r; auto simp: takeWhile_append2 dropWhile_append2)+
  then show ?thesis by (simp add: read_number_def Let_def)
qed

lemma match_hunk_git:
  "git_hunk_ok h \<Longrightarrow> match_hunk (git_hunk_header h) = Some (nat (hk_old_start h), Some (nat (hk_old_lines h)),
      nat (hk_new_start h), Some (nat (hk_new_lines h)), hk_section_header h)"
  by (simp add: match_hunk_def git_hunk_header_def expect_def read_count_def py_digit_def
      remove_prefix_def)

lemma file_line_step_hunk_header [simp]: "file_line_step b (git_hunk_header h) f = None"
  by (simp add: file_line_step_def git_hunk_header_def)

lemma match_diff_header_hunk_header [simp]: "match_diff_header (git_hunk_header h) = None"
  by (simp add: match_diff_header_def git_hunk_header_def)

subsection \<open>Reading a hunk\<close>

text \<open>The parser state in the middle of a file: nothing else changes while it is read.\<close>

definition reading :: "parse_state \<Rightarrow> changed_file \<Rightarrow> bool \<Rightarrow> int \<Rightarrow> int \<Rightarrow> parse_state" where
  "reading st f inside a b = st\<lparr>ps_current := Some f, ps_in_hunk := inside,
     ps_old_line := a, ps_new_line := b\<rparr>"

definition kind_count :: "diff_line_kind \<Rightarrow> diff_line list \<Rightarrow> int" where
  "kind_count k ls = int (length (filter (\<lambda>l. dl_kind l = k) ls))"

lemma parse_lines_simps [simp]:
  "parse_lines [] st = st"
  "parse_lines (l # ls) st = parse_lines ls (parse_step l st)"
  "parse_lines (ls @ ls') st = parse_lines ls' (parse_lines ls st)"
  by (simp_all add: parse_lines_def)

lemma git_line_step:
  assumes "cf_hunks f = hs @ [h]"
    and "numbered a b [l]"
  shows "parse_step (git_line l) (reading st f True a b) =
    reading st (f\<lparr>cf_hunks := hs @ [h\<lparr>hk_lines := hk_lines h @ [l]\<rparr>],
                cf_additions := cf_additions f + kind_count DL_ADD [l],
                cf_deletions := cf_deletions f + kind_count DL_DELETE [l]\<rparr>)
      True (a + old_span [l]) (b + new_span [l])"
  using assms
  by (cases l; cases "dl_kind l")
    (auto simp: parse_step_def git_line_def match_diff_header_def file_line_step_def match_hunk_def
      expect_def hunk_line_step_def append_line_def reading_def kind_count_def old_span_def new_span_def)

lemma git_lines_step:
  assumes "cf_hunks f = hs @ [h]"
    and "numbered a b ls"
  shows "parse_lines (map git_line ls) (reading st f True a b) =
    reading st (f\<lparr>cf_hunks := hs @ [h\<lparr>hk_lines := hk_lines h @ ls\<rparr>],
                cf_additions := cf_additions f + kind_count DL_ADD ls,
                cf_deletions := cf_deletions f + kind_count DL_DELETE ls\<rparr>)
      True (a + old_span ls) (b + new_span ls)"
  using assms
proof (induction ls arbitrary: f h a b)
  case Nil
  then show ?case by (cases f) (simp add: kind_count_def old_span_def new_span_def)
next
  case (Cons l ls)
  let ?h = "h\<lparr>hk_lines := hk_lines h @ [l]\<rparr>"
  let ?f = "f\<lparr>cf_hunks := hs @ [?h], cf_additions := cf_additions f + kind_count DL_ADD [l],
    cf_deletions := cf_deletions f + kind_count DL_DELETE [l]\<rparr>"
  have one: "numbered a b [l]" and rest: "numbered (a + old_span [l]) (b + new_span [l]) ls"
    using Cons.prems(2) numbered_append [of a b "[l]" ls] by simp_all
  have spans: "old_span (l # ls) = old_span [l] + old_span ls" "new_span (l # ls) = new_span [l] + new_span ls"
    "kind_count k (l # ls) = kind_count k [l] + kind_count k ls" for k
    by (simp_all add: old_span_def new_span_def kind_count_def)
  show ?case
    using Cons.IH [of ?f ?h, OF _ rest] git_line_step [OF Cons.prems(1) one, of st]
    by (simp add: spans [of] algebra_simps)
qed

lemma git_hunk_step:
  assumes "git_hunk_ok h"
  shows "\<exists>a' b'. parse_lines (git_hunk h) (reading st f inside a b) =
    reading st (f\<lparr>cf_hunks := cf_hunks f @ [h],
                cf_additions := cf_additions f + kind_count DL_ADD (hk_lines h),
                cf_deletions := cf_deletions f + kind_count DL_DELETE (hk_lines h)\<rparr>) True a' b'"
proof -
  let ?e = "h\<lparr>hk_lines := []\<rparr>"
  have "new_hunk (nat (hk_old_start h)) (Some (nat (hk_old_lines h))) (nat (hk_new_start h))
      (Some (nat (hk_new_lines h))) (hk_section_header h) = ?e"
    using assms by (cases h) (simp add: new_hunk_def git_hunk_ok_def)
  then have "parse_step (git_hunk_header h) (reading st f inside a b) =
      reading st (f\<lparr>cf_hunks := cf_hunks f @ [?e]\<rparr>) True (hk_old_start h) (hk_new_start h)"
    using assms by (simp add: parse_step_def match_hunk_git [OF assms] reading_def git_hunk_ok_def)
  moreover have "numbered (hk_old_start h) (hk_new_start h) (hk_lines h)"
    using assms by (simp add: git_hunk_ok_def hunk_numbered_def)
  ultimately show ?thesis
    using git_lines_step [of "f\<lparr>cf_hunks := cf_hunks f @ [?e]\<rparr>" "cf_hunks f" ?e _ _ "hk_lines h" st]
    by (auto simp: git_hunk_def)
qed

lemma count_kind_Cons: "count_kind k (h # hs) = kind_count k (hk_lines h) + count_kind k hs"
  by (simp add: count_kind_def kind_count_def)

lemma git_hunks_step:
  assumes "list_all git_hunk_ok hs"
  shows "\<exists>inside' a' b'. parse_lines (concat (map git_hunk hs)) (reading st f inside a b) =
    reading st (f\<lparr>cf_hunks := cf_hunks f @ hs,
                cf_additions := cf_additions f + count_kind DL_ADD hs,
                cf_deletions := cf_deletions f + count_kind DL_DELETE hs\<rparr>) inside' a' b'"
  using assms
proof (induction hs arbitrary: f inside a b)
  case Nil
  have "parse_lines (concat (map git_hunk [])) (reading st f inside a b) = reading st f inside a b"
    by simp
  then show ?case by (auto simp: count_kind_def)
next
  case (Cons h hs)
  from Cons.prems have ok: "git_hunk_ok h" and oks: "list_all git_hunk_ok hs" by simp_all
  obtain a1 b1 where one: "parse_lines (git_hunk h) (reading st f inside a b) =
      reading st (f\<lparr>cf_hunks := cf_hunks f @ [h],
                cf_additions := cf_additions f + kind_count DL_ADD (hk_lines h),
                cf_deletions := cf_deletions f + kind_count DL_DELETE (hk_lines h)\<rparr>) True a1 b1"
    using git_hunk_step [OF ok, of st f inside a b] by blast
  show ?case
    using Cons.IH [OF oks, of "f\<lparr>cf_hunks := cf_hunks f @ [h],
                cf_additions := cf_additions f + kind_count DL_ADD (hk_lines h),
                cf_deletions := cf_deletions f + kind_count DL_DELETE (hk_lines h)\<rparr>" True a1 b1]
    by (simp add: one count_kind_Cons add.assoc)
qed


subsection \<open>Reading a file\<close>

definition at_header :: "changed_file list \<Rightarrow> parse_state \<Rightarrow> bool" where
  "at_header fs st \<longleftrightarrow> close_file st = fs \<and> ps_warnings st = []"

definition git_fresh :: "changed_file \<Rightarrow> changed_file" where
  "git_fresh f = f\<lparr>cf_additions := 0, cf_deletions := 0, cf_hunks := []\<rparr>"

lemma git_path_strip: "git_path p \<Longrightarrow> py_strip p = p"
  by (rule py_strip_fixed) (auto simp: git_path_def)

lemma parse_marker_path_git:
  "git_path p \<Longrightarrow> parse_marker_path (''a/'' @ p) = Some p"
  "git_path p \<Longrightarrow> parse_marker_path (''b/'' @ p) = Some p"
  "parse_marker_path ''/dev/null'' = None"
proof -
  have strip: "py_strip (c # CHR ''/'' # p) = c # CHR ''/'' # p" if "git_path p" "\<not> py_space c" for c
    using that by (intro py_strip_fixed) (auto simp: git_path_def)
  show "git_path p \<Longrightarrow> parse_marker_path (''a/'' @ p) = Some p"
    "git_path p \<Longrightarrow> parse_marker_path (''b/'' @ p) = Some p"
    using strip [of "CHR ''a''"] strip [of "CHR ''b''"]
    by (simp_all add: parse_marker_path_def Let_def py_space_def)
  show "parse_marker_path ''/dev/null'' = None"
    by (simp add: parse_marker_path_def Let_def py_strip_fixed py_space_def)
qed

lemma file_line:
  "\<lbrakk>match_diff_header l = None; file_line_step False l f = Some f'\<rbrakk> \<Longrightarrow>
     parse_step l (reading st f False a b) = reading st f' False a b"
  by (simp add: parse_step_def reading_def)

lemma git_status_step:
  assumes "git_file f"
  shows "parse_lines (git_status_lines f)
      (reading st (new_changed_file (git_old_name f) (git_new_name f)) False a b) =
    reading st ((new_changed_file (git_old_name f) (git_new_name f))\<lparr>cf_status := cf_status f\<rparr>) False a b"
proof -
  have strip: "py_strip (git_old_name f) = git_old_name f" "py_strip (git_new_name f) = git_new_name f"
    using assms by (simp_all add: git_file_def git_path_strip)
  show ?thesis
    using assms by (cases "cf_status f")
      (simp_all add: git_status_lines_def file_line match_diff_header_def file_line_step_def
        new_changed_file_def rest_after_def remove_prefix_def strip)
qed

definition git_known :: "changed_file \<Rightarrow> changed_file" where
  "git_known f = (new_changed_file (git_old_name f) (git_new_name f))\<lparr>cf_status := cf_status f\<rparr>"

lemma git_marker_steps:
  assumes "git_file f" and "cf_hunks f \<noteq> []"
  shows "parse_lines (git_markers f) (reading st (git_known f) False a b) =
    reading st ((git_known f)\<lparr>cf_old_path := cf_old_path f, cf_new_path := cf_new_path f\<rparr>) False a b"
proof -
  have paths: "git_path (git_old_name f)" "git_path (git_new_name f)" and names: "git_names_ok f"
    using assms(1) by (simp_all add: git_file_def)
  have marks: "parse_marker_path (CHR ''a'' # CHR ''/'' # git_old_name f) = Some (git_old_name f)"
    "parse_marker_path (CHR ''b'' # CHR ''/'' # git_new_name f) = Some (git_new_name f)"
    using parse_marker_path_git(1) [OF paths(1)] parse_marker_path_git(2) [OF paths(2)] by simp_all
  show ?thesis
    using assms(2) names marks
    by (cases "cf_old_path f"; cases "cf_new_path f"; cases "cf_status f")
      (simp_all add: git_markers_def git_known_def git_names_ok_def file_line match_diff_header_def file_line_step_def
        new_changed_file_def parse_marker_path_git renamed_or_copied_def git_old_name_def git_new_name_def)
qed

lemma git_known_fresh:
  assumes "git_file f"
  shows "(git_known f)\<lparr>cf_old_path := cf_old_path f, cf_new_path := cf_new_path f\<rparr> = git_fresh f"
    and "cf_hunks f = [] \<Longrightarrow> git_known f = git_fresh f"
  using assms by (cases f; cases "cf_status f";
      auto simp: git_known_def git_file_def git_names_ok_def new_changed_file_def git_fresh_def
        git_old_name_def git_new_name_def)+

lemma git_head_step:
  assumes "git_file f" and "at_header fs st"
  shows "parse_lines ((''diff --git a/'' @ git_old_name f @ '' b/'' @ git_new_name f)
      # git_status_lines f @ git_markers f) st =
    reading (st\<lparr>ps_files := fs\<rparr>) (git_fresh f) False (ps_old_line st) (ps_new_line st)"
proof -
  let ?st = "st\<lparr>ps_files := fs\<rparr>"
  have old: "git_path (git_old_name f)"
    using assms(1) by (simp add: git_file_def)
  have head: "parse_step (''diff --git a/'' @ git_old_name f @ '' b/'' @ git_new_name f) st =
      reading ?st (new_changed_file (git_old_name f) (git_new_name f)) False (ps_old_line st) (ps_new_line st)"
    using assms(2) unfolding parse_step_def match_diff_header_git [OF old]
    by (simp add: at_header_def reading_def)
  show ?thesis
  proof (cases "cf_hunks f = []")
    case True
    then show ?thesis
      using git_known_fresh(2) [OF assms(1)]
      unfolding parse_lines_simps head git_status_step [OF assms(1)]
      by (simp add: git_markers_def git_known_def)
  next
    case False
    then show ?thesis
      unfolding parse_lines_simps head git_status_step [OF assms(1)]
      using git_marker_steps [OF assms(1) False] git_known_fresh(1) [OF assms(1)]
      by (simp add: git_known_def)
  qed
qed

lemma git_file_step:
  assumes "git_file f" and "at_header fs st"
  shows "at_header (fs @ [f]) (parse_lines (git_file_lines f) st)"
proof -
  let ?st = "st\<lparr>ps_files := fs\<rparr>"
  have oks: "list_all git_hunk_ok (cf_hunks f)" using assms(1) by (simp add: git_file_def)
  obtain i a b where "parse_lines (git_file_lines f) st =
      reading ?st ((git_fresh f)\<lparr>cf_hunks := cf_hunks f, cf_additions := count_kind DL_ADD (cf_hunks f),
        cf_deletions := count_kind DL_DELETE (cf_hunks f)\<rparr>) i a b"
    using git_hunks_step [OF oks, of ?st "git_fresh f" False "ps_old_line st" "ps_new_line st"]
      git_head_step [OF assms]
    by (auto simp: git_file_lines_def git_fresh_def)
  moreover have "(git_fresh f)\<lparr>cf_hunks := cf_hunks f, cf_additions := count_kind DL_ADD (cf_hunks f),
        cf_deletions := count_kind DL_DELETE (cf_hunks f)\<rparr> = f"
    using assms(1) by (cases f) (simp add: git_fresh_def git_file_def file_counted_def)
  ultimately show ?thesis
    using assms(2) by (simp add: at_header_def close_file_def reading_def)
qed

lemma git_files_step:
  "\<lbrakk>list_all git_file gs; at_header fs st\<rbrakk> \<Longrightarrow>
     at_header (fs @ gs) (parse_lines (concat (map git_file_lines gs)) st)"
proof (induction gs arbitrary: fs st)
  case (Cons g gs)
  then show ?case using Cons.IH [OF _ git_file_step [of g fs st]] by simp
qed simp

subsection \<open>The text as lines\<close>

lemma one_line_simps [simp]:
  "one_line []"
  "one_line (c # s) \<longleftrightarrow> \<not> line_break c \<and> one_line s"
  "one_line (s @ t) \<longleftrightarrow> one_line s \<and> one_line t"
  by (simp_all add: one_line_def)

lemma digit_not_break: "py_digit c \<Longrightarrow> \<not> line_break c"
  by (auto simp: py_digit_def line_break_def Let_def)

lemma one_line_str_nat [simp]: "one_line (str_nat n)"
  using str_nat_digits [of n] digit_not_break by (auto simp: one_line_def list_all_iff)

lemma one_line_git_file: "git_file f \<Longrightarrow> list_all one_line (git_file_lines f)"
proof -
  assume f: "git_file f"
  have paths: "one_line (git_old_name f)" "one_line (git_new_name f)"
    using f by (simp_all add: git_file_def git_path_def)
  have hunks: "one_line (git_hunk_header h) \<and> list_all one_line (map git_line (hk_lines h))"
    if "h \<in> set (cf_hunks f)" for h
    using f that by (auto simp: git_file_def git_hunk_ok_def git_hunk_header_def git_line_def list_all_iff
        line_break_def split: diff_line_kind.splits)
  have "list_all one_line (git_status_lines f)"
    using paths by (auto simp: git_status_lines_def line_break_def split: file_status.splits)
  moreover have "list_all one_line (git_markers f)"
    using paths by (auto simp: git_markers_def line_break_def git_old_name_def git_new_name_def
        split: option.splits)
  moreover have "list_all one_line (concat (map git_hunk (cf_hunks f)))"
    using hunks by (auto simp: git_hunk_def list_all_iff)
  ultimately show ?thesis
    using paths by (simp add: git_file_lines_def line_break_def)
qed

lemma split_lines_git_diff:
  "list_all git_file fs \<Longrightarrow> split_lines (git_diff fs) = concat (map git_file_lines fs)"
  unfolding git_diff_def using one_line_git_file
  by (intro split_lines_unlines) (auto simp: list_all_iff)



text \<open>A renamed file with a two-line hunk, and an empty new file.\<close>

definition sample_files :: "changed_file list" where
  "sample_files =
    [(new_changed_file ''a.py'' ''new name.py'')\<lparr>cf_status := ST_RENAMED, cf_additions := 1, cf_deletions := 1,
       cf_hunks := [(new_hunk 3 (Some 1) 3 (Some 1) ''def f():'')\<lparr>hk_lines :=
         [\<lparr>dl_kind = DL_DELETE, dl_content = ''  x = 1'', dl_old_line = Some 3, dl_new_line = None\<rparr>,
          \<lparr>dl_kind = DL_ADD, dl_content = ''-- y'', dl_old_line = None, dl_new_line = Some 3\<rparr>]\<rparr>]\<rparr>,
     (new_changed_file ''e.txt'' ''e.txt'')\<lparr>cf_status := ST_ADDED\<rparr>]"

lemma sample_files_ok: "list_all git_file sample_files"
  by (simp add: sample_files_def git_file_def new_changed_file_def git_names_ok_def git_old_name_def
      git_new_name_def git_path_def line_break_def py_space_def Let_def file_counted_def count_kind_def
      hunk_numbered_def new_hunk_def git_hunk_ok_def)


text \<open>C2: Whatever the text, every parsed file counts exactly the added and deleted lines of its
  hunks, every hunk numbers its lines consecutively from its two starts, and the totals of the
  summary are the sums over the files.\<close>

theorem parse_unified_diff_counted:
  "list_all file_counted (dsum_files (parse_unified_diff text mode base))
   \<and> ds_additions (dsum_stats (parse_unified_diff text mode base)) =
       (\<Sum>f\<leftarrow>dsum_files (parse_unified_diff text mode base). count_kind DL_ADD (cf_hunks f))
   \<and> ds_deletions (dsum_stats (parse_unified_diff text mode base)) =
       (\<Sum>f\<leftarrow>dsum_files (parse_unified_diff text mode base). count_kind DL_DELETE (cf_hunks f))"
proof -
  let ?fs = "close_file (parse_lines (split_lines text) initial_parse_state)"
  have counted: "list_all file_counted ?fs"
    by (rule close_file_counted [OF parse_lines_inv [OF initial_parse_inv]])
  then have "(\<Sum>f\<leftarrow>?fs. count_kind DL_ADD (cf_hunks f)) = sum_list (map cf_additions ?fs)"
    "(\<Sum>f\<leftarrow>?fs. count_kind DL_DELETE (cf_hunks f)) = sum_list (map cf_deletions ?fs)"
    by (intro arg_cong [where f = sum_list] map_cong; auto simp: list_all_iff file_counted_def)+
  with counted show ?thesis
    by (simp add: parse_unified_diff_def Let_def)
qed

subsection \<open>Line boundaries that are not newlines\<close>

lemma lines_from_break:
  "\<lbrakk>one_line l; line_break c; c \<noteq> CHR 0x0D\<rbrakk> \<Longrightarrow>
     lines_from False acc (l @ c # rest) = (rev acc @ l) # lines_from False [] rest"
  by (induction l arbitrary: acc) (auto simp: line_break_def Let_def)

lemma str_nat_0: "str_nat 0 = ''0''" and str_nat_1: "str_nat (Suc 0) = ''1''"
  by (code_simp, code_simp)

text \<open>A new one-line file whose only line holds a form feed followed by a plus sign.\<close>

definition form_feed_file :: "string \<Rightarrow> string \<Rightarrow> changed_file" where
  "form_feed_file s t = (new_changed_file ''p'' ''p'')\<lparr>cf_status := ST_ADDED, cf_old_path := None,
     cf_additions := 1, cf_hunks := [(new_hunk 0 (Some 0) 1 (Some 1) [])\<lparr>hk_lines :=
       [\<lparr>dl_kind = DL_ADD, dl_content = s @ CHR 0x0C # CHR ''+'' # t,
         dl_old_line = None, dl_new_line = Some 1\<rparr>]\<rparr>]\<rparr>"

text \<open>The parser splits the diff with \<open>str.splitlines()\<close>, which also breaks at form feeds and
  other separators that git does not end lines with: one added line holding a form feed before
  a plus sign is read as two added lines with consecutive numbers.\<close>

theorem form_feed_splits_line:
  assumes "one_line s" and "one_line t"
  shows "map (\<lambda>f. (cf_additions f, map (\<lambda>l. (dl_content l, dl_new_line l)) (concat (map hk_lines (cf_hunks f)))))
      (dsum_files (parse_unified_diff (git_diff [form_feed_file s t]) mode base)) =
    [(2, [(s, Some 1), (t, Some 2)])]"
proof -
  let ?head = "[''diff --git a/p b/p'', ''new file mode 100644'', ''--- /dev/null'', ''+++ b/p'', ''@@ -0,0 +1,1 @@'']"
  let ?f = "form_feed_file s t"
  have lines: "git_file_lines ?f = ?head @ [CHR ''+'' # s @ CHR 0x0C # CHR ''+'' # t]"
    by (simp add: git_file_lines_def form_feed_file_def new_changed_file_def git_old_name_def git_new_name_def
        git_status_lines_def git_markers_def git_hunk_def git_hunk_header_def new_hunk_def git_line_def
        str_nat_0 str_nat_1)
  have "lines_from False [] (CHR ''+'' # s @ CHR 0x0C # CHR ''+'' # t @ [CHR 0x0A]) = [CHR ''+'' # s, CHR ''+'' # t]"
    using lines_from_break [of "CHR ''+'' # s" "CHR 0x0C" "[]" "CHR ''+'' # t @ [CHR 0x0A]"]
      lines_from_break [of "CHR ''+'' # t" "CHR 0x0A" "[]" "[]"] assms
    by (simp add: line_break_def)
  then have split: "split_lines (git_diff [?f]) = ?head @ [CHR ''+'' # s, CHR ''+'' # t]"
    by (simp add: git_diff_def lines split_lines_def unlines_def line_break_def)
  have "close_file (parse_lines (split_lines (git_diff [?f])) initial_parse_state) =
    [(new_changed_file ''p'' ''p'')\<lparr>cf_status := ST_ADDED, cf_old_path := None, cf_additions := 2,
       cf_hunks := [(new_hunk 0 (Some 0) 1 (Some 1) [])\<lparr>hk_lines :=
       [\<lparr>dl_kind = DL_ADD, dl_content = s, dl_old_line = None, dl_new_line = Some 1\<rparr>,
        \<lparr>dl_kind = DL_ADD, dl_content = t, dl_old_line = None, dl_new_line = Some 2\<rparr>]\<rparr>]\<rparr>]"
    unfolding split
    by (simp add: parse_step_def initial_parse_state_def close_file_def match_diff_header_def file_line_step_def
        new_changed_file_def parse_marker_path_def py_strip_def py_lstrip_def py_rstrip_def py_space_def
        match_hunk_def expect_def read_number_def read_count_def py_digit_def nat_of_digits_def digit_val_def
        new_hunk_def hunk_line_step_def append_line_def Let_def remove_prefix_def renamed_or_copied_def)
  then show ?thesis by (simp add: parse_unified_diff_def Let_def new_hunk_def)
qed

lemma form_feed_splits_line_witness:
  "map cf_additions (dsum_files (parse_unified_diff (git_diff [form_feed_file ''x'' ''y'']) TM_WORKTREE None)) = [2]"
  using form_feed_splits_line [of "''x''" "''y''" TM_WORKTREE None]
  by (auto simp: line_break_def map_eq_Cons_conv)

end
