(* ===== verification/Risk.thy ===== *)
theory Risk
  imports Diff_Parser
begin

section \<open>Project risk policy and line anchors\<close>

text \<open>
  \<open>src/apex_ray/risk.py\<close>: the score of a signal, the anchor of a changed line in the new file and
  the project rules that attach signals to a changed file. A hunk is its position in the file
  (the code appends to the hunk object). The lemmas show that an anchor is a line the hunk
  shows, and that the rules do not influence each other: each adds what it adds on the file as
  it was, in rule order.
\<close>

subsection \<open>Scores\<close>

primrec severity_score :: "risk_severity \<Rightarrow> int" where
  "severity_score RS_CRITICAL = 100"
| "severity_score RS_HIGH = 75"
| "severity_score RS_MEDIUM = 45"
| "severity_score RS_LOW = 20"

definition risk_signal_score :: "risk_signal \<Rightarrow> int" where
  "risk_signal_score s =
     (if rs_source s = ''project'' then rs_score s
      else if rs_score s \<noteq> 0 then rs_score s
      else severity_score (rs_severity s))"

lemma severity_score_bounds: "0 \<le> severity_score s \<and> severity_score s \<le> 100"
  by (cases s) simp_all

lemma risk_signal_score_bounds:
  "valid_risk_signal s \<Longrightarrow> 0 \<le> risk_signal_score s \<and> risk_signal_score s \<le> 100"
  using severity_score_bounds [of "rs_severity s"]
  by (simp add: valid_risk_signal_def risk_signal_score_def)

subsection \<open>The anchor of a changed line\<close>

fun first_new_line :: "diff_line list \<Rightarrow> int option" where
  "first_new_line [] = None"
| "first_new_line (l # ls) = (case dl_new_line l of Some n \<Rightarrow> Some n | None \<Rightarrow> first_new_line ls)"

definition current_line_anchor :: "changed_hunk \<Rightarrow> nat \<Rightarrow> int" where
  "current_line_anchor h i = (case dl_new_line (hk_lines h ! i) of Some n \<Rightarrow> n
     | None \<Rightarrow> (case first_new_line (drop (i + 1) (hk_lines h)) of Some n \<Rightarrow> n
        | None \<Rightarrow> (case first_new_line (rev (take i (hk_lines h))) of Some n \<Rightarrow> n
           | None \<Rightarrow> hk_new_start h)))"

lemma first_new_line_Some: "first_new_line ls = Some n \<Longrightarrow> \<exists>l\<in>set ls. dl_new_line l = Some n"
  by (induction ls) (auto split: option.splits)

lemma numbered_new_line:
  "\<lbrakk>numbered a b ls; l \<in> set ls; dl_new_line l = Some n\<rbrakk> \<Longrightarrow> b \<le> n \<and> n < b + new_span ls"
proof (induction ls arbitrary: a b)
  case (Cons x xs)
  have span: "new_span (x # xs) = (if dl_kind x = DL_DELETE then 0 else 1) + new_span xs"
    by (simp add: new_span_def)
  have pos: "0 \<le> new_span xs" by (simp add: new_span_def)
  show ?case
  proof (cases "l = x")
    case True
    with Cons.prems pos span show ?thesis by (cases "dl_kind x") auto
  next
    case False
    with Cons show ?thesis
      by (cases "dl_kind x") (fastforce simp: span)+
  qed
qed simp

lemma numbered_no_new_line:
  "\<lbrakk>numbered a b ls; \<forall>l\<in>set ls. dl_new_line l = None\<rbrakk> \<Longrightarrow> new_span ls = 0"
  by (induction ls arbitrary: a b) (auto simp: new_span_def split: diff_line_kind.splits)

lemma first_new_line_None: "first_new_line ls = None \<longleftrightarrow> (\<forall>l\<in>set ls. dl_new_line l = None)"
  by (induction ls) (auto split: option.splits)

lemma anchor_source:
  "i < length (hk_lines h) \<Longrightarrow>
     (\<exists>l\<in>set (hk_lines h). dl_new_line l = Some (current_line_anchor h i))
     \<or> (\<forall>l\<in>set (hk_lines h). dl_new_line l = None) \<and> current_line_anchor h i = hk_new_start h"
proof -
  assume i: "i < length (hk_lines h)"
  have split: "set (hk_lines h) = set (take i (hk_lines h)) \<union> {hk_lines h ! i} \<union> set (drop (i + 1) (hk_lines h))"
    using id_take_nth_drop [OF i] by (metis Un_commute Un_insert_right append.assoc list.simps(15) set_append
        Suc_eq_plus1 sup_bot_right)
  show ?thesis
    unfolding current_line_anchor_def split
    by (auto split: option.splits dest!: first_new_line_Some simp: first_new_line_None)
qed

subsection \<open>Project rules\<close>

definition rule_filters_match :: "risk_rule \<Rightarrow> changed_file \<Rightarrow> bool" where
  "rule_filters_match r f \<longleftrightarrow>
     (rk_paths r \<noteq> [] \<longrightarrow> path_matches_any (cf_path f) (rk_paths r))
     \<and> \<not> (rk_exclude_paths r \<noteq> [] \<and> path_matches_any (cf_path f) (rk_exclude_paths r))
     \<and> (rk_languages r \<noteq> [] \<longrightarrow> cf_language f \<in> set (rk_languages r))
     \<and> (rk_file_kinds r \<noteq> [] \<longrightarrow> cf_file_kind f \<in> set (rk_file_kinds r))
     \<and> (rk_statuses r = [] \<or> cf_status f \<in> set (rk_statuses r))"

definition rule_tokens :: "risk_rule \<Rightarrow> string list" where
  "rule_tokens r = map py_casefold (filter (\<lambda>t. t \<noteq> []) (rk_text r))"

definition line_has_token :: "string list \<Rightarrow> diff_line \<Rightarrow> bool" where
  "line_has_token tokens l \<longleftrightarrow> dl_kind l \<noteq> DL_CONTEXT
     \<and> list_ex (\<lambda>t. str_in t (py_casefold (dl_content l))) tokens"

text \<open>The inner loop: the anchors of the matching lines of one hunk, each once.\<close>

definition hunk_anchors :: "string list \<Rightarrow> changed_hunk \<Rightarrow> int list" where
  "hunk_anchors tokens h = uniq (map (current_line_anchor h)
     (filter (\<lambda>i. line_has_token tokens (hk_lines h ! i)) [0..<length (hk_lines h)]))"

definition matched_changed_lines :: "risk_rule \<Rightarrow> changed_file \<Rightarrow> (nat \<times> int) list" where
  "matched_changed_lines r f =
     (if rk_text r = [] then []
      else concat (map (\<lambda>i. map (\<lambda>a. (i, a)) (hunk_anchors (rule_tokens r) (cf_hunks f ! i)))
             [0..<length (cf_hunks f)]))"

definition signal_for_rule :: "risk_rule \<Rightarrow> changed_file \<Rightarrow> int option \<Rightarrow> risk_signal" where
  "signal_for_rule r f line = \<lparr>
     rs_kind = ''policy:'' @ rk_id r,
     rs_severity = rk_severity r,
     rs_reason = ''Project risk policy matched: '' @ (if rk_title r \<noteq> [] then rk_title r else rk_id r) @ ''.'',
     rs_file = cf_path f,
     rs_line = line,
     rs_score = (case rk_score r of Some s \<Rightarrow> s | None \<Rightarrow> severity_score (rk_severity r)),
     rs_source = ''project'',
     rs_rule_id = Some (rk_id r),
     rs_categories = rk_categories r,
     rs_reviewer_tags = rk_reviewer_tags r,
     rs_guidance = rk_guidance r\<rparr>"

text \<open>\<open>hunk.risk_signals.append(signal)\<close> for the hunk at a position.\<close>

definition add_hunk_signal :: "nat \<Rightarrow> risk_signal \<Rightarrow> changed_file \<Rightarrow> changed_file" where
  "add_hunk_signal i s f = f\<lparr>cf_hunks := (cf_hunks f)[i :=
     (cf_hunks f ! i)\<lparr>hk_risk_signals := hk_risk_signals (cf_hunks f ! i) @ [s]\<rparr>]\<rparr>"

definition add_file_signal :: "risk_signal \<Rightarrow> changed_file \<Rightarrow> changed_file" where
  "add_file_signal s f = f\<lparr>cf_risk_signals := cf_risk_signals f @ [s]\<rparr>"

definition apply_risk_rule :: "string list \<Rightarrow> risk_rule \<Rightarrow> changed_file \<Rightarrow> changed_file" where
  "apply_risk_rule built_in r f =
     (if \<not> rule_filters_match r f then f
      else let matched = matched_changed_lines r f;
               risk_triggered = rk_risk r \<noteq> [] \<and> list_ex (\<lambda>k. k \<in> set built_in) (rk_risk r);
               has_triggers = rk_text r \<noteq> [] \<or> rk_risk r \<noteq> []
           in if has_triggers \<and> matched = [] \<and> \<not> risk_triggered then f
              else if matched \<noteq> [] then
                fold (\<lambda>(i, line) g. let s = signal_for_rule r g (Some line)
                        in add_hunk_signal i s (add_file_signal s g)) matched f
              else add_file_signal (signal_for_rule r f None) f)"

definition built_in_risks :: "changed_file \<Rightarrow> string list" where
  "built_in_risks f = map rs_kind (filter (\<lambda>s. rs_source s = ''built_in'') (cf_risk_signals f))"

definition apply_project_risk_policy :: "risk_config \<Rightarrow> changed_file \<Rightarrow> changed_file" where
  "apply_project_risk_policy cfg f =
     (let built_in = built_in_risks f in fold (apply_risk_rule built_in) (rcfg_rules cfg) f)"

subsection \<open>The rules do not see each other's signals\<close>

text \<open>Everything of a file but its signals.\<close>

definition bare_hunk :: "changed_hunk \<Rightarrow> changed_hunk" where
  "bare_hunk h = h\<lparr>hk_risk_signals := []\<rparr>"

definition bare_file :: "changed_file \<Rightarrow> changed_file" where
  "bare_file f = f\<lparr>cf_risk_signals := [], cf_hunks := map bare_hunk (cf_hunks f)\<rparr>"

lemma bare_hunk_simps [simp]:
  "hk_lines (bare_hunk h) = hk_lines h" "hk_new_start (bare_hunk h) = hk_new_start h"
  by (simp_all add: bare_hunk_def)

lemma bare_file_simps [simp]:
  "cf_old_path (bare_file f) = cf_old_path f" "cf_new_path (bare_file f) = cf_new_path f"
  "cf_language (bare_file f) = cf_language f" "cf_file_kind (bare_file f) = cf_file_kind f"
  "cf_status (bare_file f) = cf_status f"
  by (simp_all add: bare_file_def)

lemma current_line_anchor_bare [simp]: "current_line_anchor (bare_hunk h) = current_line_anchor h"
  by (rule ext) (simp add: current_line_anchor_def split: option.split)

lemma hunk_anchors_bare: "hunk_anchors ts (bare_hunk h) = hunk_anchors ts h"
  by (simp add: hunk_anchors_def)

lemma cf_path_bare [simp]: "cf_path (bare_file f) = cf_path f"
  by (simp add: cf_path_def split: option.split)

lemma rule_filters_match_bare: "rule_filters_match r (bare_file f) = rule_filters_match r f"
  by (simp add: rule_filters_match_def)

lemma matched_changed_lines_bare: "matched_changed_lines r (bare_file f) = matched_changed_lines r f"
  by (auto simp: matched_changed_lines_def bare_file_def hunk_anchors_bare
      intro!: arg_cong [where f = concat] map_cong)

lemma signal_for_rule_bare: "signal_for_rule r (bare_file f) l = signal_for_rule r f l"
  by (simp add: signal_for_rule_def)

lemmas rule_bare = rule_filters_match_bare matched_changed_lines_bare signal_for_rule_bare

lemma bare_file_add [simp]:
  "bare_file (add_file_signal s f) = bare_file f"
  by (simp add: add_file_signal_def bare_file_def)

lemma bare_file_add_hunk [simp]: "bare_file (add_hunk_signal i s f) = bare_file f"
proof -
  have "map bare_hunk ((cf_hunks f)[i := (cf_hunks f ! i)\<lparr>hk_risk_signals := hk_risk_signals (cf_hunks f ! i) @ [s]\<rparr>]) =
      map bare_hunk (cf_hunks f)"
    by (cases "i < length (cf_hunks f)")
      (auto simp: bare_hunk_def map_update intro!: nth_equalityI simp: nth_list_update)
  then show ?thesis by (simp add: bare_file_def add_hunk_signal_def)
qed

text \<open>What a rule adds: a signal, with the hunk it is also put on.\<close>

type_synonym addition = "nat option \<times> risk_signal"

definition attach_signal :: "addition \<Rightarrow> changed_file \<Rightarrow> changed_file" where
  "attach_signal a f = (case fst a of
      None \<Rightarrow> add_file_signal (snd a) f
    | Some i \<Rightarrow> add_hunk_signal i (snd a) (add_file_signal (snd a) f))"

definition rule_fires :: "string list \<Rightarrow> risk_rule \<Rightarrow> changed_file \<Rightarrow> bool" where
  "rule_fires built_in r f \<longleftrightarrow> rule_filters_match r f
     \<and> ((rk_text r = [] \<and> rk_risk r = []) \<or> matched_changed_lines r f \<noteq> []
        \<or> set (rk_risk r) \<inter> set built_in \<noteq> {})"

definition rule_additions :: "string list \<Rightarrow> changed_file \<Rightarrow> risk_rule \<Rightarrow> addition list" where
  "rule_additions built_in f r =
     (if \<not> rule_fires built_in r f then []
      else if matched_changed_lines r f = [] then [(None, signal_for_rule r f None)]
      else map (\<lambda>(i, a). (Some i, signal_for_rule r f (Some a))) (matched_changed_lines r f))"

lemma bare_file_attach [simp]: "bare_file (attach_signal a f) = bare_file f"
  by (simp add: attach_signal_def split: option.splits)

lemma bare_file_attach_all [simp]: "bare_file (fold attach_signal as f) = bare_file f"
  by (induction as arbitrary: f) simp_all

lemma signal_for_rule_cong: "bare_file f = bare_file g \<Longrightarrow> signal_for_rule r f l = signal_for_rule r g l"
  by (metis signal_for_rule_bare)

lemma fold_attach_matched:
  "bare_file g = bare_file f \<Longrightarrow>
   fold (\<lambda>(i, line) g. let s = signal_for_rule r g (Some line)
           in add_hunk_signal i s (add_file_signal s g)) ms g =
   fold attach_signal (map (\<lambda>(i, a). (Some i, signal_for_rule r f (Some a))) ms) g"
proof (induction ms arbitrary: g)
  case (Cons m ms)
  then show ?case
    using signal_for_rule_cong [OF Cons.prems] by (cases m) (simp add: attach_signal_def Let_def)
qed simp

lemma apply_risk_rule_additions:
  "apply_risk_rule built_in r f = fold attach_signal (rule_additions built_in f r) f"
proof (cases "rule_fires built_in r f")
  case True
  then show ?thesis
    using fold_attach_matched [of f f r "matched_changed_lines r f"]
    by (auto simp: apply_risk_rule_def rule_additions_def rule_fires_def attach_signal_def list_ex_iff Let_def)
next
  case False
  then show ?thesis
    by (auto simp: apply_risk_rule_def rule_additions_def rule_fires_def list_ex_iff Let_def)
qed

lemma rule_additions_cong:
  "bare_file f = bare_file g \<Longrightarrow> rule_additions built_in f r = rule_additions built_in g r"
proof -
  have "rule_additions built_in (bare_file h) r = rule_additions built_in h r" for h
    by (simp add: rule_additions_def rule_fires_def rule_bare)
  then show "bare_file f = bare_file g \<Longrightarrow> rule_additions built_in f r = rule_additions built_in g r"
    by metis
qed

lemma fold_rules_additions:
  "bare_file g = bare_file f \<Longrightarrow>
   fold (apply_risk_rule built_in) rs g = fold attach_signal (concat (map (rule_additions built_in f) rs)) g"
proof (induction rs arbitrary: g)
  case (Cons r rs)
  have "bare_file (apply_risk_rule built_in r g) = bare_file f"
    using Cons.prems by (simp add: apply_risk_rule_additions)
  then show ?case
    using Cons.IH rule_additions_cong [OF Cons.prems, of built_in r]
    by (simp add: apply_risk_rule_additions)
qed simp

lemma attach_file_signals: "cf_risk_signals (fold attach_signal as f) = cf_risk_signals f @ map snd as"
  by (induction as arbitrary: f)
    (auto simp: attach_signal_def add_file_signal_def add_hunk_signal_def split: option.splits)

lemma attach_hunks_length: "length (cf_hunks (fold attach_signal as f)) = length (cf_hunks f)"
  by (induction as arbitrary: f)
    (auto simp: attach_signal_def add_file_signal_def add_hunk_signal_def split: option.splits)

lemma attach_hunk_signals:
  "i < length (cf_hunks f) \<Longrightarrow>
   hk_risk_signals (cf_hunks (fold attach_signal as f) ! i) =
   hk_risk_signals (cf_hunks f ! i) @ map snd (filter (\<lambda>a. fst a = Some i) as)"
proof (induction as arbitrary: f)
  case (Cons a as)
  have "i < length (cf_hunks (attach_signal a f))"
    using Cons.prems attach_hunks_length [of "[a]" f] by simp
  moreover have "hk_risk_signals (cf_hunks (attach_signal a f) ! i) =
      hk_risk_signals (cf_hunks f ! i) @ (if fst a = Some i then [snd a] else [])"
    using Cons.prems
    by (auto simp: attach_signal_def add_file_signal_def add_hunk_signal_def nth_list_update split: option.splits)
  ultimately show ?case using Cons.IH by simp
qed simp

definition policy_additions :: "risk_config \<Rightarrow> changed_file \<Rightarrow> addition list" where
  "policy_additions cfg f = concat (map (rule_additions (built_in_risks f) f) (rcfg_rules cfg))"

lemma policy_as_additions: "apply_project_risk_policy cfg f = fold attach_signal (policy_additions cfg f) f"
  by (simp add: apply_project_risk_policy_def policy_additions_def fold_rules_additions Let_def)

text \<open>C26: The project risk rules do not interact. Applying them one after the other, each on the
  file the earlier ones changed, appends to the file exactly what each rule finds on the file as
  it was given, in rule order; every hunk gets exactly the signals anchored in it; and nothing
  but the signals changes.\<close>

theorem apply_project_risk_policy_additions:
  "cf_risk_signals (apply_project_risk_policy cfg f) = cf_risk_signals f @ map snd (policy_additions cfg f)
   \<and> map hk_risk_signals (cf_hunks (apply_project_risk_policy cfg f)) =
       map (\<lambda>(i, h). hk_risk_signals h @ map snd (filter (\<lambda>a. fst a = Some i) (policy_additions cfg f)))
         (indexed (cf_hunks f))
   \<and> bare_file (apply_project_risk_policy cfg f) = bare_file f"
proof (intro conjI)
  let ?g = "fold attach_signal (policy_additions cfg f) f"
  show "map hk_risk_signals (cf_hunks (apply_project_risk_policy cfg f)) =
       map (\<lambda>(i, h). hk_risk_signals h @ map snd (filter (\<lambda>a. fst a = Some i) (policy_additions cfg f)))
         (indexed (cf_hunks f))"
    by (rule nth_equalityI)
      (simp_all add: policy_as_additions attach_hunks_length attach_hunk_signals indexed_def)
qed (simp_all add: policy_as_additions attach_file_signals)

text \<open>Who fires, and the validity of what is added.\<close>

lemma rule_additions_empty: "rule_additions built_in f r = [] \<longleftrightarrow> \<not> rule_fires built_in r f"
  by (simp add: rule_additions_def)

lemma signal_for_rule_valid: "valid_risk_rule r \<Longrightarrow> valid_risk_signal (signal_for_rule r f l)"
  using severity_score_bounds [of "rk_severity r"]
  by (auto simp: valid_risk_rule_def valid_risk_signal_def signal_for_rule_def split: option.splits)

lemma rule_addition_rule:
  "a \<in> set (rule_additions built_in f r) \<Longrightarrow> rs_rule_id (snd a) = Some (rk_id r)"
  by (auto simp: rule_additions_def signal_for_rule_def split: if_splits)

text \<open>A project rule marks a file exactly when it fires there: its filters match and it has no
  trigger, or a changed line contains one of its texts, or a built-in risk it names was found on
  the file. So a rule id occurs among the added signals if and only if some rule with that id
  fires.\<close>

theorem policy_marks_iff_rule_fires:
  "Some k \<in> set (map (rs_rule_id \<circ> snd) (policy_additions cfg f)) \<longleftrightarrow>
     (\<exists>r\<in>set (rcfg_rules cfg). rk_id r = k \<and> rule_fires (built_in_risks f) r f)"
proof
  assume "Some k \<in> set (map (rs_rule_id \<circ> snd) (policy_additions cfg f))"
  then obtain r a where "r \<in> set (rcfg_rules cfg)" "a \<in> set (rule_additions (built_in_risks f) f r)"
    "rs_rule_id (snd a) = Some k"
    by (auto simp: policy_additions_def)
  moreover from this have "rule_additions (built_in_risks f) f r \<noteq> []" by auto
  ultimately show "\<exists>r\<in>set (rcfg_rules cfg). rk_id r = k \<and> rule_fires (built_in_risks f) r f"
    using rule_addition_rule rule_additions_empty by fastforce
next
  assume "\<exists>r\<in>set (rcfg_rules cfg). rk_id r = k \<and> rule_fires (built_in_risks f) r f"
  then obtain r where r: "r \<in> set (rcfg_rules cfg)" "rk_id r = k" "rule_additions (built_in_risks f) f r \<noteq> []"
    using rule_additions_empty by blast
  then obtain a where "a \<in> set (rule_additions (built_in_risks f) f r)" by (metis last_in_set)
  with r(1) have "a \<in> set (policy_additions cfg f)"
    by (auto simp: policy_additions_def)
  moreover have "Some k = rs_rule_id (snd a)"
    using rule_addition_rule [OF \<open>a \<in> set (rule_additions (built_in_risks f) f r)\<close>] r(2) by simp
  ultimately show "Some k \<in> set (map (rs_rule_id \<circ> snd) (policy_additions cfg f))"
    unfolding set_map by (intro image_eqI [of _ _ a]) simp_all
qed

text \<open>An anchor is a line of the new file that the hunk shows. For any text, every changed line
  of every parsed hunk is anchored between the hunk's new start and the last new line it shows;
  only a hunk that shows no new line at all anchors at its new start.\<close>

theorem current_line_anchor_shown:
  assumes "f \<in> set (dsum_files (parse_unified_diff text mode base))"
    and "h \<in> set (cf_hunks f)" and "i < length (hk_lines h)"
  shows "hk_new_start h \<le> current_line_anchor h i
    \<and> current_line_anchor h i < hk_new_start h + max 1 (new_span (hk_lines h))"
proof -
  have "list_all file_counted (dsum_files (parse_unified_diff text mode base))"
    using close_file_counted [OF parse_lines_inv [OF initial_parse_inv]]
    by (simp add: parse_unified_diff_def Let_def)
  with assms have num: "numbered (hk_old_start h) (hk_new_start h) (hk_lines h)"
    by (auto simp: list_all_iff file_counted_def hunk_numbered_def)
  from anchor_source [OF assms(3)] show ?thesis
    using numbered_new_line [OF num] by fastforce
qed

lemma current_line_anchor_shown_witness:
  "\<exists>f h. f \<in> set (dsum_files (parse_unified_diff (unlines [''diff --git a/p b/p'', ''@@ -4,2 +4,1 @@'', ''-x'', '' y'']) TM_PATCH None))
     \<and> h \<in> set (cf_hunks f) \<and> hk_new_start h \<le> current_line_anchor h 0
     \<and> current_line_anchor h 0 < hk_new_start h + max 1 (new_span (hk_lines h))"
proof -
  let ?h = "(new_hunk 4 (Some 2) 4 (Some 1) [])\<lparr>hk_lines :=
      [\<lparr>dl_kind = DL_DELETE, dl_content = ''x'', dl_old_line = Some 4, dl_new_line = None\<rparr>,
       \<lparr>dl_kind = DL_CONTEXT, dl_content = ''y'', dl_old_line = Some 5, dl_new_line = Some 4\<rparr>]\<rparr>"
  let ?f = "(new_changed_file ''p'' ''p'')\<lparr>cf_deletions := 1, cf_hunks := [?h]\<rparr>"
  have "dsum_files (parse_unified_diff (unlines [''diff --git a/p b/p'', ''@@ -4,2 +4,1 @@'', ''-x'', '' y'']) TM_PATCH None) = [?f]"
    by (simp add: parse_unified_diff_def split_lines_unlines one_line_def line_break_def
        parse_step_def initial_parse_state_def close_file_def match_diff_header_def file_line_step_def
        new_changed_file_def parse_lines_def match_hunk_def expect_def read_number_def read_count_def
        py_digit_def nat_of_digits_def digit_val_def remove_prefix_def
        new_hunk_def hunk_line_step_def append_line_def Let_def)
  then have "?f \<in> set (dsum_files (parse_unified_diff (unlines [''diff --git a/p b/p'', ''@@ -4,2 +4,1 @@'', ''-x'', '' y'']) TM_PATCH None))"
    "?h \<in> set (cf_hunks ?f)" "0 < length (hk_lines ?h)"
    by simp_all
  from this(1,2) current_line_anchor_shown [OF this] show ?thesis by blast
qed

end
