(* ===== verification/Classify.thy ===== *)
theory Classify
  imports Risk
begin

section \<open>Classification of changed files and built-in risk signals\<close>

text \<open>
  \<open>src/apex_ray/classify.py\<close>: language and kind of a path, ignore patterns, the keyword tables and
  the built-in risk signals, and \<open>classify_diff\<close>, which runs them over a diff and then applies
  the project rules of \<open>risk.py\<close>. The language table is \<open>discovery.py\<close>'s. The code mutates the
  files and hunks of the diff in place; here each step returns the changed file.
\<close>

subsection \<open>Tables\<close>

type_synonym risk_entry = "string \<times> risk_severity \<times> string list \<times> string"

definition lockfile_names :: "string list" where
  "lockfile_names = [
     ''package-lock.json'', ''npm-shrinkwrap.json'', ''yarn.lock'', ''pnpm-lock.yaml'',
     ''bun.lockb'', ''poetry.lock'', ''pdm.lock'', ''pipfile.lock'', ''cargo.lock'',
     ''go.sum'', ''uv.lock'']"

definition dependency_config_names :: "string list" where
  "dependency_config_names = [
     ''package.json'', ''pyproject.toml'', ''cargo.toml'', ''go.mod'', ''requirements.txt'',
     ''requirements-dev.txt'', ''pipfile'', ''pom.xml'', ''build.gradle'',
     ''build.gradle.kts'', ''pubspec.yaml'', ''pubspec.yml'']"

definition config_extensions :: "string list" where
  "config_extensions = [
     ''.json'', ''.yaml'', ''.yml'', ''.toml'', ''.ini'', ''.cfg'', ''.conf'']"

definition doc_extensions :: "string list" where
  "doc_extensions = [
     ''.md'', ''.mdx'', ''.rst'', ''.txt'', ''.adoc'']"

definition schema_names :: "string list" where
  "schema_names = [
     ''schema.sql'', ''schema.prisma'', ''openapi.yaml'', ''openapi.yml'', ''swagger.yaml'',
     ''swagger.yml'']"

definition generated_ts_js_suffixes :: "string list" where
  "generated_ts_js_suffixes = [
     ''.generated.ts'', ''.generated.tsx'', ''.generated.mts'', ''.generated.cts'',
     ''.generated.js'', ''.generated.jsx'', ''.generated.mjs'', ''.generated.cjs'',
     ''.generated.d.ts'', ''.generated.d.mts'', ''.generated.d.cts'']"

definition generated_dart_suffixes :: "string list" where
  "generated_dart_suffixes = [
     ''.g.dart'', ''.freezed.dart'', ''.config.dart'', ''.mocks.dart'', ''.gr.dart'',
     ''.chopper.dart'']"

definition dart_risk_keywords :: "risk_entry list" where
  "dart_risk_keywords = [
     (''navigation'', RS_MEDIUM,
        [''gorouter('', ''go_route'', ''context.go('', ''context.push('', ''navigator.'',
         ''redirect:''],
        ''Flutter routing or navigation behavior changed.''),
     (''permissions'', RS_HIGH,
        [''permission_handler'', ''permission.'', ''requestpermission('', ''openappsettings(''],
        ''Device permission handling changed.''),
     (''platform_channel'', RS_HIGH,
        [''methodchannel('', ''eventchannel('', ''basicmessagechannel('', ''invokemethod('',
         ''setmethodcallhandler(''],
        ''Flutter platform-channel contract changed.''),
     (''persistence'', RS_MEDIUM,
        [''sharedpreferences'', ''fluttersecurestorage'', ''sqflite'', ''hive.'', ''isar.'',
         ''drift.''],
        ''Flutter persistence or secure-storage behavior changed.''),
     (''serialization'', RS_MEDIUM,
        [''jsonserializable'', ''jsonkey('', ''fromjson('', ''tojson('', ''@freezed''],
        ''Dart serialization or generated model contract changed.''),
     (''state_lifecycle'', RS_MEDIUM,
        [''initstate('', ''dispose('', ''didchangedependencies('', ''didupdatewidget('',
         ''setstate('', ''context.mounted'', ''streamsubscription'', ''addlistener(''],
        ''Flutter state or lifecycle behavior changed.'')]"

definition dart_path_risk_parts :: "risk_entry list" where
  "dart_path_risk_parts = [
     (''navigation'', RS_MEDIUM,
        [''navigation'', ''routing'', ''routes''],
        ''Flutter routing or navigation boundary changed.''),
     (''permissions'', RS_HIGH,
        [''permission'', ''permissions''],
        ''Device permission boundary changed.''),
     (''platform_channel'', RS_HIGH,
        [''platform_channel'', ''platform_channels''],
        ''Flutter platform-channel boundary changed.''),
     (''persistence'', RS_MEDIUM,
        [''database'', ''persistence'', ''storage''],
        ''Persistence or storage boundary changed.''),
     (''state_lifecycle'', RS_MEDIUM,
        [''bloc'', ''cubit'', ''state''],
        ''Flutter state-management boundary changed.'')]"

definition risk_keywords :: "risk_entry list" where
  "risk_keywords = [
     (''auth'', RS_HIGH,
        [''auth'', ''permission'', ''authorize'', ''authorization'', ''role'', ''session'',
         ''token'', ''jwt'', ''oauth''],
        ''Authentication or authorization-related code changed.''),
     (''validation'', RS_MEDIUM,
        [''validate'', ''validation'', ''sanitize'', ''schema'', ''required'', ''zod'', ''joi'',
         ''pydantic''],
        ''Validation-related code changed.''),
     (''persistence'', RS_MEDIUM,
        [''select '', ''insert '', ''update '', ''delete '', ''transaction'', ''rollback'',
         ''commit'', ''repository'', ''orm'', ''database'', ''db.''],
        ''Persistence or transaction-related code changed.''),
     (''public_api'', RS_MEDIUM,
        [''route'', ''router'', ''controller'', ''handler'', ''endpoint'', ''request'',
         ''response'', ''openapi'', ''graphql''],
        ''Public API or boundary code changed.''),
     (''external_io'', RS_MEDIUM,
        [''fetch('', ''requests.'', ''httpx.'', ''axios.'', ''urllib'', ''subprocess'',
         ''read_text'', ''write_text'', ''open(''],
        ''External I/O, filesystem, network, or process boundary changed.''),
     (''shell'', RS_HIGH,
        [''subprocess'', ''exec('', ''spawn('', ''system('', ''shell=true''],
        ''Shell or subprocess execution changed.''),
     (''path'', RS_MEDIUM,
        [''path'', ''filename'', ''filepath'', ''dirname'', ''resolve('', ''joinpath'',
         ''path.join''],
        ''Path handling changed.''),
     (''serialization'', RS_MEDIUM,
        [''json.parse'', ''json.loads'', ''yaml.'', ''pickle'', ''deserialize'', ''serialize''],
        ''Serialization or deserialization changed.''),
     (''cache'', RS_LOW,
        [''cache'', ''redis'', ''memo'', ''ttl''],
        ''Cache-related code changed.''),
     (''concurrency'', RS_MEDIUM,
        [''async '', ''await '', ''lock'', ''mutex'', ''thread'', ''queue'', ''worker'',
         ''retry''],
        ''Concurrency, queue, retry, or worker code changed.'')]"

definition language_extensions :: "(string \<times> string) list" where
  "language_extensions = [
     (''.py'', ''python''), (''.js'', ''javascript''), (''.jsx'', ''javascript''),
     (''.mjs'', ''javascript''), (''.cjs'', ''javascript''), (''.ts'', ''typescript''),
     (''.tsx'', ''typescript''), (''.mts'', ''typescript''), (''.cts'', ''typescript''),
     (''.go'', ''go''), (''.rs'', ''rust''), (''.java'', ''java''), (''.kt'', ''kotlin''),
     (''.cs'', ''csharp''), (''.php'', ''php''), (''.rb'', ''ruby''),
     (''.swift'', ''swift''), (''.sql'', ''sql''), (''.graphql'', ''graphql''),
     (''.gql'', ''graphql''), (''.dart'', ''dart'')]"

subsection \<open>Paths\<close>

text \<open>\<open>PurePosixPath\<close>: its parts (without the root), its last part and the extension of that
  (\<open>posixpath.splitext\<close>: leading dots do not start an extension).\<close>

definition path_parts :: "string \<Rightarrow> string list" where
  "path_parts p = filter (\<lambda>w. w \<noteq> [] \<and> w \<noteq> ''.'') (split_char CHR ''/'' p)"

definition path_name :: "string \<Rightarrow> string" where
  "path_name p = (if path_parts p = [] then [] else last (path_parts p))"

definition name_suffix :: "string \<Rightarrow> string" where
  "name_suffix n = (let body = dropWhile (\<lambda>c. c = CHR ''.'') n in
     if CHR ''.'' \<in> set body then CHR ''.'' # rev (takeWhile (\<lambda>c. c \<noteq> CHR ''.'') (rev body)) else [])"

definition path_suffix :: "string \<Rightarrow> string" where
  "path_suffix p = name_suffix (path_name p)"

definition config_language :: "string \<Rightarrow> string" where
  "config_language path = (let suffix = py_lower (path_suffix path) in
     if suffix \<in> set config_extensions then remove_prefix suffix ''.'' else ''unknown'')"

definition detect_language :: "string \<Rightarrow> string" where
  "detect_language path =
     dict_get_or language_extensions (py_lower (path_suffix path)) (config_language path)"

definition contains_part :: "string \<Rightarrow> string list \<Rightarrow> bool" where
  "contains_part path names = list_ex (\<lambda>n. n \<in> set (path_parts path)) names"

text \<open>The two regular expressions of \<open>_looks_like_test\<close>: a whole segment between slashes, and a
  name ending in \<open>.test.ext\<close>, \<open>_spec.ext\<close> and the like; the dollar sign also matches before a
  final newline.\<close>

definition test_segments :: "string list" where
  "test_segments = [''test'', ''tests'', ''__tests__'', ''spec'', ''integration_test'']"

definition has_test_segment :: "string \<Rightarrow> bool" where
  "has_test_segment path = (let segs = split_char CHR ''/'' path in
     list_ex (\<lambda>s. s \<in> set test_segments) segs
     \<or> last segs \<in> set (map (\<lambda>s. s @ [CHR 0x0A]) test_segments))"

definition word_ext_to_end :: "string \<Rightarrow> bool" where
  "word_ext_to_end s = (let s' = (if s \<noteq> [] \<and> last s = CHR 0x0A then butlast s else s) in
     s' \<noteq> [] \<and> list_all lower_or_digit s')"

definition test_ending_here :: "string \<Rightarrow> bool" where
  "test_ending_here s = list_ex (\<lambda>p. starts_with s p \<and> word_ext_to_end (drop (length p) s))
     [''.test.'', ''.spec.'', ''_test.'', ''_spec.'']"

fun has_test_ending :: "string \<Rightarrow> bool" where
  "has_test_ending [] \<longleftrightarrow> False"
| "has_test_ending (c # cs) \<longleftrightarrow> test_ending_here (c # cs) \<or> has_test_ending cs"

definition looks_like_test :: "string \<Rightarrow> bool" where
  "looks_like_test path \<longleftrightarrow> has_test_segment path \<or> has_test_ending path"

definition detect_file_kind :: "string \<Rightarrow> file_kind" where
  "detect_file_kind path =
     (let normalized = py_lower (replace_char backslash CHR ''/'' path);
          name = path_name normalized;
          parts = path_parts normalized;
          suffix = path_suffix normalized
      in if name \<in> set lockfile_names \<or> ends_with name ''.lock'' then FK_LOCKFILE
         else if ''vendor'' \<in> set parts \<or> ''vendors'' \<in> set parts then FK_VENDORED
         else if contains_part normalized [''generated'', ''__generated__'', ''dist'', ''build'']
              \<or> list_ex (ends_with name) (generated_ts_js_suffixes @ generated_dart_suffixes)
         then FK_GENERATED
         else if name \<in> set dependency_config_names then FK_DEPENDENCY
         else if contains_part normalized [''docs'', ''doc''] \<or> suffix \<in> set doc_extensions then FK_DOCS
         else if str_in ''migration'' normalized \<or> ''migrations'' \<in> set parts then FK_MIGRATION
         else if name \<in> set schema_names \<or> suffix \<in> {''.graphql'', ''.gql''}
              \<or> str_in ''schema'' name \<or> str_in ''openapi'' name \<or> str_in ''swagger'' name
         then FK_SCHEMA
         else if looks_like_test normalized then FK_TEST
         else if suffix \<in> set config_extensions then FK_CONFIG
         else if detect_language path \<noteq> ''unknown'' then FK_SOURCE
         else FK_UNKNOWN)"

definition ignore_hit :: "string \<Rightarrow> string \<Rightarrow> bool" where
  "ignore_hit normalized pattern \<longleftrightarrow>
     fnmatch normalized pattern \<or> fnmatch (CHR ''/'' # normalized) pattern
     \<or> starts_with pattern ''**/'' \<and> fnmatch normalized (drop 3 pattern)"

definition match_ignore :: "string \<Rightarrow> string list \<Rightarrow> string option" where
  "match_ignore path patterns = find (ignore_hit (replace_char backslash CHR ''/'' path)) patterns"

definition classify_file :: "string list \<Rightarrow> changed_file \<Rightarrow> changed_file" where
  "classify_file ignore_patterns f =
     (let path = cf_path f;
          f1 = f\<lparr>cf_language := detect_language path, cf_file_kind := detect_file_kind path\<rparr>
      in case match_ignore path ignore_patterns of
           None \<Rightarrow> f1
         | Some p \<Rightarrow> if p \<noteq> [] then f1\<lparr>cf_is_ignored := True,
                        cf_ignore_reason := Some (''Matched ignore pattern: '' @ p)\<rparr>
                     else f1)"

subsection \<open>Built-in risk signals\<close>

definition keyword_char :: "char \<Rightarrow> bool" where
  "keyword_char c \<longleftrightarrow> lower_or_digit c \<or> c = CHR ''_''"

text \<open>The keyword between two places that are no keyword character; the first argument is the
  character before.\<close>

fun word_in :: "char option \<Rightarrow> string \<Rightarrow> string \<Rightarrow> bool" where
  "word_in prev kw s \<longleftrightarrow>
     (\<not> (case prev of None \<Rightarrow> False | Some c \<Rightarrow> keyword_char c) \<and> starts_with s kw
        \<and> \<not> (case drop (length kw) s of [] \<Rightarrow> False | c # _ \<Rightarrow> keyword_char c))
     \<or> (case s of [] \<Rightarrow> False | c # cs \<Rightarrow> word_in (Some c) kw cs)"

declare word_in.simps [simp del]

definition matches_risk_keyword :: "string \<Rightarrow> string \<Rightarrow> bool" where
  "matches_risk_keyword content kw \<longleftrightarrow>
     (if list_ex (\<lambda>c. c \<in> set kw) '' ().'' then str_in kw content else word_in None kw content)"

text \<open>The file under construction and the pairs of kind and line that are already marked.\<close>

type_synonym marking = "changed_file \<times> (string \<times> int option) list"

definition append_signal ::
  "string \<Rightarrow> risk_severity \<Rightarrow> string \<Rightarrow> int option \<Rightarrow> marking \<Rightarrow> marking \<times> risk_signal option" where
  "append_signal kind sev reason line m =
     (let (f, seen) = m in
      if (kind, line) \<in> set seen then (m, None)
      else let s = \<lparr>rs_kind = kind, rs_severity = sev, rs_reason = reason, rs_file = cf_path f,
                    rs_line = line, rs_score = severity_score sev, rs_source = ''built_in'',
                    rs_rule_id = None, rs_categories = [], rs_reviewer_tags = [], rs_guidance = []\<rparr>
           in ((add_file_signal s f, (kind, line) # seen), Some s))"

definition mark_file :: "string \<Rightarrow> risk_severity \<Rightarrow> string \<Rightarrow> marking \<Rightarrow> marking" where
  "mark_file kind sev reason m = fst (append_signal kind sev reason None m)"

definition mark_file_kind :: "marking \<Rightarrow> marking" where
  "mark_file_kind m = (case cf_file_kind (fst m) of
      FK_MIGRATION \<Rightarrow> mark_file ''migration'' RS_HIGH ''Migration file changed.'' m
    | FK_SCHEMA \<Rightarrow> mark_file ''public_api'' RS_MEDIUM ''Schema or API contract file changed.'' m
    | FK_DEPENDENCY \<Rightarrow> mark_file ''dependency'' RS_LOW ''Dependency manifest changed.'' m
    | _ \<Rightarrow> m)"

definition mark_dart_path :: "marking \<Rightarrow> marking" where
  "mark_dart_path m =
     (if cf_language (fst m) = ''dart'' then
        let parts = path_parts (py_lower (replace_char backslash CHR ''/'' (cf_path (fst m))))
        in fold (\<lambda>(kind, sev, expected, reason) m.
             if list_ex (\<lambda>p. p \<in> set parts) expected then mark_file kind sev reason m else m)
             dart_path_risk_parts m
      else m)"

definition mark_keyword :: "nat \<Rightarrow> int \<Rightarrow> string \<Rightarrow> risk_entry \<Rightarrow> marking \<Rightarrow> marking" where
  "mark_keyword i target content entry m =
     (let (kind, sev, keywords, reason) = entry in
      if list_ex (matches_risk_keyword content) keywords then
        (case append_signal kind sev reason (Some target) m of
           ((f, seen), None) \<Rightarrow> (f, seen)
         | ((f, seen), Some s) \<Rightarrow> (add_hunk_signal i s f, seen))
      else m)"

definition mark_line :: "risk_entry list \<Rightarrow> nat \<Rightarrow> nat \<Rightarrow> marking \<Rightarrow> marking" where
  "mark_line entries i j m =
     (let h = cf_hunks (fst m) ! i; l = hk_lines h ! j in
      if dl_kind l = DL_CONTEXT then m
      else fold (mark_keyword i (current_line_anchor h j) (py_lower (dl_content l))) entries m)"

definition mark_hunk :: "risk_entry list \<Rightarrow> nat \<Rightarrow> marking \<Rightarrow> marking" where
  "mark_hunk entries i m = fold (mark_line entries i) [0..<length (hk_lines (cf_hunks (fst m) ! i))] m"

definition keyword_entries :: "changed_file \<Rightarrow> risk_entry list" where
  "keyword_entries f = (if cf_language f = ''dart'' then risk_keywords @ dart_risk_keywords else risk_keywords)"

definition mark_hunks :: "marking \<Rightarrow> marking" where
  "mark_hunks m = fold (mark_hunk (keyword_entries (fst m))) [0..<length (cf_hunks (fst m))] m"

definition add_risk_signals :: "changed_file \<Rightarrow> changed_file" where
  "add_risk_signals f = fst (mark_hunks (mark_dart_path (mark_file_kind (f, []))))"

subsection \<open>The whole diff\<close>

definition test_gap_signal :: "changed_file \<Rightarrow> risk_signal" where
  "test_gap_signal f = \<lparr>rs_kind = ''test_gap'', rs_severity = RS_LOW,
     rs_reason = ''Source changed without test files in the same diff.'', rs_file = cf_path f,
     rs_line = None, rs_score = severity_score RS_LOW, rs_source = ''built_in'',
     rs_rule_id = None, rs_categories = [], rs_reviewer_tags = [], rs_guidance = []\<rparr>"

definition signal_file :: "risk_config \<Rightarrow> bool \<Rightarrow> changed_file \<Rightarrow> changed_file" where
  "signal_file risk test_changed f =
     (if cf_is_ignored f then f
      else let f1 = (if rcfg_built_in_enabled risk then add_risk_signals f else f);
               f2 = (if rcfg_built_in_enabled risk \<and> cf_file_kind f1 = FK_SOURCE \<and> \<not> test_changed
                     then add_file_signal (test_gap_signal f1) f1 else f1)
           in apply_project_risk_policy risk f2)"

definition classify_diff :: "string list \<Rightarrow> risk_config option \<Rightarrow> diff_summary \<Rightarrow> diff_summary" where
  "classify_diff ignore_patterns risk d =
     (let cfg = (case risk of None \<Rightarrow> default_risk_config | Some c \<Rightarrow> c);
          classified = map (classify_file ignore_patterns) (dsum_files d);
          test_changed = list_ex (\<lambda>f. cf_file_kind f = FK_TEST \<and> \<not> cf_is_ignored f) classified;
          files = map (signal_file cfg test_changed) classified
      in d\<lparr>dsum_files := files,
           dsum_stats := (dsum_stats d)\<lparr>ds_ignored_files := int (length (filter cf_is_ignored files))\<rparr>\<rparr>)"

subsection \<open>Keyword matching\<close>

lemma str_in_iff: "str_in p s \<longleftrightarrow> (\<exists>a b. s = a @ p @ b)"
proof (induction s)
  case (Cons c cs)
  have "(\<exists>a b. c # cs = a @ p @ b) \<longleftrightarrow> (\<exists>b. c # cs = p @ b) \<or> (\<exists>a b. cs = a @ p @ b)"
    by (auto simp: Cons_eq_append_conv)
  with Cons show ?case by (auto simp: starts_with_iff)
qed auto

definition word_boundary :: "char option \<Rightarrow> bool" where
  "word_boundary p \<longleftrightarrow> (case p of None \<Rightarrow> True | Some c \<Rightarrow> \<not> keyword_char c)"

definition head_char :: "string \<Rightarrow> char option" where
  "head_char s = (case s of [] \<Rightarrow> None | c # _ \<Rightarrow> Some c)"

definition last_char :: "char option \<Rightarrow> string \<Rightarrow> char option" where
  "last_char p s = (if s = [] then p else Some (last s))"

lemma word_in_step:
  "word_in prev kw s \<longleftrightarrow> word_boundary prev \<and> starts_with s kw \<and> word_boundary (head_char (drop (length kw) s))
     \<or> (\<exists>c cs. s = c # cs \<and> word_in (Some c) kw cs)"
  by (subst word_in.simps) (auto simp: word_boundary_def head_char_def split: option.splits list.splits)

lemma word_in_iff:
  "word_in prev kw s \<longleftrightarrow> (\<exists>a b. s = a @ kw @ b \<and> word_boundary (last_char prev a) \<and> word_boundary (head_char b))"
proof (induction s arbitrary: prev)
  case Nil
  show ?case by (subst word_in_step) (auto simp: last_char_def starts_with_iff)
next
  case (Cons c cs)
  have here: "word_boundary prev \<and> starts_with (c # cs) kw \<and> word_boundary (head_char (drop (length kw) (c # cs)))
      \<longleftrightarrow> (\<exists>b. c # cs = kw @ b \<and> word_boundary (last_char prev []) \<and> word_boundary (head_char b))"
    by (auto simp: starts_with_iff last_char_def)
  have later: "(\<exists>a b. cs = a @ kw @ b \<and> word_boundary (last_char (Some c) a) \<and> word_boundary (head_char b))
      \<longleftrightarrow> (\<exists>a b. c # cs = (c # a) @ kw @ b \<and> word_boundary (last_char prev (c # a)) \<and> word_boundary (head_char b))"
    by (auto simp: last_char_def)
  have split: "(\<exists>a b. c # cs = a @ kw @ b \<and> Q a b) \<longleftrightarrow> (\<exists>b. c # cs = kw @ b \<and> Q [] b)
      \<or> (\<exists>a b. c # cs = (c # a) @ kw @ b \<and> Q (c # a) b)" for Q
    by (metis (no_types, lifting) append_Cons append_Nil list.exhaust list.sel(1))
  have "word_in prev kw (c # cs) \<longleftrightarrow> word_boundary prev \<and> starts_with (c # cs) kw
      \<and> word_boundary (head_char (drop (length kw) (c # cs))) \<or> word_in (Some c) kw cs"
    by (subst word_in_step) simp
  also have "\<dots> \<longleftrightarrow> (\<exists>b. c # cs = kw @ b \<and> word_boundary (last_char prev []) \<and> word_boundary (head_char b))
      \<or> (\<exists>a b. c # cs = (c # a) @ kw @ b \<and> word_boundary (last_char prev (c # a)) \<and> word_boundary (head_char b))"
    unfolding here Cons.IH later ..
  also have "\<dots> \<longleftrightarrow> (\<exists>a b. c # cs = a @ kw @ b \<and> word_boundary (last_char prev a) \<and> word_boundary (head_char b))"
    by (rule split [symmetric])
  finally show ?case .
qed

text \<open>A keyword holding a space, a parenthesis or a dot is searched as a substring; any other
  keyword is found exactly where it stands as a whole word, with no lower-case letter, digit or
  underscore on either side.\<close>

theorem matches_risk_keyword_iff:
  "matches_risk_keyword content kw \<longleftrightarrow>
     (\<exists>a b. content = a @ kw @ b
        \<and> (list_ex (\<lambda>c. c \<in> set '' ().'') kw
           \<or> word_boundary (last_char None a) \<and> word_boundary (head_char b)))"
proof -
  have "list_ex (\<lambda>c. c \<in> set kw) '' ().'' \<longleftrightarrow> list_ex (\<lambda>c. c \<in> set '' ().'') kw"
    by (auto simp: list_ex_iff)
  then show ?thesis
    unfolding matches_risk_keyword_def by (cases "list_ex (\<lambda>c. c \<in> set kw) '' ().''")
      (simp_all only: if_True if_False str_in_iff word_in_iff, auto)
qed

subsection \<open>The marks of a file\<close>

definition mark_key :: "risk_signal \<Rightarrow> string \<times> int option" where
  "mark_key s = (rs_kind s, rs_line s)"

definition built_in_signal :: "string \<Rightarrow> risk_signal \<Rightarrow> bool" where
  "built_in_signal path s \<longleftrightarrow> valid_risk_signal s \<and> rs_source s = ''built_in'' \<and> rs_file s = path
     \<and> rs_score s = severity_score (rs_severity s)"

text \<open>While a file is marked: only signals are added, each pair of kind and line once, and every
  signal of a hunk is a signal of the file.\<close>

definition marking_inv :: "changed_file \<Rightarrow> marking \<Rightarrow> bool" where
  "marking_inv b m \<longleftrightarrow> bare_file (fst m) = bare_file b
     \<and> map mark_key (cf_risk_signals (fst m)) = rev (snd m) \<and> distinct (snd m)
     \<and> list_all (built_in_signal (cf_path b)) (cf_risk_signals (fst m))
     \<and> list_all (\<lambda>h. set (hk_risk_signals h) \<subseteq> set (cf_risk_signals (fst m))) (cf_hunks (fst m))"

definition marks :: "changed_file \<Rightarrow> (string \<times> int option) set \<Rightarrow> (marking \<Rightarrow> marking) \<Rightarrow> bool" where
  "marks b A step \<longleftrightarrow> (\<forall>m. marking_inv b m \<longrightarrow> marking_inv b (step m) \<and> set (snd (step m)) = set (snd m) \<union> A)"

lemma marksD: "\<lbrakk>marks b A step; marking_inv b m\<rbrakk> \<Longrightarrow> marking_inv b (step m) \<and> set (snd (step m)) = set (snd m) \<union> A"
  unfolding marks_def by blast

lemma marks_fold:
  assumes "\<And>x. x \<in> set xs \<Longrightarrow> marks b (A x) (step x)"
  shows "marks b (\<Union>x\<in>set xs. A x) (fold step xs)"
  unfolding marks_def
proof (intro allI impI)
  fix m
  assume "marking_inv b m"
  then show "marking_inv b (fold step xs m) \<and> set (snd (fold step xs m)) = set (snd m) \<union> (\<Union>x\<in>set xs. A x)"
    using assms
  proof (induction xs arbitrary: m)
    case (Cons x xs)
    then have "marking_inv b (step x m) \<and> set (snd (step x m)) = set (snd m) \<union> A x"
      by (intro marksD) simp_all
    with Cons.IH [of "step x m"] Cons.prems(2) show ?case by auto
  qed simp
qed

lemma bare_file_path: "bare_file f = bare_file g \<Longrightarrow> cf_path f = cf_path g"
  by (metis cf_path_bare)

lemma bare_file_hunks:
  "bare_file f = bare_file g \<Longrightarrow> map bare_hunk (cf_hunks f) = map bare_hunk (cf_hunks g)"
  by (cases f; cases g) (simp add: bare_file_def)

lemma append_signal_marks:
  assumes "marking_inv b m"
  shows "marking_inv b (fst (append_signal k sev r l m))"
    and "set (snd (fst (append_signal k sev r l m))) = set (snd m) \<union> {(k, l)}"
    and "snd (append_signal k sev r l m) = Some s \<Longrightarrow> s \<in> set (cf_risk_signals (fst (fst (append_signal k sev r l m))))"
proof -
  obtain f seen where m: "m = (f, seen)" by force
  have path: "cf_path f = cf_path b" using assms m by (intro bare_file_path) (simp add: marking_inv_def)
  have same: "cf_hunks (add_file_signal s f) = cf_hunks f" "cf_risk_signals (add_file_signal s f) = cf_risk_signals f @ [s]" for s
    by (simp_all add: add_file_signal_def)
  show "marking_inv b (fst (append_signal k sev r l m))"
    using assms severity_score_bounds [of sev] path unfolding m
    by (auto simp: append_signal_def marking_inv_def same mark_key_def built_in_signal_def valid_risk_signal_def
        list_all_iff Let_def)
  show "set (snd (fst (append_signal k sev r l m))) = set (snd m) \<union> {(k, l)}"
    unfolding m by (auto simp: append_signal_def Let_def)
  show "snd (append_signal k sev r l m) = Some s \<Longrightarrow> s \<in> set (cf_risk_signals (fst (fst (append_signal k sev r l m))))"
    unfolding m by (auto simp: append_signal_def Let_def same split: if_splits)
qed

lemma add_hunk_signal_inv:
  "\<lbrakk>marking_inv b (f, seen); s \<in> set (cf_risk_signals f)\<rbrakk> \<Longrightarrow> marking_inv b (add_hunk_signal i s f, seen)"
proof -
  assume inv: "marking_inv b (f, seen)" and s: "s \<in> set (cf_risk_signals f)"
  have sigs: "cf_risk_signals (add_hunk_signal i s f) = cf_risk_signals f"
    by (simp add: add_hunk_signal_def)
  have "list_all (\<lambda>h. set (hk_risk_signals h) \<subseteq> set (cf_risk_signals f)) (cf_hunks (add_hunk_signal i s f))"
    using inv s by (cases "i < length (cf_hunks f)")
      (auto simp: marking_inv_def add_hunk_signal_def list_all_length nth_list_update)
  with inv sigs show ?thesis by (simp add: marking_inv_def)
qed

lemma mark_file_marks: "marks b {(k, None)} (mark_file k sev r)"
  unfolding marks_def mark_file_def using append_signal_marks(1,2) by blast

definition keyword_marks :: "int \<Rightarrow> string \<Rightarrow> risk_entry \<Rightarrow> (string \<times> int option) set" where
  "keyword_marks target content e = (let (kind, sev, kws, reason) = e in
     if list_ex (matches_risk_keyword content) kws then {(kind, Some target)} else {})"

lemma mark_keyword_marks: "marks b (keyword_marks t c e) (mark_keyword i t c e)"
  unfolding marks_def
proof (intro allI impI)
  fix m
  assume inv: "marking_inv b m"
  obtain kind sev kws reason where e: "e = (kind, sev, kws, reason)" by (cases e)
  obtain f seen so where r: "append_signal kind sev reason (Some t) m = ((f, seen), so)"
    by (metis prod.exhaust)
  note facts = append_signal_marks [OF inv, of kind sev reason "Some t"]
  show "marking_inv b (mark_keyword i t c e m) \<and> set (snd (mark_keyword i t c e m)) = set (snd m) \<union> keyword_marks t c e"
    using inv facts add_hunk_signal_inv [of b f seen _ i] r unfolding e
    by (auto simp: mark_keyword_def keyword_marks_def split: option.splits)
qed

definition line_marks :: "risk_entry list \<Rightarrow> changed_hunk \<Rightarrow> nat \<Rightarrow> (string \<times> int option) set" where
  "line_marks entries h j = (if dl_kind (hk_lines h ! j) = DL_CONTEXT then {}
     else \<Union>e\<in>set entries. keyword_marks (current_line_anchor h j) (py_lower (dl_content (hk_lines h ! j))) e)"

lemma inv_hunk:
  assumes "marking_inv b m" and "i < length (cf_hunks b)"
  shows "hk_lines (cf_hunks (fst m) ! i) = hk_lines (cf_hunks b ! i)"
    and "current_line_anchor (cf_hunks (fst m) ! i) = current_line_anchor (cf_hunks b ! i)"
    and "length (cf_hunks (fst m)) = length (cf_hunks b)"
proof -
  have eq: "map bare_hunk (cf_hunks (fst m)) = map bare_hunk (cf_hunks b)"
    using assms(1) by (intro bare_file_hunks) (simp add: marking_inv_def)
  then show len: "length (cf_hunks (fst m)) = length (cf_hunks b)" by (metis length_map)
  have "bare_hunk (cf_hunks (fst m) ! i) = bare_hunk (cf_hunks b ! i)"
    using eq len assms(2) by (metis nth_map)
  then show "hk_lines (cf_hunks (fst m) ! i) = hk_lines (cf_hunks b ! i)"
    and "current_line_anchor (cf_hunks (fst m) ! i) = current_line_anchor (cf_hunks b ! i)"
    by (metis bare_hunk_simps(1)) (metis current_line_anchor_bare \<open>bare_hunk _ = _\<close>)
qed

lemma mark_line_marks:
  "i < length (cf_hunks b) \<Longrightarrow> marks b (line_marks es (cf_hunks b ! i) j) (mark_line es i j)"
  unfolding marks_def
proof (intro allI impI)
  fix m
  assume i: "i < length (cf_hunks b)" and inv: "marking_inv b m"
  note hunk = inv_hunk [OF inv i]
  show "marking_inv b (mark_line es i j m) \<and> set (snd (mark_line es i j m)) = set (snd m) \<union> line_marks es (cf_hunks b ! i) j"
    using marksD [OF marks_fold [of es, OF mark_keyword_marks] inv] inv
    by (simp add: mark_line_def line_marks_def hunk Let_def)
qed

definition hunk_marks :: "risk_entry list \<Rightarrow> changed_hunk \<Rightarrow> (string \<times> int option) set" where
  "hunk_marks es h = (\<Union>j\<in>{..<length (hk_lines h)}. line_marks es h j)"

lemma mark_hunk_marks:
  "i < length (cf_hunks b) \<Longrightarrow> marks b (hunk_marks es (cf_hunks b ! i)) (mark_hunk es i)"
  unfolding marks_def
proof (intro allI impI)
  fix m
  assume i: "i < length (cf_hunks b)" and inv: "marking_inv b m"
  show "marking_inv b (mark_hunk es i m) \<and> set (snd (mark_hunk es i m)) = set (snd m) \<union> hunk_marks es (cf_hunks b ! i)"
    using marksD [OF marks_fold [of "[0..<length (hk_lines (cf_hunks b ! i))]", OF mark_line_marks [OF i, of es]] inv]
    by (simp add: mark_hunk_def hunk_marks_def inv_hunk [OF inv i] lessThan_atLeast0)
qed

definition kind_marks :: "changed_file \<Rightarrow> (string \<times> int option) set" where
  "kind_marks f = (case cf_file_kind f of
      FK_MIGRATION \<Rightarrow> {(''migration'', None)}
    | FK_SCHEMA \<Rightarrow> {(''public_api'', None)}
    | FK_DEPENDENCY \<Rightarrow> {(''dependency'', None)}
    | _ \<Rightarrow> {})"

definition dart_path_marks :: "changed_file \<Rightarrow> (string \<times> int option) set" where
  "dart_path_marks f = (if cf_language f = ''dart'' then
     \<Union>(kind, sev, expected, reason)\<in>set dart_path_risk_parts.
       if set expected \<inter> set (path_parts (py_lower (replace_char backslash CHR ''/'' (cf_path f)))) \<noteq> {}
       then {(kind, None)} else {} else {})"

lemma list_ex_member: "list_ex (\<lambda>p. p \<in> A) xs \<longleftrightarrow> set xs \<inter> A \<noteq> {}"
  by (auto simp: list_ex_iff)

definition expected_marks :: "changed_file \<Rightarrow> (string \<times> int option) set" where
  "expected_marks f = kind_marks f \<union> dart_path_marks f
     \<union> (\<Union>h\<in>set (cf_hunks f). hunk_marks (keyword_entries f) h)"

lemma inv_fields:
  "marking_inv b m \<Longrightarrow> cf_file_kind (fst m) = cf_file_kind b \<and> cf_language (fst m) = cf_language b
     \<and> cf_path (fst m) = cf_path b"
  unfolding marking_inv_def by (metis bare_file_path bare_file_simps(3,4))

lemma mark_file_kind_marks: "marks b (kind_marks b) mark_file_kind"
  unfolding marks_def
proof (intro allI impI)
  fix m
  assume inv: "marking_inv b m"
  show "marking_inv b (mark_file_kind m) \<and> set (snd (mark_file_kind m)) = set (snd m) \<union> kind_marks b"
    using inv inv_fields [OF inv] marksD [OF mark_file_marks inv]
    by (cases "cf_file_kind b") (simp_all add: mark_file_kind_def kind_marks_def)
qed

lemma mark_dart_path_marks: "marks b (dart_path_marks b) mark_dart_path"
  unfolding marks_def
proof (intro allI impI)
  fix m
  assume inv: "marking_inv b m"
  let ?parts = "path_parts (py_lower (replace_char backslash CHR ''/'' (cf_path b)))"
  let ?step = "\<lambda>(kind, sev, expected, reason) m.
     if list_ex (\<lambda>p. p \<in> set ?parts) expected then mark_file kind sev reason m else m"
  let ?A = "\<lambda>(kind, sev, expected, reason). if list_ex (\<lambda>p. p \<in> set ?parts) expected then {(kind, None)} else {}"
  have "marks b (?A e) (?step e)" for e
    using mark_file_marks by (cases e) (auto simp: marks_def)
  then have "marks b (\<Union>e\<in>set dart_path_risk_parts. ?A e) (fold ?step dart_path_risk_parts)"
    by (rule marks_fold)
  note step = marksD [OF this inv]
  show "marking_inv b (mark_dart_path m) \<and> set (snd (mark_dart_path m)) = set (snd m) \<union> dart_path_marks b"
  proof (cases "cf_language b = ''dart''")
    case True
    then have "mark_dart_path m = fold ?step dart_path_risk_parts m"
      using inv_fields [OF inv] by (simp add: mark_dart_path_def)
    moreover have "dart_path_marks b = (\<Union>e\<in>set dart_path_risk_parts. ?A e)"
      using True by (simp add: dart_path_marks_def list_ex_member)
    ultimately show ?thesis using step by simp
  next
    case False
    then show ?thesis
      using inv inv_fields [OF inv] by (simp add: mark_dart_path_def dart_path_marks_def)
  qed
qed

lemma mark_hunks_marks: "marks b (\<Union>h\<in>set (cf_hunks b). hunk_marks (keyword_entries b) h) mark_hunks"
  unfolding marks_def
proof (intro allI impI)
  fix m
  assume inv: "marking_inv b m"
  have len: "length (cf_hunks (fst m)) = length (cf_hunks b)"
    using inv bare_file_hunks [of "fst m" b] by (auto simp: marking_inv_def dest: map_eq_imp_length_eq)
  have entries: "keyword_entries (fst m) = keyword_entries b"
    using inv_fields [OF inv] by (simp add: keyword_entries_def)
  have "marks b (\<Union>i\<in>set [0..<length (cf_hunks b)]. hunk_marks (keyword_entries b) (cf_hunks b ! i))
      (fold (mark_hunk (keyword_entries b)) [0..<length (cf_hunks b)])"
    by (rule marks_fold) (simp add: mark_hunk_marks)
  moreover have "(\<Union>i\<in>set [0..<length (cf_hunks b)]. hunk_marks (keyword_entries b) (cf_hunks b ! i)) =
      (\<Union>h\<in>set (cf_hunks b). hunk_marks (keyword_entries b) h)"
    by (auto simp: set_conv_nth)
  ultimately show "marking_inv b (mark_hunks m) \<and>
      set (snd (mark_hunks m)) = set (snd m) \<union> (\<Union>h\<in>set (cf_hunks b). hunk_marks (keyword_entries b) h)"
    using marksD [OF _ inv] by (simp add: mark_hunks_def len entries)
qed

subsection \<open>What classification adds\<close>

text \<open>A file as the parser returns it.\<close>

definition unmarked :: "changed_file \<Rightarrow> bool" where
  "unmarked f \<longleftrightarrow> cf_risk_signals f = [] \<and> list_all (\<lambda>h. hk_risk_signals h = []) (cf_hunks f)"

lemma unmarked_inv: "unmarked f \<Longrightarrow> marking_inv f (f, [])"
  by (auto simp: unmarked_def marking_inv_def list_all_iff)

lemma add_risk_signals_marks:
  assumes "unmarked f"
  shows "\<exists>seen. marking_inv f (add_risk_signals f, seen) \<and> set seen = expected_marks f"
proof -
  note one = marksD [OF mark_file_kind_marks unmarked_inv [OF assms]]
  note two = marksD [OF mark_dart_path_marks conjunct1 [OF one]]
  note three = marksD [OF mark_hunks_marks conjunct1 [OF two]]
  let ?m = "mark_hunks (mark_dart_path (mark_file_kind (f, [])))"
  have "set (snd ?m) = expected_marks f"
    using one two three by (auto simp: expected_marks_def)
  then show ?thesis
    using three by (intro exI [of _ "snd ?m"]) (simp add: add_risk_signals_def)
qed

text \<open>The built-in signals are exactly the expected ones. On a file as parsed, the set of
  (kind, line) pairs marked is the one the tables define: the mark of its kind, the Dart path
  marks, and one mark for each changed line and keyword table entry that matches, at the anchor
  of the line. No pair is marked twice, every signal is a valid built-in signal with its
  severity's score and the path of the file, the signals of a hunk are signals of the file, and
  nothing but signals changes.\<close>

theorem add_risk_signals_exact:
  assumes "cf_risk_signals f = []" and "list_all (\<lambda>h. hk_risk_signals h = []) (cf_hunks f)"
  shows "set (map mark_key (cf_risk_signals (add_risk_signals f))) = expected_marks f
    \<and> distinct (map mark_key (cf_risk_signals (add_risk_signals f)))
    \<and> list_all (built_in_signal (cf_path f)) (cf_risk_signals (add_risk_signals f))
    \<and> list_all (\<lambda>h. set (hk_risk_signals h) \<subseteq> set (cf_risk_signals (add_risk_signals f)))
        (cf_hunks (add_risk_signals f))
    \<and> bare_file (add_risk_signals f) = bare_file f"
proof -
  obtain seen where inv: "marking_inv f (add_risk_signals f, seen)" and seen: "set seen = expected_marks f"
    using add_risk_signals_marks [of f] assms by (auto simp: unmarked_def)
  then have keys: "map mark_key (cf_risk_signals (add_risk_signals f)) = rev seen" and "distinct seen"
    by (simp_all add: marking_inv_def)
  with inv seen show ?thesis
    unfolding keys by (simp add: marking_inv_def)
qed

lemma add_risk_signals_exact_witness:
  "set (map mark_key (cf_risk_signals (add_risk_signals
      ((new_changed_file ''m.sql'' ''m.sql'')\<lparr>cf_file_kind := FK_MIGRATION\<rparr>)))) = {(''migration'', None)}"
  using add_risk_signals_exact [of "(new_changed_file ''m.sql'' ''m.sql'')\<lparr>cf_file_kind := FK_MIGRATION\<rparr>"]
  by (simp add: new_changed_file_def expected_marks_def kind_marks_def dart_path_marks_def)

lemma table_kinds:
  "list_all (\<lambda>e. fst e \<noteq> ''test_gap'') risk_keywords" "list_all (\<lambda>e. fst e \<noteq> ''test_gap'') dart_risk_keywords"
  "list_all (\<lambda>e. fst e \<noteq> ''test_gap'') dart_path_risk_parts"
  by (simp_all add: risk_keywords_def dart_risk_keywords_def dart_path_risk_parts_def)

lemma expected_marks_kinds: "(''test_gap'', l) \<notin> expected_marks f"
proof -
  have "(''test_gap'', l) \<notin> kind_marks f" by (simp add: kind_marks_def split: file_kind.split)
  moreover have "(''test_gap'', l) \<notin> dart_path_marks f"
    using table_kinds(3) by (auto simp: dart_path_marks_def list_all_iff split: if_splits)
  moreover have "(''test_gap'', l) \<notin> hunk_marks (keyword_entries f) h" for h
    using table_kinds(1,2)
    by (auto simp: hunk_marks_def line_marks_def keyword_marks_def keyword_entries_def list_all_iff Let_def
        split: if_splits)
  ultimately show ?thesis by (simp add: expected_marks_def)
qed

lemma policy_kind_not_gap: "a \<in> set (policy_additions cfg f) \<Longrightarrow> rs_kind (snd a) \<noteq> ''test_gap''"
  by (auto simp: policy_additions_def rule_additions_def signal_for_rule_def split: if_splits)

lemma bare_file_ignored: "bare_file f = bare_file g \<Longrightarrow> cf_is_ignored f = cf_is_ignored g"
  by (cases f; cases g) (simp add: bare_file_def)

lemma bare_file_kind: "bare_file f = bare_file g \<Longrightarrow> cf_file_kind f = cf_file_kind g"
  by (cases f; cases g) (simp add: bare_file_def)

lemma add_risk_signals_bare: "unmarked f \<Longrightarrow> bare_file (add_risk_signals f) = bare_file f"
  using add_risk_signals_marks by (auto simp: marking_inv_def)

lemma signal_file_bare:
  assumes "unmarked f"
  shows "bare_file (signal_file risk tc f) = bare_file f"
proof (cases "cf_is_ignored f")
  case False
  then show ?thesis
    using add_risk_signals_bare [OF assms]
    by (simp add: signal_file_def policy_as_additions Let_def)
qed (simp add: signal_file_def)

lemma classify_file_unmarked: "unmarked f \<Longrightarrow> unmarked (classify_file ig f)"
  by (simp add: classify_file_def unmarked_def Let_def split: option.split)

lemma gap_mark: "s \<in> set (cf_risk_signals (add_risk_signals f)) \<Longrightarrow> unmarked f \<Longrightarrow> rs_kind s \<noteq> ''test_gap''"
proof
  assume s: "s \<in> set (cf_risk_signals (add_risk_signals f))" "rs_kind s = ''test_gap''" and f: "unmarked f"
  obtain seen where inv: "marking_inv f (add_risk_signals f, seen)" and seen: "set seen = expected_marks f"
    using add_risk_signals_marks [OF f] by blast
  have "set (map mark_key (cf_risk_signals (add_risk_signals f))) = expected_marks f"
    using inv seen by (simp only: marking_inv_def fst_conv snd_conv set_rev)
  then have "mark_key s \<in> expected_marks f" using s(1) by (metis image_eqI list.set_map)
  with s(2) expected_marks_kinds show False by (simp add: mark_key_def)
qed

lemma signal_file_gap:
  assumes "unmarked f"
  shows "(\<exists>s\<in>set (cf_risk_signals (signal_file risk tc f)). rs_kind s = ''test_gap'') \<longleftrightarrow>
    \<not> cf_is_ignored f \<and> rcfg_built_in_enabled risk \<and> cf_file_kind f = FK_SOURCE \<and> \<not> tc"
proof (cases "cf_is_ignored f")
  case True
  with assms show ?thesis by (simp add: signal_file_def unmarked_def)
next
  case False
  let ?f1 = "if rcfg_built_in_enabled risk then add_risk_signals f else f"
  have kind: "cf_file_kind ?f1 = cf_file_kind f"
    using bare_file_kind [OF add_risk_signals_bare [OF assms]] by simp
  have none: "\<forall>s\<in>set (cf_risk_signals ?f1). rs_kind s \<noteq> ''test_gap''"
    using gap_mark assms by (auto simp: unmarked_def)
  show ?thesis
    using False none kind policy_kind_not_gap
    by (auto simp: signal_file_def policy_as_additions attach_file_signals add_file_signal_def
        test_gap_signal_def Let_def)
qed

text \<open>A source file is reported as changed without tests exactly when it is not ignored, the
  built-in signals are enabled and no file of the classified diff is an unignored test file;
  no other signal, built in or of a project rule, has that kind.\<close>

theorem test_gap_iff_no_test_changed:
  assumes "list_all (\<lambda>f. cf_risk_signals f = [] \<and> list_all (\<lambda>h. hk_risk_signals h = []) (cf_hunks f)) (dsum_files d)"
    and "g \<in> set (dsum_files (classify_diff ignore (Some risk) d))"
  shows "(\<exists>s\<in>set (cf_risk_signals g). rs_kind s = ''test_gap'') \<longleftrightarrow>
    \<not> cf_is_ignored g \<and> rcfg_built_in_enabled risk \<and> cf_file_kind g = FK_SOURCE
    \<and> \<not> (\<exists>t\<in>set (dsum_files (classify_diff ignore (Some risk) d)). cf_file_kind t = FK_TEST \<and> \<not> cf_is_ignored t)"
proof -
  let ?cs = "map (classify_file ignore) (dsum_files d)"
  obtain tc where tc: "tc = list_ex (\<lambda>f. cf_file_kind f = FK_TEST \<and> \<not> cf_is_ignored f) ?cs" by blast
  have files: "dsum_files (classify_diff ignore (Some risk) d) = map (signal_file risk tc) ?cs"
    unfolding tc by (simp add: classify_diff_def Let_def)
  have "\<forall>f\<in>set (dsum_files d). unmarked f"
    using assms(1) by (simp add: list_all_iff unmarked_def)
  then have un: "unmarked f" if "f \<in> set ?cs" for f
    using that by (auto intro: classify_file_unmarked)
  have same: "cf_file_kind (signal_file risk tc f) = cf_file_kind f \<and> cf_is_ignored (signal_file risk tc f) = cf_is_ignored f"
    if "f \<in> set ?cs" for f
    using signal_file_bare [OF un [OF that]] bare_file_kind bare_file_ignored by blast
  have no_test: "tc \<longleftrightarrow> (\<exists>t\<in>set (dsum_files (classify_diff ignore (Some risk) d)). cf_file_kind t = FK_TEST \<and> \<not> cf_is_ignored t)"
    (is "_ \<longleftrightarrow> ?test")
  proof
    assume tc
    then obtain f where "f \<in> set ?cs" "cf_file_kind f = FK_TEST" "\<not> cf_is_ignored f"
      unfolding tc list_ex_iff by blast
    with same [of f] show ?test
      unfolding files set_map [of "signal_file risk tc"] by (intro bexI [of _ "signal_file risk tc f"]) simp_all
  next
    assume ?test
    then obtain f where f: "f \<in> set ?cs" "cf_file_kind (signal_file risk tc f) = FK_TEST"
      "\<not> cf_is_ignored (signal_file risk tc f)"
      unfolding files set_map [of "signal_file risk tc"] by blast
    with same [OF f(1)] have "\<exists>f\<in>set ?cs. cf_file_kind f = FK_TEST \<and> \<not> cf_is_ignored f"
      by (intro bexI [OF _ f(1)]) simp_all
    then show tc by (simp only: tc list_ex_iff)
  qed
  obtain f where f: "f \<in> set ?cs" "g = signal_file risk tc f"
    using assms(2) unfolding files set_map [of "signal_file risk tc"] by blast
  show ?thesis
    unfolding no_test [symmetric] f(2) by (simp only: signal_file_gap [OF un [OF f(1)]] same [OF f(1)])
qed

text \<open>A diff with one changed Dart source file and no test.\<close>

definition dart_diff :: diff_summary where
  "dart_diff = \<lparr>dsum_base = None, dsum_target_mode = TM_PATCH,
     dsum_files = [new_changed_file ''a.dart'' ''a.dart''],
     dsum_stats = \<lparr>ds_files_changed = 1, ds_additions = 0, ds_deletions = 0, ds_ignored_files = 0\<rparr>,
     dsum_warnings = []\<rparr>"

lemma test_gap_iff_no_test_changed_witness:
  "\<exists>g. (\<exists>s\<in>set (cf_risk_signals g). rs_kind s = ''test_gap'') \<and> \<not> cf_is_ignored g
     \<and> dsum_files (classify_diff [] (Some default_risk_config) dart_diff) = [g]"
proof -
  let ?g = "hd (dsum_files (classify_diff [] (Some default_risk_config) dart_diff))"
  have kind: "detect_file_kind ''a.dart'' = FK_SOURCE" by code_simp
  have path: "cf_path (new_changed_file ''a.dart'' ''a.dart'') = ''a.dart''"
    by (simp add: new_changed_file_def cf_path_def)
  have cls: "classify_file [] (new_changed_file ''a.dart'' ''a.dart'') =
      (new_changed_file ''a.dart'' ''a.dart'')\<lparr>cf_language := detect_language ''a.dart'', cf_file_kind := FK_SOURCE\<rparr>"
    by (simp add: classify_file_def match_ignore_def path kind Let_def)
  have un: "unmarked (classify_file [] (new_changed_file ''a.dart'' ''a.dart''))"
    by (rule classify_file_unmarked) (simp add: unmarked_def new_changed_file_def)
  obtain g where g: "g = signal_file default_risk_config False (classify_file [] (new_changed_file ''a.dart'' ''a.dart''))"
    by blast
  have files: "dsum_files (classify_diff [] (Some default_risk_config) dart_diff) = [g]"
    by (simp add: classify_diff_def dart_diff_def cls g)
  have "cf_is_ignored (new_changed_file ''a.dart'' ''a.dart'') = False"
    by (simp add: new_changed_file_def)
  then have "\<not> cf_is_ignored g" "cf_file_kind g = FK_SOURCE"
    using bare_file_ignored [OF signal_file_bare [OF un]] bare_file_kind [OF signal_file_bare [OF un]]
    by (simp_all add: g cls)
  moreover have "list_all (\<lambda>f. cf_risk_signals f = [] \<and> list_all (\<lambda>h. hk_risk_signals h = []) (cf_hunks f)) (dsum_files dart_diff)"
    by (simp add: dart_diff_def new_changed_file_def)
  moreover have "rcfg_built_in_enabled default_risk_config"
    by (simp add: default_risk_config_def)
  ultimately show ?thesis
    using test_gap_iff_no_test_changed [of dart_diff g "[]" default_risk_config] files
    by (intro exI [of _ g]) simp
qed

end
