(* ===== verification/Findings.thy ===== *)
theory Findings
  imports Model_Finding Path_Matching
begin

section \<open>Findings: identity, duplicates and reviewer provenance\<close>

text \<open>
  \<open>src/apex_ray/findings.py\<close>, first half: the normalised identities of a finding, the token
  comparison that calls two findings duplicates, the test/source scope of a path, reviewer
  provenance with its origin context packs, and the fingerprint (its hash is a parameter).
  Floating-point ratios are exact rationals. The lemmas show that the comparison is an
  equivalence-like relation (reflexive and symmetric) and that provenance merges lose no
  reviewer.
\<close>

subsection \<open>Normalised values\<close>

definition normalized_finding_file :: "finding \<Rightarrow> string" where
  "normalized_finding_file f = normalize_path (fi_file f)"

definition normalized_context_pack_id :: "string \<Rightarrow> string" where
  "normalized_context_pack_id v =
     (let (prefix, found, suffix) = partition_char CHR ''#'' (py_strip v) in
      if \<not> found then py_strip v else normalize_path prefix @ ''#'' @ suffix)"

definition compact_text :: "string \<Rightarrow> string" where
  "compact_text v = join '' '' (py_split (py_strip v))"

type_synonym decision_identity =
  "finding_severity \<times> string \<times> string \<times> int option \<times> string \<times> string \<times> string"

definition finding_decision_identity :: "finding \<Rightarrow> decision_identity" where
  "finding_decision_identity f = (fi_severity f, fi_title f, normalized_finding_file f, fi_line f,
     fi_failure_mode f, fi_evidence f, normalized_context_pack_id (fi_context_pack_id f))"

definition verification_subject_identity ::
  "finding \<Rightarrow> string \<times> string \<times> int option \<times> string \<times> string \<times> string" where
  "verification_subject_identity f = (fi_title f, normalized_finding_file f, fi_line f,
     fi_failure_mode f, fi_evidence f, normalized_context_pack_id (fi_context_pack_id f))"

definition cross_pack_verification_identity ::
  "finding \<Rightarrow> finding_severity \<times> string \<times> string \<times> string" where
  "cross_pack_verification_identity f = (fi_severity f, fi_title f, fi_failure_mode f, fi_evidence f)"

text \<open>The fingerprint; the hexadecimal SHA-256 of a text is a parameter.\<close>

definition finding_fingerprint :: "(string \<Rightarrow> string) \<Rightarrow> finding \<Rightarrow> string" where
  "finding_fingerprint sha256 f =
     (let payload = join ''|'' [normalize_path (fi_file f),
        (case fi_line f of None \<Rightarrow> [] | Some l \<Rightarrow> if l = 0 then [] else str_int l),
        py_lower (compact_text (fi_title f)),
        take 500 (py_lower (compact_text (fi_failure_mode f)))]
      in ''apex-'' @ take 16 (sha256 payload))"

subsection \<open>Test and source scopes\<close>

definition test_path_parts :: "string list" where
  "test_path_parts = [''__tests__'', ''test'', ''tests'']"

definition finding_path_is_test :: "string \<Rightarrow> bool" where
  "finding_path_is_test path =
     (let parts = split_char CHR ''/'' (normalize_path path); filename = last parts
      in list_ex (\<lambda>p. p \<in> set test_path_parts) (butlast parts)
         \<or> str_in ''.test.'' filename \<or> str_in ''.spec.'' filename
         \<or> starts_with filename ''test_'' \<or> str_in ''_test.'' filename)"

text \<open>\<open>_TEST_FILE_MARKER_RE.sub\<close> replaces every marker by a dot, \<open>_TEST_FILE_SUFFIX_RE.sub\<close> drops
  the first \<open>_test\<close> before a dot.\<close>

fun sub_test_marker :: "string \<Rightarrow> string" where
  "sub_test_marker [] = []"
| "sub_test_marker (c # cs) =
     (if starts_with (c # cs) ''.test.'' \<or> starts_with (c # cs) ''.spec.''
      then CHR ''.'' # sub_test_marker (drop 5 cs)
      else c # sub_test_marker cs)"

definition drop_test_suffix :: "string \<Rightarrow> string" where
  "drop_test_suffix s = (case find_sub ''_test.'' s of None \<Rightarrow> s | Some i \<Rightarrow> take i s @ drop (i + 5) s)"

definition finding_test_source_scope :: "string \<Rightarrow> string" where
  "finding_test_source_scope path =
     (let parts = filter (\<lambda>p. p \<noteq> [] \<and> p \<notin> set test_path_parts \<and> p \<noteq> ''src'')
            (split_char CHR ''/'' (normalize_path path))
      in if parts = [] then []
         else let filename = sub_test_marker (last parts);
                  filename' = (if starts_with filename ''test_'' then remove_prefix filename ''test_'' else filename)
              in join ''/'' (butlast parts @ [drop_test_suffix filename']))"

definition test_source_scopes_are_compatible :: "string \<Rightarrow> string \<Rightarrow> bool" where
  "test_source_scopes_are_compatible l r \<longleftrightarrow>
     finding_path_is_test l \<noteq> finding_path_is_test r
     \<and> finding_test_source_scope l = finding_test_source_scope r"

definition close_lines :: "int option \<Rightarrow> int option \<Rightarrow> bool" where
  "close_lines a b = (case a of None \<Rightarrow> False | Some x \<Rightarrow>
     (case b of None \<Rightarrow> False | Some y \<Rightarrow> \<bar>x - y\<bar> \<le> 3))"

definition finding_consolidation_scope_is_compatible :: "finding \<Rightarrow> finding \<Rightarrow> bool" where
  "finding_consolidation_scope_is_compatible l r =
     (let lf = normalized_finding_file l; rf = normalized_finding_file r in
      if lf = rf then close_lines (fi_line l) (fi_line r)
      else test_source_scopes_are_compatible lf rf)"

definition verification_scope_is_compatible :: "finding \<Rightarrow> finding \<Rightarrow> bool" where
  "verification_scope_is_compatible l r =
     (if normalized_finding_file l \<noteq> normalized_finding_file r then False
      else if fi_context_pack_id l \<noteq> [] \<and> fi_context_pack_id r \<noteq> []
           \<and> normalized_context_pack_id (fi_context_pack_id l) \<noteq> normalized_context_pack_id (fi_context_pack_id r)
      then False
      else if fi_line l = None \<or> fi_line r = None then fi_line l = fi_line r
      else close_lines (fi_line l) (fi_line r))"

subsection \<open>Tokens\<close>

text \<open>\<open>[a-z0-9_]{3,}\<close>: the maximal runs of such characters, at least three long.\<close>

definition token_char :: "char \<Rightarrow> bool" where
  "token_char c \<longleftrightarrow> lower_or_digit c \<or> c = CHR ''_''"

fun runs_from :: "(char \<Rightarrow> bool) \<Rightarrow> string \<Rightarrow> string \<Rightarrow> string list" where
  "runs_from p acc [] = (if acc = [] then [] else [rev acc])"
| "runs_from p acc (c # cs) =
     (if p c then runs_from p (c # acc) cs
      else if acc = [] then runs_from p [] cs else rev acc # runs_from p [] cs)"

definition word_tokens :: "string \<Rightarrow> string list" where
  "word_tokens s = filter (\<lambda>t. 3 \<le> length t) (runs_from token_char [] s)"

text \<open>\<open>[a-z][a-z0-9]*(\[[a-z0-9]*\])+\<close>: a name followed by bracket groups. The optional last
  group of the pattern never adds anything, the repetition before it is greedy.\<close>

definition bracket_group :: "string \<Rightarrow> (string \<times> string) option" where
  "bracket_group s = (case s of [] \<Rightarrow> None | c # cs \<Rightarrow>
     if c = CHR ''['' then
       (case dropWhile lower_or_digit cs of [] \<Rightarrow> None | d # ds \<Rightarrow>
          if d = CHR '']'' then Some (CHR ''['' # takeWhile lower_or_digit cs @ '']'', ds) else None)
     else None)"

lemma bracket_group_shorter: "bracket_group s = Some (g, r) \<Longrightarrow> length r < length s"
proof -
  assume "bracket_group s = Some (g, r)"
  then obtain c cs d where "s = c # cs" "dropWhile lower_or_digit cs = d # r"
    by (auto simp: bracket_group_def split: list.splits if_splits)
  moreover from this have "length (d # r) \<le> length cs" by (metis length_dropWhile_le)
  ultimately show ?thesis by simp
qed

function bracket_groups :: "string \<Rightarrow> string \<times> string" where
  "bracket_groups s = (case bracket_group s of None \<Rightarrow> ([], s)
     | Some (g, r) \<Rightarrow> (let (gs, r') = bracket_groups r in (g @ gs, r')))"
  by pat_completeness auto
termination by (relation "measure length") (auto simp: bracket_group_shorter)

declare bracket_groups.simps [simp del]

definition lower_letter :: "char \<Rightarrow> bool" where
  "lower_letter c \<longleftrightarrow> 97 \<le> char_code c \<and> char_code c \<le> 122"

definition code_token_at :: "string \<Rightarrow> (string \<times> string) option" where
  "code_token_at s = (case s of [] \<Rightarrow> None | c # cs \<Rightarrow>
     if lower_letter c then
       (let (gs, r) = bracket_groups (dropWhile lower_or_digit cs) in
        if gs = [] then None else Some (c # takeWhile lower_or_digit cs @ gs, r))
     else None)"

lemma bracket_groups_le: "length (snd (bracket_groups s)) \<le> length s"
proof (induction s rule: bracket_groups.induct)
  case (1 s)
  show ?case
  proof (cases "bracket_group s")
    case None
    then show ?thesis by (simp add: bracket_groups.simps)
  next
    case (Some gr)
    obtain g r where gr: "gr = (g, r)" by force
    with Some 1 [OF Some gr [symmetric]] bracket_group_shorter [of s g r] show ?thesis
      by (subst bracket_groups.simps) (auto split: prod.splits)
  qed
qed

lemma code_token_at_shorter: "code_token_at s = Some (t, r) \<Longrightarrow> length r < length s"
proof -
  assume "code_token_at s = Some (t, r)"
  then obtain c cs gs where s: "s = c # cs" "bracket_groups (dropWhile lower_or_digit cs) = (gs, r)"
    by (auto simp: code_token_at_def split: list.splits if_splits prod.splits)
  have "length r \<le> length (dropWhile lower_or_digit cs)"
    using bracket_groups_le [of "dropWhile lower_or_digit cs"] s(2) by simp
  also have "\<dots> \<le> length cs" by (rule length_dropWhile_le)
  finally show ?thesis using s(1) by simp
qed

function code_tokens :: "string \<Rightarrow> string list" where
  "code_tokens s = (case code_token_at s of
       Some (t, r) \<Rightarrow> t # code_tokens r
     | None \<Rightarrow> (case s of [] \<Rightarrow> [] | c # cs \<Rightarrow> code_tokens cs))"
  by pat_completeness auto
termination by (relation "measure length") (auto simp: code_token_at_shorter)

declare code_tokens.simps [simp del]

definition finding_stop_words :: "string list" where
  "finding_stop_words = [''add'', ''added'', ''also'', ''and'', ''any'', ''are'', ''assert'', ''before'',
     ''but'', ''can'', ''change'', ''changed'', ''changes'', ''code'', ''concrete'', ''context'',
     ''diff'', ''does'', ''from'', ''has'', ''have'', ''including'', ''instead'', ''into'', ''issue'',
     ''line'', ''new'', ''not'', ''now'', ''only'', ''public'', ''raw'', ''return'', ''returns'',
     ''same'', ''should'', ''that'', ''the'', ''this'', ''through'', ''type'', ''updated'', ''using'',
     ''value'', ''with'']"

definition finding_text :: "finding \<Rightarrow> string" where
  "finding_text f = py_lower (join [CHR 0x0A]
     [fi_title f, fi_failure_mode f, fi_evidence f, fi_suggested_fix f])"

definition finding_code_tokens :: "finding \<Rightarrow> string set" where
  "finding_code_tokens f = set (code_tokens (finding_text f))"

definition finding_tokens :: "finding \<Rightarrow> string set" where
  "finding_tokens f =
     set (filter (\<lambda>t. t \<notin> set finding_stop_words \<and> \<not> py_isdigit t) (word_tokens (finding_text f)))
     \<union> finding_code_tokens f"

definition finding_subjects_are_duplicates :: "finding \<Rightarrow> finding \<Rightarrow> bool" where
  "finding_subjects_are_duplicates l r =
     (let lt = finding_tokens l; rt = finding_tokens r; smaller = min (card lt) (card rt) in
      if smaller < 8 then False
      else let overlap = card (lt \<inter> rt);
               containment = rat_of_nat overlap / rat_of_nat smaller;
               jaccard = rat_of_nat overlap / rat_of_nat (card (lt \<union> rt))
           in if 54 / 100 \<le> containment \<and> 35 / 100 \<le> jaccard then True
              else if finding_code_tokens l \<inter> finding_code_tokens r \<noteq> {} \<and> 8 \<le> overlap \<and> 20 / 100 \<le> jaccard
              then True
              else 24 \<le> overlap \<and> 48 / 100 \<le> containment \<and> 30 / 100 \<le> jaccard)"

definition findings_are_duplicates :: "finding \<Rightarrow> finding \<Rightarrow> bool" where
  "findings_are_duplicates l r =
     (if finding_decision_identity l = finding_decision_identity r then True
      else if fi_severity l \<noteq> fi_severity r then False
      else if \<not> finding_consolidation_scope_is_compatible l r then False
      else finding_subjects_are_duplicates l r)"

definition finding_matches_any :: "finding \<Rightarrow> finding list \<Rightarrow> bool" where
  "finding_matches_any f cands = list_ex (\<lambda>c. verification_scope_is_compatible f c
     \<and> (finding_decision_identity f = finding_decision_identity c \<or> findings_are_duplicates f c)) cands"

definition verification_subject_matches_any :: "finding \<Rightarrow> finding list \<Rightarrow> bool" where
  "verification_subject_matches_any f cands = list_ex (\<lambda>c. verification_scope_is_compatible f c
     \<and> (verification_subject_identity f = verification_subject_identity c \<or> findings_are_duplicates f c)) cands"

subsection \<open>Reviewer provenance\<close>

definition reviewer_origins_are_explicit :: "finding \<Rightarrow> string \<Rightarrow> bool" where
  "reviewer_origins_are_explicit f rid \<longleftrightarrow> dict_get (fi_reviewer_context_pack_ids f) rid \<noteq> None"

definition reviewer_origin_pack_ids :: "finding \<Rightarrow> string \<Rightarrow> string list" where
  "reviewer_origin_pack_ids f rid =
     (case dict_get (fi_reviewer_context_pack_ids f) rid of
        Some ids \<Rightarrow> filter (\<lambda>i. i \<noteq> []) ids
      | None \<Rightarrow> if fi_context_pack_id f \<noteq> [] then [fi_context_pack_id f] else [])"

definition findings_share_reviewer_origin :: "finding \<Rightarrow> finding \<Rightarrow> string \<Rightarrow> bool" where
  "findings_share_reviewer_origin l r rid \<longleftrightarrow>
     set (map normalized_context_pack_id (reviewer_origin_pack_ids l rid))
     \<inter> set (map normalized_context_pack_id (reviewer_origin_pack_ids r rid)) \<noteq> {}"

text \<open>\<open>finding.reviewer_ids or ["general"]\<close>.\<close>

definition finding_reviewers :: "finding \<Rightarrow> string list" where
  "finding_reviewers f = (if fi_reviewer_ids f = [] then [''general''] else fi_reviewer_ids f)"

definition merged_origin :: "finding list \<Rightarrow> string \<Rightarrow> (string \<times> string list) option" where
  "merged_origin cands rid =
     (let mine = filter (\<lambda>f. rid \<in> set (finding_reviewers f)) cands in
      if list_ex (\<lambda>f. \<not> reviewer_origins_are_explicit f rid) mine then None
      else let origins = sorted_set (concat (map (\<lambda>f. reviewer_origin_pack_ids f rid) mine))
           in if origins \<noteq> [] then Some (rid, origins) else None)"

definition merge_finding_reviewer_provenance :: "finding \<Rightarrow> finding list \<Rightarrow> finding" where
  "merge_finding_reviewer_provenance preferred cands =
     (let provenance = sorted_set (concat (map finding_reviewers cands));
          packs = remdups (filter (\<lambda>p. p \<noteq> []) (map fi_context_pack_id cands));
          origins = (if 1 < length packs \<or> list_ex (\<lambda>f. fi_reviewer_context_pack_ids f \<noteq> []) cands
                     then List.map_filter (merged_origin cands) provenance else [])
      in preferred\<lparr>fi_reviewer_ids := (if provenance = [''general''] then [] else provenance),
           fi_reviewer_context_pack_ids := origins\<rparr>)"

definition retained_origin ::
  "finding \<Rightarrow> (string \<times> string list) list option \<Rightarrow> string \<Rightarrow> (string \<times> string list) option" where
  "retained_origin f origin_pack_ids rid =
     (let given = (case origin_pack_ids of None \<Rightarrow> None | Some d \<Rightarrow> dict_get d rid);
          values = (case given of Some v \<Rightarrow> Some v
            | None \<Rightarrow> if reviewer_origins_are_explicit f rid then Some (reviewer_origin_pack_ids f rid) else None)
      in case values of None \<Rightarrow> None | Some v \<Rightarrow> if v \<noteq> [] then Some (rid, sorted_set v) else None)"

definition retain_finding_reviewer_provenance ::
  "finding \<Rightarrow> string list \<Rightarrow> (string \<times> string list) list option \<Rightarrow> finding" where
  "retain_finding_reviewer_provenance f reviewer_ids origin_pack_ids =
     (let retained = uniq reviewer_ids;
          named = (if list_ex (\<lambda>r. r \<noteq> ''general'') retained then sort retained else [])
      in f\<lparr>fi_reviewer_ids := named,
           fi_reviewer_context_pack_ids := List.map_filter (retained_origin f origin_pack_ids) retained\<rparr>)"

subsection \<open>The comparisons are symmetric\<close>

lemma close_lines_sym: "close_lines a b = close_lines b a"
  by (auto simp: close_lines_def abs_minus_commute split: option.splits)

lemma consolidation_scope_sym:
  "finding_consolidation_scope_is_compatible l r = finding_consolidation_scope_is_compatible r l"
  by (auto simp: finding_consolidation_scope_is_compatible_def test_source_scopes_are_compatible_def
      close_lines_sym Let_def)

lemma verification_scope_sym:
  "verification_scope_is_compatible l r = verification_scope_is_compatible r l"
  by (auto simp: verification_scope_is_compatible_def close_lines_sym)

lemma share_origin_sym: "findings_share_reviewer_origin l r rid = findings_share_reviewer_origin r l rid"
  by (simp add: findings_share_reviewer_origin_def Int_commute)

lemma subjects_sym: "finding_subjects_are_duplicates l r = finding_subjects_are_duplicates r l"
  by (simp add: finding_subjects_are_duplicates_def Let_def min.commute Int_commute Un_commute)

lemma duplicates_sym: "findings_are_duplicates l r = findings_are_duplicates r l"
  by (auto simp: findings_are_duplicates_def consolidation_scope_sym [of l r] subjects_sym [of l r])

lemma duplicates_refl [simp]: "findings_are_duplicates f f"
  by (simp add: findings_are_duplicates_def)

lemmas comparison_sym = verification_scope_sym duplicates_sym consolidation_scope_sym share_origin_sym

text \<open>Two findings are duplicates in either order, every finding is a duplicate of itself, and
  duplicates always have the same severity.\<close>

theorem findings_are_duplicates_relation:
  "findings_are_duplicates f f
   \<and> findings_are_duplicates l r = findings_are_duplicates r l
   \<and> (findings_are_duplicates l r \<longleftrightarrow> fi_severity l = fi_severity r \<and>
       (finding_decision_identity l = finding_decision_identity r
        \<or> finding_consolidation_scope_is_compatible l r \<and> finding_subjects_are_duplicates l r))"
proof (intro conjI)
  have "finding_decision_identity l = finding_decision_identity r \<Longrightarrow> fi_severity l = fi_severity r"
    by (simp add: finding_decision_identity_def)
  then show "findings_are_duplicates l r \<longleftrightarrow> fi_severity l = fi_severity r \<and>
       (finding_decision_identity l = finding_decision_identity r
        \<or> finding_consolidation_scope_is_compatible l r \<and> finding_subjects_are_duplicates l r)"
    unfolding findings_are_duplicates_def by (simp split: if_split)
qed (simp_all add: duplicates_sym [of l r])

subsection \<open>Provenance merges lose no reviewer\<close>

definition effective_set :: "finding \<Rightarrow> string set" where
  "effective_set f = set (finding_reviewers f)"

lemma effective_set_nonempty: "effective_set f \<noteq> {}"
  by (simp add: effective_set_def finding_reviewers_def)

lemma merge_identity [simp]:
  "finding_decision_identity (merge_finding_reviewer_provenance p cs) = finding_decision_identity p"
  by (simp add: merge_finding_reviewer_provenance_def finding_decision_identity_def
      normalized_finding_file_def Let_def)

lemma merge_effective:
  assumes "cs \<noteq> []"
  shows "effective_set (merge_finding_reviewer_provenance p cs) = (\<Union>c\<in>set cs. effective_set c)"
proof -
  let ?prov = "sorted_set (concat (map finding_reviewers cs))"
  have set_prov: "set ?prov = (\<Union>c\<in>set cs. effective_set c)"
    by (auto simp: effective_set_def)
  obtain c where "c \<in> set cs" using assms by (cases cs) auto
  with effective_set_nonempty [of c] set_prov have "?prov \<noteq> []" by (metis UN_I empty_iff equals0I list.set(1))
  moreover have "fi_reviewer_ids (merge_finding_reviewer_provenance p cs) =
      (if ?prov = [''general''] then [] else ?prov)"
    by (simp add: merge_finding_reviewer_provenance_def Let_def)
  ultimately have "finding_reviewers (merge_finding_reviewer_provenance p cs) = ?prov"
    unfolding finding_reviewers_def [of "merge_finding_reviewer_provenance p cs"] by simp
  then have "effective_set (merge_finding_reviewer_provenance p cs) = set ?prov"
    by (simp only: effective_set_def)
  with set_prov show ?thesis by simp
qed

end
