(* ===== verification/Verifications.thy ===== *)
theory Verifications
  imports Findings
begin

section \<open>Verification history: active, unresolved and historical decisions\<close>

text \<open>
  \<open>src/apex_ray/findings.py\<close>, second half: which decisions of a verification history are in force.
  The code tells the decisions of a history apart by object identity; here an entry is a decision
  with its position. A set whose iteration order the code leaves open (the provenance of a
  finding) is enumerated by a parameter. \<open>latest_wins\<close> is the contract of "a later decision
  replaces the earlier ones it conflicts with"; the history and the suppressions of a triage
  state are instances.
\<close>

subsection \<open>When two decisions are about the same finding\<close>

definition share_explicit_cross_pack_origin :: "finding_verification \<Rightarrow> finding_verification \<Rightarrow> bool" where
  "share_explicit_cross_pack_origin l r \<longleftrightarrow>
     fv_reviewer_id l = fv_reviewer_id r
     \<and> normalized_context_pack_id (fi_context_pack_id (fv_finding l))
         \<noteq> normalized_context_pack_id (fi_context_pack_id (fv_finding r))
     \<and> finding_consolidation_scope_is_compatible (fv_finding l) (fv_finding r)
     \<and> (reviewer_origins_are_explicit (fv_finding l) (fv_reviewer_id l)
        \<or> reviewer_origins_are_explicit (fv_finding r) (fv_reviewer_id r))
     \<and> findings_share_reviewer_origin (fv_finding l) (fv_finding r) (fv_reviewer_id l)
     \<and> cross_pack_verification_identity (fv_finding l) = cross_pack_verification_identity (fv_finding r)"

definition verification_decisions_match :: "finding_verification \<Rightarrow> finding_verification \<Rightarrow> bool" where
  "verification_decisions_match l r =
     (if fv_review_snapshot_id l = None \<or> fv_review_snapshot_id r = None
      then verification_subject_identity (fv_finding l) = verification_subject_identity (fv_finding r)
           \<or> share_explicit_cross_pack_origin l r
      else if fv_review_snapshot_id l = fv_review_snapshot_id r
      then finding_decision_identity (fv_finding l) = finding_decision_identity (fv_finding r)
      else if share_explicit_cross_pack_origin l r then True
      else verification_subject_matches_any (fv_finding l) [fv_finding r])"

definition verification_is_terminally_replaced :: "finding_verification \<Rightarrow> bool" where
  "verification_is_terminally_replaced v \<longleftrightarrow> fv_superseded v
     \<and> starts_with (case fv_superseded_reason v of None \<Rightarrow> [] | Some r \<Rightarrow> r) ''Replaced by''"

lemma share_cross_pack_sym:
  "share_explicit_cross_pack_origin l r = share_explicit_cross_pack_origin r l"
  by (auto simp: share_explicit_cross_pack_origin_def comparison_sym)

lemma subject_identity_decision:
  "finding_decision_identity l = finding_decision_identity r \<Longrightarrow>
     verification_subject_identity l = verification_subject_identity r"
  by (simp add: finding_decision_identity_def verification_subject_identity_def)

lemma verification_decisions_match_sym_fact:
  "verification_decisions_match l r = verification_decisions_match r l" "verification_decisions_match v v"
  by (auto simp: verification_decisions_match_def verification_subject_matches_any_def comparison_sym
      share_cross_pack_sym [of l r] split: if_splits)

text \<open>Whether two verification decisions are about the same finding does not depend on which
  one is older: the match is symmetric, on every combination of review snapshots, and a decision
  matches itself.\<close>

theorem verification_decisions_match_symmetric:
  "verification_decisions_match l r = verification_decisions_match r l \<and> verification_decisions_match v v"
  using verification_decisions_match_sym_fact by blast

subsection \<open>The latest decision wins\<close>

type_synonym 'a entry = "nat \<times> 'a"

text \<open>One pass over a sequence: a dead item is skipped, a live one removes the kept items it
  conflicts with and is appended.\<close>

definition keep_latest :: "('a \<Rightarrow> bool) \<Rightarrow> ('a \<Rightarrow> 'a \<Rightarrow> bool) \<Rightarrow> 'a entry list \<Rightarrow> 'a entry list" where
  "keep_latest live conflict es = fold (\<lambda>e kept.
     if \<not> live (snd e) then kept
     else filter (\<lambda>k. \<not> conflict (snd k) (snd e)) kept @ [e]) es []"

locale latest_wins =
  fixes live :: "'a \<Rightarrow> bool"
    and conflict :: "'a \<Rightarrow> 'a \<Rightarrow> bool"
  assumes conflict_sym: "conflict x y = conflict y x"
    and conflict_refl: "conflict x x"
begin

lemma keep_snoc:
  "keep_latest live conflict (es @ [e]) =
     (if \<not> live (snd e) then keep_latest live conflict es
      else filter (\<lambda>k. \<not> conflict (snd k) (snd e)) (keep_latest live conflict es) @ [e])"
  by (simp add: keep_latest_def)

text \<open>An entry is kept if and only if it is live and no later live entry conflicts with it.\<close>

lemma kept_iff:
  "sorted_wrt (<) (map fst es) \<Longrightarrow>
   e \<in> set (keep_latest live conflict es) \<longleftrightarrow>
     e \<in> set es \<and> live (snd e)
     \<and> \<not> (\<exists>l\<in>set es. fst e < fst l \<and> live (snd l) \<and> conflict (snd e) (snd l))"
proof (induction es rule: rev_induct)
  case Nil
  then show ?case by (simp add: keep_latest_def)
next
  case (snoc x xs)
  then have sorted: "sorted_wrt (<) (map fst xs)" and above: "\<forall>y\<in>set xs. fst y < fst x"
    by (simp_all add: sorted_wrt_append)
  note IH = snoc.IH [OF sorted]
  show ?case
    using above IH by (auto simp: keep_snoc)
qed

lemma kept_subseq: "subseq (keep_latest live conflict es) es"
proof (induction es rule: rev_induct)
  case (snoc x xs)
  then show ?case
    by (auto simp: keep_snoc intro: subseq_order.trans [OF subseq_filter_left] list_emb_append_mono)
qed (simp add: keep_latest_def)

lemma kept_pairwise:
  "\<lbrakk>sorted_wrt (<) (map fst es); e \<in> set (keep_latest live conflict es);
    l \<in> set (keep_latest live conflict es); e \<noteq> l\<rbrakk> \<Longrightarrow> \<not> conflict (snd e) (snd l)"
proof -
  assume s: "sorted_wrt (<) (map fst es)" and e: "e \<in> set (keep_latest live conflict es)"
    and l: "l \<in> set (keep_latest live conflict es)" and ne: "e \<noteq> l"
  have "e \<in> set es" "l \<in> set es" using e l kept_iff [OF s] by blast+
  moreover have "distinct (map fst es)" using s by (simp add: strict_sorted_iff)
  ultimately have "fst e \<noteq> fst l" using ne by (meson eq_key_imp_eq_value prod_eqI surjective_pairing
        distinct_map inj_onD)
  then consider "fst e < fst l" | "fst l < fst e" by linarith
  then show ?thesis
    using e l kept_iff [OF s] conflict_sym by cases blast+
qed

lemma kept_again: "list_all (\<lambda>e. live (snd e)) es \<Longrightarrow>
    sorted_wrt (\<lambda>a b. \<not> conflict (snd a) (snd b)) es \<Longrightarrow> keep_latest live conflict es = es"
proof (induction es rule: rev_induct)
  case (snoc x xs)
  then show ?case by (simp add: keep_snoc sorted_wrt_append)
qed (simp add: keep_latest_def)

end

subsection \<open>Active decisions\<close>

definition decision_live :: "finding_verification \<Rightarrow> bool" where
  "decision_live v \<longleftrightarrow> \<not> fv_superseded v"

definition decision_conflict :: "finding_verification \<Rightarrow> finding_verification \<Rightarrow> bool" where
  "decision_conflict l r \<longleftrightarrow> fv_reviewer_id l = fv_reviewer_id r \<and> verification_decisions_match l r"

definition active_entries :: "finding_verification list \<Rightarrow> finding_verification entry list" where
  "active_entries vs = keep_latest decision_live decision_conflict (indexed vs)"

definition active_verifications :: "finding_verification list \<Rightarrow> finding_verification list" where
  "active_verifications vs = map snd (active_entries vs)"

definition active_index :: "finding_verification list \<Rightarrow> nat \<Rightarrow> bool" where
  "active_index vs i \<longleftrightarrow> i \<in> set (map fst (active_entries vs))"

definition inactive_verifications :: "finding_verification list \<Rightarrow> finding_verification list" where
  "inactive_verifications vs = map snd (filter (\<lambda>(i, v). \<not> active_index vs i) (indexed vs))"

text \<open>A failed or reset decision without a newer active resolution.\<close>

definition unresolved_entry :: "finding_verification list \<Rightarrow> finding_verification entry \<Rightarrow> bool" where
  "unresolved_entry vs e \<longleftrightarrow> fv_superseded (snd e)
     \<and> \<not> verification_is_terminally_replaced (snd e)
     \<and> \<not> list_ex (\<lambda>a. fv_reviewer_id (snd a) = fv_reviewer_id (snd e) \<and> fst e < fst a
            \<and> verification_decisions_match (snd e) (snd a)) (active_entries vs)"

definition unresolved_verifications :: "finding_verification list \<Rightarrow> finding_verification list" where
  "unresolved_verifications vs = map snd (filter (unresolved_entry vs) (indexed vs))"

definition historical_verifications :: "finding_verification list \<Rightarrow> finding_verification list" where
  "historical_verifications vs = map snd (filter (\<lambda>e. \<not> unresolved_entry vs e)
     (filter (\<lambda>(i, v). \<not> active_index vs i) (indexed vs)))"

interpretation decisions: latest_wins decision_live decision_conflict
proof
  show "decision_conflict x y = decision_conflict y x" for x y
    using verification_decisions_match_sym_fact(1) [of x y] by (auto simp: decision_conflict_def)
  show "decision_conflict x x" for x
    using verification_decisions_match_sym_fact(2) [of x] by (simp add: decision_conflict_def)
qed

lemma indexed_sorted [simp]: "sorted_wrt (<) (map fst (indexed xs))"
  by simp

lemma active_entry_iff:
  "(i, v) \<in> set (active_entries vs) \<longleftrightarrow> i < length vs \<and> v = vs ! i \<and> \<not> fv_superseded v
     \<and> \<not> (\<exists>j. i < j \<and> j < length vs \<and> \<not> fv_superseded (vs ! j) \<and> decision_conflict v (vs ! j))"
  unfolding active_entries_def decisions.kept_iff [OF indexed_sorted]
  by (auto simp: set_indexed decision_live_def)

lemma active_index_iff: "active_index vs i \<longleftrightarrow> (i, vs ! i) \<in> set (active_entries vs)"
proof -
  have "active_index vs i \<longleftrightarrow> (\<exists>v. (i, v) \<in> set (active_entries vs))"
    unfolding active_index_def by force
  then show ?thesis by (metis active_entry_iff)
qed

lemma unresolved_not_active:
  "unresolved_entry vs (i, vs ! i) \<Longrightarrow> \<not> active_index vs i"
  by (simp add: active_index_iff active_entry_iff unresolved_entry_def)

text \<open>C15: A decision of a history is in force exactly when it is not superseded and no later decision
  of the same reviewer that is not superseded matches it; the decisions in force keep their
  order, and no two of one reviewer match each other.\<close>

theorem active_verifications_spec:
  "set (active_entries vs) = {(i, vs ! i) | i. i < length vs \<and> \<not> fv_superseded (vs ! i)
      \<and> \<not> (\<exists>j. i < j \<and> j < length vs \<and> \<not> fv_superseded (vs ! j)
            \<and> fv_reviewer_id (vs ! i) = fv_reviewer_id (vs ! j) \<and> verification_decisions_match (vs ! i) (vs ! j))}
   \<and> subseq (active_verifications vs) vs
   \<and> pairwise (\<lambda>a b. \<not> (fv_reviewer_id (snd a) = fv_reviewer_id (snd b)
        \<and> verification_decisions_match (snd a) (snd b))) (set (active_entries vs))"
proof (intro conjI)
  show "set (active_entries vs) = {(i, vs ! i) | i. i < length vs \<and> \<not> fv_superseded (vs ! i)
      \<and> \<not> (\<exists>j. i < j \<and> j < length vs \<and> \<not> fv_superseded (vs ! j)
            \<and> fv_reviewer_id (vs ! i) = fv_reviewer_id (vs ! j) \<and> verification_decisions_match (vs ! i) (vs ! j))}"
    by (auto simp: active_entry_iff decision_conflict_def)
  have "subseq (map snd (active_entries vs)) (map snd (indexed vs))"
    unfolding active_entries_def by (rule subseq_map [OF decisions.kept_subseq])
  then show "subseq (active_verifications vs) vs"
    by (simp add: active_verifications_def)
  show "pairwise (\<lambda>a b. \<not> (fv_reviewer_id (snd a) = fv_reviewer_id (snd b)
        \<and> verification_decisions_match (snd a) (snd b))) (set (active_entries vs))"
    using decisions.kept_pairwise [OF indexed_sorted] unfolding active_entries_def pairwise_def decision_conflict_def
    by blast
qed

lemma active_as_filter: "mset (active_entries vs) = mset (filter (\<lambda>(i, v). active_index vs i) (indexed vs))"
proof (rule set_eq_iff_mset_eq_distinct [THEN iffD1])
  have sub: "subseq (active_entries vs) (indexed vs)"
    unfolding active_entries_def by (rule decisions.kept_subseq)
  have "distinct (map fst (indexed vs))" by simp
  then have dist: "distinct (indexed vs)" by (simp only: distinct_map)
  then show "distinct (filter (\<lambda>(i, v). active_index vs i) (indexed vs))" by (rule distinct_filter)
  show "distinct (active_entries vs)" using sub dist by (rule subseq_distinct)
  show "set (active_entries vs) = set (filter (\<lambda>(i, v). active_index vs i) (indexed vs))"
    using active_entry_iff [of _ _ vs] active_index_iff [of vs] by (fastforce simp: set_indexed)
qed

text \<open>The history splits into three: every decision is, counted with multiplicity, in exactly
  one of the active, the unresolved and the historical decisions.\<close>

theorem verification_history_partition:
  "mset (active_verifications vs) + mset (unresolved_verifications vs) + mset (historical_verifications vs) = mset vs"
proof -
  let ?all = "indexed vs"
  let ?inactive = "filter (\<lambda>(i, v). \<not> active_index vs i) ?all"
  have "filter (unresolved_entry vs) ?inactive = filter (unresolved_entry vs) ?all"
    by (auto simp: set_indexed dest: unresolved_not_active intro!: filter_cong)
  then have "mset (filter (unresolved_entry vs) ?all) + mset (filter (\<lambda>e. \<not> unresolved_entry vs e) ?inactive) = mset ?inactive"
    using mset_filter_split [of "unresolved_entry vs" ?inactive] by simp
  moreover have "mset (active_entries vs) + mset ?inactive = mset ?all"
    using mset_filter_split [of "\<lambda>(i, v). active_index vs i" ?all] active_as_filter [of vs]
    by (simp add: case_prod_unfold)
  ultimately have "mset (active_entries vs) + mset (filter (unresolved_entry vs) ?all)
      + mset (filter (\<lambda>e. \<not> unresolved_entry vs e) ?inactive) = mset ?all"
    by (simp add: add.assoc)
  then have "image_mset snd (mset (active_entries vs)) + image_mset snd (mset (filter (unresolved_entry vs) ?all))
      + image_mset snd (mset (filter (\<lambda>e. \<not> unresolved_entry vs e) ?inactive)) = image_mset snd (mset ?all)"
    by (metis image_mset_union)
  moreover have "image_mset snd (mset ?all) = mset vs"
    by (metis map_indexed(1) mset_map)
  ultimately show ?thesis
    by (simp add: active_verifications_def unresolved_verifications_def historical_verifications_def)
qed

subsection \<open>The decisions of one report finding\<close>

definition has_cross_pack_reviewer_lineage :: "finding \<Rightarrow> finding \<Rightarrow> string \<Rightarrow> bool" where
  "has_cross_pack_reviewer_lineage f vf rid =
     (if normalized_context_pack_id (fi_context_pack_id f) = normalized_context_pack_id (fi_context_pack_id vf)
      then False
      else if findings_share_reviewer_origin f vf rid then True
      else \<not> reviewer_origins_are_explicit f rid \<and> 1 < length (fi_reviewer_ids f))"

text \<open>One turn of the loop over the provenance: the first of four rules that yields a decision.\<close>

definition reviewer_matches ::
  "finding \<Rightarrow> finding_verification list \<Rightarrow> string \<Rightarrow> finding_verification list" where
  "reviewer_matches f current rid =
     (let decisions = filter (\<lambda>v. fv_reviewer_id v = rid) current;
          exact = filter (\<lambda>v. finding_decision_identity (fv_finding v) = finding_decision_identity f) decisions
      in if exact \<noteq> [] then exact
         else let content = filter (\<lambda>v. finding_consolidation_scope_is_compatible f (fv_finding v)
                    \<and> has_cross_pack_reviewer_lineage f (fv_finding v) rid
                    \<and> cross_pack_verification_identity f = cross_pack_verification_identity (fv_finding v)) decisions
              in if content \<noteq> [] then content
                 else let scoped = filter (\<lambda>v. verification_subject_matches_any f [fv_finding v]) decisions
                      in if scoped \<noteq> [] then scoped
                         else filter (\<lambda>v. has_cross_pack_reviewer_lineage f (fv_finding v) rid
                                \<and> findings_are_duplicates f (fv_finding v)) decisions)"

definition finding_provenance :: "finding \<Rightarrow> finding_verification list \<Rightarrow> string option \<Rightarrow> string set" where
  "finding_provenance f current rid =
     (let p = (if fi_reviewer_ids f \<noteq> [] then set (fi_reviewer_ids f)
               else if fi_reviewer_context_pack_ids f \<noteq> [] then set (map fst (fi_reviewer_context_pack_ids f))
               else set (map fv_reviewer_id current))
      in case rid of None \<Rightarrow> p | Some r \<Rightarrow> p \<inter> {r})"

text \<open>The order in which the code walks a set is a parameter.\<close>

definition matching_verifications_for_finding ::
  "(string set \<Rightarrow> string list) \<Rightarrow> finding \<Rightarrow> finding_verification list \<Rightarrow> string option
     \<Rightarrow> finding_verification list" where
  "matching_verifications_for_finding enum f current rid =
     concat (map (reviewer_matches f current) (enum (finding_provenance f current rid)))"

definition matching_active_verifications ::
  "(string set \<Rightarrow> string list) \<Rightarrow> finding \<Rightarrow> finding_verification list \<Rightarrow> string option
     \<Rightarrow> finding_verification list" where
  "matching_active_verifications enum f vs rid =
     matching_verifications_for_finding enum f (active_verifications vs) rid"

definition verified_report_findings ::
  "(string set \<Rightarrow> string list) \<Rightarrow> finding list \<Rightarrow> finding_verification list \<Rightarrow> finding list" where
  "verified_report_findings enum fs vs =
     (let current = active_verifications vs in
      filter (\<lambda>f. list_ex fv_approved (matching_verifications_for_finding enum f current None)) fs)"

definition enumerates :: "(string set \<Rightarrow> string list) \<Rightarrow> bool" where
  "enumerates enum \<longleftrightarrow> (\<forall>S. finite S \<longrightarrow> set (enum S) = S)"

lemma finite_provenance [simp]: "finite (finding_provenance f current rid)"
  by (simp add: finding_provenance_def Let_def split: option.split)

lemma matching_set:
  "enumerates enum \<Longrightarrow> set (matching_verifications_for_finding enum f current rid) =
     (\<Union>r\<in>finding_provenance f current rid. set (reviewer_matches f current r))"
  by (simp add: matching_verifications_for_finding_def enumerates_def)

lemma reviewer_matches_subset: "set (reviewer_matches f current rid) \<subseteq> {v \<in> set current. fv_reviewer_id v = rid}"
  by (auto simp: reviewer_matches_def Let_def)

lemma verified_matching_set:
  assumes "enumerates enum"
  shows "verified_report_findings enum fs vs =
    filter (\<lambda>f. \<exists>r\<in>finding_provenance f (active_verifications vs) None.
       \<exists>v\<in>set (reviewer_matches f (active_verifications vs) r). fv_approved v) fs"
  unfolding verified_report_findings_def Let_def list_ex_iff matching_set [OF assms] by (rule filter_cong) auto

text \<open>Which findings of a report count as verified does not depend on the order in which a set
  of reviewers is walked: a finding is kept exactly when some reviewer of its provenance has an
  approving decision among the ones matched for that reviewer, and the kept findings stay in
  report order.\<close>

theorem verified_report_findings_order_free:
  assumes "enumerates enum"
  shows "verified_report_findings enum fs vs =
    filter (\<lambda>f. \<exists>r\<in>finding_provenance f (active_verifications vs) None.
       \<exists>v\<in>set (reviewer_matches f (active_verifications vs) r). fv_approved v) fs"
  using assms by (rule verified_matching_set)

definition sample_finding :: finding where
  "sample_finding = \<lparr>fi_title = ''t'', fi_severity = FS_HIGH, fi_confidence = FC_HIGH, fi_file = ''a.py'',
     fi_line = Some 3, fi_failure_mode = ''m'', fi_evidence = ''e'', fi_suggested_fix = [],
     fi_suggested_test = [], fi_context_pack_id = ''p'', fi_reviewer_ids = [''general''],
     fi_reviewer_context_pack_ids = []\<rparr>"

definition sample_decision :: "bool \<Rightarrow> finding_verification" where
  "sample_decision ok = \<lparr>fv_finding = sample_finding, fv_reviewer_id = ''general'', fv_approved = ok,
     fv_confidence = FC_HIGH, fv_reason = [], fv_review_snapshot_id = None, fv_superseded = False,
     fv_superseded_reason = None\<rparr>"

lemma enumerates_sorted: "enumerates sorted_list_of_set"
  by (simp add: enumerates_def)

lemma active_sample: "active_verifications [sample_decision b] = [sample_decision b]"
  by (simp add: active_verifications_def active_entries_def indexed_def keep_latest_def decision_live_def
      sample_decision_def)

lemma verified_report_findings_order_free_witness:
  "verified_report_findings sorted_list_of_set [sample_finding] [sample_decision True] = [sample_finding]"
proof -
  have "reviewer_matches sample_finding [sample_decision True] ''general'' = [sample_decision True]"
    by (simp add: reviewer_matches_def sample_decision_def)
  then show ?thesis
    using verified_report_findings_order_free [OF enumerates_sorted, of "[sample_finding]" "[sample_decision True]"]
    by (simp add: active_sample finding_provenance_def) (simp add: sample_finding_def sample_decision_def)
qed

subsection \<open>The latest exact decision decides\<close>

lemma exact_decisions_match:
  "finding_decision_identity (fv_finding v) = finding_decision_identity (fv_finding w) \<Longrightarrow>
     verification_decisions_match v w"
proof -
  assume same: "finding_decision_identity (fv_finding v) = finding_decision_identity (fv_finding w)"
  then have "verification_scope_is_compatible (fv_finding v) (fv_finding w)"
    by (auto simp: finding_decision_identity_def verification_scope_is_compatible_def close_lines_def
        split: option.split)
  with same subject_identity_decision [OF same] show ?thesis
    by (simp add: verification_decisions_match_def verification_subject_matches_any_def)
qed

lemma active_exact_unique:
  assumes "v \<in> set (active_verifications vs)"
  shows "filter (\<lambda>w. finding_decision_identity (fv_finding w) = finding_decision_identity (fv_finding v))
      (filter (\<lambda>w. fv_reviewer_id w = fv_reviewer_id v) (active_verifications vs)) = [v]"
proof -
  let ?P = "\<lambda>e. fv_reviewer_id (snd e) = fv_reviewer_id v
      \<and> finding_decision_identity (fv_finding (snd e)) = finding_decision_identity (fv_finding v)"
  obtain e where e: "e \<in> set (active_entries vs)" "snd e = v"
    using assms by (auto simp: active_verifications_def)
  have dist: "distinct (active_entries vs)"
  proof (rule subseq_distinct)
    show "subseq (active_entries vs) (indexed vs)"
      unfolding active_entries_def by (rule decisions.kept_subseq)
    show "distinct (indexed vs)" using map_indexed(2) [of vs] by (metis distinct_map distinct_upt)
  qed
  have only: "x = e" if "x \<in> set (active_entries vs)" "?P x" for x
  proof (rule ccontr)
    assume "x \<noteq> e"
    then have "\<not> decision_conflict (snd x) (snd e)"
      using decisions.kept_pairwise [OF indexed_sorted, of x vs e] that(1) e(1) by (simp add: active_entries_def)
    then show False
      using that(2) exact_decisions_match [of "snd x" "snd e"] e(2) by (simp add: decision_conflict_def)
  qed
  have "set (filter ?P (active_entries vs)) = {e}"
  proof (intro equalityI subsetI)
    show "x \<in> {e}" if "x \<in> set (filter ?P (active_entries vs))" for x
      using that only [of x] by simp
    show "x \<in> set (filter ?P (active_entries vs))" if "x \<in> {e}" for x
      using that e by simp
  qed
  then have "filter ?P (active_entries vs) = [e]"
    by (intro distinct_singleton) (simp_all add: dist)
  then have "map snd (filter ?P (active_entries vs)) = [v]" using e(2) by simp
  then show ?thesis
    by (simp add: active_verifications_def filter_map comp_def conj_commute)
qed

text \<open>The latest decision on exactly this finding decides. When a reviewer has an active decision
  with the finding's own identity, it is the only one consulted for that reviewer, whatever else
  the history holds; a finding of that reviewer alone is verified exactly when it approves.\<close>

theorem exact_decision_decides:
  assumes "v \<in> set (active_verifications vs)"
    and "finding_decision_identity (fv_finding v) = finding_decision_identity f"
    and "fi_reviewer_ids f = [fv_reviewer_id v]"
    and "enumerates enum"
  shows "reviewer_matches f (active_verifications vs) (fv_reviewer_id v) = [v]
    \<and> (f \<in> set (verified_report_findings enum [f] vs) \<longleftrightarrow> fv_approved v)"
proof
  show one: "reviewer_matches f (active_verifications vs) (fv_reviewer_id v) = [v]"
    using active_exact_unique [OF assms(1)] unfolding assms(2) by (simp add: reviewer_matches_def Let_def)
  have "set (matching_verifications_for_finding enum f (active_verifications vs) None) = {v}"
    using one assms(3) by (simp add: matching_set [OF assms(4)] finding_provenance_def)
  then show "f \<in> set (verified_report_findings enum [f] vs) \<longleftrightarrow> fv_approved v"
    by (simp add: verified_report_findings_def Let_def list_ex_iff)
qed

lemma exact_decision_decides_witness:
  "sample_finding \<notin> set (verified_report_findings sorted_list_of_set [sample_finding] [sample_decision False])"
  using exact_decision_decides [of "sample_decision False" "[sample_decision False]" sample_finding,
      OF _ _ _ enumerates_sorted]
  by (simp add: active_sample) (simp add: sample_decision_def sample_finding_def)

subsection \<open>Candidates per reviewer and context pack\<close>

type_synonym candidate_map = "((string \<times> string) \<times> (finding \<times> string option) list) list"

definition add_candidate :: "string \<Rightarrow> finding \<Rightarrow> string option \<Rightarrow> candidate_map \<Rightarrow> candidate_map" where
  "add_candidate rid f snap cands =
     (if fi_context_pack_id f = [] then cands
      else let key = (rid, fi_context_pack_id f);
               current = dict_get_or cands key [];
               cands' = dict_set key current cands
           in if list_ex (\<lambda>c. finding_decision_identity f = finding_decision_identity (fst c)) current then cands'
              else if snap = None \<and> verification_subject_matches_any f (map fst current) then cands'
              else dict_set key (current @ [(f, snap)]) cands')"

definition verification_candidates_by_reviewer_pack ::
  "finding list \<Rightarrow> finding_verification list \<Rightarrow> ((string \<times> string) \<times> finding list) list" where
  "verification_candidates_by_reviewer_pack fs vs =
     (let from_findings = fold (\<lambda>f. fold (\<lambda>rid. add_candidate rid f None) (finding_reviewers f)) fs [];
          all = fold (\<lambda>v cands. if verification_is_terminally_replaced v then cands
                    else add_candidate (fv_reviewer_id v) (fv_finding v) (fv_review_snapshot_id v) cands)
                  vs from_findings
      in map (\<lambda>(k, c). (k, map fst c)) all)"

definition verification_candidate_counts ::
  "finding list \<Rightarrow> finding_verification list \<Rightarrow> ((string \<times> string) \<times> int) list" where
  "verification_candidate_counts fs vs =
     map (\<lambda>(k, c). (k, int (length c))) (verification_candidates_by_reviewer_pack fs vs)"

definition unresolved_verification_candidate_pack_ids ::
  "(string set \<Rightarrow> string list) \<Rightarrow> finding list \<Rightarrow> finding_verification list \<Rightarrow> (string \<times> string) set" where
  "unresolved_verification_candidate_pack_ids enum fs vs =
     (let current = active_verifications vs;
          pending = set (map (\<lambda>v. (fv_reviewer_id v, fi_context_pack_id (fv_finding v)))
            (filter (\<lambda>v. fi_context_pack_id (fv_finding v) \<noteq> []) (unresolved_verifications vs)));
          open_keys = map fst (filter (\<lambda>((rid, pack), cands).
            list_ex (\<lambda>f. matching_verifications_for_finding enum f current (Some rid) = []) cands)
            (verification_candidates_by_reviewer_pack fs vs))
      in pending \<union> set open_keys)"

definition candidates_inv :: "candidate_map \<Rightarrow> bool" where
  "candidates_inv c \<longleftrightarrow> distinct (map fst c)
     \<and> list_all (\<lambda>(k, fs). distinct (map (finding_decision_identity \<circ> fst) fs)
          \<and> list_all (\<lambda>f. fi_context_pack_id (fst f) = snd k \<and> snd k \<noteq> []) fs) c"

lemma candidates_get:
  "candidates_inv c \<Longrightarrow> distinct (map (finding_decision_identity \<circ> fst) (dict_get_or c k []))
     \<and> list_all (\<lambda>f. fi_context_pack_id (fst f) = snd k \<and> snd k \<noteq> []) (dict_get_or c k [])"
  by (fastforce simp: candidates_inv_def dict_get_or_def list_all_iff split: option.split dest: map_of_SomeD)

lemma candidates_set:
  "\<lbrakk>candidates_inv c; distinct (map (finding_decision_identity \<circ> fst) fs);
    list_all (\<lambda>f. fi_context_pack_id (fst f) = snd k \<and> snd k \<noteq> []) fs\<rbrakk> \<Longrightarrow> candidates_inv (dict_set k fs c)"
  by (induction c) (auto simp: candidates_inv_def dom_update)


lemma add_candidate_inv: "candidates_inv c \<Longrightarrow> candidates_inv (add_candidate rid f snap c)"
proof -
  assume inv: "candidates_inv c"
  let ?k = "(rid, fi_context_pack_id f)"
  let ?cur = "dict_get_or c ?k []"
  note cur = candidates_get [OF inv, of ?k]
  have keep: "candidates_inv (dict_set ?k ?cur c)"
    using candidates_set [OF inv] cur by blast
  show ?thesis
  proof (cases "fi_context_pack_id f = [] \<or> list_ex (\<lambda>c. finding_decision_identity f = finding_decision_identity (fst c)) ?cur
      \<or> snap = None \<and> verification_subject_matches_any f (map fst ?cur)")
    case True
    then show ?thesis using inv keep by (auto simp: add_candidate_def Let_def)
  next
    case False
    then have "distinct (map (finding_decision_identity \<circ> fst) (?cur @ [(f, snap)]))"
      "list_all (\<lambda>g. fi_context_pack_id (fst g) = snd ?k \<and> snd ?k \<noteq> []) (?cur @ [(f, snap)])"
      using cur by (auto simp: list_ex_iff)
    from candidates_set [OF keep this] False show ?thesis
      by (auto simp: add_candidate_def Let_def)
  qed
qed

lemma candidates_view:
  "candidates_inv c \<Longrightarrow> distinct (map fst (map (\<lambda>(k, c). (k, map fst c)) c))
   \<and> list_all (\<lambda>(k, c). distinct (map finding_decision_identity c)
        \<and> list_all (\<lambda>f. fi_context_pack_id f = snd k \<and> snd k \<noteq> []) c) (map (\<lambda>(k, c). (k, map fst c)) c)"
proof
  assume inv: "candidates_inv c"
  have "map fst (map (\<lambda>(k, c). (k, map fst c)) c) = map fst c" by (induction c) auto
  with inv show "distinct (map fst (map (\<lambda>(k, c). (k, map fst c)) c))" by (simp only: candidates_inv_def)
  show "list_all (\<lambda>(k, c). distinct (map finding_decision_identity c)
        \<and> list_all (\<lambda>f. fi_context_pack_id f = snd k \<and> snd k \<noteq> []) c) (map (\<lambda>(k, c). (k, map fst c)) c)"
    using inv by (induction c) (auto simp: candidates_inv_def list.pred_map comp_def)
qed

text \<open>The candidates kept per reviewer and context pack: every key occurs once, belongs to its
  candidates' pack, which is never the empty id, and holds each decision identity at most
  once, for every report and every history.\<close>

theorem verification_candidates_distinct:
  "distinct (map fst (verification_candidates_by_reviewer_pack fs vs))
   \<and> list_all (\<lambda>(k, c). distinct (map finding_decision_identity c)
        \<and> list_all (\<lambda>f. fi_context_pack_id f = snd k \<and> snd k \<noteq> []) c)
      (verification_candidates_by_reviewer_pack fs vs)"
proof -
  let ?one = "fold (\<lambda>f. fold (\<lambda>rid. add_candidate rid f None) (finding_reviewers f)) fs []"
  let ?all = "fold (\<lambda>v cands. if verification_is_terminally_replaced v then cands
                    else add_candidate (fv_reviewer_id v) (fv_finding v) (fv_review_snapshot_id v) cands) vs ?one"
  have "candidates_inv ?one"
    by (intro fold_inv [where P = candidates_inv] add_candidate_inv) (simp_all add: candidates_inv_def)
  then have "candidates_inv ?all"
    by (rule fold_inv [where P = candidates_inv]) (simp_all add: add_candidate_inv)
  from candidates_view [OF this] show ?thesis
    unfolding verification_candidates_by_reviewer_pack_def Let_def .
qed

text \<open>No key is kept without a candidate.\<close>

definition no_empty_group :: "candidate_map \<Rightarrow> bool" where
  "no_empty_group c \<longleftrightarrow> list_all (\<lambda>g. snd g \<noteq> []) c"

lemma no_empty_group_set: "\<lbrakk>no_empty_group c; fs \<noteq> []\<rbrakk> \<Longrightarrow> no_empty_group (dict_set k fs c)"
  by (induction c) (auto simp: no_empty_group_def)

lemma add_candidate_no_empty_group: "no_empty_group c \<Longrightarrow> no_empty_group (add_candidate rid f snap c)"
proof -
  assume c: "no_empty_group c"
  let ?cur = "dict_get_or c (rid, fi_context_pack_id f) []"
  have "verification_subject_matches_any f (map fst ?cur) \<Longrightarrow> ?cur \<noteq> []"
    by (auto simp: verification_subject_matches_any_def)
  then have "?cur \<noteq> [] \<Longrightarrow> ?thesis" "?cur = [] \<Longrightarrow> ?thesis"
    using no_empty_group_set [OF c] by (auto simp: add_candidate_def Let_def c update_last)
  then show ?thesis by blast
qed

lemma verification_candidates_nonempty:
  assumes "(k, c) \<in> set (verification_candidates_by_reviewer_pack fs vs)"
  shows "c \<noteq> []"
proof -
  let ?one = "fold (\<lambda>f. fold (\<lambda>rid. add_candidate rid f None) (finding_reviewers f)) fs []"
  let ?all = "fold (\<lambda>v cands. if verification_is_terminally_replaced v then cands
                    else add_candidate (fv_reviewer_id v) (fv_finding v) (fv_review_snapshot_id v) cands) vs ?one"
  have "no_empty_group ?one"
    by (intro fold_inv [where P = no_empty_group] add_candidate_no_empty_group) (simp_all add: no_empty_group_def)
  then have "no_empty_group ?all"
    by (rule fold_inv [where P = no_empty_group]) (simp_all add: add_candidate_no_empty_group)
  with assms show ?thesis
    unfolding verification_candidates_by_reviewer_pack_def Let_def by (auto simp: no_empty_group_def list_all_iff)
qed

end
