(* ===== verification/Consolidation.thy ===== *)
theory Consolidation
  imports Verifications
begin

section \<open>Consolidating duplicate findings\<close>

text \<open>
  \<open>src/apex_ray/pipeline/findings.py\<close>: duplicate findings of several packs and reviewers are
  merged into one, the preferred of the two, with the reviewers of both. The lemmas show what
  the pass keeps: every reviewer, only finding identities that came in, and lists without
  duplicates unchanged.
\<close>

primrec confidence_rank :: "finding_confidence \<Rightarrow> int" where
  "confidence_rank FC_LOW = 1"
| "confidence_rank FC_MEDIUM = 2"
| "confidence_rank FC_HIGH = 3"

definition finding_preference_key :: "finding \<Rightarrow> decision_identity list \<Rightarrow> int \<times> int \<times> int \<times> int" where
  "finding_preference_key f preferred =
     ((if finding_decision_identity f \<in> set preferred then 1 else 0),
      (if finding_path_is_test (fi_file f) then 0 else 1),
      confidence_rank (fi_confidence f),
      (if fi_line f \<noteq> None then 1 else 0))"

definition consolidate_step :: "decision_identity list \<Rightarrow> finding \<Rightarrow> finding list \<Rightarrow> finding list" where
  "consolidate_step preferred f done =
     (case first_index (\<lambda>e. findings_are_duplicates e f) done of
        None \<Rightarrow> done @ [f]
      | Some i \<Rightarrow>
          let existing = done ! i;
              better = (if finding_preference_key existing preferred < finding_preference_key f preferred
                        then f else existing)
          in done[i := merge_finding_reviewer_provenance better [existing, f]])"

definition consolidate_findings :: "finding list \<Rightarrow> finding list \<Rightarrow> finding list" where
  "consolidate_findings fs preferred_findings =
     fold (consolidate_step (map finding_decision_identity preferred_findings)) fs []"

definition reviewers_of :: "finding list \<Rightarrow> string set" where
  "reviewers_of fs = (\<Union>f\<in>set fs. effective_set f)"

lemma reviewers_of_simps [simp]:
  "reviewers_of [] = {}"
  "reviewers_of (f # fs) = effective_set f \<union> reviewers_of fs"
  "reviewers_of (fs @ gs) = reviewers_of fs \<union> reviewers_of gs"
  by (auto simp: reviewers_of_def)

lemma reviewers_of_update:
  assumes "i < length fs" and "effective_set g = effective_set (fs ! i) \<union> A"
  shows "reviewers_of (fs[i := g]) = reviewers_of fs \<union> A"
proof -
  have split: "fs = take i fs @ fs ! i # drop (Suc i) fs" by (rule id_take_nth_drop [OF assms(1)])
  have "reviewers_of (fs[i := g]) = reviewers_of (take i fs @ g # drop (Suc i) fs)"
    using upd_conv_take_nth_drop [OF assms(1)] by metis
  also have "\<dots> = reviewers_of (take i fs @ fs ! i # drop (Suc i) fs) \<union> A"
    using assms(2) by auto
  finally show ?thesis using split by simp
qed

lemma consolidate_step_facts:
  "reviewers_of (consolidate_step pr f ds) = reviewers_of ds \<union> effective_set f"
  "length (consolidate_step pr f ds) \<le> Suc (length ds)"
  "set (map finding_decision_identity (consolidate_step pr f ds)) \<subseteq>
     set (map finding_decision_identity ds) \<union> {finding_decision_identity f}"
proof -
  have "reviewers_of (consolidate_step pr f ds) = reviewers_of ds \<union> effective_set f
     \<and> length (consolidate_step pr f ds) \<le> Suc (length ds)
     \<and> set (map finding_decision_identity (consolidate_step pr f ds)) \<subseteq>
         set (map finding_decision_identity ds) \<union> {finding_decision_identity f}"
  proof (cases "first_index (\<lambda>e. findings_are_duplicates e f) ds")
    case None
    then show ?thesis by (auto simp: consolidate_step_def)
  next
    case (Some i)
    then have i: "i < length ds" by (simp add: first_index_Some)
    let ?b = "if finding_preference_key (ds ! i) pr < finding_preference_key f pr then f else ds ! i"
    let ?m = "merge_finding_reviewer_provenance ?b [ds ! i, f]"
    have step: "consolidate_step pr f ds = ds[i := ?m]"
      by (simp add: consolidate_step_def Some Let_def)
    have "effective_set ?m = effective_set (ds ! i) \<union> effective_set f"
      by (subst merge_effective) auto
    from reviewers_of_update [OF i this] have "reviewers_of (ds[i := ?m]) = reviewers_of ds \<union> effective_set f" .
    moreover have "finding_decision_identity ?m \<in> {finding_decision_identity (ds ! i), finding_decision_identity f}"
      by simp
    then have "set (map finding_decision_identity (ds[i := ?m])) \<subseteq>
        set (map finding_decision_identity ds) \<union> {finding_decision_identity f}"
      using i set_update_subset_insert [of "map finding_decision_identity ds" i "finding_decision_identity ?m"]
      by (auto simp: map_update)
    ultimately show ?thesis by (simp add: step)
  qed
  then show "reviewers_of (consolidate_step pr f ds) = reviewers_of ds \<union> effective_set f"
    "length (consolidate_step pr f ds) \<le> Suc (length ds)"
    "set (map finding_decision_identity (consolidate_step pr f ds)) \<subseteq>
       set (map finding_decision_identity ds) \<union> {finding_decision_identity f}"
    by blast+
qed

lemma consolidate_fold_facts:
  "reviewers_of (fold (consolidate_step pr) fs ds) = reviewers_of ds \<union> reviewers_of fs
   \<and> length (fold (consolidate_step pr) fs ds) \<le> length ds + length fs
   \<and> set (map finding_decision_identity (fold (consolidate_step pr) fs ds)) \<subseteq>
       set (map finding_decision_identity (ds @ fs))"
proof (induction fs arbitrary: ds)
  case (Cons f fs)
  note step = consolidate_step_facts [of pr f ds] and IH = Cons.IH [of "consolidate_step pr f ds"]
  have "set (map finding_decision_identity (fold (consolidate_step pr) (f # fs) ds)) \<subseteq>
      set (map finding_decision_identity (ds @ f # fs))"
    using step(3) IH by (simp, blast)
  with step(1,2) IH show ?case by (simp add: Un_assoc)
qed simp

lemma consolidate_no_duplicates:
  "sorted_wrt (\<lambda>a b. \<not> findings_are_duplicates a b) (ds @ fs) \<Longrightarrow> fold (consolidate_step pr) fs ds = ds @ fs"
proof (induction fs arbitrary: ds)
  case (Cons f fs)
  then have "list_all (\<lambda>e. \<not> findings_are_duplicates e f) ds"
    by (auto simp: sorted_wrt_append list_all_iff)
  then have "consolidate_step pr f ds = ds @ [f]"
    by (simp add: consolidate_step_def first_index_None [THEN iffD2])
  with Cons show ?case by simp
qed simp

lemma consolidate_nonempty:
  "fs \<noteq> [] \<or> ds \<noteq> [] \<Longrightarrow> fold (consolidate_step pr) fs ds \<noteq> []"
proof (induction fs arbitrary: ds)
  case (Cons f fs)
  have "consolidate_step pr f ds \<noteq> []"
    by (auto simp: consolidate_step_def Let_def split: option.split dest: first_index_Some)
  with Cons.IH [of "consolidate_step pr f ds"] show ?case by simp
qed simp

text \<open>Consolidation loses no reviewer and invents no finding: the reviewers named by the
  result are exactly the reviewers of all findings that went in, every result has the decision
  identity of some input, there are at most as many results as inputs, and there is one as soon
  as there is an input.\<close>

theorem consolidate_findings_keeps:
  "reviewers_of (consolidate_findings fs preferred) = reviewers_of fs
   \<and> set (map finding_decision_identity (consolidate_findings fs preferred)) \<subseteq> set (map finding_decision_identity fs)
   \<and> length (consolidate_findings fs preferred) \<le> length fs
   \<and> (consolidate_findings fs preferred = [] \<longleftrightarrow> fs = [])"
  unfolding consolidate_findings_def
  using consolidate_fold_facts [of "map finding_decision_identity preferred" fs "[]"]
    consolidate_nonempty [of fs "[]" "map finding_decision_identity preferred"]
  by auto

text \<open>Findings that are no duplicates of each other pass through consolidation untouched, with
  their own provenance and in their order.\<close>

theorem consolidate_findings_distinct_unchanged:
  assumes "sorted_wrt (\<lambda>a b. \<not> findings_are_duplicates a b) fs"
  shows "consolidate_findings fs preferred = fs"
  using consolidate_no_duplicates [of "[]" fs] assms by (simp add: consolidate_findings_def)

lemma consolidate_findings_distinct_unchanged_witness:
  "consolidate_findings [sample_finding, sample_finding\<lparr>fi_severity := FS_LOW\<rparr>] [] =
     [sample_finding, sample_finding\<lparr>fi_severity := FS_LOW\<rparr>]"
proof (rule consolidate_findings_distinct_unchanged)
  show "sorted_wrt (\<lambda>a b. \<not> findings_are_duplicates a b)
      [sample_finding, sample_finding\<lparr>fi_severity := FS_LOW\<rparr>]"
    by (simp add: findings_are_duplicates_def finding_decision_identity_def) (simp add: sample_finding_def)
qed

end
