(* ===== verification/Coverage_Breakdown.thy ===== *)
theory Coverage_Breakdown
  imports Model_Report Line_Ranges Risk
begin

section \<open>Coverage per file, slice and priority\<close>

text \<open>
  \<open>src/apex_ray/report/coverage_breakdown.py\<close>: which packs are high risk, the residual priority and
  the review slice of a pack, and the per-file and per-slice coverage summaries. Ratios are
  exact rationals rounded as the code rounds. The lemmas show that the summaries partition the
  packs and the changed lines, using the laws of \<open>range_algebra\<close>.
\<close>

subsection \<open>Ratios\<close>

definition coverage_ratio :: "int \<Rightarrow> int \<Rightarrow> rat" where
  "coverage_ratio reviewed whole =
     (if whole = 0 then 0 else py_round 4 (rat_of_int reviewed / rat_of_int whole))"

lemma coverage_ratio_bounds:
  assumes "0 \<le> r" and "r \<le> t"
  shows "0 \<le> coverage_ratio r t \<and> coverage_ratio r t \<le> 1"
proof (cases "t = 0")
  case False
  with assms have "0 \<le> rat_of_int r / rat_of_int t" "rat_of_int r / rat_of_int t \<le> 1" by simp_all
  then show ?thesis
    using py_round_mono [of 0 "rat_of_int r / rat_of_int t" 4] py_round_mono [of "rat_of_int r / rat_of_int t" 1 4]
    by (simp add: coverage_ratio_def)
qed (simp add: coverage_ratio_def)

subsection \<open>Risk of a pack\<close>

definition severe :: "risk_severity \<Rightarrow> bool" where
  "severe s \<longleftrightarrow> s = RS_CRITICAL \<or> s = RS_HIGH"

definition severe_finding :: "finding_severity \<Rightarrow> bool" where
  "severe_finding s \<longleftrightarrow> s = FS_CRITICAL \<or> s = FS_HIGH"

definition is_high_risk_pack :: "context_pack \<Rightarrow> bool" where
  "is_high_risk_pack p \<longleftrightarrow>
     list_ex (\<lambda>s. severe (rs_severity s)
        \<and> \<not> (cp_file_kind p = FK_TEST \<and> rs_source s = ''built_in'' \<and> rs_kind s = ''auth'')) (cp_risk_signals p)
     \<or> list_ex (\<lambda>r. rm_mode r = RM_STRICT) (cp_rule_matches p)
     \<or> list_ex (\<lambda>r. severe_finding (rm_severity r)) (cp_rule_matches p)"

definition pack_severities :: "context_pack \<Rightarrow> string list" where
  "pack_severities p = map (\<lambda>s. risk_severity_value (rs_severity s)) (cp_risk_signals p)"

definition pack_risk_by_severity :: "context_pack \<Rightarrow> (string \<times> int) list" where
  "pack_risk_by_severity p = counter (pack_severities p)"

definition counted :: "string \<Rightarrow> (string \<times> int) list \<Rightarrow> bool" where
  "counted k c \<longleftrightarrow> dict_get_or c k 0 \<noteq> 0"

definition priority_order :: "string \<Rightarrow> int" where
  "priority_order p = dict_get_or [(''p0'', 3), (''p1'', 2), (''p2'', 1)] p 0"

definition highest_residual_priority :: "string list \<Rightarrow> string option" where
  "highest_residual_priority ps = fold (\<lambda>p h. case h of
      None \<Rightarrow> Some p
    | Some q \<Rightarrow> if priority_order q < priority_order p then Some p else h) ps None"

definition pack_residual_priority :: "context_pack \<Rightarrow> string option \<Rightarrow> string" where
  "pack_residual_priority p archived =
     (let risks = pack_risk_by_severity p;
          modes = counter (map (\<lambda>r. rule_mode_value (rm_mode r)) (cp_rule_matches p));
          severities = counter (map (\<lambda>r. finding_severity_value (rm_severity r)) (cp_rule_matches p));
          current = (if is_high_risk_pack p \<or> counted ''strict'' modes
                        \<or> counted ''critical'' severities \<or> counted ''high'' severities then ''p0''
                     else if counted ''medium'' risks \<or> counted ''critical'' risks \<or> counted ''high'' risks
                        \<or> cp_file_kind p \<in> {FK_SOURCE, FK_SCHEMA, FK_MIGRATION, FK_CONFIG}
                        \<or> st_truncated (cp_stats p) then ''p1''
                     else ''p2'')
      in case archived of
           None \<Rightarrow> current
         | Some a \<Rightarrow> if a \<notin> {''p0'', ''p1'', ''p2''} then current
                     else (case highest_residual_priority [current, a] of None \<Rightarrow> current | Some h \<Rightarrow> h))"

definition pack_review_slice :: "context_pack \<Rightarrow> string" where
  "pack_review_slice p =
     (if is_high_risk_pack p then ''high_risk''
      else if cp_file_kind p \<in> {FK_SCHEMA, FK_CONFIG, FK_MIGRATION, FK_DEPENDENCY} then ''contracts_config''
      else if cp_file_kind p = FK_SOURCE then ''source''
      else if cp_file_kind p = FK_TEST then ''tests''
      else if cp_file_kind p = FK_DOCS then ''docs''
      else ''other'')"

definition slice_sort_key :: "string \<Rightarrow> int \<times> string" where
  "slice_sort_key s = (dict_get_or [(''high_risk'', 0), (''contracts_config'', 1), (''source'', 2),
      (''tests'', 3), (''docs'', 4), (''other'', 5)] s 99, s)"

definition pack_symbol_names :: "context_pack list \<Rightarrow> string list" where
  "pack_symbol_names ps = uniq (concat (map (\<lambda>p. map sy_name
     (if cp_symbols p \<noteq> [] then cp_symbols p
      else case cp_symbol p of None \<Rightarrow> [] | Some s \<Rightarrow> [s])) ps))"

definition pack_scope :: "context_pack \<Rightarrow> string" where
  "pack_scope p =
     (if str_in ''#cluster:'' (cp_id p) \<or> 1 < length (cp_symbols p) then ''cluster''
      else if cp_symbol p \<noteq> None \<or> cp_symbols p \<noteq> [] then ''symbol''
      else ''file'')"

definition format_symbol :: "analyzer_symbol \<Rightarrow> string" where
  "format_symbol s = sy_kind s @ '' '' @ [CHR 0x60] @ sy_name s @ [CHR 0x60]"

definition format_pack_symbols :: "context_pack \<Rightarrow> string" where
  "format_pack_symbols p =
     (if cp_symbols p \<noteq> [] then join '', '' (map format_symbol (cp_symbols p))
      else case cp_symbol p of Some s \<Rightarrow> format_symbol s | None \<Rightarrow> ''file-level context'')"

subsection \<open>Summaries\<close>

text \<open>The grouping loops: the keys in order of first occurrence, each with its packs in order.\<close>

definition group_by :: "('a \<Rightarrow> 'k) \<Rightarrow> 'a list \<Rightarrow> ('k \<times> 'a list) list" where
  "group_by key xs = map (\<lambda>k. (k, filter (\<lambda>x. key x = k) xs)) (uniq (map key xs))"

definition count_if :: "('a \<Rightarrow> bool) \<Rightarrow> 'a list \<Rightarrow> int" where
  "count_if P xs = int (length (filter P xs))"

definition residual_priority_of :: "llm_residual_risk_summary list \<Rightarrow> string list \<Rightarrow> string option" where
  "residual_priority_of residual ids =
     (let by_id = dict_of rrs_context_pack_id id residual in
      highest_residual_priority (map rrs_priority (List.map_filter (dict_get by_id) ids)))"

definition file_summary ::
  "string list \<Rightarrow> string list \<Rightarrow> llm_residual_risk_summary list \<Rightarrow> string \<times> context_pack list
     \<Rightarrow> llm_file_coverage_summary" where
  "file_summary reviewed_ids over_budget_ids residual grp =
     (let (file, packs) = grp;
          reviewed_packs = filter (\<lambda>p. cp_id p \<in> set reviewed_ids) packs;
          unreviewed_packs = filter (\<lambda>p. cp_id p \<notin> set reviewed_ids) packs;
          reviewed_pack_ids = map cp_id reviewed_packs;
          unreviewed_pack_ids = map cp_id unreviewed_packs;
          reviewed_lines = merge_line_ranges (concat (map cp_changed_lines reviewed_packs));
          reviewed_symbols = pack_symbol_names reviewed_packs
      in \<lparr>fcs_file = file,
          fcs_file_kind = cp_file_kind (hd packs),
          fcs_total_context_packs = int (length packs),
          fcs_reviewed_context_packs = int (length reviewed_pack_ids),
          fcs_unreviewed_context_packs = int (length unreviewed_pack_ids),
          fcs_cluster_context_packs = count_if (\<lambda>p. pack_scope p = ''cluster'') packs,
          fcs_file_context_packs = count_if (\<lambda>p. pack_scope p = ''file'') packs,
          fcs_symbol_context_packs = count_if (\<lambda>p. pack_scope p = ''symbol'') packs,
          fcs_over_budget_context_packs = count_if (\<lambda>p. cp_id p \<in> set over_budget_ids) packs,
          fcs_truncated_context_packs = count_if (\<lambda>p. st_truncated (cp_stats p)) packs,
          fcs_risk_by_severity = sort (counter (concat (map pack_severities packs))),
          fcs_residual_priority = residual_priority_of residual unreviewed_pack_ids,
          fcs_reviewed_changed_lines = reviewed_lines,
          fcs_unreviewed_changed_lines = subtract_line_ranges
            (merge_line_ranges (concat (map cp_changed_lines unreviewed_packs))) reviewed_lines,
          fcs_reviewed_changed_symbols = reviewed_symbols,
          fcs_unreviewed_changed_symbols =
            filter (\<lambda>n. n \<notin> set reviewed_symbols) (pack_symbol_names unreviewed_packs),
          fcs_reviewed_context_pack_ids = reviewed_pack_ids,
          fcs_unreviewed_context_pack_ids = unreviewed_pack_ids\<rparr>)"

definition build_file_coverage ::
  "context_pack list \<Rightarrow> string list \<Rightarrow> string list \<Rightarrow> llm_residual_risk_summary list
     \<Rightarrow> llm_file_coverage_summary list" where
  "build_file_coverage packs reviewed_ids over_budget_ids residual =
     map (file_summary reviewed_ids over_budget_ids residual) (group_by cp_file packs)"

definition slice_summary ::
  "string list \<Rightarrow> string list \<Rightarrow> string list \<Rightarrow> llm_residual_risk_summary list
     \<Rightarrow> string \<times> context_pack list \<Rightarrow> llm_slice_coverage_summary" where
  "slice_summary reviewed_ids deep_ids shallow_ids residual grp =
     (let (name, packs) = grp;
          reviewed_pack_ids = map cp_id (filter (\<lambda>p. cp_id p \<in> set reviewed_ids) packs);
          unreviewed_pack_ids = map cp_id (filter (\<lambda>p. cp_id p \<notin> set reviewed_ids) packs);
          high_risk_ids = map cp_id (filter is_high_risk_pack packs)
      in \<lparr>scs_slice = name,
          scs_total_context_packs = int (length packs),
          scs_reviewed_context_packs = int (length reviewed_pack_ids),
          scs_unreviewed_context_packs = int (length unreviewed_pack_ids),
          scs_deep_reviewed_context_packs = count_if (\<lambda>p. cp_id p \<in> set deep_ids) packs,
          scs_shallow_reviewed_context_packs = count_if (\<lambda>p. cp_id p \<in> set shallow_ids) packs,
          scs_high_risk_context_packs = int (length high_risk_ids),
          scs_reviewed_high_risk_context_packs = count_if (\<lambda>i. i \<in> set reviewed_ids) high_risk_ids,
          scs_residual_priority = residual_priority_of residual unreviewed_pack_ids,
          scs_reviewed_context_pack_ids = reviewed_pack_ids,
          scs_unreviewed_context_pack_ids = unreviewed_pack_ids\<rparr>)"

definition build_slice_coverage ::
  "context_pack list \<Rightarrow> string list \<Rightarrow> string list \<Rightarrow> string list \<Rightarrow> llm_residual_risk_summary list
     \<Rightarrow> llm_slice_coverage_summary list" where
  "build_slice_coverage packs reviewed_ids deep_ids shallow_ids residual =
     map (slice_summary reviewed_ids deep_ids shallow_ids residual)
       (sort_key (slice_sort_key \<circ> fst) (group_by pack_review_slice packs))"

definition source_line_coverage_ratio :: "llm_file_coverage_summary list \<Rightarrow> rat" where
  "source_line_coverage_ratio fcs =
     (let sources = filter (\<lambda>s. fcs_file_kind s = FK_SOURCE) fcs;
          reviewed = sum_list (map (\<lambda>s. line_range_count (fcs_reviewed_changed_lines s)) sources);
          whole = sum_list (map (\<lambda>s. line_range_count (fcs_reviewed_changed_lines s)
                                   + line_range_count (fcs_unreviewed_changed_lines s)) sources)
      in if whole = 0 then 1 else coverage_ratio reviewed whole)"

subsection \<open>Priorities\<close>

lemma priority_order_values [simp]:
  "priority_order ''p0'' = 3" "priority_order ''p1'' = 2" "priority_order ''p2'' = 1"
  by (simp_all add: priority_order_def dict_get_or_def)

lemma highest_fold:
  "fold (\<lambda>p h. case h of None \<Rightarrow> Some p | Some q \<Rightarrow> if priority_order q < priority_order p then Some p else h) ps (Some q)
     = Some h \<Longrightarrow> h \<in> set (q # ps) \<and> (\<forall>p\<in>set (q # ps). priority_order p \<le> priority_order h)"
  by (induction ps arbitrary: q) (fastforce split: if_splits)+

lemma highest_fold_some:
  "\<exists>h. fold (\<lambda>p h. case h of None \<Rightarrow> Some p | Some q \<Rightarrow> if priority_order q < priority_order p then Some p else h) ps (Some q) = Some h"
  by (induction ps arbitrary: q) auto

lemma highest_residual_priority_max:
  "highest_residual_priority ps = Some h \<Longrightarrow> h \<in> set ps \<and> (\<forall>p\<in>set ps. priority_order p \<le> priority_order h)"
  by (cases ps) (auto simp: highest_residual_priority_def dest: highest_fold)

lemma highest_residual_priority_None: "highest_residual_priority ps = None \<longleftrightarrow> ps = []"
proof (cases ps)
  case (Cons p qs)
  then show ?thesis using highest_fold_some [of qs p] by (auto simp: highest_residual_priority_def)
qed (simp add: highest_residual_priority_def)

text \<open>With an archived priority the higher of it and the pack's own is taken.\<close>

lemma pack_residual_priority_Some:
  "pack_residual_priority p (Some q) =
     (if q \<notin> {''p0'', ''p1'', ''p2''} then pack_residual_priority p None
      else if priority_order (pack_residual_priority p None) < priority_order q then q
      else pack_residual_priority p None)"
  by (simp add: pack_residual_priority_def highest_residual_priority_def Let_def)

lemma pack_residual_priority_None: "pack_residual_priority p None \<in> {''p0'', ''p1'', ''p2''}"
  by (simp add: pack_residual_priority_def Let_def)

lemma pack_residual_priority_values: "pack_residual_priority p a \<in> {''p0'', ''p1'', ''p2''}"
  using pack_residual_priority_None [of p] by (cases a) (auto simp: pack_residual_priority_Some)

text \<open>The residual priority of a pack is one of p0, p1, p2; a high-risk pack is p0 whatever was
  archived, and an archived priority can only raise the pack's own, never lower it.\<close>

theorem pack_residual_priority_raises:
  "pack_residual_priority p a \<in> {''p0'', ''p1'', ''p2''}
   \<and> priority_order (pack_residual_priority p (Some ''p1'')) \<le> priority_order (pack_residual_priority p (Some ''p0''))
   \<and> priority_order (pack_residual_priority p a) =
       max (priority_order (pack_residual_priority p None))
         (case a of None \<Rightarrow> 0 | Some q \<Rightarrow> if q \<in> {''p0'', ''p1'', ''p2''} then priority_order q else 0)
   \<and> (if is_high_risk_pack p then pack_residual_priority p a = ''p0'' else True)"
proof -
  obtain c where c: "pack_residual_priority p None = c" "c \<in> {''p0'', ''p1'', ''p2''}"
    using pack_residual_priority_None by blast
  have high: "is_high_risk_pack p \<Longrightarrow> c = ''p0''"
    using c(1) by (simp add: pack_residual_priority_def)
  have pos: "0 < priority_order c" using c(2) by auto
  show ?thesis
    using c high pos by (cases a) (auto simp: pack_residual_priority_Some)
qed

subsection \<open>The summaries partition packs and lines\<close>

lemma group_by_counts: "(\<Sum>g\<leftarrow>group_by key xs. count_if P (snd g)) = count_if P xs"
proof -
  have "(\<Sum>k\<leftarrow>ks. count_if P (filter (\<lambda>x. key x = k) xs)) = count_if (\<lambda>x. P x \<and> key x \<in> set ks) xs"
    if "distinct ks" for ks
    using that
  proof (induction ks)
    case (Cons k ks)
    have "count_if (\<lambda>x. P x \<and> key x \<in> set (k # ks)) xs =
        count_if P (filter (\<lambda>x. key x = k) xs) + count_if (\<lambda>x. P x \<and> key x \<in> set ks) xs"
      using Cons.prems by (induction xs) (auto simp: count_if_def)
    with Cons show ?case by simp
  qed (simp add: count_if_def)
  from this [of "uniq (map key xs)"] have "(\<Sum>k\<leftarrow>uniq (map key xs). count_if P (filter (\<lambda>x. key x = k) xs)) =
      count_if (\<lambda>x. P x \<and> key x \<in> key ` set xs) xs"
    by simp
  also have "\<dots> = count_if P xs"
    unfolding count_if_def by (rule arg_cong [where f = "\<lambda>l. int (length l)"], rule filter_cong) auto
  finally show ?thesis by (simp add: group_by_def comp_def)
qed

lemma length_as_count: "int (length xs) = count_if (\<lambda>x. True) xs"
  by (simp add: count_if_def)

lemma count_if_split: "count_if P xs + count_if (\<lambda>x. \<not> P x) xs = int (length xs)"
  by (induction xs) (simp_all add: count_if_def)

lemma file_summary_counts:
  "fcs_total_context_packs (file_summary r ob res g) = count_if (\<lambda>x. True) (snd g)"
  "fcs_reviewed_context_packs (file_summary r ob res g) = count_if (\<lambda>p. cp_id p \<in> set r) (snd g)"
  "fcs_unreviewed_context_packs (file_summary r ob res g) = count_if (\<lambda>p. cp_id p \<notin> set r) (snd g)"
  by (simp_all add: file_summary_def count_if_def case_prod_unfold Let_def)

lemma file_summary_scopes:
  "fcs_cluster_context_packs (file_summary r ob res g) + fcs_file_context_packs (file_summary r ob res g)
     + fcs_symbol_context_packs (file_summary r ob res g) = fcs_total_context_packs (file_summary r ob res g)"
proof -
  have scopes: "pack_scope p = ''cluster'' \<or> pack_scope p = ''file'' \<or> pack_scope p = ''symbol''" for p
    by (simp add: pack_scope_def)
  have "count_if (\<lambda>p. pack_scope p = ''cluster'') ps + count_if (\<lambda>p. pack_scope p = ''file'') ps
     + count_if (\<lambda>p. pack_scope p = ''symbol'') ps = int (length ps)" for ps
    by (induction ps) (use scopes in \<open>fastforce simp: count_if_def\<close>)+
  then show ?thesis by (simp add: file_summary_def case_prod_unfold Let_def)
qed

text \<open>The per-file coverage accounts for every pack once: within each file the reviewed and
  unreviewed packs add up to all of them, and so do the cluster, file and symbol packs; over
  all files the totals are the numbers of packs, reviewed packs and unreviewed packs.\<close>

theorem build_file_coverage_totals:
  "(\<Sum>s\<leftarrow>build_file_coverage packs r ob res. fcs_total_context_packs s) = int (length packs)
   \<and> (\<Sum>s\<leftarrow>build_file_coverage packs r ob res. fcs_reviewed_context_packs s) = count_if (\<lambda>p. cp_id p \<in> set r) packs
   \<and> (\<Sum>s\<leftarrow>build_file_coverage packs r ob res. fcs_unreviewed_context_packs s) = count_if (\<lambda>p. cp_id p \<notin> set r) packs
   \<and> list_all (\<lambda>s. fcs_reviewed_context_packs s + fcs_unreviewed_context_packs s = fcs_total_context_packs s
        \<and> fcs_cluster_context_packs s + fcs_file_context_packs s + fcs_symbol_context_packs s
            = fcs_total_context_packs s)
      (build_file_coverage packs r ob res)"
proof (intro conjI)
  have "fcs_reviewed_context_packs (file_summary r ob res g) + fcs_unreviewed_context_packs (file_summary r ob res g)
      = fcs_total_context_packs (file_summary r ob res g)" for g
    using count_if_split [of "\<lambda>p. cp_id p \<in> set r" "snd g"]
    by (simp only: file_summary_counts length_as_count)
  then show "list_all (\<lambda>s. fcs_reviewed_context_packs s + fcs_unreviewed_context_packs s = fcs_total_context_packs s
        \<and> fcs_cluster_context_packs s + fcs_file_context_packs s + fcs_symbol_context_packs s
            = fcs_total_context_packs s) (build_file_coverage packs r ob res)"
    by (simp add: build_file_coverage_def list.pred_map comp_def file_summary_scopes list_all_iff)
qed (simp_all add: build_file_coverage_def comp_def file_summary_counts group_by_counts length_as_count)

text \<open>Every changed line of a file is either reviewed or unreviewed, never both: the two line
  lists of a file summary are ordered, disjoint, and together denote exactly the changed lines
  of the file's packs, so the two counts add up to the number of distinct changed lines.\<close>

theorem file_summary_lines_partition:
  "lines_of (fcs_reviewed_changed_lines (file_summary r ob res (file, packs)))
     \<inter> lines_of (fcs_unreviewed_changed_lines (file_summary r ob res (file, packs))) = {}
   \<and> line_range_count (fcs_reviewed_changed_lines (file_summary r ob res (file, packs)))
     + line_range_count (fcs_unreviewed_changed_lines (file_summary r ob res (file, packs)))
     = int (card (read_lines (concat (map cp_changed_lines packs))))"
proof
  let ?rev = "concat (map cp_changed_lines (filter (\<lambda>p. cp_id p \<in> set r) packs))"
  let ?un = "concat (map cp_changed_lines (filter (\<lambda>p. cp_id p \<notin> set r) packs))"
  have fields: "fcs_reviewed_changed_lines (file_summary r ob res (file, packs)) = merge_line_ranges ?rev"
    "fcs_unreviewed_changed_lines (file_summary r ob res (file, packs)) =
       subtract_line_ranges (merge_line_ranges ?un) (merge_line_ranges ?rev)"
    by (simp_all add: file_summary_def Let_def)
  show "lines_of (fcs_reviewed_changed_lines (file_summary r ob res (file, packs)))
     \<inter> lines_of (fcs_unreviewed_changed_lines (file_summary r ob res (file, packs))) = {}"
    unfolding fields by (rule ranges.split_partition(2))
  have "read_lines xs \<union> read_lines ys = read_lines zs" if "set zs = set xs \<union> set ys" for xs ys zs :: "line_range list"
    using that by (auto simp: read_lines_def lines_of_def)
  moreover have "set (concat (map cp_changed_lines packs)) = set ?rev \<union> set ?un" by auto
  ultimately have "read_lines ?rev \<union> read_lines ?un = read_lines (concat (map cp_changed_lines packs))" by blast
  then show "line_range_count (fcs_reviewed_changed_lines (file_summary r ob res (file, packs)))
     + line_range_count (fcs_unreviewed_changed_lines (file_summary r ob res (file, packs)))
     = int (card (read_lines (concat (map cp_changed_lines packs))))"
    unfolding fields by (simp only: ranges.split_count)
qed

subsection \<open>Rounding hides small gaps\<close>

lemma round_to_10000: "\<lbrakk>19999 / 2 < y; y < 10000\<rbrakk> \<Longrightarrow> round_half_even y = 10000"
proof -
  assume y: "19999 / 2 < y" "y < 10000"
  then have "\<lfloor>y\<rfloor> = 9999" by linarith
  with y show ?thesis by (simp add: round_half_even_def Let_def)
qed

text \<open>The rounded ratio does not separate full coverage from almost full coverage: whenever the
  unreviewed share is below one in twenty thousand the ratio is exactly 1, the value a complete
  review has.\<close>

theorem coverage_ratio_rounds_up_to_one:
  assumes "0 \<le> r" and "r < t" and "20000 * (t - r) < t"
  shows "coverage_ratio r t = 1 \<and> coverage_ratio r t = coverage_ratio t t"
proof -
  let ?x = "rat_of_int r / rat_of_int t"
  have t: "0 < t" using assms by linarith
  have "rat_of_int (20000 * (t - r)) < rat_of_int t" using assms(3) by (simp only: of_int_less_iff)
  then have "19999 * rat_of_int t < 20000 * rat_of_int r" by (simp add: algebra_simps)
  then have lower: "19999 / 2 < ?x * 10000" using t by (simp add: field_simps)
  have upper: "?x * 10000 < 10000" using assms(2) t by (simp add: field_simps)
  have "round_half_even (?x * 10000) = 10000"
    using lower upper by (rule round_to_10000)
  then have one: "coverage_ratio r t = 1" using t by (simp add: coverage_ratio_def py_round_def)
  with t show ?thesis by (simp add: coverage_ratio_def)
qed

lemma coverage_ratio_rounds_up_to_one_witness: "coverage_ratio 29999 30000 = 1"
  using coverage_ratio_rounds_up_to_one [of 29999 30000] by simp

end
