(* ===== verification/Usage.thy ===== *)
theory Usage
  imports Model_Finding
begin

section \<open>Token estimates and provider usage\<close>

text \<open>
  \<open>src/apex_ray/llm/usage.py\<close>: the token estimates that budgets are counted in, the usage a
  provider reports (decoded JSON; the JSON parser and the text-to-float conversion are
  parameters) and the totals over runs. The prompt builders only contribute their lengths.
\<close>

subsection \<open>Estimates\<close>

definition ceil_div :: "int \<Rightarrow> int \<Rightarrow> int" where
  "ceil_div n d = (n + d - 1) div d"

definition estimate_tokens :: "int \<Rightarrow> int" where
  "estimate_tokens chars = (if chars \<noteq> 0 then max 1 ((chars + 3) div 4) else 0)"

definition estimate_provider_input_tokens :: "int \<Rightarrow> string option \<Rightarrow> int" where
  "estimate_provider_input_tokens chars provider =
     (let named = (\<lambda>ns. provider \<in> set (map (\<lambda>n. Some (llm_provider_name_value n)) ns)) in
      if chars \<le> 0 then 0
      else if named [PN_CODEX_CLI] then ceil_div (chars * 17) 16
      else if named [PN_CLAUDE_CODE_CLI] then ceil_div (chars * 5) 4
      else if named [PN_DEEPSEEK_API, PN_QWEN_API, PN_KIMI_API, PN_ZAI_API] then ceil_div chars 2 + 768
      else if named [PN_OPENAI_COMPATIBLE] then ceil_div chars 2 + 1024
      else if named [PN_OPENAI_API, PN_ANTHROPIC_API] then ceil_div chars 3 + 512
      else if named [PN_FAKE] then estimate_tokens chars
      else ceil_div chars 3 + 1024)"

lemma ceil_div_mono: "\<lbrakk>a \<le> b; 0 < d\<rbrakk> \<Longrightarrow> ceil_div a d \<le> ceil_div b d"
  by (simp add: ceil_div_def zdiv_mono1)

lemma estimate_tokens_ceil: "0 \<le> chars \<Longrightarrow> estimate_tokens chars = ceil_div chars 4"
  by (auto simp: estimate_tokens_def ceil_div_def)

lemma ceil_div_le:
  assumes "0 < b" "0 < d" "(a + b - 1) * d \<le> (a' + d - 1) * b"
  shows "ceil_div a b \<le> ceil_div a' d"
proof -
  have "(a + b - 1) div b = ((a + b - 1) * d) div (b * d)" using assms(2) by simp
  also have "\<dots> \<le> ((a' + d - 1) * b) div (b * d)" using assms by (intro zdiv_mono1) simp_all
  also have "\<dots> = (a' + d - 1) div d" using assms(1) by simp
  finally show ?thesis by (simp add: ceil_div_def)
qed

lemma quarter_bounds:
  fixes c :: int
  assumes "0 < c"
  shows "0 < ceil_div c 4" "ceil_div c 4 \<le> ceil_div (c * 17) 16" "ceil_div c 4 \<le> ceil_div (c * 5) 4"
    "ceil_div c 4 \<le> ceil_div c 2" "ceil_div c 4 \<le> ceil_div c 3"
proof -
  show "0 < ceil_div c 4" using assms by (simp add: ceil_div_def pos_imp_zdiv_pos_iff)
  show "ceil_div c 4 \<le> ceil_div (c * 17) 16" "ceil_div c 4 \<le> ceil_div (c * 5) 4"
    "ceil_div c 4 \<le> ceil_div c 2" "ceil_div c 4 \<le> ceil_div c 3"
    using assms by (intro ceil_div_le; simp)+
qed

lemma estimate_provider_mono:
  "a \<le> b \<Longrightarrow> estimate_provider_input_tokens a p \<le> estimate_provider_input_tokens b p"
proof (cases "a \<le> 0")
  case True
  have "0 \<le> estimate_provider_input_tokens b p" if "0 < b"
    using quarter_bounds [OF that] that
    by (simp add: estimate_provider_input_tokens_def estimate_tokens_ceil Let_def)
  with True show ?thesis by (cases "b \<le> 0") (simp_all add: estimate_provider_input_tokens_def)
next
  case False
  assume "a \<le> b"
  with False show ?thesis
    by (simp add: estimate_provider_input_tokens_def estimate_tokens_ceil ceil_div_mono Let_def)
qed

lemma estimate_provider_lower:
  "0 < c \<Longrightarrow> estimate_tokens c \<le> estimate_provider_input_tokens c p"
  using quarter_bounds [of c]
  by (simp add: estimate_provider_input_tokens_def estimate_tokens_ceil Let_def)

lemma estimate_provider_nonneg: "0 \<le> estimate_provider_input_tokens c p"
  using estimate_provider_mono [of 0 c p] by (cases "c \<le> 0") (simp_all add: estimate_provider_input_tokens_def)

text \<open>The estimate a budget is charged is safe to compare: an empty prompt costs nothing, a
  non-empty one at least one token and never less than a quarter of its characters, for every
  provider name (unknown ones included), and a longer prompt never costs less.\<close>

theorem estimate_provider_input_tokens_bounds:
  "estimate_provider_input_tokens (min c 0) p = 0
   \<and> c \<le> 4 * estimate_provider_input_tokens c p
   \<and> (0 < estimate_provider_input_tokens c p \<longleftrightarrow> 0 < c)
   \<and> estimate_provider_input_tokens c p \<le> estimate_provider_input_tokens (max c d) p"
proof (intro conjI)
  show "estimate_provider_input_tokens (min c 0) p = 0"
    by (simp add: estimate_provider_input_tokens_def)
  have quarter: "c \<le> 4 * ceil_div c 4" by (simp add: ceil_div_def)
  show "c \<le> 4 * estimate_provider_input_tokens c p"
    using quarter estimate_provider_lower [of c p] estimate_provider_nonneg [of c p] estimate_tokens_ceil [of c]
    by (cases "0 < c") auto
  show "0 < estimate_provider_input_tokens c p \<longleftrightarrow> 0 < c"
    using estimate_provider_lower [of c p] quarter_bounds(1) [of c] estimate_tokens_ceil [of c]
    by (cases "0 < c") (auto simp: estimate_provider_input_tokens_def)
  show "estimate_provider_input_tokens c p \<le> estimate_provider_input_tokens (max c d) p"
    by (rule estimate_provider_mono) simp
qed

subsection \<open>Usage reported by a provider\<close>

text \<open>A decoded JSON value.\<close>

datatype json = JNull | JBool bool | JInt int | JFloat rat | JStr string
  | JArr "json list" | JObj "(string \<times> json) list"

definition json_get :: "json \<Rightarrow> string \<Rightarrow> json" where
  "json_get v k = (case v of JObj fs \<Rightarrow> dict_get_or fs k JNull | _ \<Rightarrow> JNull)"

definition json_truthy :: "json \<Rightarrow> bool" where
  "json_truthy v = (case v of JNull \<Rightarrow> False | JBool b \<Rightarrow> b | JInt i \<Rightarrow> i \<noteq> 0 | JFloat r \<Rightarrow> r \<noteq> 0
     | JStr s \<Rightarrow> s \<noteq> [] | JArr xs \<Rightarrow> xs \<noteq> [] | JObj fs \<Rightarrow> fs \<noteq> [])"

definition json_or :: "json \<Rightarrow> json \<Rightarrow> json" where
  "json_or a b = (if json_truthy a then a else b)"

fun is_object :: "json \<Rightarrow> bool" where
  "is_object (JObj fs) \<longleftrightarrow> True"
| "is_object _ \<longleftrightarrow> False"

fun int_value :: "json \<Rightarrow> int" where
  "int_value (JInt i) = i"
| "int_value _ = 0"

fun first_int :: "json \<Rightarrow> string list \<Rightarrow> int" where
  "first_int m [] = 0"
| "first_int m (k # ks) = (let v = int_value (json_get m k) in if v \<noteq> 0 then v else first_int m ks)"

definition float_or_none :: "(string \<Rightarrow> rat option) \<Rightarrow> json \<Rightarrow> rat option" where
  "float_or_none parse v = (case v of JInt i \<Rightarrow> Some (rat_of_int i) | JFloat r \<Rightarrow> Some r
     | JStr s \<Rightarrow> parse s | _ \<Rightarrow> None)"

definition mapping_or_empty :: "json \<Rightarrow> json" where
  "mapping_or_empty v = (if is_object v then v else JObj [])"

definition usage_from_mapping :: "json \<Rightarrow> string \<Rightarrow> rat option \<Rightarrow> bool \<Rightarrow> llm_usage option" where
  "usage_from_mapping m source cost cached_in_input =
     (let field = (\<lambda>k. int_value (json_get m k));
          input = field ''input_tokens'';
          output = field ''output_tokens'';
          reasoning = field ''reasoning_output_tokens'';
          cache_read = field ''cache_read_input_tokens'';
          creation = field ''cache_creation_input_tokens'';
          cached = (if field ''cached_input_tokens'' = 0 then cache_read else field ''cached_input_tokens'');
          total = (if field ''total_tokens'' = 0
                   then input + (if cached_in_input then 0 else cached + creation) + output
                   else field ''total_tokens'')
      in if \<not> list_ex (\<lambda>n. n \<noteq> 0) [input, cached, output, reasoning, cache_read, creation, total]
            \<and> (cost = None \<or> cost = Some 0)
         then None
         else Some \<lparr>us_source = source, us_input_tokens = input, us_cached_input_tokens = cached,
           us_output_tokens = output, us_reasoning_output_tokens = reasoning, us_total_tokens = total,
           us_cache_read_input_tokens = cache_read, us_cache_creation_input_tokens = creation,
           us_estimated_cost_usd = cost\<rparr>)"

text \<open>One line of the Codex event stream, on the usage seen last.\<close>

definition codex_usage_line :: "(string \<Rightarrow> json option) \<Rightarrow> string \<Rightarrow> json option \<Rightarrow> json option" where
  "codex_usage_line loads line last_usage =
     (let stripped = py_strip line in
      if stripped = [] then last_usage
      else case loads stripped of
          None \<Rightarrow> last_usage
        | Some event \<Rightarrow>
            if \<not> is_object event then last_usage
            else if json_get event ''type'' = JStr ''turn.completed'' then
              (if is_object (json_get event ''usage'') then Some (json_get event ''usage'') else last_usage)
            else
              let payload = json_get event ''payload''; info = json_get payload ''info'' in
              if \<not> is_object payload \<or> json_get payload ''type'' \<noteq> JStr ''token_count'' then last_usage
              else if \<not> is_object info then last_usage
              else if is_object (json_get info ''total_token_usage'')
                   then Some (json_get info ''total_token_usage'') else Some info)"

definition parse_codex_usage_from_jsonl :: "(string \<Rightarrow> json option) \<Rightarrow> string \<Rightarrow> llm_usage option" where
  "parse_codex_usage_from_jsonl loads text =
     (case fold (codex_usage_line loads) (split_lines text) None of
        None \<Rightarrow> None
      | Some u \<Rightarrow> usage_from_mapping u ''codex_cli_json'' None True)"

definition parse_claude_usage_from_json ::
  "(string \<Rightarrow> json option) \<Rightarrow> (string \<Rightarrow> rat option) \<Rightarrow> string \<Rightarrow> llm_usage option" where
  "parse_claude_usage_from_json loads parse text =
     (case loads (py_strip text) of
        None \<Rightarrow> None
      | Some raw \<Rightarrow>
          if \<not> is_object raw \<or> \<not> is_object (json_get raw ''usage'') then None
          else usage_from_mapping (json_get raw ''usage'') ''claude_json''
            (float_or_none parse (json_or (json_get raw ''total_cost_usd'')
               (json_or (json_get raw ''cost_usd'') (json_get raw ''costUSD'')))) False)"

definition parse_api_usage ::
  "(string \<Rightarrow> rat option) \<Rightarrow> json \<Rightarrow> string \<Rightarrow> llmapi_protocol \<Rightarrow> llm_usage option" where
  "parse_api_usage parse usage source protocol =
     (let input_details = mapping_or_empty (json_get usage ''input_tokens_details'');
          prompt_details = mapping_or_empty (json_get usage ''prompt_tokens_details'');
          output_details = mapping_or_empty (json_get usage ''output_tokens_details'');
          completion_details = mapping_or_empty (json_get usage ''completion_tokens_details'');
          input = first_int usage [''input_tokens'', ''prompt_tokens''];
          output = first_int usage [''output_tokens'', ''completion_tokens''];
          cache_read = max (max (first_int usage [''cache_read_input_tokens'', ''prompt_cache_hit_tokens'',
                                   ''cached_input_tokens'', ''cached_tokens''])
                             (first_int input_details [''cached_tokens'']))
                         (first_int prompt_details [''cached_tokens'']);
          creation = first_int usage [''cache_creation_input_tokens'', ''cache_creation_tokens'',
                       ''cache_write_input_tokens'', ''cache_write_tokens''];
          reasoning = max (max (first_int usage [''reasoning_output_tokens'', ''reasoning_tokens''])
                             (first_int output_details [''reasoning_tokens'']))
                         (first_int completion_details [''reasoning_tokens'']);
          normalized = JObj [(''input_tokens'', JInt input), (''cached_input_tokens'', JInt cache_read),
            (''output_tokens'', JInt output), (''reasoning_output_tokens'', JInt reasoning),
            (''total_tokens'', JInt (first_int usage [''total_tokens''])),
            (''cache_read_input_tokens'', JInt cache_read), (''cache_creation_input_tokens'', JInt creation)]
      in usage_from_mapping normalized source
           (float_or_none parse (json_or (json_get usage ''estimated_cost_usd'')
              (json_or (json_get usage ''cost_usd'') (json_get usage ''cost''))))
           (protocol \<noteq> AP_ANTHROPIC_MESSAGES))"

text \<open>\<open>llm_run_usage_fields\<close>: the fields of a run that a reported usage fills in.\<close>

definition set_run_usage :: "llm_usage option \<Rightarrow> llm_run \<Rightarrow> llm_run" where
  "set_run_usage usage r = (case usage of None \<Rightarrow> r
     | Some u \<Rightarrow> r\<lparr>run_actual_input_tokens := us_input_tokens u,
         run_actual_cached_input_tokens := us_cached_input_tokens u,
         run_actual_output_tokens := us_output_tokens u,
         run_actual_reasoning_output_tokens := us_reasoning_output_tokens u,
         run_actual_total_tokens := us_total_tokens u,
         run_actual_cache_read_input_tokens := us_cache_read_input_tokens u,
         run_actual_cache_creation_input_tokens := us_cache_creation_input_tokens u,
         run_estimated_cost_usd := us_estimated_cost_usd u,
         run_usage_source := Some (us_source u)\<rparr>)"

record llm_usage_totals =
  ut_actual_input_tokens :: int
  ut_actual_cached_input_tokens :: int
  ut_actual_output_tokens :: int
  ut_actual_reasoning_output_tokens :: int
  ut_actual_total_tokens :: int
  ut_actual_cache_read_input_tokens :: int
  ut_actual_cache_creation_input_tokens :: int
  ut_estimated_saved_input_tokens :: int
  ut_estimated_cost_usd :: "rat option"
  ut_usage_sources :: "string list"

definition aggregate_actual_usage :: "llm_run list \<Rightarrow> llm_usage_totals" where
  "aggregate_actual_usage runs =
     (let costs = List.map_filter run_estimated_cost_usd runs;
          sources = sorted_set (filter (\<lambda>s. s \<noteq> []) (List.map_filter run_usage_source runs))
      in \<lparr>ut_actual_input_tokens = sum_list (map run_actual_input_tokens runs),
          ut_actual_cached_input_tokens = sum_list (map run_actual_cached_input_tokens runs),
          ut_actual_output_tokens = sum_list (map run_actual_output_tokens runs),
          ut_actual_reasoning_output_tokens = sum_list (map run_actual_reasoning_output_tokens runs),
          ut_actual_total_tokens = sum_list (map run_actual_total_tokens runs),
          ut_actual_cache_read_input_tokens = sum_list (map run_actual_cache_read_input_tokens runs),
          ut_actual_cache_creation_input_tokens = sum_list (map run_actual_cache_creation_input_tokens runs),
          ut_estimated_saved_input_tokens = sum_list (map run_estimated_saved_input_tokens runs),
          ut_estimated_cost_usd = (if costs = [] then None else Some (py_round 6 (sum_list costs))),
          ut_usage_sources = sources\<rparr>)"

end
