(* ===== verification/Budgets.thy ===== *)
theory Budgets
  imports Prelude
begin

section \<open>Choosing within a budget\<close>

text \<open>
  The greedy loop that several components share: walk the candidates in priority order, keep one
  if it still fits, skip it otherwise. The pack selection of \<open>pipeline/selection.py\<close> runs it on
  token estimates. The locale states what a cost must satisfy and proves that the choice stays
  within the budget and leaves out nothing that would still fit.
\<close>

fun take_within :: "('a \<Rightarrow> int) \<Rightarrow> int \<Rightarrow> int \<Rightarrow> 'a list \<Rightarrow> 'a list \<times> int" where
  "take_within cost budget used [] = ([], used)"
| "take_within cost budget used (x # xs) =
     (if budget < used + cost x then take_within cost budget used xs
      else let (ys, u) = take_within cost budget (used + cost x) xs in (x # ys, u))"

locale priced =
  fixes cost :: "'a \<Rightarrow> int"
  assumes cost_nonneg: "0 \<le> cost x"
begin

lemma spent: "snd (take_within cost budget used xs) = used + sum_list (map cost (fst (take_within cost budget used xs)))"
  by (induction xs arbitrary: used) (auto simp: case_prod_unfold Let_def)

lemma spent_mono: "used \<le> snd (take_within cost budget used xs)"
proof (induction xs arbitrary: used)
  case (Cons x xs)
  have "used \<le> used + cost x" by (simp add: cost_nonneg)
  with Cons.IH [of used] Cons.IH [of "used + cost x"] show ?case
    by (auto simp: case_prod_unfold Let_def)
qed simp

lemma within: "used \<le> budget \<Longrightarrow> snd (take_within cost budget used xs) \<le> budget"
  by (induction xs arbitrary: used) (auto simp: case_prod_unfold Let_def)

lemma chosen_subseq: "subseq (fst (take_within cost budget used xs)) xs"
  by (induction xs arbitrary: used) (auto simp: case_prod_unfold Let_def)

lemma left_out_does_not_fit:
  "\<lbrakk>x \<in> set xs; x \<notin> set (fst (take_within cost budget used xs))\<rbrakk> \<Longrightarrow>
     budget < snd (take_within cost budget used xs) + cost x"
proof (induction xs arbitrary: used)
  case (Cons y ys)
  show ?case
  proof (cases "budget < used + cost y")
    case True
    with Cons spent_mono [of used budget ys] show ?thesis by auto
  next
    case False
    with Cons show ?thesis by (auto simp: case_prod_unfold Let_def)
  qed
qed simp

lemma everything_fits:
  "used + sum_list (map cost xs) \<le> budget \<Longrightarrow> take_within cost budget used xs = (xs, used + sum_list (map cost xs))"
proof (induction xs arbitrary: used)
  case (Cons x xs)
  have "0 \<le> sum_list (map cost xs)" by (induction xs) (simp_all add: cost_nonneg)
  with Cons.prems have "\<not> budget < used + cost x" by simp
  with Cons show ?case by (simp add: add.assoc)
qed simp

end

end
