(* ===== verification/Selection.thy ===== *)
theory Selection
  imports Coverage_Breakdown Usage Budgets
begin

section \<open>Selecting context packs for review\<close>

text \<open>
  \<open>src/apex_ray/pipeline/selection.py\<close>: the pack cap, the priority bands, the breadth-first
  choice within a band, the token budget, and \<open>plan_llm_context_selection\<close>, which plans a deep and
  a shallow stage. A pack is its position in the list of packs. Three functions are parameters:
  the length of a rendered prompt and of its payload (\<open>llm/prompts.py\<close>), and the provider that
  reviews a pack; the prompt cache of the code stores renderings and does not change results.
\<close>

subsection \<open>Priorities of packs\<close>

definition is_high_value_extra_pack :: "context_pack \<Rightarrow> bool" where
  "is_high_value_extra_pack p \<longleftrightarrow>
     list_ex (\<lambda>s. severe (rs_severity s)) (cp_risk_signals p)
     \<or> list_ex (\<lambda>r. rm_mode r = RM_STRICT) (cp_rule_matches p)
     \<or> list_ex (\<lambda>r. severe_finding (rm_severity r)) (cp_rule_matches p)"

primrec severity_rank :: "risk_severity \<Rightarrow> int" where
  "severity_rank RS_CRITICAL = 4"
| "severity_rank RS_HIGH = 3"
| "severity_rank RS_MEDIUM = 2"
| "severity_rank RS_LOW = 1"

primrec rule_severity_rank :: "finding_severity \<Rightarrow> int" where
  "rule_severity_rank FS_CRITICAL = 4"
| "rule_severity_rank FS_HIGH = 3"
| "rule_severity_rank FS_MEDIUM = 2"
| "rule_severity_rank FS_LOW = 1"

definition kind_score :: "file_kind \<Rightarrow> int" where
  "kind_score k = (case k of FK_SOURCE \<Rightarrow> 5 | FK_SCHEMA \<Rightarrow> 4 | FK_MIGRATION \<Rightarrow> 4 | FK_CONFIG \<Rightarrow> 3
     | FK_UNKNOWN \<Rightarrow> 2 | FK_TEST \<Rightarrow> 1 | _ \<Rightarrow> 2)"

type_synonym pack_priority = "int \<times> int \<times> int \<times> int \<times> int \<times> int \<times> int \<times> int"

definition llm_pack_priority :: "context_pack \<Rightarrow> (string \<times> file_kind) list \<Rightarrow> nat \<Rightarrow> pack_priority" where
  "llm_pack_priority p kind_by_path i =
     (let kind = dict_get_or kind_by_path (cp_file p) (cp_file_kind p);
          critical = count_if (\<lambda>s. rs_severity s = RS_CRITICAL) (cp_risk_signals p);
          high = count_if (\<lambda>s. rs_severity s = RS_HIGH) (cp_risk_signals p);
          medium = count_if (\<lambda>s. rs_severity s = RS_MEDIUM) (cp_risk_signals p);
          strict = count_if (\<lambda>r. rm_mode r = RM_STRICT) (cp_rule_matches p);
          severe_rules = count_if (\<lambda>r. severe_finding (rm_severity r)) (cp_rule_matches p);
          configured = sum_list (map risk_signal_score (cp_risk_signals p));
          band = foldl max 0 (map (severity_rank \<circ> rs_severity) (cp_risk_signals p)
                   @ map (rule_severity_rank \<circ> rm_severity) (cp_rule_matches p));
          explicit = critical * 3000 + strict * 2000
            + sum_list (map (\<lambda>s. 1500 + risk_signal_score s)
                (filter (\<lambda>s. rs_source s = ''project'' \<and> severe (rs_severity s)) (cp_risk_signals p)));
          risk = critical * 2000 + high * 1000 + strict * 800 + severe_rules * 500 + medium * 100 + configured;
          tier = (if kind = FK_TEST then 1 else 2)
      in (band, explicit, tier, risk, kind_score kind, min (st_estimated_chars (cp_stats p)) 100000,
          int (length (cp_references p)) + int (length (cp_contracts p)) + int (length (cp_metadata p)),
          - int i))"

definition kinds_by_path :: "changed_file list \<Rightarrow> (string \<times> file_kind) list" where
  "kinds_by_path files = dict_of cf_path cf_file_kind files"

subsection \<open>Within one priority band\<close>

type_synonym indexed_pack = "nat \<times> context_pack"

text \<open>The selected positions and the files they belong to.\<close>

type_synonym choice = "nat list \<times> string list"

definition pick_pack :: "nat \<Rightarrow> indexed_pack \<Rightarrow> choice \<Rightarrow> choice" where
  "pick_pack cap ip c =
     (if cap \<le> length (fst c) \<or> fst ip \<in> set (fst c) then c
      else (fst c @ [fst ip], cp_file (snd ip) # snd c))"

definition initial_llm_breadth_budget :: "nat \<Rightarrow> nat \<Rightarrow> nat" where
  "initial_llm_breadth_budget cap file_count =
     (if cap \<le> 2 then min cap file_count else min file_count (max 2 (cap div 2)))"

text \<open>The five loops; a loop that breaks when the choice is large enough does nothing from there on,
  since the choice only grows.\<close>

definition choose_breadth :: "nat \<Rightarrow> nat \<Rightarrow> (string \<times> indexed_pack list) list \<Rightarrow> choice \<Rightarrow> choice" where
  "choose_breadth cap breadth groups c = fold (\<lambda>(file, ps) c.
     if breadth \<le> length (fst c) then c
     else case ps of [] \<Rightarrow> c | ip # _ \<Rightarrow> pick_pack cap ip c) groups c"

definition choose_new_files :: "nat \<Rightarrow> (string \<times> indexed_pack list) list \<Rightarrow> choice \<Rightarrow> choice" where
  "choose_new_files cap groups c = fold (\<lambda>(file, ps) c.
     if cap \<le> length (fst c) then c
     else if file \<in> set (snd c) then c
     else case find (\<lambda>ip. is_high_value_extra_pack (snd ip)) ps of
         None \<Rightarrow> c | Some ip \<Rightarrow> pick_pack cap ip c) groups c"

definition choose_high_value :: "nat \<Rightarrow> indexed_pack list \<Rightarrow> choice \<Rightarrow> choice" where
  "choose_high_value cap ips c = fold (\<lambda>ip c.
     if cap \<le> length (fst c) then c
     else if fst ip \<in> set (fst c) \<or> \<not> is_high_value_extra_pack (snd ip) then c
     else pick_pack cap ip c) ips c"

definition choose_untouched_files :: "nat \<Rightarrow> (string \<times> indexed_pack list) list \<Rightarrow> choice \<Rightarrow> choice" where
  "choose_untouched_files cap groups c = fold (\<lambda>(file, ps) c.
     if cap \<le> length (fst c) then c
     else case ps of [] \<Rightarrow> c
       | ip # _ \<Rightarrow> if list_ex (\<lambda>q. fst q \<in> set (fst c)) ps then c else pick_pack cap ip c) groups c"

definition choose_rest :: "nat \<Rightarrow> indexed_pack list \<Rightarrow> choice \<Rightarrow> choice" where
  "choose_rest cap ips c = fold (\<lambda>ip c. if cap \<le> length (fst c) then c else pick_pack cap ip c) ips c"

definition select_within_priority ::
  "indexed_pack list \<Rightarrow> changed_file list \<Rightarrow> nat \<Rightarrow> string list \<Rightarrow> nat list" where
  "select_within_priority ips files cap preferred_ids =
     (if length ips \<le> cap then map fst ips
      else
        let kinds = kinds_by_path files;
            ordered = sort_desc (\<lambda>ip. (cp_id (snd ip) \<in> set preferred_ids,
                        llm_pack_priority (snd ip) kinds (fst ip))) ips;
            groups = group_by (\<lambda>ip. cp_file (snd ip)) ordered;
            c1 = choose_breadth cap (initial_llm_breadth_budget cap (length groups)) groups ([], []);
            c2 = choose_new_files cap groups c1;
            c3 = choose_high_value cap ordered c2;
            c4 = choose_untouched_files cap groups c3;
            c5 = choose_rest cap ordered c4
        in sort (fst c5))"

subsection \<open>The pack cap\<close>

definition residual_band :: "(string \<times> string) list option \<Rightarrow> indexed_pack \<Rightarrow> string" where
  "residual_band priorities ip =
     pack_residual_priority (snd ip) (dict_get (case priorities of None \<Rightarrow> [] | Some d \<Rightarrow> d) (cp_id (snd ip)))"

definition select_band ::
  "(string \<times> string) list option \<Rightarrow> indexed_pack list \<Rightarrow> changed_file list \<Rightarrow> nat \<Rightarrow> string \<Rightarrow> nat list \<Rightarrow> nat list" where
  "select_band priorities ips files cap band chosen =
     (if cap \<le> length chosen then chosen
      else let packs = filter (\<lambda>ip. residual_band priorities ip = band) ips;
               preferred = map (\<lambda>ip. cp_id (snd ip)) (filter (\<lambda>ip.
                 dict_get (case priorities of None \<Rightarrow> [] | Some d \<Rightarrow> d) (cp_id (snd ip)) = Some band) packs)
           in chosen @ select_within_priority packs files (cap - length chosen) preferred)"

definition select_llm_context_pack_indexes ::
  "indexed_pack list \<Rightarrow> changed_file list \<Rightarrow> int option \<Rightarrow> (string \<times> string) list option \<Rightarrow> nat list" where
  "select_llm_context_pack_indexes ips files max_packs priorities =
     (case max_packs of
        None \<Rightarrow> map fst ips
      | Some m \<Rightarrow>
          if int (length ips) \<le> m then map fst ips
          else if m \<le> 0 then []
          else sort (fold (select_band priorities ips files (nat m)) [''p0'', ''p1'', ''p2''] []))"

definition select_llm_context_packs ::
  "context_pack list \<Rightarrow> changed_file list \<Rightarrow> int option \<Rightarrow> (string \<times> string) list option \<Rightarrow> context_pack list" where
  "select_llm_context_packs packs files max_packs priorities =
     map (\<lambda>i. packs ! i) (select_llm_context_pack_indexes (indexed packs) files max_packs priorities)"

subsection \<open>The token budget\<close>

definition pack_tokens ::
  "(review_depth \<Rightarrow> context_pack \<Rightarrow> int) \<Rightarrow> (context_pack \<Rightarrow> string option) \<Rightarrow> review_depth \<Rightarrow> context_pack \<Rightarrow> int" where
  "pack_tokens prompt_chars provider depth p =
     estimate_provider_input_tokens (prompt_chars depth p) (provider p)"

definition select_indexes_with_token_budget ::
  "(context_pack \<Rightarrow> int) \<Rightarrow> nat list \<Rightarrow> context_pack list \<Rightarrow> changed_file list \<Rightarrow> int option \<Rightarrow> nat list \<times> int" where
  "select_indexes_with_token_budget tokens candidates packs files budget =
     (if candidates = [] then ([], 0)
      else case budget of
          None \<Rightarrow> (candidates, sum_list (map (\<lambda>i. tokens (packs ! i)) candidates))
        | Some b \<Rightarrow>
            if b \<le> 0 then ([], 0)
            else
              let kinds = kinds_by_path files;
                  prioritized = sort_desc (\<lambda>i. llm_pack_priority (packs ! i) kinds i)
                    (filter (\<lambda>i. i \<in> set candidates) [0..<length packs])
              in take_within (\<lambda>i. tokens (packs ! i)) b 0 prioritized)"

subsection \<open>The plan\<close>

definition bounded_deep_cap :: "int option \<Rightarrow> int option \<Rightarrow> int option" where
  "bounded_deep_cap max_packs max_deep_packs =
     (case max_packs of None \<Rightarrow> max_deep_packs
      | Some m \<Rightarrow> (case max_deep_packs of None \<Rightarrow> Some m | Some d \<Rightarrow> Some (min m d)))"

definition over_limit :: "int option \<Rightarrow> int \<Rightarrow> bool" where
  "over_limit limit n \<longleftrightarrow> (case limit of None \<Rightarrow> False | Some m \<Rightarrow> m < n)"

record selection_stages =
  ss_deep_candidates :: "nat list"
  ss_deep :: "nat list"
  ss_deep_tokens :: int
  ss_shallow_candidates :: "nat list"
  ss_shallow_capped :: "nat list"
  ss_shallow :: "nat list"
  ss_shallow_tokens :: int
  ss_shallow_cap :: "int option"
  ss_left :: "int option"

definition deep_over_ids :: "int option \<Rightarrow> context_pack list \<Rightarrow> string list" where
  "deep_over_ids max_pack_chars packs =
     map cp_id (filter (\<lambda>p. over_limit max_pack_chars (st_estimated_chars (cp_stats p))) packs)"

definition shallow_over_ids ::
  "(context_pack \<Rightarrow> int) \<Rightarrow> llm_coverage_mode \<Rightarrow> int option \<Rightarrow> context_pack list \<Rightarrow> string list" where
  "shallow_over_ids payload_chars mode max_pack_chars packs =
     (if mode = CM_FAST then [] else map cp_id (filter (\<lambda>p. over_limit max_pack_chars (payload_chars p)) packs))"

text \<open>The two stages, on positions.\<close>

definition plan_stages ::
  "(context_pack \<Rightarrow> int) \<Rightarrow> (review_depth \<Rightarrow> context_pack \<Rightarrow> int) \<Rightarrow> (context_pack \<Rightarrow> string option)
     \<Rightarrow> context_pack list \<Rightarrow> changed_file list \<Rightarrow> int option \<Rightarrow> int option \<Rightarrow> int option \<Rightarrow> int option
     \<Rightarrow> llm_coverage_mode \<Rightarrow> (string \<times> string) list option \<Rightarrow> selection_stages" where
  "plan_stages payload_chars prompt_chars provider packs files max_packs max_deep_packs max_input_tokens
       max_pack_chars mode priorities =
     (let deep_over = deep_over_ids max_pack_chars packs;
          shallow_over = shallow_over_ids payload_chars mode max_pack_chars packs;
          deep_candidates = select_llm_context_pack_indexes
            (filter (\<lambda>ip. cp_id (snd ip) \<notin> set deep_over) (indexed packs)) files
            (bounded_deep_cap max_packs max_deep_packs) priorities;
          (deep, deep_tokens) = select_indexes_with_token_budget (pack_tokens prompt_chars provider RD_DEEP)
            deep_candidates packs files max_input_tokens;
          left = map_option (\<lambda>b. max 0 (b - deep_tokens)) max_input_tokens;
          shallow_candidates = (if mode = CM_FAST then [] else
            map fst (filter (\<lambda>ip. cp_id (snd ip) \<notin> set shallow_over \<and> fst ip \<notin> set deep) (indexed packs)));
          shallow_cap = map_option (\<lambda>m. max 0 (m - int (length deep))) max_packs;
          shallow_capped = (if mode = CM_FAST then [] else
            select_llm_context_pack_indexes (map (\<lambda>i. (i, packs ! i)) shallow_candidates) files shallow_cap priorities);
          (shallow, shallow_tokens) = (if mode = CM_FAST then ([], 0) else
            select_indexes_with_token_budget (pack_tokens prompt_chars provider RD_SHALLOW)
              shallow_capped packs files left)
      in \<lparr>ss_deep_candidates = deep_candidates, ss_deep = deep, ss_deep_tokens = deep_tokens,
          ss_shallow_candidates = shallow_candidates, ss_shallow_capped = shallow_capped,
          ss_shallow = shallow, ss_shallow_tokens = shallow_tokens,
          ss_shallow_cap = shallow_cap, ss_left = left\<rparr>)"

definition ids_at :: "context_pack list \<Rightarrow> nat list \<Rightarrow> string list" where
  "ids_at packs idx = map (\<lambda>i. cp_id (packs ! i)) idx"

definition plan_llm_context_selection ::
  "(context_pack \<Rightarrow> int) \<Rightarrow> (review_depth \<Rightarrow> context_pack \<Rightarrow> int) \<Rightarrow> (context_pack \<Rightarrow> string option)
     \<Rightarrow> context_pack list \<Rightarrow> changed_file list \<Rightarrow> int option \<Rightarrow> int option \<Rightarrow> int option \<Rightarrow> int option
     \<Rightarrow> llm_coverage_mode \<Rightarrow> (string \<times> string) list option \<Rightarrow> llm_context_selection" where
  "plan_llm_context_selection payload_chars prompt_chars provider packs files max_packs max_deep_packs
       max_input_tokens max_pack_chars mode priorities =
     (let st = plan_stages payload_chars prompt_chars provider packs files max_packs max_deep_packs
            max_input_tokens max_pack_chars mode priorities;
          deep_over = deep_over_ids max_pack_chars packs;
          effective_over = (if mode = CM_FAST then deep_over
            else filter (\<lambda>i. i \<in> set (shallow_over_ids payload_chars mode max_pack_chars packs)) deep_over);
          deep_ids = ids_at packs (sort (ss_deep st));
          shallow_ids = ids_at packs (sort (ss_shallow st));
          selected_ids = ids_at packs (sorted_set (ss_deep st @ ss_shallow st));
          total_ids = map cp_id packs;
          unselected_ids = filter (\<lambda>i. i \<notin> set selected_ids) total_ids;
          token_indexes = filter (\<lambda>i. i \<notin> set (ss_deep st)) (ss_deep_candidates st)
            @ filter (\<lambda>i. i \<notin> set (ss_shallow st)) (ss_shallow_capped st);
          token_ids = filter (\<lambda>i. i \<notin> set selected_ids) (ids_at packs token_indexes);
          deep_stage = \<lparr>sst_stage = ''deep'', sst_budget_packs = bounded_deep_cap max_packs max_deep_packs,
            sst_budget_tokens = max_input_tokens, sst_selected_estimated_tokens = ss_deep_tokens st,
            sst_selected_context_pack_ids = deep_ids,
            sst_unselected_context_pack_ids =
              ids_at packs (filter (\<lambda>i. i \<notin> set (ss_deep st)) (ss_deep_candidates st)),
            sst_reason = ''coverage-first deep context selection''\<rparr>;
          shallow_stage = \<lparr>sst_stage = ''shallow'', sst_budget_packs = ss_shallow_cap st,
            sst_budget_tokens = ss_left st, sst_selected_estimated_tokens = ss_shallow_tokens st,
            sst_selected_context_pack_ids = shallow_ids,
            sst_unselected_context_pack_ids =
              ids_at packs (filter (\<lambda>i. i \<notin> set (ss_shallow st)) (ss_shallow_candidates st)),
            sst_reason = ''compact breadth pass for reviewable packs not selected for deep review''\<rparr>
      in \<lparr>sel_total_context_pack_ids = total_ids,
          sel_selected_context_pack_ids = selected_ids,
          sel_deep_selected_context_pack_ids = deep_ids,
          sel_shallow_selected_context_pack_ids = shallow_ids,
          sel_unselected_context_pack_ids = unselected_ids,
          sel_over_budget_context_pack_ids = filter (\<lambda>i. i \<in> set effective_over \<and> i \<notin> set selected_ids) total_ids,
          sel_over_token_budget_context_pack_ids = filter (\<lambda>i. i \<in> set token_ids) total_ids,
          sel_skipped_context_pack_reasons = dict_of id (\<lambda>i.
            if i \<in> set effective_over then ''over context budget''
            else if i \<in> set token_ids then ''not selected by LLM token budget''
            else ''not selected by LLM pack cap'') unselected_ids,
          sel_stages = (if mode = CM_FAST then [deep_stage] else [deep_stage, shallow_stage])\<rparr>)"

subsection \<open>Continuing a review\<close>

definition select_continuation_context_packs ::
  "review_report \<Rightarrow> string list option \<Rightarrow> string list option \<Rightarrow> string list option \<Rightarrow> bool \<Rightarrow> context_pack list" where
  "select_continuation_context_packs rep residual_priorities slices pack_ids only_unreviewed =
     (let status_by_id = dict_of prs_context_pack_id id (cov_pack_statuses (rep_llm_coverage rep));
          unreviewed = cov_unreviewed_context_pack_ids (rep_llm_coverage rep)
      in filter (\<lambda>p.
           let status = dict_get status_by_id (cp_id p) in
           \<not> (only_unreviewed \<and> cp_id p \<notin> set unreviewed)
           \<and> (case pack_ids of None \<Rightarrow> True | Some ids \<Rightarrow> cp_id p \<in> set ids)
           \<and> (case residual_priorities of None \<Rightarrow> True | Some ps \<Rightarrow>
                pack_residual_priority p (case status of None \<Rightarrow> None | Some s \<Rightarrow> prs_priority s) \<in> set ps)
           \<and> (case slices of None \<Rightarrow> True | Some ss \<Rightarrow>
                (case status of Some s \<Rightarrow> prs_slice s | None \<Rightarrow> pack_review_slice p) \<in> set ss))
         (rep_context_packs rep))"

definition merge_continuation_selection ::
  "llm_context_selection option \<Rightarrow> context_pack list \<Rightarrow> context_pack list \<Rightarrow> review_depth \<Rightarrow> llm_context_selection" where
  "merge_continuation_selection existing packs selected_packs depth =
     (let selected_ids = map cp_id selected_packs;
          total_ids = map cp_id packs;
          ex = (case existing of Some e \<Rightarrow> e
                | None \<Rightarrow> default_llm_context_selection\<lparr>sel_total_context_pack_ids := total_ids\<rparr>);
          selected = set (sel_selected_context_pack_ids ex) \<union> set selected_ids;
          deep = (if depth = RD_DEEP then set (sel_deep_selected_context_pack_ids ex) \<union> set selected_ids
                  else set (sel_deep_selected_context_pack_ids ex));
          shallow = (if depth = RD_DEEP then set (sel_shallow_selected_context_pack_ids ex) - set selected_ids
                     else set (sel_shallow_selected_context_pack_ids ex) \<union> set selected_ids);
          unselected = filter (\<lambda>i. i \<notin> selected) total_ids
      in \<lparr>sel_total_context_pack_ids = total_ids,
          sel_selected_context_pack_ids = filter (\<lambda>i. i \<in> selected) total_ids,
          sel_deep_selected_context_pack_ids = filter (\<lambda>i. i \<in> deep) total_ids,
          sel_shallow_selected_context_pack_ids = filter (\<lambda>i. i \<in> shallow) total_ids,
          sel_unselected_context_pack_ids = unselected,
          sel_over_budget_context_pack_ids =
            filter (\<lambda>i. i \<in> set unselected) (sel_over_budget_context_pack_ids ex),
          sel_over_token_budget_context_pack_ids =
            filter (\<lambda>i. i \<in> set unselected) (sel_over_token_budget_context_pack_ids ex),
          sel_skipped_context_pack_reasons =
            filter (\<lambda>(i, r). i \<in> set unselected) (sel_skipped_context_pack_reasons ex),
          sel_stages = sel_stages ex @ [\<lparr>sst_stage = ''continue_'' @ review_depth_value depth,
            sst_budget_packs = None, sst_budget_tokens = None, sst_selected_estimated_tokens = 0,
            sst_selected_context_pack_ids = selected_ids, sst_unselected_context_pack_ids = [],
            sst_reason = ''user-requested continuation pass over previously unreviewed context packs''\<rparr>]\<rparr>)"

subsection \<open>The pack cap is used up exactly\<close>

text \<open>A choice of at most so many distinct positions out of a set.\<close>

definition choice_ok :: "nat \<Rightarrow> nat set \<Rightarrow> choice \<Rightarrow> bool" where
  "choice_ok cap P c \<longleftrightarrow> distinct (fst c) \<and> set (fst c) \<subseteq> P \<and> length (fst c) \<le> cap"

lemma pick_pack_ok: "\<lbrakk>choice_ok cap P c; fst ip \<in> P\<rbrakk> \<Longrightarrow> choice_ok cap P (pick_pack cap ip c)"
  by (auto simp: choice_ok_def pick_pack_def)

lemma group_by_members: "(k, ps) \<in> set (group_by key xs) \<Longrightarrow> set ps \<subseteq> set xs"
  by (auto simp: group_by_def)

lemma find_member: "find p xs = Some x \<Longrightarrow> x \<in> set xs"
  using find_SomeD by fast

lemma fold_groups_ok:
  assumes "choice_ok cap P c"
    and "\<And>k ps c. (k, ps) \<in> set gs \<Longrightarrow> choice_ok cap P c \<Longrightarrow> choice_ok cap P (f k ps c)"
  shows "choice_ok cap P (fold (case_prod f) gs c)"
  using assms
proof (induction gs arbitrary: c)
  case (Cons g gs)
  obtain k ps where g: "g = (k, ps)" by force
  show ?case
    using Cons.IH [of "f k ps c"] Cons.prems by (simp add: g)
qed simp

lemma choose_breadth_ok:
  assumes "choice_ok cap P c" and "\<And>k ps. (k, ps) \<in> set gs \<Longrightarrow> fst ` set ps \<subseteq> P"
  shows "choice_ok cap P (choose_breadth cap b gs c)"
  unfolding choose_breadth_def
proof (rule fold_groups_ok [OF assms(1)])
  fix k ps c
  assume "(k, ps) \<in> set gs" "choice_ok cap P c"
  with assms(2) [of k ps] show "choice_ok cap P (if b \<le> length (fst c) then c
      else case ps of [] \<Rightarrow> c | ip # _ \<Rightarrow> pick_pack cap ip c)"
    by (cases ps) (simp_all add: pick_pack_ok)
qed

lemma choose_new_files_ok:
  assumes "choice_ok cap P c" and "\<And>k ps. (k, ps) \<in> set gs \<Longrightarrow> fst ` set ps \<subseteq> P"
  shows "choice_ok cap P (choose_new_files cap gs c)"
  unfolding choose_new_files_def
proof (rule fold_groups_ok [OF assms(1)])
  fix k ps c
  assume "(k, ps) \<in> set gs" and c: "choice_ok cap P c"
  then have sub: "fst ` set ps \<subseteq> P" using assms(2) by blast
  show "choice_ok cap P (if cap \<le> length (fst c) then c else if k \<in> set (snd c) then c
      else case find (\<lambda>ip. is_high_value_extra_pack (snd ip)) ps of None \<Rightarrow> c | Some ip \<Rightarrow> pick_pack cap ip c)"
    using c sub find_member [of "\<lambda>ip. is_high_value_extra_pack (snd ip)" ps]
    by (cases "find (\<lambda>ip. is_high_value_extra_pack (snd ip)) ps") (simp_all add: pick_pack_ok image_subset_iff)
qed

lemma choose_untouched_files_ok:
  assumes "choice_ok cap P c" and "\<And>k ps. (k, ps) \<in> set gs \<Longrightarrow> fst ` set ps \<subseteq> P"
  shows "choice_ok cap P (choose_untouched_files cap gs c)"
  unfolding choose_untouched_files_def
proof (rule fold_groups_ok [OF assms(1)])
  fix k ps c
  assume "(k, ps) \<in> set gs" "choice_ok cap P c"
  with assms(2) [of k ps] show "choice_ok cap P (if cap \<le> length (fst c) then c
      else case ps of [] \<Rightarrow> c
       | ip # _ \<Rightarrow> if list_ex (\<lambda>q. fst q \<in> set (fst c)) ps then c else pick_pack cap ip c)"
    by (cases ps) (simp_all add: pick_pack_ok)
qed

lemma choose_high_value_ok:
  "\<lbrakk>choice_ok cap P c; fst ` set ips \<subseteq> P\<rbrakk> \<Longrightarrow> choice_ok cap P (choose_high_value cap ips c)"
  unfolding choose_high_value_def
  by (rule fold_inv [where P = "choice_ok cap P"]) (auto intro: pick_pack_ok)

lemma choose_rest_ok:
  "\<lbrakk>choice_ok cap P c; fst ` set ips \<subseteq> P\<rbrakk> \<Longrightarrow> choice_ok cap P (choose_rest cap ips c)"
  unfolding choose_rest_def
  by (rule fold_inv [where P = "choice_ok cap P"]) (auto intro: pick_pack_ok)

text \<open>The last loop fills the choice: it ends full or with every position in it.\<close>

lemma choose_rest_grows:
  "set (fst c) \<subseteq> set (fst (choose_rest cap ips c)) \<and> length (fst c) \<le> length (fst (choose_rest cap ips c))"
proof (induction ips arbitrary: c)
  case (Cons ip ips)
  have "set (fst c) \<subseteq> set (fst (pick_pack cap ip c)) \<and> length (fst c) \<le> length (fst (pick_pack cap ip c))"
    by (auto simp: pick_pack_def)
  with Cons.IH [of c] Cons.IH [of "pick_pack cap ip c"] show ?case
    by (fastforce simp: choose_rest_def)
qed (simp add: choose_rest_def)

lemma choose_rest_fills:
  "cap \<le> length (fst (choose_rest cap ips c)) \<or> fst ` set ips \<subseteq> set (fst (choose_rest cap ips c))"
proof (induction ips arbitrary: c)
  case (Cons ip ips)
  have step: "choose_rest cap (ip # ips) c =
      choose_rest cap ips (if cap \<le> length (fst c) then c else pick_pack cap ip c)"
    by (simp add: choose_rest_def)
  show ?case
  proof (cases "cap \<le> length (fst c)")
    case True
    with choose_rest_grows [of c cap ips] show ?thesis by (simp add: step)
  next
    case False
    then have "fst ip \<in> set (fst (pick_pack cap ip c))" by (auto simp: pick_pack_def)
    with choose_rest_grows [of "pick_pack cap ip c" cap ips] Cons.IH [of "pick_pack cap ip c"] False show ?thesis
      by (auto simp: step)
  qed
qed simp

text \<open>What a selection out of a list of positions must be.\<close>

definition selection_of :: "nat \<Rightarrow> indexed_pack list \<Rightarrow> nat list \<Rightarrow> bool" where
  "selection_of cap ips s \<longleftrightarrow> distinct s \<and> set s \<subseteq> fst ` set ips \<and> length s = min cap (length ips)"

lemma select_within_priority_spec:
  assumes "distinct (map fst ips)"
  shows "selection_of cap ips (select_within_priority ips files cap preferred)"
proof (cases "length ips \<le> cap")
  case True
  with assms show ?thesis by (simp add: select_within_priority_def selection_of_def)
next
  case False
  let ?key = "\<lambda>ip. (cp_id (snd ip) \<in> set preferred, llm_pack_priority (snd ip) (kinds_by_path files) (fst ip))"
  let ?ord = "sort_desc ?key ips"
  let ?gs = "group_by (\<lambda>ip. cp_file (snd ip)) ?ord"
  let ?P = "fst ` set ips"
  let ?c4 = "choose_untouched_files cap ?gs (choose_high_value cap ?ord (choose_new_files cap ?gs
      (choose_breadth cap (initial_llm_breadth_budget cap (length ?gs)) ?gs ([], []))))"
  let ?c5 = "choose_rest cap ?ord ?c4"
  have groups: "fst ` set ps \<subseteq> ?P" if "(k, ps) \<in> set ?gs" for k ps
    using group_by_members [OF that] by auto
  have c0: "choice_ok cap ?P ([], [])" by (simp add: choice_ok_def)
  have c1: "choice_ok cap ?P (choose_breadth cap n ?gs ([], []))" for n
    by (rule choose_breadth_ok [OF c0 groups])
  have c2: "choice_ok cap ?P (choose_new_files cap ?gs (choose_breadth cap n ?gs ([], [])))" for n
    by (rule choose_new_files_ok [OF c1 groups])
  have c3: "choice_ok cap ?P (choose_high_value cap ?ord (choose_new_files cap ?gs (choose_breadth cap n ?gs ([], []))))" for n
    by (rule choose_high_value_ok [OF c2]) simp
  have "choice_ok cap ?P ?c4"
    by (rule choose_untouched_files_ok [OF c3 groups])
  then have ok: "choice_ok cap ?P ?c5" by (rule choose_rest_ok) simp
  have "length (fst ?c5) = min cap (length ips)"
  proof (rule ccontr)
    assume "length (fst ?c5) \<noteq> min cap (length ips)"
    with ok False have less: "length (fst ?c5) < cap" by (simp add: choice_ok_def)
    then have "?P \<subseteq> set (fst ?c5)" using choose_rest_fills [of cap ?ord ?c4] by simp
    then have "card ?P \<le> length (fst ?c5)" by (meson card_length card_mono finite_set le_trans)
    moreover have "card ?P = length ips" using assms by (metis distinct_card length_map set_map)
    ultimately show False using less False by simp
  qed
  with ok False show ?thesis
    by (simp add: select_within_priority_def selection_of_def choice_ok_def Let_def)
qed

text \<open>The bands of a list of packs are disjoint and cover it.\<close>

definition in_band :: "(string \<times> string) list option \<Rightarrow> indexed_pack list \<Rightarrow> string \<Rightarrow> indexed_pack list" where
  "in_band prs ips b = filter (\<lambda>ip. residual_band prs ip = b) ips"

lemma residual_band_values: "residual_band prs ip \<in> {''p0'', ''p1'', ''p2''}"
  using pack_residual_priority_values [of "snd ip"] by (simp add: residual_band_def)

lemma bands_cover:
  "length ips = length (in_band prs ips ''p0'') + length (in_band prs ips ''p1'') + length (in_band prs ips ''p2'')"
  using residual_band_values [of prs] by (induction ips) (fastforce simp: in_band_def)+

lemma select_band_spec:
  assumes "distinct (map fst ips)" and "distinct chosen" and "length chosen \<le> cap"
    and "set chosen \<inter> fst ` set (in_band prs ips b) = {}"
  shows "\<exists>s. select_band prs ips files cap b chosen = chosen @ s
    \<and> selection_of (cap - length chosen) (in_band prs ips b) s"
proof (cases "cap \<le> length chosen")
  case True
  then show ?thesis using assms(3) by (intro exI [of _ "[]"]) (simp add: select_band_def selection_of_def)
next
  case False
  have "distinct (map fst (in_band prs ips b))"
    using assms(1) by (simp add: in_band_def distinct_map_filter)
  from select_within_priority_spec [OF this] False show ?thesis
    by (simp add: select_band_def Let_def flip: in_band_def)
qed

end
