(* ===== verification/Selection_Limits.thy ===== *)
theory Selection_Limits
  imports Selection
begin

section \<open>What a selection promises\<close>

text \<open>
  The limits that \<open>src/apex_ray/pipeline/selection.py\<close> works under: the pack cap is used up exactly
  and in the order of the bands, the token budget is never exceeded and left unused only where no
  candidate fits, and the plan of a deep and a shallow stage splits the packs without overlap.
\<close>

subsection \<open>The cap, band by band\<close>

lemma selection_ofD:
  assumes "selection_of cap ips s"
  shows "distinct s" "set s \<subseteq> fst ` set ips" "length s = min cap (length ips)"
  using assms by (simp_all add: selection_of_def)

lemma in_band_disjoint:
  assumes "distinct (map fst ips)" "b \<noteq> c"
  shows "fst ` set (in_band prs ips b) \<inter> fst ` set (in_band prs ips c) = {}"
proof -
  have "inj_on fst (set ips)" using assms(1) by (simp add: distinct_map)
  then have "fst ` set (in_band prs ips b) \<inter> fst ` set (in_band prs ips c)
      = fst ` (set (in_band prs ips b) \<inter> set (in_band prs ips c))"
    by (rule inj_on_image_Int [symmetric]) (simp_all add: in_band_def)
  also have "set (in_band prs ips b) \<inter> set (in_band prs ips c) = {}"
    using assms(2) by (auto simp: in_band_def)
  finally show ?thesis by simp
qed

lemma in_band_subset: "fst ` set (in_band prs ips b) \<subseteq> fst ` set ips"
  by (auto simp: in_band_def)

lemma bands_split:
  assumes "distinct (map fst ips)"
  shows "\<exists>s0 s1 s2. fold (select_band prs ips files cap) [''p0'', ''p1'', ''p2''] [] = s0 @ s1 @ s2
    \<and> selection_of cap (in_band prs ips ''p0'') s0
    \<and> selection_of (cap - length s0) (in_band prs ips ''p1'') s1
    \<and> selection_of (cap - length s0 - length s1) (in_band prs ips ''p2'') s2"
proof -
  note disj = in_band_disjoint [OF assms]
  obtain s0 where s0: "select_band prs ips files cap ''p0'' [] = s0"
    "selection_of cap (in_band prs ips ''p0'') s0"
    using select_band_spec [OF assms, of "[]" cap prs "''p0''" files] by auto
  note d0 = selection_ofD [OF s0(2)]
  have "set s0 \<inter> fst ` set (in_band prs ips ''p1'') = {}"
    using d0(2) disj [of "''p0''" "''p1''" prs] by auto
  then obtain s1 where s1: "select_band prs ips files cap ''p1'' s0 = s0 @ s1"
    "selection_of (cap - length s0) (in_band prs ips ''p1'') s1"
    using select_band_spec [OF assms d0(1), of cap prs "''p1''" files] d0(3) by auto
  note d1 = selection_ofD [OF s1(2)]
  have "set (s0 @ s1) \<inter> fst ` set (in_band prs ips ''p2'') = {}"
    using d0(2) d1(2) disj [of "''p0''" "''p2''" prs] disj [of "''p1''" "''p2''" prs] by auto
  moreover have "distinct (s0 @ s1)"
    using d0(1,2) d1(1,2) disj [of "''p0''" "''p1''" prs] by auto
  moreover have "length (s0 @ s1) \<le> cap" using d0(3) d1(3) by simp
  ultimately obtain s2 where "select_band prs ips files cap ''p2'' (s0 @ s1) = (s0 @ s1) @ s2"
    "selection_of (cap - length (s0 @ s1)) (in_band prs ips ''p2'') s2"
    using select_band_spec [OF assms, of "s0 @ s1" cap prs "''p2''" files] by blast
  with s0 s1 show ?thesis by auto
qed

text \<open>How many of the chosen positions lie in a band.\<close>

definition chosen_in_band ::
  "(string \<times> string) list option \<Rightarrow> indexed_pack list \<Rightarrow> string \<Rightarrow> nat list \<Rightarrow> nat" where
  "chosen_in_band prs ips b s = length (filter (\<lambda>i. i \<in> fst ` set (in_band prs ips b)) s)"

lemma chosen_in_band_sort [simp]: "chosen_in_band prs ips b (sort s) = chosen_in_band prs ips b s"
proof -
  have "mset (filter P (sort s)) = mset (filter P s)" for P :: "nat \<Rightarrow> bool"
    by simp
  then show ?thesis unfolding chosen_in_band_def by (metis mset_eq_length)
qed

lemma chosen_in_band_append [simp]:
  "chosen_in_band prs ips b (s @ t) = chosen_in_band prs ips b s + chosen_in_band prs ips b t"
  by (simp add: chosen_in_band_def)

lemma chosen_in_band_selection:
  assumes "distinct (map fst ips)" "selection_of n (in_band prs ips c) s"
  shows "chosen_in_band prs ips b s = (if b = c then length s else 0)"
proof (cases "b = c")
  case True
  then show ?thesis using selection_ofD(2) [OF assms(2)]
    by (auto simp: chosen_in_band_def intro!: arg_cong [where f = length] filter_True)
next
  case False
  have "i \<notin> fst ` set (in_band prs ips b)" if "i \<in> set s" for i
    using that selection_ofD(2) [OF assms(2)] in_band_disjoint [OF assms(1) False, of prs] by blast
  then have "filter (\<lambda>i. i \<in> fst ` set (in_band prs ips b)) s = []" by (simp add: filter_empty_conv)
  with False show ?thesis by (simp add: chosen_in_band_def)
qed

lemma chosen_in_band_all:
  assumes "distinct (map fst ips)"
  shows "chosen_in_band prs ips b (map fst ips) = length (in_band prs ips b)"
proof -
  have "filter (\<lambda>i. i \<in> fst ` set (in_band prs ips b)) (map fst ips) = map fst (in_band prs ips b)"
  proof -
    have "fst x \<in> fst ` set (in_band prs ips b) \<longleftrightarrow> residual_band prs x = b" if "x \<in> set ips" for x
    proof
      assume "fst x \<in> fst ` set (in_band prs ips b)"
      then obtain y where y: "y \<in> set ips" "residual_band prs y = b" "fst x = fst y"
        by (auto simp: in_band_def)
      then have "x = y" using assms that by (meson distinct_map inj_onD)
      with y show "residual_band prs x = b" by simp
    next
      assume "residual_band prs x = b"
      with that show "fst x \<in> fst ` set (in_band prs ips b)" by (simp add: in_band_def)
    qed
    then have "filter (\<lambda>x. fst x \<in> fst ` set (in_band prs ips b)) ips = in_band prs ips b"
      unfolding in_band_def by (intro filter_cong) (simp_all add: in_band_def)
    then show ?thesis by (simp add: filter_map comp_def)
  qed
  then show ?thesis by (simp add: chosen_in_band_def)
qed

text \<open>The abstract contract: the cap is filled band by band.\<close>

definition fills_bands ::
  "nat \<Rightarrow> (string \<times> string) list option \<Rightarrow> indexed_pack list \<Rightarrow> nat list \<Rightarrow> bool" where
  "fills_bands cap prs ips s \<longleftrightarrow>
     (let n = \<lambda>b. length (in_band prs ips b) in
       distinct s \<and> set s \<subseteq> fst ` set ips \<and> length s = min cap (length ips)
       \<and> chosen_in_band prs ips ''p0'' s = min cap (n ''p0'')
       \<and> chosen_in_band prs ips ''p1'' s = min (cap - n ''p0'') (n ''p1'')
       \<and> chosen_in_band prs ips ''p2'' s = min (cap - n ''p0'' - n ''p1'') (n ''p2''))"

lemma select_bands_fills:
  assumes "distinct (map fst ips)"
  shows "fills_bands cap prs ips (sort (fold (select_band prs ips files cap) [''p0'', ''p1'', ''p2''] []))"
proof -
  obtain s0 s1 s2 where eq: "fold (select_band prs ips files cap) [''p0'', ''p1'', ''p2''] [] = s0 @ s1 @ s2"
    and s0: "selection_of cap (in_band prs ips ''p0'') s0"
    and s1: "selection_of (cap - length s0) (in_band prs ips ''p1'') s1"
    and s2: "selection_of (cap - length s0 - length s1) (in_band prs ips ''p2'') s2"
    using bands_split [OF assms] by blast
  note d0 = selection_ofD [OF s0] and d1 = selection_ofD [OF s1] and d2 = selection_ofD [OF s2]
  note disj = in_band_disjoint [OF assms]
  have dist: "distinct (s0 @ s1 @ s2)"
    using d0(1,2) d1(1,2) d2(1,2) disj [of "''p0''" "''p1''" prs] disj [of "''p0''" "''p2''" prs]
      disj [of "''p1''" "''p2''" prs] by auto
  have sub: "set (s0 @ s1 @ s2) \<subseteq> fst ` set ips"
    using d0(2) [THEN subset_trans, OF in_band_subset] d1(2) [THEN subset_trans, OF in_band_subset]
      d2(2) [THEN subset_trans, OF in_band_subset] by simp
  note counts = chosen_in_band_selection [OF assms s0] chosen_in_band_selection [OF assms s1]
    chosen_in_band_selection [OF assms s2]
  have len: "length (s0 @ s1 @ s2) = min cap (length ips)"
    using d0(3) d1(3) d2(3) bands_cover [of ips prs] unfolding length_append by arith
  have n1: "length s1 = min (cap - length (in_band prs ips ''p0'')) (length (in_band prs ips ''p1''))"
    using d0(3) d1(3) by arith
  have n2: "length s2 = min (cap - length (in_band prs ips ''p0'') - length (in_band prs ips ''p1''))
      (length (in_band prs ips ''p2''))"
    using d0(3) d1(3) d2(3) by arith
  have "chosen_in_band prs ips ''p0'' (s0 @ s1 @ s2) = length s0"
    "chosen_in_band prs ips ''p1'' (s0 @ s1 @ s2) = length s1"
    "chosen_in_band prs ips ''p2'' (s0 @ s1 @ s2) = length s2"
    by (simp_all add: counts)
  then show ?thesis
    unfolding eq fills_bands_def Let_def chosen_in_band_sort set_sort length_sort distinct_sort
    by (simp only: dist sub len d0(3) n1 n2 simp_thms)
qed

lemma select_indexes_fills:
  assumes "distinct (map fst ips)"
  shows "fills_bands (nat m) prs ips (select_llm_context_pack_indexes ips files (Some m) prs)"
proof -
  have "fills_bands (nat m) prs ips (map fst ips)" if "int (length ips) \<le> m"
    unfolding fills_bands_def Let_def
    using that assms bands_cover [of ips prs] by (simp add: chosen_in_band_all)
  moreover have "fills_bands (nat m) prs ips []" if "m \<le> 0"
    using that by (simp add: fills_bands_def chosen_in_band_def Let_def)
  ultimately show ?thesis
    using select_bands_fills [OF assms, of "nat m" prs files]
    by (simp add: select_llm_context_pack_indexes_def)
qed

lemma select_indexes_distinct_subset:
  assumes "distinct (map fst ips)"
  shows "distinct (select_llm_context_pack_indexes ips files mp prs)
    \<and> set (select_llm_context_pack_indexes ips files mp prs) \<subseteq> fst ` set ips"
  using select_indexes_fills [OF assms, of _ prs files] assms
  by (cases mp) (simp_all add: fills_bands_def Let_def, simp add: select_llm_context_pack_indexes_def)

text \<open>C28: under a cap, the choice has distinct positions in increasing order, exactly as many as
  the cap allows, and it fills the bands in order: a \<open>p1\<close> pack is chosen only when every \<open>p0\<close>
  pack is, a \<open>p2\<close> pack only when every \<open>p0\<close> and \<open>p1\<close> pack is.\<close>

theorem pack_cap_fills_bands:
  "fills_bands (nat m) priorities (indexed packs)
     (select_llm_context_pack_indexes (indexed packs) files (Some m) priorities)
   \<and> sorted (select_llm_context_pack_indexes (indexed packs) files (Some m) priorities)
   \<and> length (select_llm_context_packs packs files (Some m) priorities) = min (nat m) (length packs)"
proof -
  let ?s = "select_llm_context_pack_indexes (indexed packs) files (Some m) priorities"
  have fills: "fills_bands (nat m) priorities (indexed packs) ?s"
    by (rule select_indexes_fills) simp
  moreover have "sorted ?s" by (simp add: select_llm_context_pack_indexes_def)
  moreover have "length (select_llm_context_packs packs files (Some m) priorities) = min (nat m) (length packs)"
    using fills by (simp add: fills_bands_def select_llm_context_packs_def Let_def)
  ultimately show ?thesis by blast
qed

subsection \<open>The token budget\<close>

interpretation token_cost: priced "\<lambda>i. pack_tokens prompt_chars provider depth (packs ! i)"
  for prompt_chars provider depth packs
  by unfold_locales (simp add: pack_tokens_def estimate_provider_nonneg)

definition tokens_of ::
  "(review_depth \<Rightarrow> context_pack \<Rightarrow> int) \<Rightarrow> (context_pack \<Rightarrow> string option) \<Rightarrow> review_depth
     \<Rightarrow> context_pack list \<Rightarrow> nat list \<Rightarrow> int" where
  "tokens_of prompt_chars provider depth packs s =
     sum_list (map (\<lambda>i. pack_tokens prompt_chars provider depth (packs ! i)) s)"

lemma subseq_set: "subseq xs ys \<Longrightarrow> set xs \<subseteq> set ys"
  by (auto simp: subseq_conv_nths dest: in_set_nthsD)

lemma token_budget_basics:
  assumes "distinct candidates" "set candidates \<subseteq> {..<length packs}"
    and "select_indexes_with_token_budget (pack_tokens prompt_chars provider depth) candidates packs files budget = (s, used)"
  shows "distinct s" "set s \<subseteq> set candidates" "used = tokens_of prompt_chars provider depth packs s"
    "budget = Some b \<Longrightarrow> used \<le> max 0 b"
    "\<lbrakk>budget = Some b; 0 < b; i \<in> set candidates; i \<notin> set s\<rbrakk> \<Longrightarrow>
       b < used + pack_tokens prompt_chars provider depth (packs ! i)"
proof -
  let ?cost = "\<lambda>i. pack_tokens prompt_chars provider depth (packs ! i)"
  let ?prio = "sort_desc (\<lambda>i. llm_pack_priority (packs ! i) (kinds_by_path files) i)
      (filter (\<lambda>i. i \<in> set candidates) [0..<length packs])"
  have set_prio: "set ?prio = set candidates" using assms(2) by auto
  have "distinct (map id ?prio)" unfolding distinct_sort_desc by simp
  then have dist_prio: "distinct ?prio" by simp
  consider "candidates = []" "s = []" "used = 0"
    | "budget = None" "s = candidates" "used = tokens_of prompt_chars provider depth packs s"
    | b where "budget = Some b" "b \<le> 0" "s = []" "used = 0"
    | b where "candidates \<noteq> []" "budget = Some b" "0 < b" "(s, used) = take_within ?cost b 0 ?prio"
    using assms(3) by (auto simp: select_indexes_with_token_budget_def tokens_of_def Let_def
        split: if_splits option.splits)
  note cases = this
  have sub: "subseq (fst (take_within ?cost b 0 ?prio)) ?prio" for b
    by (rule token_cost.chosen_subseq)
  have chosen: "distinct (fst (take_within ?cost b 0 ?prio)) \<and> set (fst (take_within ?cost b 0 ?prio)) \<subseteq> set candidates" for b
    using subseq_distinct [OF sub dist_prio] subseq_set [OF sub] set_prio by blast
  have spent: "snd (take_within ?cost b 0 ?prio) = tokens_of prompt_chars provider depth packs (fst (take_within ?cost b 0 ?prio))" for b
    unfolding tokens_of_def using token_cost.spent [of prompt_chars provider depth packs b 0 ?prio] by simp
  have within: "snd (take_within ?cost b 0 ?prio) \<le> b" if "0 < b" for b
    by (rule token_cost.within) (use that in simp)
  have full: "b < snd (take_within ?cost b 0 ?prio) + ?cost i"
    if "i \<in> set candidates" "i \<notin> set (fst (take_within ?cost b 0 ?prio))" for b i
    by (rule token_cost.left_out_does_not_fit) (use that set_prio in blast)+
  have "distinct s \<and> set s \<subseteq> set candidates \<and> used = tokens_of prompt_chars provider depth packs s
    \<and> (\<forall>b. budget = Some b \<longrightarrow> used \<le> max 0 b)
    \<and> (\<forall>b i. budget = Some b \<longrightarrow> 0 < b \<longrightarrow> i \<in> set candidates \<longrightarrow> i \<notin> set s \<longrightarrow> b < used + ?cost i)"
    using cases
  proof cases
    case (4 b)
    then have s: "s = fst (take_within ?cost b 0 ?prio)" and u: "used = snd (take_within ?cost b 0 ?prio)"
      by (metis fst_conv, metis snd_conv)
    have "used \<le> max 0 b" unfolding u using within [OF 4(3)] by linarith
    moreover have "b < used + ?cost i" if "i \<in> set candidates" "i \<notin> set s" for i
      unfolding u by (rule full) (use that s in simp_all)
    moreover have "used = tokens_of prompt_chars provider depth packs s" unfolding u s by (rule spent)
    moreover have "distinct s \<and> set s \<subseteq> set candidates" unfolding s by (rule chosen)
    ultimately show ?thesis using 4(2) by (metis option.inject)
  qed (use assms(1) in \<open>simp_all add: tokens_of_def\<close>)
  then show "distinct s" "set s \<subseteq> set candidates" "used = tokens_of prompt_chars provider depth packs s"
    "budget = Some b \<Longrightarrow> used \<le> max 0 b"
    "\<lbrakk>budget = Some b; 0 < b; i \<in> set candidates; i \<notin> set s\<rbrakk> \<Longrightarrow> b < used + ?cost i"
    by blast+
qed

text \<open>C31: under a token budget, what is chosen is the sum that is reported and never exceeds the
  budget, no candidate is left out that would still fit, and without a budget every candidate is
  chosen.\<close>

theorem token_budget_respected:
  assumes "set candidates \<subseteq> {..<length packs}" and "distinct candidates"
  shows "let r = select_indexes_with_token_budget (pack_tokens prompt_chars provider depth) candidates packs files
    in set (fst (r budget)) \<subseteq> set candidates \<and> distinct (fst (r budget))
      \<and> snd (r budget) = tokens_of prompt_chars provider depth packs (fst (r budget))
      \<and> snd (r (Some b)) \<le> max 0 b
      \<and> (i \<in> set candidates - set (fst (r (Some (1 + int n)))) \<longrightarrow>
           1 + int n < snd (r (Some (1 + int n))) + pack_tokens prompt_chars provider depth (packs ! i))
      \<and> fst (r None) = candidates"
proof -
  let ?r = "select_indexes_with_token_budget (pack_tokens prompt_chars provider depth) candidates packs files"
  note basics = token_budget_basics [where prompt_chars = prompt_chars and provider = provider and depth = depth
      and files = files, OF assms(2,1) prod.collapse [symmetric]]
  have "fst (?r None) = candidates" by (simp add: select_indexes_with_token_budget_def)
  moreover have "1 + int n < snd (?r (Some (1 + int n))) + pack_tokens prompt_chars provider depth (packs ! i)"
    if "i \<in> set candidates - set (fst (?r (Some (1 + int n))))"
    using that by (intro basics(5)) simp_all
  ultimately show ?thesis
    using basics(1,2,3) [of budget] basics(4) [of "Some b", OF refl] unfolding Let_def by blast
qed

subsection \<open>The plan of the two stages\<close>

lemma deep_candidates_indexes:
  "distinct (select_llm_context_pack_indexes (filter P (indexed packs)) files mp prs)
   \<and> set (select_llm_context_pack_indexes (filter P (indexed packs)) files mp prs) \<subseteq> {i. i < length packs \<and> P (i, packs ! i)}"
proof -
  have "distinct (map fst (filter P (indexed packs)))"
    by (rule distinct_map_filter) simp
  from select_indexes_distinct_subset [OF this, of files mp prs] show ?thesis
    by (auto simp: set_indexed)
qed

lemma select_indexes_length:
  assumes "distinct (map fst ips)"
  shows "length (select_llm_context_pack_indexes ips files (Some m) prs) \<le> nat m"
  using select_indexes_fills [OF assms, of m prs files] by (simp add: fills_bands_def Let_def)

lemma subset_length: "\<lbrakk>distinct s; set s \<subseteq> set t\<rbrakk> \<Longrightarrow> length s \<le> length t"
  by (metis card_length card_mono distinct_card finite_set le_trans)

text \<open>What the two stages of a plan satisfy, on positions.\<close>

lemma plan_stages_ok:
  fixes payload_chars prompt_chars provider packs files max_packs max_deep_packs max_input_tokens
    max_pack_chars mode priorities
  defines "st \<equiv> plan_stages payload_chars prompt_chars provider packs files max_packs max_deep_packs
    max_input_tokens max_pack_chars mode priorities"
  shows "distinct (ss_deep st) \<and> distinct (ss_shallow st)
    \<and> set (ss_deep st) \<subseteq> {i. i < length packs \<and> cp_id (packs ! i) \<notin> set (deep_over_ids max_pack_chars packs)}
    \<and> set (ss_shallow st) \<subseteq> {i. i < length packs
         \<and> cp_id (packs ! i) \<notin> set (shallow_over_ids payload_chars mode max_pack_chars packs)} - set (ss_deep st)
    \<and> (\<forall>m. max_packs = Some m \<longrightarrow> int (length (ss_deep st) + length (ss_shallow st)) \<le> max 0 m)
    \<and> (\<forall>b. max_input_tokens = Some b \<longrightarrow> ss_deep_tokens st + ss_shallow_tokens st \<le> max 0 b)"
proof -
  let ?over = "deep_over_ids max_pack_chars packs"
  let ?dips = "filter (\<lambda>ip. cp_id (snd ip) \<notin> set ?over) (indexed packs)"
  let ?dc = "select_llm_context_pack_indexes ?dips files (bounded_deep_cap max_packs max_deep_packs) priorities"
  let ?d = "select_indexes_with_token_budget (pack_tokens prompt_chars provider RD_DEEP) ?dc packs files max_input_tokens"
  have deep: "ss_deep st = fst ?d" "ss_deep_tokens st = snd ?d"
    by (simp_all add: st_def plan_stages_def Let_def case_prod_unfold)
  have dc: "distinct ?dc" "set ?dc \<subseteq> {i. i < length packs \<and> cp_id (packs ! i) \<notin> set ?over}"
    using deep_candidates_indexes [of "\<lambda>ip. cp_id (snd ip) \<notin> set ?over" packs files] by simp_all
  have "set ?dc \<subseteq> {..<length packs}" using dc(2) by auto
  note d = token_budget_basics [where prompt_chars = prompt_chars and provider = provider and depth = RD_DEEP
      and files = files and budget = max_input_tokens, OF dc(1) this prod.collapse [symmetric], folded deep]
  have d_len: "int (length (ss_deep st)) \<le> max 0 m" if "max_packs = Some m" for m
  proof -
    have "length ?dc \<le> nat m"
    proof (cases max_deep_packs)
      case None
      have "distinct (map fst ?dips)" by (rule distinct_map_filter) simp
      from select_indexes_length [OF this] None that show ?thesis by (simp add: bounded_deep_cap_def)
    next
      case (Some k)
      have "distinct (map fst ?dips)" by (rule distinct_map_filter) simp
      from select_indexes_length [OF this, of files "min m k" priorities] Some that show ?thesis
        by (simp add: bounded_deep_cap_def)
    qed
    with subset_length [OF d(1,2)] show ?thesis by linarith
  qed
  let ?sover = "shallow_over_ids payload_chars mode max_pack_chars packs"
  let ?sips = "map (\<lambda>i. (i, packs ! i)) (ss_shallow_candidates st)"
  let ?cap = "map_option (\<lambda>m. max 0 (m - int (length (ss_deep st)))) max_packs"
  let ?left = "map_option (\<lambda>b. max 0 (b - ss_deep_tokens st)) max_input_tokens"
  let ?sc = "select_llm_context_pack_indexes ?sips files ?cap priorities"
  let ?s = "select_indexes_with_token_budget (pack_tokens prompt_chars provider RD_SHALLOW) ?sc packs files ?left"
  show ?thesis
  proof (cases "mode = CM_FAST")
    case True
    have sh: "ss_shallow st = []" "ss_shallow_tokens st = 0"
      using True by (simp_all add: st_def plan_stages_def Let_def case_prod_unfold)
    have "set (ss_deep st) \<subseteq> {i. i < length packs \<and> cp_id (packs ! i) \<notin> set ?over}"
      using d(2) dc(2) by (rule subset_trans)
    with d(1) d(4) d_len show ?thesis unfolding sh by simp
  next
    case False
    have cand: "ss_shallow_candidates st = map fst (filter (\<lambda>ip. cp_id (snd ip) \<notin> set ?sover \<and> fst ip \<notin> set (ss_deep st)) (indexed packs))"
      and shallow: "ss_shallow st = fst ?s" "ss_shallow_tokens st = snd ?s"
      using False by (simp_all add: st_def plan_stages_def Let_def case_prod_unfold)
    have cand_dist: "distinct (map fst ?sips)"
      using distinct_map_filter [of fst "indexed packs"] by (simp add: cand comp_def)
    have cand_set: "set (ss_shallow_candidates st) \<subseteq> {i. i < length packs \<and> cp_id (packs ! i) \<notin> set ?sover} - set (ss_deep st)"
      by (auto simp: cand set_indexed)
    have "fst ` set ?sips = set (ss_shallow_candidates st)" by (simp add: image_image)
    with select_indexes_distinct_subset [OF cand_dist, of files ?cap priorities]
    have sc: "distinct ?sc" "set ?sc \<subseteq> set (ss_shallow_candidates st)" by simp_all
    have "set ?sc \<subseteq> {..<length packs}" using sc(2) cand_set by auto
    note s = token_budget_basics [where prompt_chars = prompt_chars and provider = provider and depth = RD_SHALLOW
      and files = files and budget = ?left, OF sc(1) this prod.collapse [symmetric], folded shallow]
    have s_len: "int (length (ss_shallow st)) \<le> max 0 (m - int (length (ss_deep st)))" if "max_packs = Some m" for m
      using subset_length [OF s(1,2)] select_indexes_length [OF cand_dist, of files "max 0 (m - int (length (ss_deep st)))" priorities] that
      by simp
    have "int (length (ss_deep st) + length (ss_shallow st)) \<le> max 0 m" if "max_packs = Some m" for m
      using d_len [OF that] s_len [OF that] by simp
    moreover have "ss_deep_tokens st + ss_shallow_tokens st \<le> max 0 b" if "max_input_tokens = Some b" for b
      using d(4) [OF that] s(4) [of "max 0 (b - ss_deep_tokens st)"] that by simp
    moreover have "set (ss_deep st) \<subseteq> {i. i < length packs \<and> cp_id (packs ! i) \<notin> set ?over}"
      using d(2) dc(2) by (rule subset_trans)
    moreover have "set (ss_shallow st) \<subseteq> {i. i < length packs \<and> cp_id (packs ! i) \<notin> set ?sover} - set (ss_deep st)"
      using s(2) sc(2) cand_set by blast
    ultimately show ?thesis using d(1) s(1) by blast
  qed
qed

lemma ids_at_inj:
  "distinct (map cp_id packs) \<Longrightarrow> inj_on (\<lambda>i. cp_id (packs ! i)) {..<length packs}"
  by (auto simp: inj_on_def distinct_conv_nth)

lemma ids_at_disjoint:
  assumes "distinct (map cp_id packs)" "set s \<subseteq> {..<length packs}" "set t \<subseteq> {..<length packs}" "set s \<inter> set t = {}"
  shows "set (ids_at packs s) \<inter> set (ids_at packs t) = {}"
  using inj_on_image_Int [OF ids_at_inj [OF assms(1)] assms(2,3)] assms(4) by (simp add: ids_at_def)

lemma length_sorted_set_append:
  assumes "distinct s" "distinct t" "set s \<inter> set t = {}"
  shows "length (sorted_set (s @ t)) = length s + length t"
proof -
  have "length (sorted_set (s @ t)) = card (set (s @ t))"
    using distinct_card [OF distinct_sorted_set, of "s @ t"] by simp
  with assms show ?thesis by (simp add: distinct_card card_Un_disjoint)
qed

lemma ids_at_complement:
  assumes "distinct (map cp_id packs)" "distinct s" "set s \<subseteq> {..<length packs}"
  shows "mset (ids_at packs s) + mset (filter (\<lambda>i. i \<notin> set (ids_at packs s)) (map cp_id packs)) = mset (map cp_id packs)"
proof -
  have "distinct (ids_at packs s)"
    using assms(2) inj_on_subset [OF ids_at_inj [OF assms(1)] assms(3)] by (simp add: ids_at_def distinct_map)
  moreover have "set (ids_at packs s) = set (filter (\<lambda>i. i \<in> set (ids_at packs s)) (map cp_id packs))"
    using assms(3) by (auto simp: ids_at_def)
  ultimately have "mset (ids_at packs s) = mset (filter (\<lambda>i. i \<in> set (ids_at packs s)) (map cp_id packs))"
    using assms(1) by (simp only: set_eq_iff_mset_eq_distinct distinct_filter)
  then show ?thesis by (simp only: mset_filter_split)
qed

text \<open>A selection of the given identifiers: what is selected and what is not split them, the two depths cover
  what is selected, and the lists that explain an omission name omitted packs only.\<close>

definition selection_ok :: "string list \<Rightarrow> llm_context_selection \<Rightarrow> bool" where
  "selection_ok ids s \<longleftrightarrow> sel_total_context_pack_ids s = ids
     \<and> mset (sel_selected_context_pack_ids s) + mset (sel_unselected_context_pack_ids s) = mset ids
     \<and> set (sel_selected_context_pack_ids s)
         = set (sel_deep_selected_context_pack_ids s) \<union> set (sel_shallow_selected_context_pack_ids s)
     \<and> set (sel_over_budget_context_pack_ids s) \<subseteq> set (sel_unselected_context_pack_ids s)
     \<and> set (sel_over_token_budget_context_pack_ids s) \<subseteq> set (sel_unselected_context_pack_ids s)
     \<and> fst ` set (sel_skipped_context_pack_reasons s) \<subseteq> set (sel_unselected_context_pack_ids s)"

lemma plan_fields:
  fixes payload_chars prompt_chars provider packs files max_packs max_deep_packs max_input_tokens
    max_pack_chars mode priorities
  defines "p \<equiv> plan_llm_context_selection payload_chars prompt_chars provider packs files max_packs
        max_deep_packs max_input_tokens max_pack_chars mode priorities"
    and "st \<equiv> plan_stages payload_chars prompt_chars provider packs files max_packs max_deep_packs
        max_input_tokens max_pack_chars mode priorities"
  shows "sel_selected_context_pack_ids p = ids_at packs (sorted_set (ss_deep st @ ss_shallow st))"
    "sel_deep_selected_context_pack_ids p = ids_at packs (sort (ss_deep st))"
    "sel_shallow_selected_context_pack_ids p = ids_at packs (sort (ss_shallow st))"
    "sel_unselected_context_pack_ids p = filter (\<lambda>i. i \<notin> set (sel_selected_context_pack_ids p)) (map cp_id packs)"
    "sum_list (map sst_selected_estimated_tokens (sel_stages p)) = ss_deep_tokens st + ss_shallow_tokens st"
    "fst ` set (sel_skipped_context_pack_reasons p) = set (sel_unselected_context_pack_ids p)"
proof -
  have "ss_shallow_tokens st = 0" if "mode = CM_FAST"
    using that by (simp add: st_def plan_stages_def Let_def case_prod_unfold)
  then show "sum_list (map sst_selected_estimated_tokens (sel_stages p)) = ss_deep_tokens st + ss_shallow_tokens st"
    by (simp add: p_def st_def plan_llm_context_selection_def Let_def)
  have "fst ` set (dict_of id f xs) = set xs" for f :: "string \<Rightarrow> string" and xs
    using dict_of_None_iff [of id f xs] by (simp add: map_of_eq_None_iff set_eq_iff)
  then show "fst ` set (sel_skipped_context_pack_reasons p) = set (sel_unselected_context_pack_ids p)"
    by (simp add: p_def plan_llm_context_selection_def Let_def)
qed (simp_all add: p_def st_def plan_llm_context_selection_def Let_def)

lemma plan_ok:
  assumes "distinct (map cp_id packs)"
  shows "selection_ok (map cp_id packs) (plan_llm_context_selection payload_chars prompt_chars provider packs
      files max_packs max_deep_packs max_input_tokens max_pack_chars mode priorities)"
proof -
  let ?p = "plan_llm_context_selection payload_chars prompt_chars provider packs
      files max_packs max_deep_packs max_input_tokens max_pack_chars mode priorities"
  let ?st = "plan_stages payload_chars prompt_chars provider packs files max_packs max_deep_packs
    max_input_tokens max_pack_chars mode priorities"
  note p = plan_fields [of payload_chars prompt_chars provider packs files max_packs max_deep_packs
    max_input_tokens max_pack_chars mode priorities]
  have "set (sorted_set (ss_deep ?st @ ss_shallow ?st)) \<subseteq> {..<length packs}"
    using plan_stages_ok [of payload_chars prompt_chars provider packs files max_packs max_deep_packs
      max_input_tokens max_pack_chars mode priorities] by auto
  from ids_at_complement [OF assms distinct_sorted_set this]
  have "mset (sel_selected_context_pack_ids ?p) + mset (sel_unselected_context_pack_ids ?p) = mset (map cp_id packs)"
    by (simp only: p)
  moreover have "set (sel_selected_context_pack_ids ?p)
      = set (sel_deep_selected_context_pack_ids ?p) \<union> set (sel_shallow_selected_context_pack_ids ?p)"
    unfolding p ids_at_def by (simp add: image_Un)
  moreover have "sel_total_context_pack_ids ?p = map cp_id packs"
    "set (sel_over_budget_context_pack_ids ?p) \<subseteq> set (sel_unselected_context_pack_ids ?p)"
    "set (sel_over_token_budget_context_pack_ids ?p) \<subseteq> set (sel_unselected_context_pack_ids ?p)"
    by (auto simp: plan_llm_context_selection_def Let_def ids_at_def)
  ultimately show ?thesis unfolding selection_ok_def using p(6) by blast
qed

text \<open>C30: for packs with distinct identifiers the plan is well formed: every pack is selected or
  not, never both, exactly the packs left out have a reason, and a selected pack goes to exactly one of the two
  stages. No more packs are selected than the cap allows, the stages together stay within the
  token budget, and no pack over the size limit of a stage is in it.\<close>

theorem plan_splits_packs:
  assumes "distinct (map cp_id packs)"
  shows "let p = plan_llm_context_selection payload_chars prompt_chars provider packs files max_packs
        max_deep_packs max_input_tokens max_pack_chars mode priorities
    in selection_ok (map cp_id packs) p
      \<and> fst ` set (sel_skipped_context_pack_reasons p) = set (sel_unselected_context_pack_ids p)
      \<and> set (sel_deep_selected_context_pack_ids p) \<inter> set (sel_shallow_selected_context_pack_ids p) = {}
      \<and> (case max_packs of None \<Rightarrow> True | Some m \<Rightarrow> int (length (sel_selected_context_pack_ids p)) \<le> max 0 m)
      \<and> (case max_input_tokens of None \<Rightarrow> True
          | Some b \<Rightarrow> sum_list (map sst_selected_estimated_tokens (sel_stages p)) \<le> max 0 b)
      \<and> set (sel_deep_selected_context_pack_ids p) \<inter> set (deep_over_ids max_pack_chars packs) = {}
      \<and> set (sel_shallow_selected_context_pack_ids p)
          \<inter> set (shallow_over_ids payload_chars mode max_pack_chars packs) = {}"
proof -
  let ?st = "plan_stages payload_chars prompt_chars provider packs files max_packs max_deep_packs
    max_input_tokens max_pack_chars mode priorities"
  let ?p = "plan_llm_context_selection payload_chars prompt_chars provider packs files max_packs
        max_deep_packs max_input_tokens max_pack_chars mode priorities"
  note ok = plan_stages_ok [of payload_chars prompt_chars provider packs files max_packs max_deep_packs
    max_input_tokens max_pack_chars mode priorities]
  note p = plan_fields [of payload_chars prompt_chars provider packs files max_packs max_deep_packs
    max_input_tokens max_pack_chars mode priorities]
  have deep: "distinct (ss_deep ?st)" "set (ss_deep ?st) \<subseteq> {..<length packs}"
    and shallow: "distinct (ss_shallow ?st)" "set (ss_shallow ?st) \<subseteq> {..<length packs}"
    and disj: "set (ss_deep ?st) \<inter> set (ss_shallow ?st) = {}"
    using ok by auto
  have apart: "set (sel_deep_selected_context_pack_ids ?p) \<inter> set (sel_shallow_selected_context_pack_ids ?p) = {}"
    unfolding p by (rule ids_at_disjoint [OF assms]) (use deep(2) shallow(2) disj in simp_all)
  have "length (sel_selected_context_pack_ids ?p) = length (ss_deep ?st) + length (ss_shallow ?st)"
    unfolding p ids_at_def length_map by (rule length_sorted_set_append [OF deep(1) shallow(1) disj])
  then have cap: "case max_packs of None \<Rightarrow> True | Some m \<Rightarrow> int (length (sel_selected_context_pack_ids ?p)) \<le> max 0 m"
    using ok by (cases max_packs) simp_all
  have tokens: "case max_input_tokens of None \<Rightarrow> True
      | Some b \<Rightarrow> sum_list (map sst_selected_estimated_tokens (sel_stages ?p)) \<le> max 0 b"
    using ok unfolding p(5) by (cases max_input_tokens) simp_all
  have "set (sel_deep_selected_context_pack_ids ?p) \<inter> set (deep_over_ids max_pack_chars packs) = {}"
    "set (sel_shallow_selected_context_pack_ids ?p)
      \<inter> set (shallow_over_ids payload_chars mode max_pack_chars packs) = {}"
    using ok unfolding p ids_at_def by auto
  then show ?thesis unfolding Let_def using plan_ok [OF assms] p(6) apart cap tokens by blast
qed

definition sample_pack :: "string \<Rightarrow> string \<Rightarrow> context_pack" where
  "sample_pack i file = \<lparr>cp_id = i, cp_file = file, cp_file_kind = FK_SOURCE, cp_changed_lines = [(1, 3)],
     cp_impact_notes = [], cp_diff_snippet = [], cp_changed_snippets = [], cp_symbol = None, cp_symbols = [],
     cp_imports = [], cp_exports = [], cp_related_tests = [], cp_references = [], cp_callees = [],
     cp_contracts = [], cp_metadata = [], cp_reference_snippets = [], cp_callee_snippets = [],
     cp_contract_snippets = [], cp_metadata_snippets = [], cp_related_test_snippets = [],
     cp_risk_signals = [], cp_rules = [], cp_rule_matches = [], cp_memory_matches = [],
     cp_memory_omissions = [], cp_reviewer = None, cp_warnings = [], cp_analyzer_coverage = None,
     cp_stats = default_context_pack_stats\<rparr>"

lemma token_budget_respected_witness:
  "let packs = [sample_pack ''a'' ''x.py'', sample_pack ''b'' ''y.py''];
       r = select_indexes_with_token_budget (pack_tokens (\<lambda>_ _. 4000) (\<lambda>_. None) RD_DEEP) [0, 1] packs []
   in set (fst (r (Some 1500))) \<subseteq> {0, 1} \<and> snd (r (Some 1500)) \<le> 1500 \<and> fst (r None) = [0, 1]"
  using token_budget_respected [of "[0, 1]" "[sample_pack ''a'' ''x.py'', sample_pack ''b'' ''y.py'']"
      "\<lambda>_ _. 4000" "\<lambda>_. None" RD_DEEP "[]" "Some 1500" 1500 0 0]
  by (simp add: Let_def)

lemma plan_splits_packs_witness:
  "let packs = [sample_pack ''a'' ''x.py'', sample_pack ''b'' ''y.py''];
       p = plan_llm_context_selection (\<lambda>_. 0) (\<lambda>_ _. 4000) (\<lambda>_. None) packs [] (Some 1) None (Some 5000) None CM_FAST None
   in selection_ok [''a'', ''b''] p
      \<and> int (length (sel_selected_context_pack_ids p)) \<le> 1"
  using plan_splits_packs [of "[sample_pack ''a'' ''x.py'', sample_pack ''b'' ''y.py'']"
      "\<lambda>_. 0" "\<lambda>_ _. 4000" "\<lambda>_. None" "[]" "Some 1" None "Some 5000" None CM_FAST None]
  by (simp add: sample_pack_def Let_def)

subsection \<open>Continuing keeps a selection well formed\<close>

text \<open>continuing a review with further packs of the report keeps the selection well formed,
  never deselects a pack, selects exactly the packs it was given in addition, and a pack that is
  reviewed deeply leaves the shallow list.\<close>

theorem merge_continuation_selection_ok:
  assumes "selection_ok (map cp_id packs) s" and "set chosen \<subseteq> set packs"
  shows "let m = merge_continuation_selection (Some s) packs chosen depth
    in selection_ok (map cp_id packs) m
      \<and> set (sel_selected_context_pack_ids m) = set (sel_selected_context_pack_ids s) \<union> cp_id ` set chosen
      \<and> set (sel_deep_selected_context_pack_ids s) \<subseteq> set (sel_deep_selected_context_pack_ids m)
      \<and> set (map cp_id chosen) \<subseteq> set (if depth = RD_DEEP then sel_deep_selected_context_pack_ids m
          else sel_shallow_selected_context_pack_ids m)
      \<and> (depth = RD_DEEP \<longrightarrow> set (sel_shallow_selected_context_pack_ids m) \<inter> cp_id ` set chosen = {})"
proof -
  let ?m = "merge_continuation_selection (Some s) packs chosen depth"
  let ?ids = "map cp_id packs" and ?new = "cp_id ` set chosen"
  let ?sel = "set (sel_selected_context_pack_ids s)"
  note s = assms(1) [unfolded selection_ok_def]
  have new: "?new \<subseteq> set ?ids" using assms(2) by auto
  have "?sel \<subseteq> set ?ids" using s by (metis mset_append set_mset_mset set_append sup_ge1)
  with s have old: "?sel \<subseteq> set ?ids" "set (sel_deep_selected_context_pack_ids s) \<subseteq> set ?ids"
    "set (sel_shallow_selected_context_pack_ids s) \<subseteq> set ?ids" by auto
  have m: "sel_total_context_pack_ids ?m = ?ids"
    "sel_selected_context_pack_ids ?m = filter (\<lambda>i. i \<in> ?sel \<union> ?new) ?ids"
    "sel_unselected_context_pack_ids ?m = filter (\<lambda>i. \<not> (i \<in> ?sel \<union> ?new)) ?ids"
    by (simp_all add: merge_continuation_selection_def Let_def)
  have set_m: "set (sel_selected_context_pack_ids ?m) = ?sel \<union> ?new"
    unfolding m using new old(1) by auto
  have split: "mset (sel_selected_context_pack_ids ?m) + mset (sel_unselected_context_pack_ids ?m) = mset ?ids"
    unfolding m by (rule mset_filter_split)
  have deep: "set (sel_deep_selected_context_pack_ids ?m)
      = set (sel_deep_selected_context_pack_ids s) \<union> (if depth = RD_DEEP then ?new else {})"
    using new old(2) by (auto simp: merge_continuation_selection_def Let_def)
  have shallow: "set (sel_shallow_selected_context_pack_ids ?m)
      = (if depth = RD_DEEP then set (sel_shallow_selected_context_pack_ids s) - ?new
         else set (sel_shallow_selected_context_pack_ids s) \<union> ?new)"
    using new old(3) by (auto simp: merge_continuation_selection_def Let_def)
  have depths: "set (sel_selected_context_pack_ids ?m)
      = set (sel_deep_selected_context_pack_ids ?m) \<union> set (sel_shallow_selected_context_pack_ids ?m)"
    unfolding set_m deep shallow using s by auto
  have reasons: "set (sel_over_budget_context_pack_ids ?m) \<subseteq> set (sel_unselected_context_pack_ids ?m)"
    "set (sel_over_token_budget_context_pack_ids ?m) \<subseteq> set (sel_unselected_context_pack_ids ?m)"
    "fst ` set (sel_skipped_context_pack_reasons ?m) \<subseteq> set (sel_unselected_context_pack_ids ?m)"
    by (auto simp: merge_continuation_selection_def Let_def)
  have "selection_ok ?ids ?m"
    unfolding selection_ok_def using m(1) split depths reasons by blast
  moreover have "set (map cp_id chosen) \<subseteq> set (if depth = RD_DEEP then sel_deep_selected_context_pack_ids ?m
      else sel_shallow_selected_context_pack_ids ?m)"
    using deep shallow by (cases "depth = RD_DEEP") auto
  moreover have "depth = RD_DEEP \<longrightarrow> set (sel_shallow_selected_context_pack_ids ?m) \<inter> ?new = {}"
    unfolding shallow by auto
  moreover have "set (sel_deep_selected_context_pack_ids s) \<subseteq> set (sel_deep_selected_context_pack_ids ?m)"
    unfolding deep by blast
  ultimately show ?thesis unfolding Let_def using set_m by blast
qed

lemma merge_continuation_selection_ok_witness:
  "let packs = [sample_pack ''a'' ''x.py'', sample_pack ''b'' ''y.py''];
       p = plan_llm_context_selection (\<lambda>_. 0) (\<lambda>_ _. 4000) (\<lambda>_. None) packs [] (Some 1) None (Some 5000) None CM_FAST None
   in selection_ok [''a'', ''b''] (merge_continuation_selection (Some p) packs [packs ! 1] RD_DEEP)"
  using merge_continuation_selection_ok [OF plan_ok, of "[sample_pack ''a'' ''x.py'', sample_pack ''b'' ''y.py'']"
      "[sample_pack ''b'' ''y.py'']" "\<lambda>_. 0" "\<lambda>_ _. 4000" "\<lambda>_. None" "[]" "Some 1" None "Some 5000" None CM_FAST None RD_DEEP]
  by (simp add: sample_pack_def Let_def)

end
