(* ===== verification/Version_Lock.thy ===== *)
theory Version_Lock
  imports Prelude
begin

section \<open>The version lock of a repository\<close>

text \<open>
  \<open>src/apex_ray/version_lock.py\<close>: the file \<open>.apex-ray/version\<close> pins the runtime version. The file
  system is a small state: the directory, the lock path, and whether the operating system allows to
  read, create and write. Two functions come from outside the repository and are parameters:
  \<open>parse\<close> gives the normal form that \<open>packaging.version.Version\<close> prints for a version, if it is
  one, and \<open>decode\<close> is UTF-8 decoding.
\<close>

datatype lock_parent =
    Parent_Missing
  | Parent_Unresolvable
  | Parent_Outside
  | Parent_Not_Directory
  | Parent_Directory

datatype lock_path =
    Lock_Absent
  | Lock_Not_Regular
  | Lock_File string

record lock_store =
  ls_parent :: lock_parent
  ls_path :: lock_path
  ls_readable :: bool
  ls_can_create :: bool
  ls_can_write :: bool

datatype version_purpose = For_Lock | For_Runtime | For_Version

datatype lock_error =
    Not_Publishable version_purpose string
  | Invalid_Version version_purpose string
  | Not_Canonical version_purpose string
  | Cannot_Create_Directory
  | Cannot_Resolve_Directory
  | Directory_Outside_Repository
  | Directory_Is_Not_One
  | Lock_Must_Be_Regular
  | Lock_Too_Long
  | Lock_Needs_One_Line
  | Lock_Not_Text
  | Lock_Unreadable
  | Cannot_Replace_Non_Regular
  | Cannot_Write
  | Lock_Rejected lock_error
  | Version_Required string string

datatype lock_state = LOCK_MISSING | LOCK_CURRENT | LOCK_MISMATCH | LOCK_INVALID lock_error

record lock_status =
  lst_state :: lock_state
  lst_runtime_version :: string
  lst_locked_version :: "string option"

definition canonical_version :: "(string \<Rightarrow> string option) \<Rightarrow> version_purpose \<Rightarrow> string \<Rightarrow> lock_error + string" where
  "canonical_version parse purpose raw =
     (if raw = ''0+unknown'' then Inl (Not_Publishable purpose raw)
      else case parse raw of
          None \<Rightarrow> Inl (Invalid_Version purpose raw)
        | Some canonical \<Rightarrow> if raw \<noteq> canonical then Inl (Not_Canonical purpose canonical) else Inr canonical)"

text \<open>\<open>_validate_lock_parent\<close>: the state after a directory was made, or the error.\<close>

definition validate_lock_parent :: "lock_store \<Rightarrow> bool \<Rightarrow> lock_error + lock_store" where
  "validate_lock_parent fs create =
     (case ls_parent fs of
        Parent_Missing \<Rightarrow>
          if \<not> create then Inr fs
          else if ls_can_create fs then Inr (fs\<lparr>ls_parent := Parent_Directory\<rparr>) else Inl Cannot_Create_Directory
      | Parent_Unresolvable \<Rightarrow> Inl (if create then Cannot_Create_Directory else Cannot_Resolve_Directory)
      | Parent_Outside \<Rightarrow> Inl Directory_Outside_Repository
      | Parent_Not_Directory \<Rightarrow> Inl (if create then Cannot_Create_Directory else Directory_Is_Not_One)
      | Parent_Directory \<Rightarrow> Inr fs)"

definition max_version_lock_bytes :: nat where
  "max_version_lock_bytes = 128"

definition read_locked_version ::
  "(string \<Rightarrow> string option) \<Rightarrow> (string \<Rightarrow> string option) \<Rightarrow> string \<Rightarrow> lock_error + string" where
  "read_locked_version parse decode content =
     (if max_version_lock_bytes < length content then Inl Lock_Too_Long
      else case decode content of
          None \<Rightarrow> Inl Lock_Not_Text
        | Some raw \<Rightarrow>
            if \<not> ends_with raw ''\<newline>'' \<or> length (filter (\<lambda>c. c = CHR 0x0A) raw) \<noteq> 1 then Inl Lock_Needs_One_Line
            else canonical_version parse For_Lock (butlast raw))"

definition locked_and_runtime ::
  "(string \<Rightarrow> string option) \<Rightarrow> (string \<Rightarrow> string option) \<Rightarrow> lock_store \<Rightarrow> string
     \<Rightarrow> lock_error + (string \<times> string) option" where
  "locked_and_runtime parse decode fs runtime_version =
     (case validate_lock_parent fs False of
        Inl e \<Rightarrow> Inl e
      | Inr _ \<Rightarrow> (case ls_path fs of
            Lock_Absent \<Rightarrow> Inr None
          | Lock_Not_Regular \<Rightarrow> Inl Lock_Must_Be_Regular
          | Lock_File content \<Rightarrow>
              if \<not> ls_readable fs then Inl Lock_Unreadable
              else (case read_locked_version parse decode content of
                  Inl e \<Rightarrow> Inl e
                | Inr locked \<Rightarrow> (case canonical_version parse For_Runtime runtime_version of
                      Inl e \<Rightarrow> Inl e
                    | Inr runtime \<Rightarrow> Inr (Some (locked, runtime))))))"

definition inspect_version_lock ::
  "(string \<Rightarrow> string option) \<Rightarrow> (string \<Rightarrow> string option) \<Rightarrow> lock_store \<Rightarrow> string \<Rightarrow> lock_status" where
  "inspect_version_lock parse decode fs runtime_version =
     (case locked_and_runtime parse decode fs runtime_version of
        Inl e \<Rightarrow> \<lparr>lst_state = LOCK_INVALID e, lst_runtime_version = runtime_version, lst_locked_version = None\<rparr>
      | Inr None \<Rightarrow> \<lparr>lst_state = LOCK_MISSING, lst_runtime_version = runtime_version, lst_locked_version = None\<rparr>
      | Inr (Some (locked, runtime)) \<Rightarrow>
          \<lparr>lst_state = (if locked = runtime then LOCK_CURRENT else LOCK_MISMATCH),
           lst_runtime_version = runtime, lst_locked_version = Some locked\<rparr>)"

definition lock_blocking :: "lock_status \<Rightarrow> bool" where
  "lock_blocking s \<longleftrightarrow> (case lst_state s of LOCK_MISMATCH \<Rightarrow> True | LOCK_INVALID _ \<Rightarrow> True | _ \<Rightarrow> False)"

definition assert_version_lock ::
  "(string \<Rightarrow> string option) \<Rightarrow> (string \<Rightarrow> string option) \<Rightarrow> lock_store \<Rightarrow> string \<Rightarrow> lock_error + lock_status" where
  "assert_version_lock parse decode fs runtime_version =
     (let s = inspect_version_lock parse decode fs runtime_version in
      case lst_state s of
        LOCK_INVALID e \<Rightarrow> Inl (Lock_Rejected e)
      | LOCK_MISMATCH \<Rightarrow> Inl (Version_Required
            (case lst_locked_version s of None \<Rightarrow> [] | Some v \<Rightarrow> v) (lst_runtime_version s))
      | _ \<Rightarrow> Inr s)"

definition validate_version_lock_target :: "lock_store \<Rightarrow> lock_error + unit" where
  "validate_version_lock_target fs =
     (case validate_lock_parent fs False of
        Inl e \<Rightarrow> Inl e
      | Inr _ \<Rightarrow> if ls_path fs = Lock_Not_Regular then Inl Cannot_Replace_Non_Regular else Inr ())"

text \<open>A write replaces the file atomically: it either happens or leaves the lock as it was. The
  directory that was made stays.\<close>

definition write_version_lock ::
  "(string \<Rightarrow> string option) \<Rightarrow> lock_store \<Rightarrow> string \<Rightarrow> (lock_error + unit) \<times> lock_store" where
  "write_version_lock parse fs version =
     (case canonical_version parse For_Runtime version of
        Inl e \<Rightarrow> (Inl e, fs)
      | Inr canonical \<Rightarrow> (case validate_lock_parent fs True of
            Inl e \<Rightarrow> (Inl e, fs)
          | Inr fs' \<Rightarrow>
              if ls_path fs' = Lock_Not_Regular then (Inl Cannot_Replace_Non_Regular, fs')
              else if \<not> ls_can_write fs' then (Inl Cannot_Write, fs')
              else (Inr (), fs'\<lparr>ls_path := Lock_File (canonical @ ''\<newline>'')\<rparr>)))"

text \<open>The result says whether the lock was written.\<close>

definition ensure_version_lock ::
  "(string \<Rightarrow> string option) \<Rightarrow> (string \<Rightarrow> string option) \<Rightarrow> lock_store \<Rightarrow> string \<Rightarrow> bool
     \<Rightarrow> (lock_error + bool) \<times> lock_store" where
  "ensure_version_lock parse decode fs runtime_version update =
     (let stored = (case write_version_lock parse fs runtime_version of (r, fs') \<Rightarrow> (map_sum id (\<lambda>_. True) r, fs'))
      in case lst_state (inspect_version_lock parse decode fs runtime_version) of
           LOCK_CURRENT \<Rightarrow> (Inr False, fs)
         | LOCK_MISSING \<Rightarrow> stored
         | _ \<Rightarrow> (if update then stored
                 else case assert_version_lock parse decode fs runtime_version of
                     Inl e \<Rightarrow> (Inl e, fs)
                   | Inr _ \<Rightarrow> stored))"

definition render_uvx_argv ::
  "(string \<Rightarrow> string option) \<Rightarrow> string \<Rightarrow> string list \<Rightarrow> lock_error + string list" where
  "render_uvx_argv parse version arguments =
     (case canonical_version parse For_Version version of
        Inl e \<Rightarrow> Inl e
      | Inr canonical \<Rightarrow> Inr ([''uvx'', ''--python'', ''3.14'', ''apex-ray@'' @ canonical] @ arguments))"

definition publishable_runtime_version :: "(string \<Rightarrow> string option) \<Rightarrow> string \<Rightarrow> string option" where
  "publishable_runtime_version parse version =
     (case canonical_version parse For_Runtime version of Inl _ \<Rightarrow> None | Inr v \<Rightarrow> Some v)"

subsection \<open>Ensuring a lock\<close>

lemma canonical_version_Inr:
  "canonical_version parse purpose raw = Inr v \<longleftrightarrow> raw = v \<and> v \<noteq> ''0+unknown'' \<and> parse v = Some v"
  by (auto simp: canonical_version_def split: option.splits if_splits)

text \<open>ensuring the lock either fails and leaves the lock file as it was, or succeeds, and then
  the lock of the runtime version is the one that the next inspection finds current. A lock
  that is there and is not current is only replaced on an explicit update.\<close>

theorem ensure_version_lock_current:
  assumes version_text: "decode (version @ ''\<newline>'') = Some (version @ ''\<newline>'')"
    and one_line: "CHR 0x0A \<notin> set version" and short: "length version < max_version_lock_bytes"
    and readable: "ls_readable fs"
  shows "case ensure_version_lock parse decode fs version update of
      (Inl _, fs') \<Rightarrow> ls_path fs' = ls_path fs
    | (Inr written, fs') \<Rightarrow>
        lst_state (inspect_version_lock parse decode fs' version) = LOCK_CURRENT
        \<and> (written \<longrightarrow> ls_path fs' = Lock_File (version @ ''\<newline>'') \<and> (update \<or> ls_path fs = Lock_Absent))
        \<and> (\<not> written \<longrightarrow> fs' = fs)"
proof -
  let ?state = "lst_state (inspect_version_lock parse decode fs version)"
  let ?stored = "write_version_lock parse fs version"
  have failed: "ls_path (snd ?stored) = ls_path fs" if "fst ?stored = Inl e" for e
    using that by (auto simp: write_version_lock_def validate_lock_parent_def
        split: sum.splits lock_parent.splits if_splits)
  have written: "ls_path (snd ?stored) = Lock_File (version @ ''\<newline>'')
      \<and> lst_state (inspect_version_lock parse decode (snd ?stored) version) = LOCK_CURRENT" if "fst ?stored = Inr ()"
  proof -
    note stored_ok = that
    obtain c where c: "canonical_version parse For_Runtime version = Inr c"
      using stored_ok by (cases "canonical_version parse For_Runtime version") (auto simp: write_version_lock_def)
    then have v: "canonical_version parse For_Runtime version = Inr version"
      by (simp add: canonical_version_Inr)
    with stored_ok obtain fs' where "validate_lock_parent fs True = Inr fs'"
      by (cases "validate_lock_parent fs True") (auto simp: write_version_lock_def)
    with stored_ok v have fs': "validate_lock_parent fs True = Inr fs'" "canonical_version parse For_Runtime version = Inr version"
      "snd ?stored = fs'\<lparr>ls_path := Lock_File (version @ ''\<newline>'')\<rparr>"
      by (auto simp: write_version_lock_def split: if_splits)
    have parent: "validate_lock_parent (fs'\<lparr>ls_path := p\<rparr>) False = Inr (fs'\<lparr>ls_path := p\<rparr>) \<and> ls_readable fs'" for p
      using fs'(1) readable by (auto simp: validate_lock_parent_def split: lock_parent.splits if_splits)
    have "length (filter (\<lambda>c. c = CHR 0x0A) version) = 0" using one_line by (auto simp: filter_empty_conv)
    then have "read_locked_version parse decode (version @ ''\<newline>'') = Inr version"
      using version_text short fs'(2)
      by (simp add: read_locked_version_def ends_with_def canonical_version_Inr)
    then show ?thesis using parent fs'(2)
      by (simp add: fs'(3) inspect_version_lock_def locked_and_runtime_def)
  qed
  have absent: "ls_path fs = Lock_Absent" if "?state = LOCK_MISSING"
    using that by (auto simp: inspect_version_lock_def locked_and_runtime_def
        split: sum.splits option.splits lock_path.splits if_splits)
  have blocked: "\<exists>e. assert_version_lock parse decode fs version = Inl e"
    if "?state \<noteq> LOCK_MISSING" "?state \<noteq> LOCK_CURRENT"
    using that by (auto simp: assert_version_lock_def Let_def split: lock_state.splits)
  show ?thesis
    using failed written absent blocked
    by (cases ?state; cases ?stored; cases "fst ?stored")
      (auto simp: ensure_version_lock_def Let_def split: sum.splits)
qed

lemma ensure_version_lock_current_witness:
  "let parse = (\<lambda>v. if list_all (\<lambda>c. py_digit c \<or> c = CHR ''.'') v then Some v else None);
       fs = \<lparr>ls_parent = Parent_Missing, ls_path = Lock_Absent, ls_readable = True, ls_can_create = True,
             ls_can_write = True\<rparr>;
       fs' = snd (ensure_version_lock parse Some fs ''1.4.0'' False)
   in ls_path fs' = Lock_File (''1.4.0'' @ ''\<newline>'')
      \<and> lst_state (inspect_version_lock parse Some fs' ''1.4.0'') = LOCK_CURRENT"
proof -
  let ?parse = "\<lambda>v. if list_all (\<lambda>c. py_digit c \<or> c = CHR ''.'') v then Some v else None"
  let ?fs = "\<lparr>ls_parent = Parent_Missing, ls_path = Lock_Absent, ls_readable = True, ls_can_create = True,
             ls_can_write = True\<rparr>"
  have "fst (ensure_version_lock ?parse Some ?fs ''1.4.0'' False) = Inr True" by code_simp
  then obtain fs' where fs': "ensure_version_lock ?parse Some ?fs ''1.4.0'' False = (Inr True, fs')"
    by (cases "ensure_version_lock ?parse Some ?fs ''1.4.0'' False") simp
  have "length ''1.4.0'' < max_version_lock_bytes" by code_simp
  from ensure_version_lock_current [where decode = Some, OF refl _ this, of ?fs ?parse False] fs' show ?thesis
    by (simp add: Let_def)
qed

end
