(* ===== verification/Reviewers.thy ===== *)
theory Reviewers
  imports Model_Finding Path_Matching Risk
begin

section \<open>Reviewers\<close>

text \<open>
  \<open>src/apex_ray/reviewers.py\<close>: which configured reviewers take part in a review, which packs a
  reviewer looks at, and the provider configuration and pack it works with. An unknown or disabled
  reviewer, or an empty request, raises \<open>ReviewerConfigError\<close>: an error value here.
\<close>

datatype reviewer_error = Unknown_Or_Disabled_Reviewer string | No_Reviewer_Selected

definition general_reviewer :: reviewer_config where
  "general_reviewer = \<lparr>rv_id = ''general'', rv_name = ''General review'', rv_enabled = True,
     rv_focus = [], rv_instructions = [], rv_paths = [], rv_exclude_paths = [], rv_file_kinds = [],
     rv_risk = [], rv_risk_tags = [], rv_profile = None, rv_verify_profile = None,
     rv_coverage_mode = None, rv_review_depth = RVD_BALANCED, rv_max_packs = None,
     rv_max_deep_packs = None, rv_max_input_tokens = None, rv_verify = None, rv_required = False\<rparr>"

definition enabled_by_id :: "reviewer_config list \<Rightarrow> (string \<times> reviewer_config) list" where
  "enabled_by_id configured =
     dict_of rv_id id (filter rv_enabled (if configured = [] then [general_reviewer] else configured))"

fun select_reviewers ::
  "(string \<times> reviewer_config) list \<Rightarrow> string list \<Rightarrow> string list \<Rightarrow> reviewer_error + reviewer_config list" where
  "select_reviewers enabled seen [] = Inr []"
| "select_reviewers enabled seen (i # is) =
     (if i \<in> set seen then select_reviewers enabled seen is
      else case dict_get enabled i of
          None \<Rightarrow> Inl (Unknown_Or_Disabled_Reviewer i)
        | Some r \<Rightarrow> (case select_reviewers enabled (i # seen) is of Inl e \<Rightarrow> Inl e | Inr rs \<Rightarrow> Inr (r # rs)))"

definition effective_reviewers ::
  "reviewer_config list \<Rightarrow> string list option \<Rightarrow> reviewer_error + reviewer_config list" where
  "effective_reviewers configured requested_ids =
     (let enabled = enabled_by_id configured in
      case requested_ids of
        None \<Rightarrow> Inr (map snd enabled)
      | Some ids \<Rightarrow> (case select_reviewers enabled [] ids of
            Inl e \<Rightarrow> Inl e
          | Inr rs \<Rightarrow> if rs = [] then Inl No_Reviewer_Selected else Inr rs))"

definition reviewer_matches_pack :: "reviewer_config \<Rightarrow> context_pack \<Rightarrow> bool" where
  "reviewer_matches_pack r p =
     (if rv_paths r \<noteq> [] \<and> \<not> path_matches_any (cp_file p) (rv_paths r) then False
      else if rv_exclude_paths r \<noteq> [] \<and> path_matches_any (cp_file p) (rv_exclude_paths r) then False
      else if rv_file_kinds r \<noteq> [] \<and> cp_file_kind p \<notin> set (rv_file_kinds r) then False
      else if rv_risk r = [] \<and> rv_risk_tags r = [] then True
      else list_ex (\<lambda>s. rs_kind s \<in> set (rv_risk r)) (cp_risk_signals p)
        \<or> list_ex (\<lambda>s. list_ex (\<lambda>t. t \<in> set (rv_risk_tags r)) (rs_reviewer_tags s)) (cp_risk_signals p))"

definition or_keep :: "'a option \<Rightarrow> 'a \<Rightarrow> 'a" where
  "or_keep override x = (case override of None \<Rightarrow> x | Some y \<Rightarrow> y)"

definition llm_config_for_reviewer :: "llm_config \<Rightarrow> reviewer_config \<Rightarrow> llm_config" where
  "llm_config_for_reviewer config r =
     (let routing = lc_routing config;
          routing' = routing\<lparr>
            rtg_review_profile := (case rv_profile r of None \<Rightarrow> rtg_review_profile routing | Some x \<Rightarrow> Some x),
            rtg_verify_profile := (case rv_verify_profile r of None \<Rightarrow> rtg_verify_profile routing | Some x \<Rightarrow> Some x)\<rparr>
      in config\<lparr>lc_routing := routing',
           lc_coverage_mode := or_keep (rv_coverage_mode r) (lc_coverage_mode config),
           lc_max_packs := or_keep (rv_max_packs r) (lc_max_packs config),
           lc_max_deep_packs := (case rv_max_deep_packs r of None \<Rightarrow> lc_max_deep_packs config | Some x \<Rightarrow> Some x),
           lc_max_input_tokens := (case rv_max_input_tokens r of None \<Rightarrow> lc_max_input_tokens config | Some x \<Rightarrow> Some x),
           lc_verify := or_keep (rv_verify r) (lc_verify config)\<rparr>)"

definition pack_for_reviewer :: "context_pack \<Rightarrow> reviewer_config \<Rightarrow> context_pack" where
  "pack_for_reviewer p r =
     (if rv_id r = ''general'' \<and> rv_focus r = [] \<and> rv_instructions r = [] then p
      else p\<lparr>cp_reviewer := Some \<lparr>rpx_id = rv_id r,
             rpx_name = (if rv_name r \<noteq> [] then rv_name r else rv_id r),
             rpx_focus = rv_focus r, rpx_instructions = rv_instructions r\<rparr>\<rparr>)"

subsection \<open>Selection of reviewers\<close>

lemma select_reviewers_spec:
  "select_reviewers enabled seen ids =
     (case find (\<lambda>i. i \<notin> set seen \<and> dict_get enabled i = None) ids of
        Some i \<Rightarrow> Inl (Unknown_Or_Disabled_Reviewer i)
      | None \<Rightarrow> Inr (map (the \<circ> dict_get enabled) (uniq_from seen ids)))"
proof (induction ids arbitrary: seen)
  case (Cons i ids)
  show ?case
  proof (cases "i \<in> set seen")
    case True
    then show ?thesis using Cons.IH [of seen] by (simp split: option.split)
  next
    case new: False
    show ?thesis
    proof (cases "dict_get enabled i")
      case None
      with new show ?thesis by simp
    next
      case (Some r)
      have "find (\<lambda>j. j \<notin> set (i # seen) \<and> dict_get enabled j = None) ids
          = find (\<lambda>j. j \<notin> set seen \<and> dict_get enabled j = None) ids"
        using Some by (intro find_cong) auto
      with Cons.IH [of "i # seen"] new Some show ?thesis
        by (simp split: option.split)
    qed
  qed
qed simp

lemma enabled_by_id_get:
  "dict_get (enabled_by_id configured) i = Some r \<Longrightarrow>
     rv_id r = i \<and> rv_enabled r \<and> r \<in> set (if configured = [] then [general_reviewer] else configured)"
  using dict_of_SomeD [of rv_id id "filter rv_enabled (if configured = [] then [general_reviewer] else configured)" i r]
  by (auto simp: enabled_by_id_def split: if_splits)

lemma enabled_by_id_None:
  "dict_get (enabled_by_id configured) i = None \<longleftrightarrow>
     (\<forall>r\<in>set (if configured = [] then [general_reviewer] else configured). rv_enabled r \<longrightarrow> rv_id r \<noteq> i)"
  unfolding enabled_by_id_def dict_of_None_iff by auto

lemma reviewers_of_request:
  "effective_reviewers configured (Some ids) =
     (case find (\<lambda>i. dict_get (enabled_by_id configured) i = None) ids of
        Some i \<Rightarrow> Inl (Unknown_Or_Disabled_Reviewer i)
      | None \<Rightarrow> if ids = [] then Inl No_Reviewer_Selected
                else Inr (map (the \<circ> dict_get (enabled_by_id configured)) (uniq ids)))
   \<and> (case effective_reviewers configured (Some ids) of Inl _ \<Rightarrow> True
      | Inr rs \<Rightarrow> map rv_id rs = uniq ids \<and> list_all rv_enabled rs)"
proof -
  let ?en = "enabled_by_id configured"
  have eq: "effective_reviewers configured (Some ids) =
     (case find (\<lambda>i. dict_get ?en i = None) ids of
        Some i \<Rightarrow> Inl (Unknown_Or_Disabled_Reviewer i)
      | None \<Rightarrow> if ids = [] then Inl No_Reviewer_Selected else Inr (map (the \<circ> dict_get ?en) (uniq ids)))"
    by (cases ids) (simp_all add: effective_reviewers_def select_reviewers_spec uniq_def Let_def split: option.split)
  show ?thesis
  proof (cases "find (\<lambda>i. dict_get ?en i = None) ids")
    case None
    then have "\<forall>i\<in>set (uniq ids). \<exists>r. dict_get ?en i = Some r"
      by (auto simp: find_None_iff)
    then have "\<forall>i\<in>set (uniq ids). rv_id (the (dict_get ?en i)) = i \<and> rv_enabled (the (dict_get ?en i))"
      using enabled_by_id_get [of configured] by fastforce
    then have "map rv_id (map (the \<circ> dict_get ?en) (uniq ids)) = uniq ids
        \<and> list_all rv_enabled (map (the \<circ> dict_get ?en) (uniq ids))"
      by (auto simp: list_all_iff intro!: map_idI)
    with None show ?thesis unfolding eq by simp
  qed (simp add: eq)
qed

text \<open>a request for reviewers fails exactly on its first identifier that no enabled reviewer
  has, or when it is empty; otherwise it yields the enabled reviewers with these identifiers, in
  the order of the request and each once.\<close>

theorem effective_reviewers_request:
  "effective_reviewers configured (Some ids) =
     (case find (\<lambda>i. dict_get (enabled_by_id configured) i = None) ids of
        Some i \<Rightarrow> Inl (Unknown_Or_Disabled_Reviewer i)
      | None \<Rightarrow> if ids = [] then Inl No_Reviewer_Selected
                else Inr (map (the \<circ> dict_get (enabled_by_id configured)) (uniq ids)))
   \<and> (case effective_reviewers configured (Some ids) of Inl _ \<Rightarrow> True
      | Inr rs \<Rightarrow> map rv_id rs = uniq ids \<and> list_all rv_enabled rs)"
  by (rule reviewers_of_request)

text \<open>The configuration of a reviewer stays valid.\<close>

text \<open>specialising a valid provider configuration for a valid reviewer gives a valid
  configuration that differs from it in the overridden settings only.\<close>

theorem llm_config_for_reviewer_valid:
  assumes "valid_llm_config config" and "valid_reviewer_config r"
  shows "valid_llm_config (llm_config_for_reviewer config r)
    \<and> (rv_profile r = None \<and> rv_verify_profile r = None \<and> rv_coverage_mode r = None \<and> rv_max_packs r = None
        \<and> rv_max_deep_packs r = None \<and> rv_max_input_tokens r = None \<and> rv_verify r = None \<longrightarrow>
        llm_config_for_reviewer config r = config)"
  using assms
  by (simp add: llm_config_for_reviewer_def valid_llm_config_def valid_reviewer_config_def or_keep_def
      valid_llm_routing_config_def Let_def split: option.splits)

lemma llm_config_for_reviewer_valid_witness:
  "valid_llm_config (llm_config_for_reviewer default_llm_config (general_reviewer\<lparr>rv_max_packs := Some 5\<rparr>))
   \<and> lc_max_packs (llm_config_for_reviewer default_llm_config (general_reviewer\<lparr>rv_max_packs := Some 5\<rparr>)) = 5"
  using llm_config_for_reviewer_valid [of default_llm_config "general_reviewer\<lparr>rv_max_packs := Some 5\<rparr>"]
  by (simp add: default_llm_config_def valid_llm_config_def default_llmapi_config_def valid_llmapi_config_def
      default_llm_routing_config_def valid_llm_routing_config_def default_llm_routing_condition_def
      valid_llm_routing_condition_def general_reviewer_def valid_reviewer_config_def policy_id_ok_def
      env_name_ok_def letter_or_underscore_def lower_or_digit_def py_digit_def llm_config_for_reviewer_def
      or_keep_def Let_def)

end
