(* ===== verification/Invocation.thy ===== *)
theory Invocation
  imports Version_Lock Reviewers
begin

section \<open>Commands and overrides\<close>

text \<open>
  \<open>src/apex_ray/invocation.py\<close>: how a repository starts Apex Ray, how a command line is written for
  the shell, and the overrides of the command line on a review configuration. \<open>shlex.quote\<close> and
  \<open>shlex.join\<close> are modelled as the standard library has them; \<open>sh_words\<close> and \<open>powershell_words\<close> read
  a command line back, for the quotes that the two renderings use.
\<close>

subsection \<open>Launchers\<close>

datatype launcher_kind = LK_BARE | LK_UVX | LK_SOURCE

record apex_ray_launcher =
  la_kind :: launcher_kind
  la_version :: "string option"

datatype launcher_error =
    Uvx_Requires_Version
  | Launcher_Version_Rejected lock_error
  | Launcher_Takes_No_Version launcher_kind
  | Launcher_And_Version

text \<open>\<open>ApexRayLauncher.__post_init__\<close>.\<close>

definition make_launcher ::
  "(string \<Rightarrow> string option) \<Rightarrow> launcher_kind \<Rightarrow> string option \<Rightarrow> launcher_error + apex_ray_launcher" where
  "make_launcher parse kind version =
     (if kind = LK_UVX then
        (case version of
           None \<Rightarrow> Inl Uvx_Requires_Version
         | Some v \<Rightarrow> (case render_uvx_argv parse v [] of
               Inl e \<Rightarrow> Inl (Launcher_Version_Rejected e)
             | Inr _ \<Rightarrow> Inr \<lparr>la_kind = kind, la_version = version\<rparr>))
      else if version \<noteq> None then Inl (Launcher_Takes_No_Version kind)
      else Inr \<lparr>la_kind = kind, la_version = None\<rparr>)"

definition launcher_argv ::
  "(string \<Rightarrow> string option) \<Rightarrow> apex_ray_launcher \<Rightarrow> string list \<Rightarrow> launcher_error + string list" where
  "launcher_argv parse l arguments =
     (case la_kind l of
        LK_UVX \<Rightarrow> map_sum Launcher_Version_Rejected id
          (render_uvx_argv parse (case la_version l of None \<Rightarrow> [] | Some v \<Rightarrow> v) arguments)
      | LK_SOURCE \<Rightarrow> Inr ([''uv'', ''run'', ''--locked'', ''apex-ray''] @ arguments)
      | LK_BARE \<Rightarrow> Inr (''apex-ray'' # arguments))"

subsection \<open>Quoting\<close>

definition apostrophe :: char where
  "apostrophe = CHR 0x27"

definition quotation :: char where
  "quotation = CHR 0x22"

definition shell_safe :: "char \<Rightarrow> bool" where
  "shell_safe c \<longleftrightarrow> letter_or_underscore c \<or> py_digit c \<or> c \<in> set ''@%+=:,./-''"

definition shlex_quote :: "string \<Rightarrow> string" where
  "shlex_quote s =
     (if s = [] then [apostrophe, apostrophe]
      else if list_all shell_safe s then s
      else [apostrophe]
        @ concat (map (\<lambda>c. if c = apostrophe then [apostrophe, quotation, apostrophe, quotation, apostrophe] else [c]) s)
        @ [apostrophe])"

definition shlex_join :: "string list \<Rightarrow> string" where
  "shlex_join args = join '' '' (map shlex_quote args)"

definition quote_powershell_argument :: "string \<Rightarrow> string" where
  "quote_powershell_argument v =
     [apostrophe] @ concat (map (\<lambda>c. if c = apostrophe then [apostrophe, apostrophe] else [c]) v) @ [apostrophe]"

definition render_shell_command :: "string \<Rightarrow> string list \<Rightarrow> string" where
  "render_shell_command platform_name args =
     (if platform_name = ''nt'' then ''& '' @ join '' '' (map quote_powershell_argument args)
      else shlex_join args)"

definition render_apex_ray_command ::
  "(string \<Rightarrow> string option) \<Rightarrow> string \<Rightarrow> string list \<Rightarrow> apex_ray_launcher option \<Rightarrow> string option
     \<Rightarrow> launcher_error + string" where
  "render_apex_ray_command parse platform_name args launcher launcher_version =
     (if launcher \<noteq> None \<and> launcher_version \<noteq> None then Inl Launcher_And_Version
      else
        case (case launcher of
            Some l \<Rightarrow> Inr l
          | None \<Rightarrow> (case launcher_version of
                Some v \<Rightarrow> make_launcher parse LK_UVX (Some v)
              | None \<Rightarrow> make_launcher parse LK_BARE None)) of
          Inl e \<Rightarrow> Inl e
        | Inr l \<Rightarrow> map_sum id (render_shell_command platform_name) (launcher_argv parse l args))"

subsection \<open>Reading a command line back\<close>

text \<open>A POSIX shell reads blanks between words, single quotes literally and, between double quotes
  that hold no escape, the text literally too.\<close>

definition append_word :: "string option \<Rightarrow> string \<Rightarrow> string option" where
  "append_word w s = Some ((case w of None \<Rightarrow> [] | Some x \<Rightarrow> x) @ s)"

function sh_words :: "string option \<Rightarrow> string \<Rightarrow> string list option" where
  "sh_words w [] = Some (case w of None \<Rightarrow> [] | Some x \<Rightarrow> [x])"
| "sh_words w (c # cs) =
     (if c = CHR '' '' then (case w of None \<Rightarrow> sh_words None cs | Some x \<Rightarrow> map_option ((#) x) (sh_words None cs))
      else if c = apostrophe \<or> c = quotation then
        (case partition_char c cs of (body, found, rest) \<Rightarrow>
           if found then sh_words (append_word w body) rest else None)
      else sh_words (append_word w [c]) cs)"
  by pat_completeness auto

termination
  by (relation "measure (\<lambda>(w, s). length s)") (auto dest!: partition_char_length [OF sym] simp: le_imp_less_Suc)

text \<open>PowerShell reads an argument between single quotes, in which a doubled quote is one quote.\<close>

fun powershell_words :: "string option \<Rightarrow> string \<Rightarrow> string list option" where
  "powershell_words None [] = Some []"
| "powershell_words (Some w) [] = None"
| "powershell_words None (c # cs) =
     (if c = CHR '' '' then powershell_words None cs
      else if c = apostrophe then powershell_words (Some []) cs
      else None)"
| "powershell_words (Some w) [c] = (if c = apostrophe then Some [w] else None)"
| "powershell_words (Some w) (c # d # cs) =
     (if c \<noteq> apostrophe then powershell_words (Some (w @ [c])) (d # cs)
      else if d = apostrophe then powershell_words (Some (w @ [apostrophe])) cs
      else map_option ((#) w) (powershell_words None (d # cs)))"

lemma partition_char_hit: "a \<notin> set p \<Longrightarrow> partition_char a (p @ a # t) = (p, True, t)"
  by (induction p) auto

lemma append_word_append [simp]: "append_word (append_word w x) y = append_word w (x @ y)"
  by (simp add: append_word_def)

lemma append_word_None [simp]: "append_word None x = Some x"
  by (simp add: append_word_def)

lemma shell_safe_plain: "shell_safe c \<Longrightarrow> c \<noteq> CHR '' '' \<and> c \<noteq> apostrophe \<and> c \<noteq> quotation"
  by (auto simp: shell_safe_def apostrophe_def quotation_def letter_or_underscore_def py_digit_def)

lemma sh_words_safe:
  "\<lbrakk>list_all shell_safe s; s \<noteq> []\<rbrakk> \<Longrightarrow> sh_words w (s @ t) = sh_words (append_word w s) t"
proof (induction s arbitrary: w)
  case (Cons c s)
  then have c: "c \<noteq> CHR '' ''" "c \<noteq> apostrophe" "c \<noteq> quotation" using shell_safe_plain [of c] by simp_all
  show ?case
  proof (cases "s = []")
    case False
    with Cons.IH [of "append_word w [c]"] Cons.prems c show ?thesis by simp
  qed (use c in simp)
qed simp

definition sh_escaped :: "string \<Rightarrow> string" where
  "sh_escaped s =
     concat (map (\<lambda>c. if c = apostrophe then [apostrophe, quotation, apostrophe, quotation, apostrophe] else [c]) s)"

lemma sh_escaped_plain: "apostrophe \<notin> set s \<Longrightarrow> sh_escaped s = s"
  unfolding sh_escaped_def by (induction s) auto

lemma sh_escaped_append: "sh_escaped (p @ apostrophe # s) =
    sh_escaped p @ [apostrophe, quotation, apostrophe, quotation, apostrophe] @ sh_escaped s"
  by (simp add: sh_escaped_def)

lemma quote_chars: "apostrophe \<noteq> CHR '' ''" "quotation \<noteq> CHR '' ''" "apostrophe \<noteq> quotation" "quotation \<noteq> apostrophe"
  by (simp_all add: apostrophe_def quotation_def)

lemma sh_words_quoted:
  "sh_words w (apostrophe # sh_escaped s @ apostrophe # t) = sh_words (append_word w s) t"
proof (induction s arbitrary: w rule: measure_induct_rule [where f = length])
  case (less s)
  show ?case
  proof (cases "apostrophe \<in> set s")
    case False
    then show ?thesis by (simp add: sh_escaped_plain partition_char_hit quote_chars)
  next
    case True
    then obtain p s' where s: "s = p @ apostrophe # s'" "apostrophe \<notin> set p" by (metis split_list_first)
    have "partition_char quotation (apostrophe # quotation # u) = ([apostrophe], True, u)" for u
      by (simp add: quote_chars)
    with less [of s' "append_word w (p @ [apostrophe])"] s show ?thesis
      by (simp add: sh_escaped_append sh_escaped_plain partition_char_hit quote_chars)
  qed
qed

lemma sh_words_quote: "sh_words None (shlex_quote s @ t) = sh_words (Some s) t"
proof (cases "s \<noteq> [] \<and> list_all shell_safe s")
  case True
  then show ?thesis using sh_words_safe [of s None t] by (simp add: shlex_quote_def)
next
  case False
  have "shlex_quote s @ t = apostrophe # sh_escaped s @ apostrophe # t"
    using False by (auto simp: shlex_quote_def sh_escaped_def)
  then show ?thesis by (simp only: sh_words_quoted append_word_None)
qed

lemma sh_words_join: "sh_words None (shlex_join args) = Some args"
  unfolding shlex_join_def
proof (induction args)
  case (Cons a args)
  show ?case
  proof (cases "args = []")
    case True
    then show ?thesis using sh_words_quote [of a "[]"] by simp
  next
    case False
    then have "join '' '' (map shlex_quote (a # args)) = shlex_quote a @ CHR '' '' # join '' '' (map shlex_quote args)"
      by (cases args) simp_all
    then show ?thesis using Cons.IH by (simp add: sh_words_quote)
  qed
qed simp

definition ps_escaped :: "string \<Rightarrow> string" where
  "ps_escaped v = concat (map (\<lambda>c. if c = apostrophe then [apostrophe, apostrophe] else [c]) v)"

lemma powershell_words_step:
  "c \<noteq> apostrophe \<Longrightarrow> powershell_words (Some w) (c # u @ apostrophe # t) = powershell_words (Some (w @ [c])) (u @ apostrophe # t)"
  by (cases u) simp_all

lemma powershell_words_quoted:
  "powershell_words (Some w) (ps_escaped v @ [apostrophe]) = Some [w @ v]"
  "powershell_words (Some w) (ps_escaped v @ apostrophe # CHR '' '' # t)
     = map_option ((#) (w @ v)) (powershell_words None t)"
proof (induction v arbitrary: w)
  case Nil
  {
    case 1
    show ?case by (simp add: ps_escaped_def)
  next
    case 2
    show ?case using quote_chars by (simp add: ps_escaped_def)
  }
next
  case (Cons c v)
  have "powershell_words (Some w) (ps_escaped (c # v) @ apostrophe # t)
      = powershell_words (Some (w @ [c])) (ps_escaped v @ apostrophe # t)" for w t
    by (cases "c = apostrophe") (simp_all add: ps_escaped_def powershell_words_step)
  note step = this
  {
    case 1
    show ?case using trans [OF step [of _ "[]"] Cons(1) [of "w @ [c]"]] by simp
  next
    case 2
    show ?case using trans [OF step [of _ "CHR '' '' # t"] Cons(2) [of "w @ [c]"]] by simp
  }
qed

lemma powershell_words_join: "powershell_words None (join '' '' (map quote_powershell_argument args)) = Some args"
proof (induction args)
  case (Cons a args)
  have quote: "quote_powershell_argument a = apostrophe # ps_escaped a @ [apostrophe]"
    by (simp add: quote_powershell_argument_def ps_escaped_def)
  show ?case
  proof (cases "args = []")
    case True
    then show ?thesis using powershell_words_quoted(1) [of "[]" a] by (simp add: quote quote_chars)
  next
    case False
    then have "join '' '' (map quote_powershell_argument (a # args))
        = apostrophe # ps_escaped a @ apostrophe # CHR '' '' # join '' '' (map quote_powershell_argument args)"
      by (cases args) (simp_all add: quote)
    then show ?thesis
      using Cons.IH powershell_words_quoted(2) [of "[]" a "join '' '' (map quote_powershell_argument args)"]
      by (simp add: quote_chars)
  qed
qed simp



subsection \<open>Overrides\<close>

record review_overrides =
  ov_llm_enabled :: "bool option"
  ov_provider :: "llm_provider_name option"
  ov_model :: "string option"
  ov_clear_routing_on_model :: bool
  ov_verify :: "bool option"
  ov_cache_allowed :: "bool option"
  ov_refresh_cache :: bool
  ov_cache_dir :: "string option"
  ov_default_cache_dir :: "string option"
  ov_llm_jobs :: "int option"
  ov_coverage_mode :: "llm_coverage_mode option"
  ov_max_deep_packs :: "int option"
  ov_max_input_tokens :: "int option"
  ov_analyzer_cache_allowed :: "bool option"
  ov_refresh_analyzer_cache :: bool
  ov_analyzer_cache_dir :: "string option"
  ov_analyzer_timeout_seconds :: "int option"
  ov_max_packs :: "int option"

definition no_overrides :: review_overrides where
  "no_overrides = \<lparr>ov_llm_enabled = None, ov_provider = None, ov_model = None,
     ov_clear_routing_on_model = True, ov_verify = None, ov_cache_allowed = None, ov_refresh_cache = False,
     ov_cache_dir = None, ov_default_cache_dir = None, ov_llm_jobs = None, ov_coverage_mode = None,
     ov_max_deep_packs = None, ov_max_input_tokens = None, ov_analyzer_cache_allowed = None,
     ov_refresh_analyzer_cache = False, ov_analyzer_cache_dir = None, ov_analyzer_timeout_seconds = None,
     ov_max_packs = None\<rparr>"

text \<open>An override that is not given changes nothing.\<close>

definition given :: "'a option \<Rightarrow> ('a \<Rightarrow> 'c \<Rightarrow> 'c) \<Rightarrow> 'c \<Rightarrow> 'c" where
  "given v f c = (case v of None \<Rightarrow> c | Some x \<Rightarrow> f x c)"

definition on_llm :: "(llm_config \<Rightarrow> llm_config) \<Rightarrow> review_config \<Rightarrow> review_config" where
  "on_llm f c = c\<lparr>rc_llm := f (rc_llm c)\<rparr>"

definition on_reviewers :: "(reviewer_config \<Rightarrow> reviewer_config) \<Rightarrow> review_config \<Rightarrow> review_config" where
  "on_reviewers f c = c\<lparr>rc_reviewers := map f (rc_reviewers c)\<rparr>"

definition on_analyzer :: "(analyzer_config \<Rightarrow> analyzer_config) \<Rightarrow> review_config \<Rightarrow> review_config" where
  "on_analyzer f c = c\<lparr>rc_analyzer := f (rc_analyzer c)\<rparr>"

definition override_profile ::
  "llm_provider_name \<Rightarrow> llm_provider_name \<Rightarrow> llm_profile \<Rightarrow> llm_profile" where
  "override_profile inherited provider p =
     (let before = (case pf_provider p of None \<Rightarrow> inherited | Some q \<Rightarrow> q);
          p' = p\<lparr>pf_provider := Some provider\<rparr>
      in if before \<noteq> provider then p'\<lparr>pf_api := None\<rparr> else p')"

definition override_provider :: "llm_provider_name \<Rightarrow> llm_config \<Rightarrow> llm_config" where
  "override_provider provider c =
     c\<lparr>lc_provider := provider,
       lc_api := (if lc_provider c \<noteq> provider then default_llmapi_config else lc_api c),
       lc_profiles := map (\<lambda>(k, p). (k, override_profile (lc_provider c) provider p)) (lc_profiles c)\<rparr>"

definition override_model :: "bool \<Rightarrow> string \<Rightarrow> review_config \<Rightarrow> review_config" where
  "override_model clear_routing model c =
     (let c' = on_llm (\<lambda>l. l\<lparr>lc_model := Some model\<rparr>) c in
      if clear_routing
      then (on_reviewers (\<lambda>r. r\<lparr>rv_profile := None, rv_verify_profile := None\<rparr>)
             (on_llm (\<lambda>l. l\<lparr>lc_profiles := [], lc_routing := default_llm_routing_config\<rparr>) c'))
             \<lparr>rc_rule_definitions := map (\<lambda>r. r\<lparr>rr_model := None, rr_verify := None\<rparr>) (rc_rule_definitions c')\<rparr>
      else c')"

definition override_cache_dir :: "string option \<Rightarrow> string option \<Rightarrow> llm_config \<Rightarrow> llm_config" where
  "override_cache_dir cache_dir default_dir l =
     (case cache_dir of
        Some d \<Rightarrow> l\<lparr>lc_cache_dir := Some d\<rparr>
      | None \<Rightarrow> (case default_dir of
            Some d \<Rightarrow> if lc_cache_enabled l \<and> (lc_cache_dir l = None \<or> lc_cache_dir l = Some [])
                      then l\<lparr>lc_cache_dir := Some d\<rparr> else l
          | None \<Rightarrow> l))"

definition apply_review_overrides :: "review_config \<Rightarrow> review_overrides \<Rightarrow> review_config" where
  "apply_review_overrides config ov =
     (let c1 = given (ov_llm_enabled ov) (\<lambda>b. on_llm (\<lambda>l. l\<lparr>lc_enabled := b\<rparr>)) config;
          c2 = given (ov_provider ov) (\<lambda>p. on_llm (override_provider p)) c1;
          c3 = given (ov_model ov) (override_model (ov_clear_routing_on_model ov)) c2;
          c4 = given (ov_verify ov) (\<lambda>b c. on_reviewers (\<lambda>r. r\<lparr>rv_verify := Some b\<rparr>) (on_llm (\<lambda>l. l\<lparr>lc_verify := b\<rparr>) c)) c3;
          c5 = given (ov_cache_allowed ov) (\<lambda>b. on_llm (\<lambda>l. l\<lparr>lc_cache_enabled := b \<and> lc_cache_enabled l\<rparr>)) c4;
          c6 = (if ov_refresh_cache ov then on_llm (\<lambda>l. l\<lparr>lc_refresh_cache := True\<rparr>) c5 else c5);
          c7 = on_llm (override_cache_dir (ov_cache_dir ov) (ov_default_cache_dir ov)) c6;
          c8 = given (ov_llm_jobs ov) (\<lambda>n. on_llm (\<lambda>l. l\<lparr>lc_jobs := n\<rparr>)) c7;
          c9 = given (ov_coverage_mode ov) (\<lambda>m c. on_reviewers (\<lambda>r. r\<lparr>rv_coverage_mode := Some m\<rparr>)
                 (on_llm (\<lambda>l. l\<lparr>lc_coverage_mode := m\<rparr>) c)) c8;
          c10 = given (ov_max_packs ov) (\<lambda>n c. on_reviewers (\<lambda>r. r\<lparr>rv_max_packs := Some n\<rparr>)
                 (on_llm (\<lambda>l. l\<lparr>lc_max_packs := n\<rparr>) c)) c9;
          c11 = given (ov_max_deep_packs ov) (\<lambda>n c. on_reviewers (\<lambda>r. r\<lparr>rv_max_deep_packs := Some n\<rparr>)
                 (on_llm (\<lambda>l. l\<lparr>lc_max_deep_packs := Some n\<rparr>) c)) c10;
          c12 = given (ov_max_input_tokens ov) (\<lambda>n c. on_reviewers (\<lambda>r. r\<lparr>rv_max_input_tokens := Some n\<rparr>)
                 (on_llm (\<lambda>l. l\<lparr>lc_max_input_tokens := Some n\<rparr>) c)) c11;
          c13 = given (ov_analyzer_cache_allowed ov)
                 (\<lambda>b. on_analyzer (\<lambda>a. a\<lparr>ac_index_cache_enabled := b \<and> ac_index_cache_enabled a\<rparr>)) c12;
          c14 = (if ov_refresh_analyzer_cache ov then on_analyzer (\<lambda>a. a\<lparr>ac_refresh_index_cache := True\<rparr>) c13 else c13);
          c15 = given (ov_analyzer_cache_dir ov) (\<lambda>d. on_analyzer (\<lambda>a. a\<lparr>ac_index_cache_dir := Some d\<rparr>)) c14
      in given (ov_analyzer_timeout_seconds ov) (\<lambda>n. on_analyzer (\<lambda>a. a\<lparr>ac_timeout_seconds := n\<rparr>)) c15)"

text \<open>A setting that one stage of the overrides makes and the later stages keep.\<close>

definition settled :: "(llm_config \<Rightarrow> bool) \<Rightarrow> (reviewer_config \<Rightarrow> bool) \<Rightarrow> review_config \<Rightarrow> bool" where
  "settled Q R c \<longleftrightarrow> Q (rc_llm c) \<and> list_all R (rc_reviewers c)"

lemma given_simps [simp]: "given (Some x) f c = f x c" "given None f c = c"
  by (simp_all add: given_def)

lemma settled_on_llm: "\<lbrakk>settled Q R c; \<And>l. Q l \<Longrightarrow> Q (f l)\<rbrakk> \<Longrightarrow> settled Q R (on_llm f c)"
  by (simp add: settled_def on_llm_def)

lemma settled_on_analyzer: "settled Q R c \<Longrightarrow> settled Q R (on_analyzer f c)"
  by (simp add: settled_def on_analyzer_def)

lemma settled_given_llm:
  "\<lbrakk>settled Q R c; \<And>x l. Q l \<Longrightarrow> Q (f x l)\<rbrakk> \<Longrightarrow> settled Q R (given v (\<lambda>x. on_llm (f x)) c)"
  by (cases v) (simp_all add: settled_on_llm)

lemma settled_given_analyzer: "settled Q R c \<Longrightarrow> settled Q R (given v (\<lambda>x. on_analyzer (f x)) c)"
  by (cases v) (simp_all add: settled_on_analyzer)

lemma settled_given_both:
  "\<lbrakk>settled Q R c; \<And>x l. Q l \<Longrightarrow> Q (f x l); \<And>x r. R r \<Longrightarrow> R (g x r)\<rbrakk>
    \<Longrightarrow> settled Q R (given v (\<lambda>x c. on_reviewers (g x) (on_llm (f x) c)) c)"
  by (cases v) (simp_all add: settled_def on_llm_def on_reviewers_def list_all_iff)

lemma settled_if_llm: "\<lbrakk>settled Q R c; \<And>l. Q l \<Longrightarrow> Q (f l)\<rbrakk> \<Longrightarrow> settled Q R (if b then on_llm f c else c)"
  by (simp add: settled_on_llm)

lemma settled_if_analyzer: "settled Q R c \<Longrightarrow> settled Q R (if b then on_analyzer f c else c)"
  by (simp add: settled_on_analyzer)

lemma settled_made: "\<lbrakk>\<And>l. Q (f l); \<And>r. R (g r)\<rbrakk> \<Longrightarrow> settled Q R (on_reviewers g (on_llm f c))"
  by (simp add: settled_def on_llm_def on_reviewers_def list_all_iff)

lemma override_cache_dir_keeps:
  "lc_coverage_mode (override_cache_dir a b l) = lc_coverage_mode l"
  "lc_max_packs (override_cache_dir a b l) = lc_max_packs l"
  "lc_max_deep_packs (override_cache_dir a b l) = lc_max_deep_packs l"
  "lc_max_input_tokens (override_cache_dir a b l) = lc_max_input_tokens l"
  "lc_verify (override_cache_dir a b l) = lc_verify l"
  "lc_model (override_cache_dir a b l) = lc_model l"
  "lc_profiles (override_cache_dir a b l) = lc_profiles l"
  "lc_routing (override_cache_dir a b l) = lc_routing l"
  by (simp_all add: override_cache_dir_def split: option.split)

lemma settled_model_made:
  "settled (\<lambda>l. lc_model l = Some x \<and> (clear \<longrightarrow> lc_profiles l = [] \<and> lc_routing l = default_llm_routing_config))
     (\<lambda>r. clear \<longrightarrow> rv_profile r = None \<and> rv_verify_profile r = None) (override_model clear x c)"
  by (simp add: override_model_def settled_def on_llm_def on_reviewers_def list_all_iff Let_def)

lemmas settled_intros = settled_given_llm settled_given_analyzer settled_given_both settled_if_llm settled_if_analyzer
  settled_on_llm settled_made settled_model_made

lemma settled_overrides:
  shows "ov_coverage_mode ov = Some m \<Longrightarrow> settled (\<lambda>l. lc_coverage_mode l = m) (\<lambda>r. rv_coverage_mode r = Some m)
      (apply_review_overrides config ov)"
    and "ov_max_packs ov = Some n \<Longrightarrow> settled (\<lambda>l. lc_max_packs l = n) (\<lambda>r. rv_max_packs r = Some n)
      (apply_review_overrides config ov)"
    and "ov_max_deep_packs ov = Some n \<Longrightarrow> settled (\<lambda>l. lc_max_deep_packs l = Some n) (\<lambda>r. rv_max_deep_packs r = Some n)
      (apply_review_overrides config ov)"
    and "ov_max_input_tokens ov = Some n \<Longrightarrow> settled (\<lambda>l. lc_max_input_tokens l = Some n) (\<lambda>r. rv_max_input_tokens r = Some n)
      (apply_review_overrides config ov)"
    and "ov_verify ov = Some b \<Longrightarrow> settled (\<lambda>l. lc_verify l = b) (\<lambda>r. rv_verify r = Some b)
      (apply_review_overrides config ov)"
    and "ov_model ov = Some x \<Longrightarrow> settled
      (\<lambda>l. lc_model l = Some x \<and> (ov_clear_routing_on_model ov \<longrightarrow> lc_profiles l = [] \<and> lc_routing l = default_llm_routing_config))
      (\<lambda>r. ov_clear_routing_on_model ov \<longrightarrow> rv_profile r = None \<and> rv_verify_profile r = None)
      (apply_review_overrides config ov)"
  unfolding apply_review_overrides_def Let_def
  by (simp_all only: given_simps) (intro settled_intros; simp add: override_cache_dir_keeps)+

text \<open>an override of the command line wins for every reviewer: whatever a configured reviewer
  asks for, the provider configuration it works with has the overriding coverage mode, limits and
  verification, and with an overriding model no profile is left that could replace the model. Without
  overrides nothing changes.\<close>

theorem overrides_win_for_reviewers:
  assumes "r \<in> set (rc_reviewers (apply_review_overrides config ov))"
  defines "c \<equiv> llm_config_for_reviewer (rc_llm (apply_review_overrides config ov)) r"
  shows "lc_coverage_mode c = or_keep (ov_coverage_mode ov) (lc_coverage_mode c)
    \<and> lc_max_packs c = or_keep (ov_max_packs ov) (lc_max_packs c)
    \<and> (ov_max_deep_packs ov = None \<or> lc_max_deep_packs c = ov_max_deep_packs ov)
    \<and> (ov_max_input_tokens ov = None \<or> lc_max_input_tokens c = ov_max_input_tokens ov)
    \<and> lc_verify c = or_keep (ov_verify ov) (lc_verify c)
    \<and> (ov_model ov = None \<or> lc_model c = ov_model ov \<and> (ov_clear_routing_on_model ov \<longrightarrow>
          lc_profiles c = [] \<and> lc_routing c = default_llm_routing_config))
    \<and> apply_review_overrides config no_overrides = config"
proof -
  let ?c = "apply_review_overrides config ov"
  have use: "Q (rc_llm ?c) \<and> R r" if "settled Q R ?c" for Q R
    using that assms(1) by (auto simp: settled_def list_all_iff)
  have "apply_review_overrides config no_overrides = config"
    by (simp add: apply_review_overrides_def no_overrides_def on_llm_def override_cache_dir_def Let_def)
  moreover have "lc_coverage_mode c = m" if "ov_coverage_mode ov = Some m" for m
    using use [OF settled_overrides(1) [OF that]] by (simp add: c_def llm_config_for_reviewer_def or_keep_def Let_def)
  moreover have "lc_max_packs c = n" if "ov_max_packs ov = Some n" for n
    using use [OF settled_overrides(2) [OF that]] by (simp add: c_def llm_config_for_reviewer_def or_keep_def Let_def)
  moreover have "lc_max_deep_packs c = Some n" if "ov_max_deep_packs ov = Some n" for n
    using use [OF settled_overrides(3) [OF that]] by (simp add: c_def llm_config_for_reviewer_def Let_def)
  moreover have "lc_max_input_tokens c = Some n" if "ov_max_input_tokens ov = Some n" for n
    using use [OF settled_overrides(4) [OF that]] by (simp add: c_def llm_config_for_reviewer_def Let_def)
  moreover have "lc_verify c = b" if "ov_verify ov = Some b" for b
    using use [OF settled_overrides(5) [OF that]] by (simp add: c_def llm_config_for_reviewer_def or_keep_def Let_def)
  moreover have "lc_model c = Some x \<and> (ov_clear_routing_on_model ov \<longrightarrow>
      lc_profiles c = [] \<and> lc_routing c = default_llm_routing_config)" if "ov_model ov = Some x" for x
    using use [OF settled_overrides(6) [OF that]]
    by (simp add: c_def llm_config_for_reviewer_def default_llm_routing_config_def Let_def)
  ultimately show ?thesis
    by (cases "ov_coverage_mode ov"; cases "ov_max_packs ov"; cases "ov_max_deep_packs ov";
        cases "ov_max_input_tokens ov"; cases "ov_verify ov"; cases "ov_model ov") (simp_all add: or_keep_def)
qed

lemma overrides_win_for_reviewers_witness:
  "let config = default_review_config\<lparr>rc_reviewers := [general_reviewer\<lparr>rv_max_packs := Some 5\<rparr>]\<rparr>;
       effective = apply_review_overrides config (no_overrides\<lparr>ov_max_packs := Some 2\<rparr>)
   in lc_max_packs (llm_config_for_reviewer (rc_llm effective) (general_reviewer\<lparr>rv_max_packs := Some 2\<rparr>)) = 2"
proof -
  let ?config = "default_review_config\<lparr>rc_reviewers := [general_reviewer\<lparr>rv_max_packs := Some 5\<rparr>]\<rparr>"
  let ?ov = "no_overrides\<lparr>ov_max_packs := Some 2\<rparr>"
  have "general_reviewer\<lparr>rv_max_packs := Some 2\<rparr> \<in> set (rc_reviewers (apply_review_overrides ?config ?ov))"
    by (simp add: apply_review_overrides_def no_overrides_def on_llm_def on_reviewers_def Let_def)
  from overrides_win_for_reviewers [OF this] show ?thesis
    by (simp add: Let_def or_keep_def no_overrides_def)
qed

end
