(* ===== verification/Coverage_Gate.thy ===== *)
theory Coverage_Gate
  imports Coverage_Breakdown Invocation
begin

section \<open>The quality gate of a review\<close>

text \<open>
  \<open>src/apex_ray/report/coverage.py\<close>, the parts that judge a coverage: why a pack is unreviewed, the
  quality gate, the severity of a partial review, the residual risk and status of a pack, the to-dos with
  the commands that settle them, and the lines that summarise a coverage. \<open>os_name\<close> is \<open>os.name\<close>.
\<close>

subsection \<open>Why a pack is unreviewed\<close>

definition coverage_unreviewed_pack_reason ::
  "string \<Rightarrow> bool \<Rightarrow> int \<Rightarrow> int \<Rightarrow> string list \<Rightarrow> llm_context_selection option \<Rightarrow> string" where
  "coverage_unreviewed_pack_reason pack_id enabled total_packs max_packs over_budget selection =
     (case (case selection of None \<Rightarrow> None | Some s \<Rightarrow> dict_get (sel_skipped_context_pack_reasons s) pack_id) of
        Some reason \<Rightarrow> reason
      | None \<Rightarrow>
          if \<not> enabled then ''LLM review disabled''
          else if pack_id \<in> set over_budget then ''over context budget''
          else if max_packs < total_packs then ''not selected by LLM pack cap or later filtering''
          else ''no review run recorded'')"

definition pack_status_for_unreviewed_reason :: "string \<Rightarrow> string" where
  "pack_status_for_unreviewed_reason reason =
     (if reason = ''over context budget'' then ''skipped_context_too_large''
      else if reason = ''not selected by LLM token budget'' then ''skipped_token_budget''
      else if reason = ''not selected by LLM pack cap'' then ''skipped_pack_cap''
      else if reason = ''LLM review disabled'' then ''skipped_llm_disabled''
      else ''unreviewed'')"

subsection \<open>Gate and severity\<close>

text \<open>What the two judgements read: ratios and counts.\<close>

record coverage_facts =
  cfa_enabled :: bool
  cfa_total :: int
  cfa_coverage_ratio :: rat
  cfa_source_ratio :: rat
  cfa_high_risk_ratio :: rat
  cfa_min_source :: rat
  cfa_min_high_risk :: rat
  cfa_p0 :: int
  cfa_p1 :: int
  cfa_shallow_only :: int
  cfa_unreviewed :: int
  cfa_failed_reviews :: int
  cfa_failed_verifications :: int
  cfa_failed_review_statuses :: "(string \<times> int) list"
  cfa_failed_verify_statuses :: "(string \<times> int) list"

definition gate_failures :: "coverage_facts \<Rightarrow> string list" where
  "gate_failures f =
     (if cfa_min_source f \<noteq> 0 \<and> cfa_source_ratio f < cfa_min_source f
      then [''Source changed-line coverage below threshold: '' @ fmt_percent1 (cfa_source_ratio f)
        @ '' < '' @ fmt_percent1 (cfa_min_source f)] else [])
     @ (if cfa_min_high_risk f \<noteq> 0 \<and> cfa_high_risk_ratio f < cfa_min_high_risk f
      then [''High-risk coverage below threshold: '' @ fmt_percent1 (cfa_high_risk_ratio f)
        @ '' < '' @ fmt_percent1 (cfa_min_high_risk f)] else [])"

definition gate_reasons :: "coverage_facts \<Rightarrow> string list" where
  "gate_reasons f =
     (let reasons =
        (if cfa_p0 f \<noteq> 0 then [''Unreviewed P0 residual risk: '' @ str_int (cfa_p0 f) @ '' context pack(s)''] else [])
        @ (if cfa_p1 f \<noteq> 0 then [''Unreviewed P1 residual risk: '' @ str_int (cfa_p1 f) @ '' context pack(s)''] else [])
        @ (if cfa_shallow_only f \<noteq> 0
           then [''High-risk packs reviewed only shallowly: '' @ str_int (cfa_shallow_only f)] else [])
        @ gate_failures f
      in if cfa_unreviewed f \<noteq> 0 \<and> reasons = []
         then [''Unreviewed context packs: '' @ str_int (cfa_unreviewed f)] else reasons)"

definition coverage_quality_gate :: "coverage_facts \<Rightarrow> string \<times> string list" where
  "coverage_quality_gate f =
     (if \<not> cfa_enabled f then (''disabled'', [''LLM review disabled''])
      else if cfa_total f = 0 then (''pass'', [])
      else
        let reasons = gate_reasons f in
        if cfa_p0 f \<noteq> 0 \<or> gate_failures f \<noteq> [] then (''fail'', reasons)
        else if reasons \<noteq> [] \<or> cfa_coverage_ratio f < 1
        then (''warn'', if reasons \<noteq> [] then reasons
                        else [''LLM coverage ratio below 100%: '' @ fmt_percent1 (cfa_coverage_ratio f)])
        else (''pass'', []))"

definition format_failed_run_reason :: "string \<Rightarrow> int \<Rightarrow> (string \<times> int) list \<Rightarrow> string" where
  "format_failed_run_reason kind whole counts =
     (let details = join '', '' (map (\<lambda>(s, n). s @ '': '' @ str_int n) counts);
          suffix = (if details \<noteq> [] then '' ('' @ details @ '')'' else [])
      in str_int whole @ '' '' @ kind @ '' run(s) failed'' @ suffix)"

definition partial_reasons :: "coverage_facts \<Rightarrow> string list" where
  "partial_reasons f =
     (let reasons =
        (if cfa_p0 f \<noteq> 0 then [str_int (cfa_p0 f) @ '' unreviewed P0 context pack(s)''] else [])
        @ (if cfa_p1 f \<noteq> 0 then [str_int (cfa_p1 f) @ '' unreviewed P1 context pack(s)''] else [])
        @ (if cfa_shallow_only f \<noteq> 0
           then [str_int (cfa_shallow_only f) @ '' high-risk context pack(s) only reviewed shallowly''] else [])
        @ (if cfa_failed_reviews f \<noteq> 0
           then [format_failed_run_reason ''review'' (cfa_failed_reviews f) (cfa_failed_review_statuses f)] else [])
        @ (if cfa_failed_verifications f \<noteq> 0
           then [format_failed_run_reason ''verifier'' (cfa_failed_verifications f) (cfa_failed_verify_statuses f)] else [])
      in if cfa_coverage_ratio f < 1 \<and> reasons = []
         then [str_int (cfa_unreviewed f) @ '' context pack(s) unreviewed''] else reasons)"

definition coverage_partial_severity :: "coverage_facts \<Rightarrow> partial_severity \<times> string list" where
  "coverage_partial_severity f =
     (if \<not> cfa_enabled f \<or> cfa_total f = 0 then (PS_NONE, [])
      else
        let reasons = partial_reasons f in
        if cfa_p0 f \<noteq> 0 \<or> cfa_high_risk_ratio f < 1 then (PS_CRITICAL, reasons)
        else if cfa_failed_reviews f \<noteq> 0 \<or> cfa_failed_verifications f \<noteq> 0 then (PS_MAJOR, reasons)
        else if cfa_p1 f \<noteq> 0 \<or> cfa_shallow_only f \<noteq> 0 \<or> cfa_source_ratio f < 1 then (PS_MAJOR, reasons)
        else if cfa_coverage_ratio f < 1 then (PS_MINOR, reasons)
        else (PS_NONE, []))"

subsection \<open>Residual risk and status of a pack\<close>

definition sorted_counts :: "string list \<Rightarrow> (string \<times> int) list" where
  "sorted_counts xs = sort (counter xs)"

definition residual_risk_summary :: "context_pack \<Rightarrow> string \<Rightarrow> llm_residual_risk_summary" where
  "residual_risk_summary p reason =
     \<lparr>rrs_context_pack_id = cp_id p, rrs_file = cp_file p, rrs_file_kind = cp_file_kind p,
      rrs_priority = pack_residual_priority p None, rrs_reason = reason,
      rrs_risk_by_severity = sort (pack_risk_by_severity p),
      rrs_rule_modes = sorted_counts (map (\<lambda>r. rule_mode_value (rm_mode r)) (cp_rule_matches p)),
      rrs_rule_severities = sorted_counts (map (\<lambda>r. finding_severity_value (rm_severity r)) (cp_rule_matches p)),
      rrs_estimated_chars = st_estimated_chars (cp_stats p), rrs_truncated = st_truncated (cp_stats p)\<rparr>"

text \<open>Status, reason, depth and error of a pack.\<close>

definition pack_status_parts ::
  "string list \<Rightarrow> string list \<Rightarrow> (string \<times> string) list \<Rightarrow> (string \<times> llm_run) list \<Rightarrow> string
     \<Rightarrow> string \<times> string \<times> review_depth option \<times> string option" where
  "pack_status_parts deep_ids shallow_ids unreviewed_reasons failed_by_id i =
     (if i \<in> set deep_ids then (''reviewed_deep'', [], Some RD_DEEP, None)
      else if i \<in> set shallow_ids then (''reviewed_shallow'', [], Some RD_SHALLOW, None)
      else case dict_get failed_by_id i of
          Some r \<Rightarrow> (run_status r, run_status r, None, run_error r)
        | None \<Rightarrow>
            let reason = dict_get_or unreviewed_reasons i ''no review run recorded''
            in (pack_status_for_unreviewed_reason reason, reason, None, None))"

definition build_pack_statuses ::
  "context_pack list \<Rightarrow> string list \<Rightarrow> string list \<Rightarrow> (string \<times> string) list \<Rightarrow> llm_residual_risk_summary list
     \<Rightarrow> (string \<times> llm_run) list \<Rightarrow> llm_pack_review_status list" where
  "build_pack_statuses packs deep_ids shallow_ids unreviewed_reasons residual failed_by_id =
     (let residual_by_id = dict_of rrs_context_pack_id id residual in
      map (\<lambda>p. let (status, reason, depth, err) = pack_status_parts deep_ids shallow_ids unreviewed_reasons failed_by_id (cp_id p) in
        \<lparr>prs_context_pack_id = cp_id p, prs_file = cp_file p, prs_file_kind = cp_file_kind p, prs_status = status,
         prs_priority = map_option rrs_priority (dict_get residual_by_id (cp_id p)),
         prs_slice = pack_review_slice p, prs_reason = reason, prs_review_depth = depth,
         prs_estimated_chars = st_estimated_chars (cp_stats p), prs_changed_lines = cp_changed_lines p,
         prs_changed_symbols = pack_symbol_names [p], prs_error = err\<rparr>) packs)"

subsection \<open>Continuation commands\<close>

definition continue_args :: "string \<Rightarrow> string \<Rightarrow> string option \<Rightarrow> string option \<Rightarrow> bool \<Rightarrow> string list" where
  "continue_args pack_id report_path reviewer_id json_output_path review_depth_upgrade =
     [''review'', ''--continue-from'', report_path, ''--only-pack'', pack_id, ''--llm'']
     @ (case reviewer_id of None \<Rightarrow> [] | Some r \<Rightarrow> [''--reviewer'', r])
     @ (if review_depth_upgrade then [''--include-reviewed'', ''--continue-review-depth'', ''deep''] else [])
     @ (case json_output_path of None \<Rightarrow> [] | Some p \<Rightarrow> [''--json'', p])"

definition continue_command_for_pack ::
  "(string \<Rightarrow> string option) \<Rightarrow> string \<Rightarrow> string \<Rightarrow> string \<Rightarrow> string option \<Rightarrow> string option \<Rightarrow> bool
     \<Rightarrow> apex_ray_launcher option \<Rightarrow> string option \<Rightarrow> launcher_error + string" where
  "continue_command_for_pack parse os_name pack_id report_path reviewer_id json_output_path review_depth_upgrade
       launcher launcher_version =
     render_apex_ray_command parse os_name
       (continue_args pack_id report_path reviewer_id json_output_path review_depth_upgrade) launcher launcher_version"

text \<open>Without a launcher the command starts with \<open>apex-ray\<close> and rendering cannot fail.\<close>

definition bare_continue_command :: "string \<Rightarrow> string \<Rightarrow> string option \<Rightarrow> bool \<Rightarrow> string" where
  "bare_continue_command os_name pack_id reviewer_id review_depth_upgrade =
     render_shell_command os_name
       (''apex-ray'' # continue_args pack_id ''<report.json>'' reviewer_id None review_depth_upgrade)"

lemma bare_continue_command:
  "continue_command_for_pack parse os_name i ''<report.json>'' rid None up None None = Inr (bare_continue_command os_name i rid up)"
  by (simp add: continue_command_for_pack_def bare_continue_command_def render_apex_ray_command_def
      make_launcher_def launcher_argv_def)

text \<open>\<open>set_continue_commands\<close>: the commands for a concrete report path; the first failure raises.\<close>

fun set_todo_commands ::
  "(llm_coverage_todo \<Rightarrow> launcher_error + string) \<Rightarrow> llm_coverage_todo list \<Rightarrow> launcher_error + llm_coverage_todo list" where
  "set_todo_commands command [] = Inr []"
| "set_todo_commands command (t # ts) =
     (case command t of
        Inl e \<Rightarrow> Inl e
      | Inr s \<Rightarrow> map_sum id ((#) (t\<lparr>todo_suggested_command := s\<rparr>)) (set_todo_commands command ts))"

definition set_continue_commands ::
  "(string \<Rightarrow> string option) \<Rightarrow> string \<Rightarrow> review_report \<Rightarrow> string \<Rightarrow> apex_ray_launcher option \<Rightarrow> string option
     \<Rightarrow> launcher_error + review_report" where
  "set_continue_commands parse os_name rep report_path launcher launcher_version =
     (let c = rep_llm_coverage rep;
          upgrade = set (cov_shallow_only_high_risk_context_pack_ids c);
          command = (\<lambda>t. continue_command_for_pack parse os_name (todo_context_pack_id t) report_path
            (todo_reviewer_id t) (Some report_path) (todo_context_pack_id t \<in> upgrade) launcher launcher_version)
      in map_sum id (\<lambda>ts. rep\<lparr>rep_llm_coverage := c\<lparr>cov_coverage_todos := ts\<rparr>\<rparr>)
           (set_todo_commands command (cov_coverage_todos c)))"

end
