(* ===== verification/Run_State.thy ===== *)
theory Run_State
  imports Model_Finding
begin

section \<open>The state of a pack in the run log\<close>

text \<open>
  \<open>src/apex_ray/report/run_state.py\<close>: the log of provider runs is reduced to one state per reviewer
  and pack. A new review replaces the review and forgets its verification runs, a
  \<open>verify_reset\<close> forgets the verification runs, a \<open>review_reset\<close> forgets everything; runs
  of any other kind are ignored.
\<close>

type_synonym run_id = "string \<times> string"

record pack_run_state =
  prn_reviewer_id :: string
  prn_context_pack_id :: string
  prn_review :: "llm_run option"
  prn_verify_runs :: "llm_run list"

definition run_key :: "llm_run \<Rightarrow> run_id" where
  "run_key r = (run_reviewer_id r, run_context_pack_id r)"

definition is_review_run :: "llm_run \<Rightarrow> bool" where
  "is_review_run r \<longleftrightarrow> run_kind r \<in> {''review'', ''review_shallow''}"

definition reduce_run ::
  "llm_run \<Rightarrow> (run_id \<times> pack_run_state) list \<Rightarrow> (run_id \<times> pack_run_state) list" where
  "reduce_run r states =
     (let key = run_key r; prior = dict_get states key in
      if run_kind r = ''review_reset'' then dict_pop key states
      else if run_kind r = ''verify_reset'' then
        (case prior of None \<Rightarrow> states
         | Some s \<Rightarrow> dict_set key \<lparr>prn_reviewer_id = run_reviewer_id r,
             prn_context_pack_id = run_context_pack_id r, prn_review = prn_review s, prn_verify_runs = []\<rparr> states)
      else if \<not> (is_review_run r \<or> run_kind r = ''verify'') then states
      else if is_review_run r then
        dict_set key \<lparr>prn_reviewer_id = run_reviewer_id r, prn_context_pack_id = run_context_pack_id r,
          prn_review = Some r, prn_verify_runs = []\<rparr> states
      else dict_set key \<lparr>prn_reviewer_id = run_reviewer_id r, prn_context_pack_id = run_context_pack_id r,
          prn_review = (case prior of None \<Rightarrow> None | Some s \<Rightarrow> prn_review s),
          prn_verify_runs = (case prior of None \<Rightarrow> [] | Some s \<Rightarrow> prn_verify_runs s) @ [r]\<rparr> states)"

definition reduce_llm_pack_run_states :: "llm_run list \<Rightarrow> (run_id \<times> pack_run_state) list" where
  "reduce_llm_pack_run_states runs = fold reduce_run runs []"

subsection \<open>What the state of a key depends on\<close>

text \<open>The reference: read the runs of one key from the last reset on.\<close>

definition since_last :: "('a \<Rightarrow> bool) \<Rightarrow> 'a list \<Rightarrow> 'a list" where
  "since_last P xs = rev (takeWhile (\<lambda>x. \<not> P x) (rev xs))"

definition last_such :: "('a \<Rightarrow> bool) \<Rightarrow> 'a list \<Rightarrow> 'a option" where
  "last_such P xs = find P (rev xs)"

lemma since_last_snoc: "since_last P (xs @ [x]) = (if P x then [] else since_last P xs @ [x])"
  by (simp add: since_last_def)

lemma last_such_snoc: "last_such P (xs @ [x]) = (if P x then Some x else last_such P xs)"
  by (simp add: last_such_def)

lemmas since_last_simps = since_last_snoc last_such_snoc

definition live_runs :: "run_id \<Rightarrow> llm_run list \<Rightarrow> llm_run list" where
  "live_runs k runs = since_last (\<lambda>r. run_kind r = ''review_reset'') (filter (\<lambda>r. run_key r = k) runs)"

definition verify_runs_of :: "llm_run list \<Rightarrow> llm_run list" where
  "verify_runs_of live = filter (\<lambda>r. run_kind r = ''verify'')
     (since_last (\<lambda>r. is_review_run r \<or> run_kind r = ''verify_reset'') live)"

definition state_of_runs :: "run_id \<Rightarrow> llm_run list \<Rightarrow> pack_run_state option" where
  "state_of_runs k runs =
     (let live = live_runs k runs in
      if list_ex (\<lambda>r. is_review_run r \<or> run_kind r = ''verify'') live
      then Some \<lparr>prn_reviewer_id = fst k, prn_context_pack_id = snd k,
             prn_review = last_such is_review_run live, prn_verify_runs = verify_runs_of live\<rparr>
      else None)"

lemma is_review_run_kind: "is_review_run r \<Longrightarrow>
  run_kind r \<noteq> ''verify'' \<and> run_kind r \<noteq> ''verify_reset'' \<and> run_kind r \<noteq> ''review_reset''"
  by (auto simp: is_review_run_def)

lemma no_verify_runs: "\<not> list_ex (\<lambda>r. is_review_run r \<or> run_kind r = ''verify'') live \<Longrightarrow>
  last_such is_review_run live = None \<and> verify_runs_of live = []"
  by (auto simp: last_such_def verify_runs_of_def since_last_def find_None_iff list_ex_iff
      filter_empty_conv dest: set_takeWhileD)

lemma reduce_run_other: "run_key r \<noteq> k \<Longrightarrow> dict_get (reduce_run r states) k = dict_get states k"
  by (simp add: reduce_run_def Let_def update_conv' delete_conv' split: option.split)

lemma live_runs_snoc:
  "live_runs k (runs @ [r]) = (if run_key r \<noteq> k then live_runs k runs
     else if run_kind r = ''review_reset'' then [] else live_runs k runs @ [r])"
  by (simp add: live_runs_def since_last_simps)

lemma verify_runs_of_snoc:
  "verify_runs_of (live @ [r]) = (if is_review_run r \<or> run_kind r = ''verify_reset'' then []
     else verify_runs_of live @ (if run_kind r = ''verify'' then [r] else []))"
  by (simp add: verify_runs_of_def since_last_simps)

lemma reduce_run_own:
  assumes "run_key r = k" and prior: "dict_get states k = state_of_runs k runs"
  shows "dict_get (reduce_run r states) k = state_of_runs k (runs @ [r])"
proof -
  let ?live = "live_runs k runs"
  have ids: "run_reviewer_id r = fst k" "run_context_pack_id r = snd k"
    using assms(1) by (auto simp: run_key_def)
  note snoc = live_runs_snoc verify_runs_of_snoc last_such_snoc
  consider "run_kind r = ''review_reset''" | "run_kind r = ''verify_reset''" | "is_review_run r"
    | "run_kind r = ''verify''" | "run_kind r \<notin> {''review_reset'', ''verify_reset'', ''verify''}" "\<not> is_review_run r"
    by auto
  then show ?thesis
  proof cases
    case 1
    then show ?thesis using assms(1)
      by (simp add: reduce_run_def state_of_runs_def snoc delete_conv' Let_def)
  next
    case 2
    then have "\<not> is_review_run r" by (auto dest: is_review_run_kind)
    with 2 show ?thesis using assms no_verify_runs [of ?live]
      by (simp add: reduce_run_def state_of_runs_def snoc update_conv' ids Let_def split: if_splits)
  next
    case 3
    with is_review_run_kind [OF 3] show ?thesis using assms
      by (simp add: reduce_run_def state_of_runs_def snoc update_conv' ids Let_def)
  next
    case 4
    then have "\<not> is_review_run r" by (auto dest: is_review_run_kind)
    with 4 show ?thesis using assms no_verify_runs [of ?live]
      by (simp add: reduce_run_def state_of_runs_def snoc update_conv' ids Let_def split: if_splits)
  next
    case 5
    then show ?thesis using assms
      by (simp add: reduce_run_def state_of_runs_def snoc Let_def)
  qed
qed

text \<open>C34: the state of a reviewer and pack is what the runs of that reviewer and pack say since their
  last reset: the last review, and the verification runs after it and after the last
  verification reset. Runs of other keys, and how the log interleaves them, do not matter.\<close>

theorem reduce_runs_reads_own_log:
  "dict_get (reduce_llm_pack_run_states runs) k = state_of_runs k runs"
proof -
  have "dict_get (fold reduce_run runs []) k = state_of_runs k runs"
  proof (induction runs rule: rev_induct)
    case Nil
    show ?case by (simp add: state_of_runs_def live_runs_def since_last_def)
  next
    case (snoc r runs)
    show ?case
    proof (cases "run_key r = k")
      case True
      from reduce_run_own [OF this snoc] show ?thesis by simp
    next
      case False
      with snoc show ?thesis by (simp add: reduce_run_other state_of_runs_def live_runs_snoc)
    qed
  qed
  then show ?thesis by (simp add: reduce_llm_pack_run_states_def)
qed

end
