(* ===== verification/Report_Coverage.thy ===== *)
theory Report_Coverage
  imports Coverage_Gate Usage Run_State Verifications Selection
begin

section \<open>The coverage of a review\<close>

text \<open>
  \<open>src/apex_ray/report/coverage.py\<close>: \<open>_build_llm_coverage\<close>, which turns the run log, the selection
  and the verifier decisions into the coverage summary of a report, with the coverage of each
  reviewer, the to-dos and the routes. Sets are lists read as sets, or sets where the code only
  counts them; where the code iterates over a set it sorts afterwards, and so does the model.
\<close>

subsection \<open>Reviewer scope\<close>

definition reviewer_verify_enabled :: "review_config \<Rightarrow> string \<Rightarrow> bool" where
  "reviewer_verify_enabled config rid =
     (case find (\<lambda>r. rv_id r = rid) (rc_reviewers config) of
        Some r \<Rightarrow> (case rv_verify r of Some b \<Rightarrow> b | None \<Rightarrow> lc_verify (rc_llm config))
      | None \<Rightarrow> lc_verify (rc_llm config))"

definition run_state_in_reviewer_scope ::
  "pack_run_state \<Rightarrow> (string \<times> llm_context_selection) list \<Rightarrow> (string \<times> string list) list option \<Rightarrow> string list
     \<Rightarrow> run_id list \<Rightarrow> bool" where
  "run_state_in_reviewer_scope s selections configured scoped candidate_keys =
     (let rid = prn_reviewer_id s; pid = prn_context_pack_id s;
          candidate = prn_verify_runs s \<noteq> [] \<and> (rid, pid) \<in> set candidate_keys
      in if pid \<notin> set scoped \<and> \<not> candidate then False
         else case dict_get selections rid of
             Some sel \<Rightarrow> pid \<in> set (sel_selected_context_pack_ids sel) \<or> candidate
           | None \<Rightarrow> (case configured of
                 Some conf \<Rightarrow> pid \<in> set (dict_get_or conf rid []) \<or> (dict_get conf rid \<noteq> None \<and> candidate)
               | None \<Rightarrow> selections = []))"

definition configured_pack_ids ::
  "review_config \<Rightarrow> string list option \<Rightarrow> context_pack list \<Rightarrow> (string \<times> string list) list option" where
  "configured_pack_ids config scope packs =
     (if rc_reviewers config = [] then None
      else Some (dict_of rv_id
        (\<lambda>r. if rv_enabled r then map cp_id (filter (reviewer_matches_pack r) packs) else [])
        (filter (\<lambda>r. case scope of None \<Rightarrow> True | Some s \<Rightarrow> rv_id r \<in> set s) (rc_reviewers config))))"

definition verification_key_in_scope ::
  "(string \<times> llm_context_selection) list \<Rightarrow> (string \<times> string list) list option \<Rightarrow> string list
     \<Rightarrow> run_id list \<Rightarrow> run_id \<Rightarrow> finding list \<Rightarrow> bool" where
  "verification_key_in_scope selections configured scoped history key candidates =
     (let (rid, pid) = key;
          packs = (case dict_get selections rid of
              Some sel \<Rightarrow> Some (sel_total_context_pack_ids sel)
            | None \<Rightarrow> (case configured of
                Some conf \<Rightarrow> dict_get conf rid
              | None \<Rightarrow> if selections \<noteq> [] then None else if rid = ''general'' then Some scoped else None))
      in case packs of
           None \<Rightarrow> False
         | Some ids \<Rightarrow>
             if pid \<in> set ids then True
             else
               let explicit = filter (\<lambda>f. reviewer_origins_are_explicit f rid) candidates in
               if list_ex (\<lambda>f. list_ex (\<lambda>i. i \<in> set ids) (reviewer_origin_pack_ids f rid)) explicit then True
               else length explicit \<noteq> length candidates \<and> key \<notin> set history)"

subsection \<open>The coverage of one reviewer\<close>

definition of_reviewer :: "string \<Rightarrow> (run_id \<times> 'v) list \<Rightarrow> (string \<times> 'v) list" where
  "of_reviewer rid d = map (\<lambda>(k, v). (snd k, v)) (filter (\<lambda>(k, v). fst k = rid) d)"

definition reviewer_reasons ::
  "bool \<Rightarrow> string \<Rightarrow> string list \<Rightarrow> string list \<Rightarrow> string list \<Rightarrow> int \<Rightarrow> int \<Rightarrow> string list" where
  "reviewer_reasons required rid matching selected missing failed_verify missing_verification =
     (let who = (if required then ''Required reviewer '' else ''Reviewer '') @ rid in
      (if matching \<noteq> [] \<and> selected = []
       then [who @ '' selected no context packs from '' @ str_int (int (length matching)) @ '' matching pack(s).'']
       else if missing \<noteq> []
       then [who @ '' did not review '' @ str_int (int (length missing)) @ '' of ''
             @ str_int (int (length selected)) @ '' selected context pack(s).'']
       else [])
      @ (if failed_verify \<noteq> 0
         then [who @ '' had '' @ str_int failed_verify @ '' failed verification run(s).''] else [])
      @ (if missing_verification \<noteq> 0
         then [who @ '' has '' @ str_int missing_verification
               @ '' reviewed pack(s) with unresolved verification subjects.''] else []))"

definition reviewer_outcome :: "bool \<Rightarrow> bool \<Rightarrow> string list \<Rightarrow> string list \<Rightarrow> reviewer_status \<times> string list" where
  "reviewer_outcome enabled required matching reasons =
     (if \<not> enabled then (RST_NOT_APPLICABLE, [])
      else if matching = [] then (RST_NOT_APPLICABLE, reasons)
      else if reasons \<noteq> [] then (if required then RST_FAIL else RST_WARN, reasons)
      else (RST_PASS, reasons))"

definition run_ok :: "llm_run \<Rightarrow> bool" where
  "run_ok r \<longleftrightarrow> run_status r = ''ok''"

definition review_ok :: "pack_run_state \<Rightarrow> bool" where
  "review_ok s \<longleftrightarrow> (case prn_review s of None \<Rightarrow> False | Some r \<Rightarrow> run_ok r)"

definition findings_unverified :: "pack_run_state \<Rightarrow> bool" where
  "findings_unverified s \<longleftrightarrow> (case prn_review s of None \<Rightarrow> False | Some r \<Rightarrow> run_ok r \<and> 0 < run_findings_count r)
     \<and> \<not> list_ex run_ok (prn_verify_runs s)"

definition configured_reviewer :: "review_config \<Rightarrow> string \<Rightarrow> reviewer_config option" where
  "configured_reviewer config rid = dict_get (dict_of rv_id id (rc_reviewers config)) rid"

definition reviewer_matching_ids ::
  "review_config \<Rightarrow> context_pack list \<Rightarrow> (string \<times> llm_context_selection) list \<Rightarrow> pack_run_state list
     \<Rightarrow> string \<Rightarrow> string list" where
  "reviewer_matching_ids config packs selections own rid =
     (let by_state = map cp_id (filter (\<lambda>p. cp_id p \<in> prn_context_pack_id ` set own) packs) in
      case dict_get selections rid of
        Some sel \<Rightarrow> sel_total_context_pack_ids sel
      | None \<Rightarrow> (case configured_reviewer config rid of
            Some r \<Rightarrow> if rv_enabled r then map cp_id (filter (reviewer_matches_pack r) packs) else by_state
          | None \<Rightarrow> by_state))"

definition reviewer_selected_ids ::
  "review_config \<Rightarrow> context_pack list \<Rightarrow> (string \<times> llm_context_selection) list \<Rightarrow> pack_run_state list
     \<Rightarrow> string \<Rightarrow> string list" where
  "reviewer_selected_ids config packs selections own rid =
     (case dict_get selections rid of
        Some sel \<Rightarrow> sel_selected_context_pack_ids sel
      | None \<Rightarrow> reviewer_matching_ids config packs selections own rid)"

text \<open>The verification runs that count for a reviewer, and the packs whose findings are not decided.\<close>

definition reviewer_verify_runs ::
  "bool \<Rightarrow> string list \<Rightarrow> (run_id \<times> int) list \<Rightarrow> run_id set \<Rightarrow> pack_run_state list \<Rightarrow> string \<Rightarrow> llm_run list" where
  "reviewer_verify_runs verify_enabled selected candidate_counts unresolved own rid =
     (let ids = set (map fst (filter (\<lambda>(i, n). 0 < n) (of_reviewer rid candidate_counts)))
            \<union> snd ` {k \<in> unresolved. fst k = rid} \<union> set selected
      in if verify_enabled
         then concat (map prn_verify_runs (filter (\<lambda>s. prn_context_pack_id s \<in> ids) own)) else [])"

definition missing_verification_ids ::
  "bool \<Rightarrow> string list \<Rightarrow> (run_id \<times> int) list \<Rightarrow> run_id set \<Rightarrow> pack_run_state list \<Rightarrow> string \<Rightarrow> string set" where
  "missing_verification_ids verify_enabled selected candidate_counts unresolved own rid =
     (let candidate_total = sum_list (map snd (of_reviewer rid candidate_counts)) in
      if verify_enabled
      then snd ` {k \<in> unresolved. fst k = rid}
        \<union> prn_context_pack_id ` set (filter (\<lambda>s. prn_context_pack_id s \<in> set selected
            \<and> findings_unverified s \<and> candidate_total = 0) own)
      else {})"

definition reviewer_summary ::
  "review_config \<Rightarrow> context_pack list \<Rightarrow> (string \<times> llm_context_selection) list \<Rightarrow> (run_id \<times> pack_run_state) list
     \<Rightarrow> (run_id \<times> int) list \<Rightarrow> run_id set \<Rightarrow> string \<Rightarrow> llm_reviewer_coverage_summary" where
  "reviewer_summary config packs selections states candidate_counts unresolved rid =
     (let llm = rc_llm config;
          reviewer = configured_reviewer config rid;
          required = (case reviewer of Some r \<Rightarrow> rv_enabled r \<and> rv_required r | None \<Rightarrow> False);
          verify_enabled = (case reviewer of Some r \<Rightarrow> or_keep (rv_verify r) (lc_verify llm) | None \<Rightarrow> lc_verify llm);
          rllm = (case reviewer of Some r \<Rightarrow> if rv_enabled r then llm_config_for_reviewer llm r else llm | None \<Rightarrow> llm);
          own = map snd (of_reviewer rid states);
          matching = reviewer_matching_ids config packs selections own rid;
          selected = reviewer_selected_ids config packs selections own rid;
          review_runs = List.map_filter prn_review (filter (\<lambda>s. prn_context_pack_id s \<in> set selected) own);
          verify_runs = reviewer_verify_runs verify_enabled selected candidate_counts unresolved own rid;
          reviewed = map run_context_pack_id (filter run_ok review_runs);
          reviewed_ids = filter (\<lambda>i. i \<in> set reviewed) matching;
          missing = filter (\<lambda>i. i \<notin> set reviewed) selected;
          failed_review = filter (\<lambda>r. \<not> run_ok r) review_runs;
          failed_verify = filter (\<lambda>r. \<not> run_ok r) verify_runs;
          usage = aggregate_actual_usage (review_runs @ verify_runs);
          (status, reasons) = reviewer_outcome (lc_enabled llm) required matching
            (reviewer_reasons required rid matching selected missing (int (length failed_verify))
              (int (card (missing_verification_ids verify_enabled selected candidate_counts unresolved own rid))))
      in \<lparr>rcs_reviewer_id = rid, rcs_required = required, rcs_verify_enabled = verify_enabled,
          rcs_coverage_mode = Some (lc_coverage_mode rllm),
          rcs_review_depth = Some (case reviewer of Some r \<Rightarrow> rv_review_depth r
            | None \<Rightarrow> (case lc_review_depth rllm of RD_DEEP \<Rightarrow> RVD_DEEP | RD_SHALLOW \<Rightarrow> RVD_SHALLOW)),
          rcs_max_packs = Some (lc_max_packs rllm), rcs_max_deep_packs = lc_max_deep_packs rllm,
          rcs_max_input_tokens = lc_max_input_tokens rllm, rcs_status = status, rcs_reasons = reasons,
          rcs_matching_context_packs = int (length matching), rcs_selected_context_packs = int (length selected),
          rcs_reviewed_context_packs = int (length reviewed_ids),
          rcs_failed_review_runs = int (length failed_review), rcs_failed_verify_runs = int (length failed_verify),
          rcs_matching_context_pack_ids = matching, rcs_selected_context_pack_ids = selected,
          rcs_reviewed_context_pack_ids = reviewed_ids,
          rcs_estimated_input_tokens = sum_list (map run_estimated_input_tokens (review_runs @ verify_runs)),
          rcs_actual_total_tokens = ut_actual_total_tokens usage,
          rcs_estimated_cost_usd = ut_estimated_cost_usd usage\<rparr>)"

definition build_reviewer_coverage ::
  "review_config \<Rightarrow> context_pack list \<Rightarrow> (string \<times> llm_context_selection) list \<Rightarrow> (run_id \<times> pack_run_state) list
     \<Rightarrow> string list option \<Rightarrow> (run_id \<times> int) list \<Rightarrow> run_id set \<Rightarrow> llm_reviewer_coverage_summary list" where
  "build_reviewer_coverage config packs selections states scope candidate_counts unresolved =
     map (reviewer_summary config packs selections states candidate_counts unresolved)
       (sorted_set (map fst selections @ map (fst \<circ> fst) states
          @ map rv_id (filter (\<lambda>r. rv_enabled r \<and> (case scope of None \<Rightarrow> True | Some s \<Rightarrow> rv_id r \<in> set s))
              (rc_reviewers config))))"

subsection \<open>To-dos\<close>

definition priority_place :: "string \<Rightarrow> int" where
  "priority_place p = dict_get_or [(''p0'', 0), (''p1'', 1), (''p2'', 2)] p 9"

definition pack_todo ::
  "context_pack \<Rightarrow> string option \<Rightarrow> string \<Rightarrow> string \<Rightarrow> string \<Rightarrow> llm_coverage_todo" where
  "pack_todo p rid priority reason command =
     \<lparr>todo_context_pack_id = cp_id p, todo_file = cp_file p, todo_reviewer_id = rid, todo_file_kind = cp_file_kind p,
      todo_priority = priority, todo_slice = pack_review_slice p, todo_reason = reason,
      todo_suggested_command = command, todo_estimated_chars = st_estimated_chars (cp_stats p),
      todo_changed_lines = cp_changed_lines p, todo_changed_symbols = pack_symbol_names [p]\<rparr>"

definition build_coverage_todos ::
  "string \<Rightarrow> llm_residual_risk_summary list \<Rightarrow> context_pack list \<Rightarrow> llm_coverage_todo list" where
  "build_coverage_todos os_name residual packs =
     (let by_id = dict_of cp_id id packs;
          ordered = sort_key (\<lambda>r. (priority_place (rrs_priority r), - rrs_estimated_chars r, rrs_file r,
            rrs_context_pack_id r)) residual
      in List.map_filter (\<lambda>r. map_option (\<lambda>p. pack_todo p None (rrs_priority r) (rrs_reason r)
           (bare_continue_command os_name (cp_id p) None False)) (dict_get by_id (rrs_context_pack_id r))) ordered)"

definition reviewer_debt_reason ::
  "llm_reviewer_coverage_summary \<Rightarrow> string set \<Rightarrow> string set \<Rightarrow> string \<Rightarrow> string" where
  "reviewer_debt_reason r failed missing i =
     ''Reviewer '' @ rcs_reviewer_id r @
       (if i \<in> failed then '' has an active failed verification run.''
        else if i \<in> missing then '' has unresolved verification subjects.''
        else if i \<notin> set (rcs_selected_context_pack_ids r)
        then '' did not review a matching pack because it was not selected by reviewer limits.''
        else '' did not complete its selected review.'')"

definition reviewer_todos ::
  "string \<Rightarrow> (string \<times> context_pack) list \<Rightarrow> (run_id \<times> pack_run_state) list \<Rightarrow> (run_id \<times> int) list \<Rightarrow> run_id set
     \<Rightarrow> llm_reviewer_coverage_summary \<Rightarrow> llm_coverage_todo list" where
  "reviewer_todos os_name packs_by_id states candidate_counts unresolved r =
     (if rcs_status r = RST_NOT_APPLICABLE then []
      else
        let rid = rcs_reviewer_id r;
            own = of_reviewer rid states;
            candidate_total = sum_list (map snd (of_reviewer rid candidate_counts));
            failed = (if rcs_verify_enabled r
              then fst ` set (filter (\<lambda>(i, s). list_ex (\<lambda>x. \<not> run_ok x) (prn_verify_runs s)) own) else {});
            missing = (if rcs_verify_enabled r
              then snd ` {k \<in> unresolved. fst k = rid}
                \<union> fst ` set (filter (\<lambda>(i, s).
                    (case prn_review s of None \<Rightarrow> False | Some x \<Rightarrow> run_ok x \<and> 0 < run_findings_count x)
                    \<and> ((rid, i) \<in> unresolved \<or> (\<not> list_ex run_ok (prn_verify_runs s) \<and> candidate_total = 0))) own)
              else {});
            debt = (set (rcs_matching_context_pack_ids r) - set (rcs_reviewed_context_pack_ids r)) \<union> failed \<union> missing
        in List.map_filter (\<lambda>i. map_option (\<lambda>p. pack_todo p (Some rid) (pack_residual_priority p None)
             (reviewer_debt_reason r failed missing i) (bare_continue_command os_name (cp_id p) (Some rid) False))
             (dict_get packs_by_id i)) (sorted_list_of_set debt))"

definition todo_order :: "llm_coverage_todo \<Rightarrow> int \<times> string \<times> string \<times> string" where
  "todo_order t = (priority_place (todo_priority t), (case todo_reviewer_id t of None \<Rightarrow> [] | Some r \<Rightarrow> r),
     todo_file t, todo_context_pack_id t)"

definition build_reviewer_coverage_todos ::
  "string \<Rightarrow> llm_reviewer_coverage_summary list \<Rightarrow> context_pack list \<Rightarrow> (run_id \<times> pack_run_state) list
     \<Rightarrow> (run_id \<times> int) list \<Rightarrow> run_id set \<Rightarrow> llm_coverage_todo list" where
  "build_reviewer_coverage_todos os_name reviewers packs states candidate_counts unresolved =
     sort_key todo_order (concat (map
       (reviewer_todos os_name (dict_of cp_id id packs) states candidate_counts unresolved) reviewers))"

definition depth_reviewer :: "llm_reviewer_coverage_summary list \<Rightarrow> string \<Rightarrow> string option" where
  "depth_reviewer reviewers i =
     (let order = dict_of (rcs_reviewer_id \<circ> snd) fst (indexed reviewers);
          matching = filter (\<lambda>r. i \<in> set (rcs_matching_context_pack_ids r)) reviewers
      in case sort_key (\<lambda>r. (\<not> rcs_required r, dict_get_or order (rcs_reviewer_id r) 0)) matching of
           [] \<Rightarrow> None | r # _ \<Rightarrow> Some (rcs_reviewer_id r))"

definition build_high_risk_depth_todos ::
  "string \<Rightarrow> string list \<Rightarrow> context_pack list \<Rightarrow> llm_reviewer_coverage_summary list \<Rightarrow> llm_coverage_todo list" where
  "build_high_risk_depth_todos os_name shallow_only packs reviewers =
     (let by_id = dict_of cp_id id packs in
      List.map_filter (\<lambda>i. map_option (\<lambda>p.
          let rid = depth_reviewer reviewers i in
          pack_todo p rid (pack_residual_priority p None)
            (''High-risk pack was reviewed only shallowly; repeat it deeply''
              @ (case rid of None \<Rightarrow> [] | Some r \<Rightarrow> '' with reviewer '' @ r) @ ''.'')
            (bare_continue_command os_name (cp_id p) rid True))
        (dict_get by_id i)) shallow_only)"

subsection \<open>Routes and caches\<close>

definition effective_cache_hits :: "llm_run \<Rightarrow> int" where
  "effective_cache_hits r =
     (if run_cache_hits r \<noteq> 0 \<or> run_cache_misses r \<noteq> 0 then run_cache_hits r
      else if run_cache_hit r then 1 else 0)"

definition effective_cache_misses :: "llm_run \<Rightarrow> int" where
  "effective_cache_misses r =
     (if run_cache_hits r \<noteq> 0 \<or> run_cache_misses r \<noteq> 0 then run_cache_misses r
      else if run_cache_key r \<noteq> None \<and> run_cache_key r \<noteq> Some [] \<and> \<not> run_cache_hit r then 1 else 0)"

definition format_run_cache :: "llm_run \<Rightarrow> string" where
  "format_run_cache r =
     (if run_cache_hits r \<noteq> 0 \<or> run_cache_misses r \<noteq> 0
      then str_int (run_cache_hits r) @ '' hit / '' @ str_int (run_cache_misses r) @ '' miss''
      else if run_cache_hit r then ''hit''
      else if run_cache_key r \<noteq> None \<and> run_cache_key r \<noteq> Some [] then ''miss'' else ''off'')"

type_synonym route_id =
  "string \<times> string \<times> string \<times> string option \<times> string option \<times> string option \<times> string option \<times> string"

definition route_key :: "llm_run \<Rightarrow> route_id" where
  "route_key r = (run_kind r, run_reviewer_id r, run_provider r, run_model r, run_effort r, run_profile r,
     run_route_reason r, run_status r)"

definition new_route :: "llm_run \<Rightarrow> llm_route_summary" where
  "new_route r = \<lparr>rts_kind = run_kind r, rts_reviewer_id = run_reviewer_id r, rts_provider = run_provider r,
     rts_model = run_model r, rts_effort = run_effort r, rts_profile = run_profile r,
     rts_route_reason = run_route_reason r, rts_status = run_status r, rts_runs = 0, rts_findings_count = 0,
     rts_duration_ms = 0, rts_input_chars = 0, rts_estimated_input_tokens = 0, rts_actual_input_tokens = 0,
     rts_actual_cached_input_tokens = 0, rts_actual_output_tokens = 0, rts_actual_reasoning_output_tokens = 0,
     rts_actual_total_tokens = 0, rts_actual_cache_read_input_tokens = 0,
     rts_actual_cache_creation_input_tokens = 0, rts_estimated_saved_input_tokens = 0,
     rts_estimated_cost_usd = None, rts_usage_sources = [], rts_cache_hits = 0, rts_cache_misses = 0,
     rts_errors = 0\<rparr>"

definition count_route :: "llm_run \<Rightarrow> llm_route_summary \<Rightarrow> llm_route_summary" where
  "count_route r t = t\<lparr>
     rts_runs := rts_runs t + 1,
     rts_findings_count := rts_findings_count t + run_findings_count r,
     rts_duration_ms := rts_duration_ms t + run_duration_ms r,
     rts_input_chars := rts_input_chars t + run_input_chars r,
     rts_estimated_input_tokens := rts_estimated_input_tokens t + run_estimated_input_tokens r,
     rts_actual_input_tokens := rts_actual_input_tokens t + run_actual_input_tokens r,
     rts_actual_cached_input_tokens := rts_actual_cached_input_tokens t + run_actual_cached_input_tokens r,
     rts_actual_output_tokens := rts_actual_output_tokens t + run_actual_output_tokens r,
     rts_actual_reasoning_output_tokens := rts_actual_reasoning_output_tokens t + run_actual_reasoning_output_tokens r,
     rts_actual_total_tokens := rts_actual_total_tokens t + run_actual_total_tokens r,
     rts_actual_cache_read_input_tokens := rts_actual_cache_read_input_tokens t + run_actual_cache_read_input_tokens r,
     rts_actual_cache_creation_input_tokens :=
       rts_actual_cache_creation_input_tokens t + run_actual_cache_creation_input_tokens r,
     rts_estimated_saved_input_tokens := rts_estimated_saved_input_tokens t + run_estimated_saved_input_tokens r,
     rts_estimated_cost_usd := (case run_estimated_cost_usd r of
         None \<Rightarrow> rts_estimated_cost_usd t
       | Some c \<Rightarrow> Some (py_round 6 ((case rts_estimated_cost_usd t of None \<Rightarrow> 0 | Some x \<Rightarrow> x) + c))),
     rts_usage_sources := (case run_usage_source r of
         None \<Rightarrow> rts_usage_sources t
       | Some u \<Rightarrow> if u \<noteq> [] \<and> u \<notin> set (rts_usage_sources t) then rts_usage_sources t @ [u] else rts_usage_sources t),
     rts_cache_hits := rts_cache_hits t + effective_cache_hits r,
     rts_cache_misses := rts_cache_misses t + effective_cache_misses r,
     rts_errors := rts_errors t + (if run_error r \<noteq> None \<and> run_error r \<noteq> Some [] then 1 else 0)\<rparr>"

definition or_empty :: "string option \<Rightarrow> string" where
  "or_empty v = (case v of None \<Rightarrow> [] | Some s \<Rightarrow> s)"

definition route_summaries :: "llm_run list \<Rightarrow> llm_route_summary list" where
  "route_summaries runs =
     sort_key (\<lambda>t. (rts_kind t, rts_provider t, or_empty (rts_profile t), or_empty (rts_model t),
         or_empty (rts_route_reason t), rts_status t))
       (map snd (fold (\<lambda>r d. dict_set (route_key r)
           (count_route r (dict_get_or d (route_key r) (new_route r))) d) runs []))"

subsection \<open>The whole coverage\<close>

text \<open>The scope of an evaluation: the packs, selections and run states that count.\<close>

record coverage_scope =
  csc_packs :: "context_pack list"
  csc_selections :: "(string \<times> llm_context_selection) list"
  csc_states :: "(run_id \<times> pack_run_state) list"
  csc_candidates :: "(run_id \<times> int) list"
  csc_unresolved :: "run_id set"

definition is_execution_run :: "llm_run \<Rightarrow> bool" where
  "is_execution_run r \<longleftrightarrow> is_review_run r \<or> run_kind r = ''verify''"

definition coverage_scope_of ::
  "(string set \<Rightarrow> string list) \<Rightarrow> review_config \<Rightarrow> context_pack list \<Rightarrow> llm_run list \<Rightarrow> llm_context_selection option
     \<Rightarrow> (string \<times> llm_context_selection) list \<Rightarrow> string list option \<Rightarrow> finding list \<Rightarrow> finding_verification list
     \<Rightarrow> coverage_scope" where
  "coverage_scope_of enum config all_packs runs selection selections scope fs vs =
     (let packs = (case selection of None \<Rightarrow> all_packs
            | Some sel \<Rightarrow> filter (\<lambda>p. cp_id p \<in> set (sel_total_context_pack_ids sel)) all_packs);
          current = filter (\<lambda>(rid, sel). case scope of None \<Rightarrow> True | Some s \<Rightarrow> rid \<in> set s) selections;
          configured = configured_pack_ids config scope packs;
          scoped = map cp_id packs;
          history = map run_key (filter is_review_run runs);
          candidates = map (\<lambda>(k, fs). (k, int (length fs)))
            (filter (\<lambda>(k, fs). snd k \<in> cp_id ` set all_packs
                \<and> verification_key_in_scope current configured scoped history k fs)
              (verification_candidates_by_reviewer_pack fs vs))
      in \<lparr>csc_packs = packs, csc_selections = current,
          csc_states = filter (\<lambda>(k, s). run_state_in_reviewer_scope s current configured scoped (map fst candidates))
            (reduce_llm_pack_run_states runs),
          csc_candidates = candidates,
          csc_unresolved = {k \<in> unresolved_verification_candidate_pack_ids enum fs vs. k \<in> fst ` set candidates}\<rparr>)"

text \<open>Which packs count as reviewed, and how.\<close>

record review_facts =
  rvf_reviews :: "llm_run list"
  rvf_failed_reviews :: "llm_run list"
  rvf_failed_verifies :: "llm_run list"
  rvf_reviewed :: "string list"
  rvf_deep :: "string list"
  rvf_shallow :: "string list"

definition review_facts_of :: "review_config \<Rightarrow> (run_id \<times> pack_run_state) list \<Rightarrow> review_facts" where
  "review_facts_of config states =
     (let reviews = List.map_filter prn_review (map snd states);
          verifies = concat (map prn_verify_runs
            (filter (\<lambda>s. reviewer_verify_enabled config (prn_reviewer_id s)) (map snd states)))
      in \<lparr>rvf_reviews = reviews,
          rvf_failed_reviews = filter (\<lambda>r. \<not> run_ok r) reviews,
          rvf_failed_verifies = filter (\<lambda>r. \<not> run_ok r) verifies,
          rvf_reviewed = map run_context_pack_id (filter run_ok reviews),
          rvf_deep = map run_context_pack_id (filter (\<lambda>r. run_kind r = ''review'' \<and> run_ok r) reviews),
          rvf_shallow = map run_context_pack_id (filter (\<lambda>r. run_kind r = ''review_shallow'' \<and> run_ok r) reviews)\<rparr>)"

definition over_budget_ids ::
  "review_config \<Rightarrow> llm_context_selection option \<Rightarrow> context_pack list \<Rightarrow> string list" where
  "over_budget_ids config selection packs =
     (case selection of
        Some sel \<Rightarrow> sel_over_budget_context_pack_ids sel
      | None \<Rightarrow> map cp_id (filter (\<lambda>p. cc_max_pack_chars (rc_context config) < st_estimated_chars (cp_stats p)) packs))"

text \<open>The reason of every unreviewed pack, and the residual risk of every pack that has one.\<close>

definition unreviewed_reasons ::
  "review_config \<Rightarrow> llm_context_selection option \<Rightarrow> context_pack list \<Rightarrow> review_facts \<Rightarrow> (string \<times> string) list" where
  "unreviewed_reasons config selection packs rf =
     (let failed_by_id = dict_of run_context_pack_id id (rvf_failed_reviews rf) in
      dict_of id (\<lambda>i. case dict_get failed_by_id i of
         Some r \<Rightarrow> run_status r
       | None \<Rightarrow> coverage_unreviewed_pack_reason i (lc_enabled (rc_llm config)) (int (length packs))
           (lc_max_packs (rc_llm config)) (over_budget_ids config selection packs) selection)
        (map cp_id (filter (\<lambda>p. cp_id p \<notin> set (rvf_reviewed rf)) packs)))"

definition residual_risks :: "context_pack list \<Rightarrow> (string \<times> string) list \<Rightarrow> llm_residual_risk_summary list" where
  "residual_risks packs reasons =
     List.map_filter (\<lambda>p. map_option (residual_risk_summary p) (dict_get reasons (cp_id p))) packs"

text \<open>Failures of required reviewers and unresolved subjects of the general review override both judgements.\<close>

definition blocking_reasons ::
  "review_config \<Rightarrow> llm_reviewer_coverage_summary list \<Rightarrow> run_id set \<Rightarrow> string list" where
  "blocking_reasons config reviewers unresolved =
     (let general = {k \<in> unresolved. fst k = ''general''} in
      concat (map rcs_reasons (filter (\<lambda>r. rcs_required r \<and> rcs_status r = RST_FAIL) reviewers))
      @ (if lc_enabled (rc_llm config) \<and> rc_reviewers config = []
            \<and> reviewer_verify_enabled config ''general'' \<and> general \<noteq> {}
         then [''General review has unresolved verification subjects in '' @ str_int (int (card general))
               @ '' context pack(s).''] else []))"

definition judge :: "coverage_facts \<Rightarrow> string list \<Rightarrow> (string \<times> string list) \<times> (partial_severity \<times> string list)" where
  "judge facts blocking =
     (let (gate, gate_rs) = coverage_quality_gate facts; (severity, partial_rs) = coverage_partial_severity facts in
      if blocking = [] then ((gate, gate_rs), (severity, partial_rs))
      else ((''fail'', gate_rs @ blocking), (PS_CRITICAL, partial_rs @ blocking)))"

definition depth_upgrade_command :: "string \<Rightarrow> string list \<Rightarrow> llm_coverage_todo \<Rightarrow> llm_coverage_todo" where
  "depth_upgrade_command os_name shallow_only t =
     (if todo_context_pack_id t \<in> set shallow_only
      then t\<lparr>todo_suggested_command := bare_continue_command os_name (todo_context_pack_id t) (todo_reviewer_id t) True\<rparr>
      else t)"

definition coverage_todos_of ::
  "string \<Rightarrow> context_pack list \<Rightarrow> coverage_scope \<Rightarrow> llm_residual_risk_summary list \<Rightarrow> string list
     \<Rightarrow> llm_reviewer_coverage_summary list \<Rightarrow> llm_coverage_todo list" where
  "coverage_todos_of os_name all_packs sc residual shallow_only reviewers =
     (let debts = build_reviewer_coverage_todos os_name reviewers all_packs (csc_states sc) (csc_candidates sc) (csc_unresolved sc);
          debt_ids = todo_context_pack_id ` set debts;
          todos = filter (\<lambda>t. todo_context_pack_id t \<notin> debt_ids) (build_coverage_todos os_name residual (csc_packs sc))
            @ debts
            @ filter (\<lambda>t. todo_context_pack_id t \<notin> debt_ids)
                (build_high_risk_depth_todos os_name shallow_only (csc_packs sc) reviewers)
      in sort_key todo_order (map (depth_upgrade_command os_name shallow_only) todos))"

definition ids_where :: "(context_pack \<Rightarrow> bool) \<Rightarrow> context_pack list \<Rightarrow> string list" where
  "ids_where P packs = map cp_id (filter P packs)"

definition coverage_facts_of ::
  "review_config \<Rightarrow> context_pack list \<Rightarrow> review_facts \<Rightarrow> llm_residual_risk_summary list \<Rightarrow> rat \<Rightarrow> coverage_facts" where
  "coverage_facts_of config packs rf residual source_ratio =
     (let reviewed = ids_where (\<lambda>p. cp_id p \<in> set (rvf_reviewed rf)) packs;
          high_risk = ids_where is_high_risk_pack packs;
          reviewed_high_risk = filter (\<lambda>i. i \<in> set (rvf_reviewed rf)) high_risk
      in \<lparr>cfa_enabled = lc_enabled (rc_llm config), cfa_total = int (length packs),
          cfa_coverage_ratio = coverage_ratio (int (length reviewed)) (int (length packs)),
          cfa_source_ratio = source_ratio,
          cfa_high_risk_ratio = (if high_risk \<noteq> []
            then coverage_ratio (int (length reviewed_high_risk)) (int (length high_risk)) else 1),
          cfa_min_source = lc_min_source_line_coverage (rc_llm config),
          cfa_min_high_risk = lc_min_high_risk_coverage (rc_llm config),
          cfa_p0 = count_if (\<lambda>r. rrs_priority r = ''p0'') residual,
          cfa_p1 = count_if (\<lambda>r. rrs_priority r = ''p1'') residual,
          cfa_shallow_only = count_if (\<lambda>i. i \<in> set (rvf_shallow rf) \<and> i \<notin> set (rvf_deep rf)) high_risk,
          cfa_unreviewed = count_if (\<lambda>p. cp_id p \<notin> set (rvf_reviewed rf)) packs,
          cfa_failed_reviews = int (length (rvf_failed_reviews rf)),
          cfa_failed_verifications = int (length (rvf_failed_verifies rf)),
          cfa_failed_review_statuses = sorted_counts (map run_status (rvf_failed_reviews rf)),
          cfa_failed_verify_statuses = sorted_counts (map run_status (rvf_failed_verifies rf))\<rparr>)"

definition build_llm_coverage ::
  "string \<Rightarrow> (string set \<Rightarrow> string list) \<Rightarrow> review_config \<Rightarrow> context_pack list \<Rightarrow> llm_run list
     \<Rightarrow> llm_context_selection option \<Rightarrow> (string \<times> llm_context_selection) list \<Rightarrow> string list option
     \<Rightarrow> finding list \<Rightarrow> finding_verification list \<Rightarrow> llm_coverage_summary" where
  "build_llm_coverage os_name enum config all_packs runs selection selections scope fs vs =
     (let llm = rc_llm config;
          sc = coverage_scope_of enum config all_packs runs selection selections scope fs vs;
          packs = csc_packs sc;
          rf = review_facts_of config (csc_states sc);
          reviewers = build_reviewer_coverage config packs (csc_selections sc) (csc_states sc) scope
            (csc_candidates sc) (csc_unresolved sc);
          reviewed = ids_where (\<lambda>p. cp_id p \<in> set (rvf_reviewed rf)) packs;
          unreviewed = ids_where (\<lambda>p. cp_id p \<notin> set (rvf_reviewed rf)) packs;
          over_budget = over_budget_ids config selection packs;
          failed_by_id = dict_of run_context_pack_id id (rvf_failed_reviews rf);
          reasons = unreviewed_reasons config selection packs rf;
          residual = residual_risks packs reasons;
          files = build_file_coverage packs (rvf_reviewed rf) over_budget residual;
          source_ratio = source_line_coverage_ratio files;
          high_risk = ids_where is_high_risk_pack packs;
          shallow_only = filter (\<lambda>i. i \<in> set (rvf_shallow rf) \<and> i \<notin> set (rvf_deep rf)) high_risk;
          facts = coverage_facts_of config packs rf residual source_ratio;
          ((gate, gate_rs), (severity, partial_rs)) = judge facts (blocking_reasons config reviewers (csc_unresolved sc));
          execution = filter is_execution_run runs;
          reviews = filter is_review_run runs;
          verifies = filter (\<lambda>r. run_kind r = ''verify'') runs;
          usage = aggregate_actual_usage execution
      in \<lparr>cov_enabled = lc_enabled llm,
          cov_verify_enabled = (if reviewers \<noteq> [] then list_ex rcs_verify_enabled reviewers else lc_verify llm),
          cov_max_packs = lc_max_packs llm, cov_coverage_mode = lc_coverage_mode llm,
          cov_max_deep_packs = lc_max_deep_packs llm, cov_max_input_tokens = lc_max_input_tokens llm,
          cov_total_context_packs = int (length packs), cov_reviewed_context_packs = int (length reviewed),
          cov_unreviewed_context_packs = int (length unreviewed),
          cov_coverage_ratio = cfa_coverage_ratio facts,
          cov_source_changed_line_coverage_ratio = source_ratio,
          cov_high_risk_coverage_ratio = cfa_high_risk_ratio facts,
          cov_high_risk_context_packs = int (length high_risk),
          cov_reviewed_high_risk_context_packs = count_if (\<lambda>i. i \<in> set (rvf_reviewed rf)) high_risk,
          cov_shallow_only_high_risk_context_pack_ids = shallow_only,
          cov_quality_gate_status = gate, cov_quality_gate_reasons = gate_rs,
          cov_partial_severity = severity, cov_partial_reasons = partial_rs,
          cov_reviewed_context_pack_ids = reviewed, cov_unreviewed_context_pack_ids = unreviewed,
          cov_unreviewed_context_pack_reasons = reasons,
          cov_pack_statuses = build_pack_statuses packs (rvf_deep rf) (rvf_shallow rf) reasons residual failed_by_id,
          cov_coverage_todos = coverage_todos_of os_name all_packs sc residual shallow_only reviewers,
          cov_over_budget_context_pack_ids = over_budget,
          cov_over_token_budget_context_pack_ids =
            (case selection of None \<Rightarrow> [] | Some sel \<Rightarrow> sel_over_token_budget_context_pack_ids sel),
          cov_truncated_context_pack_ids = ids_where (\<lambda>p. st_truncated (cp_stats p)) packs,
          cov_deep_selected_context_pack_ids =
            (case selection of None \<Rightarrow> reviewed | Some sel \<Rightarrow> sel_deep_selected_context_pack_ids sel),
          cov_shallow_selected_context_pack_ids =
            (case selection of None \<Rightarrow> [] | Some sel \<Rightarrow> sel_shallow_selected_context_pack_ids sel),
          cov_deep_reviewed_context_pack_ids = ids_where (\<lambda>p. cp_id p \<in> set (rvf_deep rf)) packs,
          cov_shallow_reviewed_context_pack_ids = ids_where (\<lambda>p. cp_id p \<in> set (rvf_shallow rf)) packs,
          cov_deep_reviewed_context_packs = int (card (set (rvf_deep rf))),
          cov_shallow_reviewed_context_packs = int (card (set (rvf_shallow rf))),
          cov_residual_risk_p0_context_pack_ids = map rrs_context_pack_id (filter (\<lambda>r. rrs_priority r = ''p0'') residual),
          cov_residual_risk_p1_context_pack_ids = map rrs_context_pack_id (filter (\<lambda>r. rrs_priority r = ''p1'') residual),
          cov_residual_risk_context_packs = residual, cov_file_coverage = files,
          cov_slice_coverage = build_slice_coverage packs (rvf_reviewed rf) (rvf_deep rf) (rvf_shallow rf) residual,
          cov_reviewers = reviewers,
          cov_cluster_context_packs = count_if (\<lambda>p. pack_scope p = ''cluster'') packs,
          cov_file_context_packs = count_if (\<lambda>p. pack_scope p = ''file'') packs,
          cov_symbol_context_packs = count_if (\<lambda>p. pack_scope p = ''symbol'') packs,
          cov_reviewed_files = sorted_set (map cp_file (filter (\<lambda>p. cp_id p \<in> set (rvf_reviewed rf)) packs)),
          cov_unreviewed_files = sorted_set (map cp_file (filter (\<lambda>p. cp_id p \<notin> set (rvf_reviewed rf)) packs)),
          cov_review_runs = int (length reviews), cov_verify_runs = int (length verifies),
          cov_failed_review_runs = count_if (\<lambda>r. \<not> run_ok r) reviews,
          cov_failed_verify_runs = count_if (\<lambda>r. \<not> run_ok r) verifies,
          cov_run_status_counts = sorted_counts (map run_status execution),
          cov_total_duration_ms = sum_list (map run_duration_ms execution),
          cov_input_chars = sum_list (map run_input_chars execution),
          cov_estimated_input_tokens = sum_list (map run_estimated_input_tokens execution),
          cov_actual_input_tokens = ut_actual_input_tokens usage,
          cov_actual_cached_input_tokens = ut_actual_cached_input_tokens usage,
          cov_actual_output_tokens = ut_actual_output_tokens usage,
          cov_actual_reasoning_output_tokens = ut_actual_reasoning_output_tokens usage,
          cov_actual_total_tokens = ut_actual_total_tokens usage,
          cov_actual_cache_read_input_tokens = ut_actual_cache_read_input_tokens usage,
          cov_actual_cache_creation_input_tokens = ut_actual_cache_creation_input_tokens usage,
          cov_estimated_saved_input_tokens = ut_estimated_saved_input_tokens usage,
          cov_estimated_cost_usd = ut_estimated_cost_usd usage, cov_usage_sources = ut_usage_sources usage,
          cov_cache_hits = sum_list (map effective_cache_hits execution),
          cov_cache_misses = sum_list (map effective_cache_misses execution),
          cov_routes = route_summaries execution\<rparr>)"

subsection \<open>Summary lines\<close>

definition todo_is_reviewer_assignment_debt ::
  "llm_coverage_todo \<Rightarrow> llm_reviewer_coverage_summary option \<Rightarrow> bool" where
  "todo_is_reviewer_assignment_debt t r =
     (case r of None \<Rightarrow> True | Some x \<Rightarrow> todo_context_pack_id t \<notin> set (rcs_reviewed_context_pack_ids x))"

definition priority_counts :: "string list \<Rightarrow> string" where
  "priority_counts ps =
     ''P0 '' @ str_int (count_if ((=) ''p0'') ps) @ '', P1 '' @ str_int (count_if ((=) ''p1'') ps)
     @ '', P2 '' @ str_int (count_if ((=) ''p2'') ps)"

definition render_coverage_summary_lines :: "llm_coverage_summary \<Rightarrow> string list" where
  "render_coverage_summary_lines c =
     (if \<not> cov_enabled c then [''Review coverage: DISABLED'']
      else
        let reviewed = cov_reviewed_context_packs c; whole = cov_total_context_packs c;
            ratio = (if whole = 0 then 1 else rat_of_int reviewed / rat_of_int whole);
            status = (case cov_completion_status c of COMP_COMPLETE \<Rightarrow> ''COMPLETE'' | COMP_PARTIAL \<Rightarrow> ''PARTIAL''
              | COMP_INCOMPLETE \<Rightarrow> ''INCOMPLETE'' | COMP_DISABLED \<Rightarrow> ''DISABLED'');
            assigned = sum_list (map rcs_matching_context_packs (cov_reviewers c));
            done = sum_list (map rcs_reviewed_context_packs (cov_reviewers c));
            hr = cov_high_risk_context_packs c; hr_done = cov_reviewed_high_risk_context_packs c;
            depth_debt = length (cov_shallow_only_high_risk_context_pack_ids c);
            by_id = dict_of rcs_reviewer_id id (cov_reviewers c)
        in [''Review coverage: '' @ status @ '' - '' @ str_int reviewed @ ''/'' @ str_int whole
              @ '' unique context packs ('' @ fmt_percent1 ratio @ '')'']
         @ (if assigned \<noteq> 0 then [''Reviewer assignments: '' @ str_int done @ ''/'' @ str_int assigned] else [])
         @ [''High-risk coverage: '' @ (if hr_done = hr \<and> depth_debt = 0 then ''COMPLETE'' else ''PARTIAL'')
              @ '' - '' @ str_int hr_done @ ''/'' @ str_int hr
              @ (if depth_debt \<noteq> 0 then ''; depth debt: '' @ str_int (int depth_debt) @ '' shallow-only'' else []),
            ''Remaining: '' @ priority_counts (map rrs_priority (cov_residual_risk_context_packs c)) @ '' globally unreviewed'',
            ''Reviewer assignment debt: '' @ priority_counts (map todo_priority (filter (\<lambda>t.
                case todo_reviewer_id t of None \<Rightarrow> False
                | Some r \<Rightarrow> todo_is_reviewer_assignment_debt t (dict_get by_id r)) (cov_coverage_todos c)))])"

end
