(* ===== verification/Report_Coverage_Facts.thy ===== *)
theory Report_Coverage_Facts
  imports Report_Coverage Selection_Limits
begin

section \<open>What a coverage summary says\<close>

text \<open>
  Properties of \<open>_build_llm_coverage\<close> (\<open>src/apex_ray/report/coverage.py\<close>): the summary accounts for
  every pack of its scope, every unreviewed pack comes with a to-do, a coverage that counts as complete
  leaves no to-do behind, and the quality gate and the partial severity judge the same facts.
\<close>

named_theorems coverage_fields \<open>fields of a coverage summary\<close>

lemma build_llm_coverage_fields [coverage_fields]:
  fixes os_name enum config all_packs runs selection selections scope fs vs
  defines "c \<equiv> build_llm_coverage os_name enum config all_packs runs selection selections scope fs vs"
    and "sc \<equiv> coverage_scope_of enum config all_packs runs selection selections scope fs vs"
  defines "rf \<equiv> review_facts_of config (csc_states sc)"
  defines "residual \<equiv> residual_risks (csc_packs sc) (unreviewed_reasons config selection (csc_packs sc) rf)"
    and "reviewers \<equiv> build_reviewer_coverage config (csc_packs sc) (csc_selections sc) (csc_states sc) scope
       (csc_candidates sc) (csc_unresolved sc)"
  defines "shallow \<equiv> filter (\<lambda>i. i \<in> set (rvf_shallow rf) \<and> i \<notin> set (rvf_deep rf))
       (ids_where is_high_risk_pack (csc_packs sc))"
    and "facts \<equiv> coverage_facts_of config (csc_packs sc) rf residual (cov_source_changed_line_coverage_ratio c)"
  defines "j \<equiv> judge facts (blocking_reasons config reviewers (csc_unresolved sc))"
  shows "cov_enabled c = lc_enabled (rc_llm config)"
    and "cov_total_context_packs c = int (length (csc_packs sc))"
    and "cov_reviewed_context_packs c = int (length (cov_reviewed_context_pack_ids c))"
    and "cov_unreviewed_context_packs c = int (length (cov_unreviewed_context_pack_ids c))"
    and "cov_reviewed_context_pack_ids c = ids_where (\<lambda>p. cp_id p \<in> set (rvf_reviewed rf)) (csc_packs sc)"
    and "cov_unreviewed_context_pack_ids c = ids_where (\<lambda>p. cp_id p \<notin> set (rvf_reviewed rf)) (csc_packs sc)"
    and "cov_residual_risk_context_packs c = residual"
    and "cov_reviewers c = reviewers"
    and "cov_shallow_only_high_risk_context_pack_ids c = shallow"
    and "cov_coverage_todos c = coverage_todos_of os_name all_packs sc residual shallow reviewers"
    and "cov_quality_gate_status c = fst (fst j)" and "cov_partial_severity c = fst (snd j)"
  unfolding j_def facts_def shallow_def reviewers_def residual_def rf_def sc_def c_def
  by (simp_all add: build_llm_coverage_def Let_def split_beta)

subsection \<open>Every pack is accounted for\<close>

lemma map_filter_options: "set (List.map_filter f xs) = {y. \<exists>x\<in>set xs. f x = Some y}"
  by (force simp: List.map_filter_def)

text \<open>The reviewed packs are those with a successful review among the run states of the scope.\<close>

definition reviewed_in :: "(run_id \<times> pack_run_state) list \<Rightarrow> string \<Rightarrow> bool" where
  "reviewed_in states i \<longleftrightarrow>
     list_ex (\<lambda>(k, s). case prn_review s of None \<Rightarrow> False | Some r \<Rightarrow> run_ok r \<and> run_context_pack_id r = i) states"

lemma rvf_reviewed_iff: "i \<in> set (rvf_reviewed (review_facts_of config states)) \<longleftrightarrow> reviewed_in states i"
proof -
  have "i \<in> set (rvf_reviewed (review_facts_of config states)) \<longleftrightarrow>
      (\<exists>x\<in>set states. \<exists>r. prn_review (snd x) = Some r \<and> run_ok r \<and> run_context_pack_id r = i)"
    by (auto simp: review_facts_of_def map_filter_options image_iff Let_def)
  also have "\<dots> \<longleftrightarrow> reviewed_in states i"
    by (auto simp: reviewed_in_def list_ex_iff split: option.splits) force+
  finally show ?thesis .
qed


subsection \<open>No unreviewed pack is lost\<close>

lemma residual_risks_ids:
  "rrs_context_pack_id ` set (residual_risks packs reasons)
     = {i \<in> cp_id ` set packs. dict_get reasons i \<noteq> None}"
  by (force simp: residual_risks_def map_filter_options residual_risk_summary_def)

lemma unreviewed_reasons_ids:
  "dict_get (unreviewed_reasons config selection packs rf) i = None \<longleftrightarrow>
     i \<notin> cp_id ` {p \<in> set packs. cp_id p \<notin> set (rvf_reviewed rf)}"
  unfolding unreviewed_reasons_def Let_def dict_of_None_iff by auto

lemma pack_todo_id [simp]: "todo_context_pack_id (pack_todo p rid pr reason cmd) = cp_id p"
  by (simp add: pack_todo_def)

lemma depth_upgrade_command_id: "todo_context_pack_id (depth_upgrade_command os_name shallow t) = todo_context_pack_id t"
  by (simp add: depth_upgrade_command_def)

lemma dict_of_packs: "dict_get (dict_of cp_id id packs) i = Some p \<Longrightarrow> cp_id p = i \<and> p \<in> set packs"
  by (auto dest: dict_of_SomeD)

lemma pack_found: "i \<in> cp_id ` set packs \<longleftrightarrow> (\<exists>p. dict_get (dict_of cp_id id packs) i = Some p)"
  using dict_of_None_iff [of cp_id id packs i] by auto

lemma build_coverage_todos_ids:
  "todo_context_pack_id ` set (build_coverage_todos os_name residual packs)
     = {i \<in> rrs_context_pack_id ` set residual. i \<in> cp_id ` set packs}" (is "?L = ?R")
proof
  show "?L \<subseteq> ?R"
    by (force simp: build_coverage_todos_def map_filter_options Let_def dest!: dict_of_packs)
  show "?R \<subseteq> ?L"
  proof
    fix i assume "i \<in> ?R"
    then obtain r p where r: "r \<in> set residual" "rrs_context_pack_id r = i"
      and p: "dict_get (dict_of cp_id id packs) i = Some p" by (auto simp only: pack_found)
    with dict_of_packs [OF p] show "i \<in> ?L" unfolding build_coverage_todos_def Let_def
      by (force simp: map_filter_options image_iff)
  qed
qed

lemma filter_covered:
  "key ` set xs \<subseteq> key ` set (filter (\<lambda>t. key t \<notin> key ` set ys) xs @ ys @ zs)"
  by auto

lemma coverage_todos_of_ids:
  "todo_context_pack_id ` set (build_coverage_todos os_name residual (csc_packs sc))
     \<subseteq> todo_context_pack_id ` set (coverage_todos_of os_name all_packs sc residual shallow reviewers)"
  unfolding coverage_todos_of_def Let_def set_sort set_map image_image depth_upgrade_command_id
  by (rule filter_covered)

text \<open>C21: No unreviewed pack is lost: each of them has a to-do, and its residual risk is listed.\<close>

theorem unreviewed_packs_have_todos:
  fixes os_name enum config all_packs runs selection selections scope fs vs
  shows "let c = build_llm_coverage os_name enum config all_packs runs selection selections scope fs vs
    in set (cov_unreviewed_context_pack_ids c) \<subseteq> todo_context_pack_id ` set (cov_coverage_todos c)
       \<and> rrs_context_pack_id ` set (cov_residual_risk_context_packs c) = set (cov_unreviewed_context_pack_ids c)"
proof -
  let ?sc = "coverage_scope_of enum config all_packs runs selection selections scope fs vs"
  let ?rf = "review_facts_of config (csc_states ?sc)"
  let ?reasons = "unreviewed_reasons config selection (csc_packs ?sc) ?rf"
  have ids: "rrs_context_pack_id ` set (residual_risks (csc_packs ?sc) ?reasons)
      = set (ids_where (\<lambda>p. cp_id p \<notin> set (rvf_reviewed ?rf)) (csc_packs ?sc))"
    by (auto simp: residual_risks_ids unreviewed_reasons_ids ids_where_def)
  have "set (ids_where (\<lambda>p. cp_id p \<notin> set (rvf_reviewed ?rf)) (csc_packs ?sc)) \<subseteq> todo_context_pack_id `
      set (build_coverage_todos os_name (residual_risks (csc_packs ?sc) ?reasons) (csc_packs ?sc))"
    unfolding build_coverage_todos_ids ids by (auto simp: ids_where_def)
  note todos = subset_trans [OF this coverage_todos_of_ids]
  show ?thesis
    unfolding Let_def coverage_fields by (rule conjI [OF todos ids])
qed

subsection \<open>Gate and severity\<close>

lemma judge_blocking: "blocking \<noteq> [] \<Longrightarrow> judge f blocking
    = ((''fail'', snd (coverage_quality_gate f) @ blocking), (PS_CRITICAL, snd (coverage_partial_severity f) @ blocking))"
  by (simp add: judge_def split_beta)

lemma judge_free: "judge f [] = (coverage_quality_gate f, coverage_partial_severity f)"
  by (simp add: judge_def split_beta)

text \<open>The gate fails exactly for a blocking reviewer, an unreviewed P0 pack or a missed threshold;
  and nothing but a full score without failures keeps the severity at none.\<close>

theorem judge_outcome:
  "(fst (fst (judge f blocking)) = ''fail'' \<longleftrightarrow>
      blocking \<noteq> [] \<or> cfa_enabled f \<and> cfa_total f \<noteq> 0 \<and> (cfa_p0 f \<noteq> 0
        \<or> cfa_min_source f \<noteq> 0 \<and> cfa_source_ratio f < cfa_min_source f
        \<or> cfa_min_high_risk f \<noteq> 0 \<and> cfa_high_risk_ratio f < cfa_min_high_risk f))
   \<and> (fst (snd (judge f blocking)) = PS_NONE \<longleftrightarrow>
      blocking = [] \<and> (\<not> cfa_enabled f \<or> cfa_total f = 0
        \<or> cfa_p0 f = 0 \<and> cfa_p1 f = 0 \<and> cfa_shallow_only f = 0 \<and> cfa_failed_reviews f = 0
          \<and> cfa_failed_verifications f = 0 \<and> 1 \<le> cfa_coverage_ratio f \<and> 1 \<le> cfa_source_ratio f
          \<and> 1 \<le> cfa_high_risk_ratio f))"
proof (cases "blocking = []")
  case True
  have gate: "gate_failures f \<noteq> [] \<longleftrightarrow> cfa_min_source f \<noteq> 0 \<and> cfa_source_ratio f < cfa_min_source f
      \<or> cfa_min_high_risk f \<noteq> 0 \<and> cfa_high_risk_ratio f < cfa_min_high_risk f"
    by (simp add: gate_failures_def)
  have "fst (coverage_quality_gate f) = ''fail'' \<longleftrightarrow> cfa_enabled f \<and> cfa_total f \<noteq> 0
      \<and> (cfa_p0 f \<noteq> 0 \<or> gate_failures f \<noteq> [])"
    by (simp add: coverage_quality_gate_def Let_def)
  moreover have "fst (coverage_partial_severity f) = PS_NONE \<longleftrightarrow> \<not> cfa_enabled f \<or> cfa_total f = 0
        \<or> cfa_p0 f = 0 \<and> cfa_p1 f = 0 \<and> cfa_shallow_only f = 0 \<and> cfa_failed_reviews f = 0
          \<and> cfa_failed_verifications f = 0 \<and> 1 \<le> cfa_coverage_ratio f \<and> 1 \<le> cfa_source_ratio f
          \<and> 1 \<le> cfa_high_risk_ratio f"
    by (auto simp: coverage_partial_severity_def Let_def not_less)
  ultimately show ?thesis using True gate by (simp add: judge_free)
qed (simp add: judge_blocking)

subsection \<open>A complete coverage owes nothing\<close>

lemma dict_pop_entries: "x \<in> set (dict_pop k d) \<Longrightarrow> x \<in> set d"
  by (induction d) (auto split: if_splits)

definition keyed_states :: "(run_id \<times> pack_run_state) list \<Rightarrow> bool" where
  "keyed_states d \<longleftrightarrow> (\<forall>(k, s) \<in> set d. k = (prn_reviewer_id s, prn_context_pack_id s))"

lemma keyed_states_set: "\<lbrakk>keyed_states d; k = (prn_reviewer_id s, prn_context_pack_id s)\<rbrakk> \<Longrightarrow> keyed_states (dict_set k s d)"
  by (auto simp: keyed_states_def dest!: dict_set_entries)

lemma keyed_states_pop: "keyed_states d \<Longrightarrow> keyed_states (dict_pop k d)"
  by (auto simp: keyed_states_def dest!: dict_pop_entries)

lemma reduced_states_keyed: "keyed_states (reduce_llm_pack_run_states runs)"
  unfolding reduce_llm_pack_run_states_def
proof (rule fold_inv [where P = keyed_states])
  show "keyed_states []" by (simp add: keyed_states_def)
next
  fix r d assume "keyed_states d"
  then show "keyed_states (reduce_run r d)"
    by (simp add: reduce_run_def Let_def run_key_def keyed_states_set keyed_states_pop split: option.split)
qed

lemma candidate_counts_positive:
  assumes "(k, n) \<in> set (csc_candidates (coverage_scope_of enum config all_packs runs selection selections scope fs vs))"
  shows "0 < n"
  using assms by (auto simp: coverage_scope_of_def Let_def dest: verification_candidates_nonempty)

lemma of_reviewer_set: "(i, v) \<in> set (of_reviewer rid d) \<longleftrightarrow> ((rid, i), v) \<in> set d"
  by (force simp: of_reviewer_def)

text \<open>Every run state of the scope belongs to a selected pack of its reviewer or to a candidate.\<close>

definition in_selection ::
  "review_config \<Rightarrow> context_pack list \<Rightarrow> (string \<times> llm_context_selection) list \<Rightarrow> (run_id \<times> pack_run_state) list
     \<Rightarrow> run_id \<Rightarrow> bool" where
  "in_selection config packs selections states k \<longleftrightarrow>
     snd k \<in> set (reviewer_selected_ids config packs selections (map snd (of_reviewer (fst k) states)) (fst k))"

lemma configured_pack_ids_reviewer:
  assumes "configured_pack_ids config scope packs = Some conf" and "dict_get conf rid = Some ids" and "i \<in> set ids"
  shows "\<exists>r. configured_reviewer config rid = Some r \<and> rv_enabled r
    \<and> i \<in> cp_id ` set (filter (reviewer_matches_pack r) packs)"
proof -
  let ?in = "\<lambda>r. case scope of None \<Rightarrow> True | Some s \<Rightarrow> rv_id r \<in> set s"
  have found: "find (\<lambda>r. rv_id r = rid) (filter ?in rs) = Some r \<Longrightarrow> find (\<lambda>r. rv_id r = rid) rs = Some r" for rs r
    by (induction rs) (auto split: if_splits option.splits dest: find_SomeD)
  from assms obtain r where "find (\<lambda>r. rv_id r = rid) (rev (filter ?in (rc_reviewers config))) = Some r"
    and ids: "ids = (if rv_enabled r then map cp_id (filter (reviewer_matches_pack r) packs) else [])"
    by (auto simp: configured_pack_ids_def dict_simps split: if_splits)
  then have "configured_reviewer config rid = Some r"
    using found by (simp add: configured_reviewer_def dict_simps rev_filter)
  with ids assms(3) show ?thesis by (auto split: if_splits)
qed

lemma in_filtered: "\<lbrakk>i \<in> f ` set xs; i \<in> I\<rbrakk> \<Longrightarrow> i \<in> set (map f (filter (\<lambda>x. f x \<in> I) xs))"
  by auto

lemma scope_state_selected:
  assumes "run_state_in_reviewer_scope s selections (configured_pack_ids config scope packs) (map cp_id packs) cands"
    and "((prn_reviewer_id s, prn_context_pack_id s), s) \<in> set states"
  shows "in_selection config packs selections states (prn_reviewer_id s, prn_context_pack_id s)
    \<or> (prn_reviewer_id s, prn_context_pack_id s) \<in> set cands"
proof (rule disjCI)
  let ?rid = "prn_reviewer_id s" and ?i = "prn_context_pack_id s"
  assume "(?rid, ?i) \<notin> set cands"
  with assms(1) have pack: "?i \<in> cp_id ` set packs"
    and sel: "case dict_get selections ?rid of Some sel \<Rightarrow> ?i \<in> set (sel_selected_context_pack_ids sel)
      | None \<Rightarrow> (case configured_pack_ids config scope packs of
            Some conf \<Rightarrow> ?i \<in> set (dict_get_or conf ?rid []) | None \<Rightarrow> selections = [])"
    by (auto simp: run_state_in_reviewer_scope_def Let_def split: if_splits option.splits)
  have own: "?i \<in> prn_context_pack_id ` set (map snd (of_reviewer ?rid states))"
    using assms(2) by (force simp: of_reviewer_def)
  show "in_selection config packs selections states (?rid, ?i)"
  proof (cases "dict_get selections ?rid")
    case (Some sel)
    with sel show ?thesis by (simp add: in_selection_def reviewer_selected_ids_def)
  next
    case None
    show ?thesis
    proof (cases "configured_pack_ids config scope packs")
      case (Some conf)
      with sel None obtain ids where "dict_get conf ?rid = Some ids" "?i \<in> set ids"
        by (cases "dict_get conf ?rid") (auto simp: dict_get_or_def)
      from configured_pack_ids_reviewer [OF Some this] None show ?thesis
        by (auto simp: in_selection_def reviewer_selected_ids_def reviewer_matching_ids_def)
    next
      case none: None
      then have "rc_reviewers config = []" by (auto simp: configured_pack_ids_def split: if_splits)
      then have "configured_reviewer config ?rid = None" by (simp add: configured_reviewer_def dict_of_def)
      with None in_filtered [OF pack own] show ?thesis
        by (simp add: in_selection_def reviewer_selected_ids_def reviewer_matching_ids_def Let_def)
    qed
  qed
qed

text \<open>A passing reviewer owes nothing: every matching pack is reviewed and every verification done.\<close>

lemma reviewer_pass:
  fixes config packs selections states counts unresolved rid
  defines "r \<equiv> reviewer_summary config packs selections states counts unresolved rid"
  defines "own \<equiv> map snd (of_reviewer rid states)"
  defines "selected \<equiv> reviewer_selected_ids config packs selections own rid"
  defines "failed \<equiv> filter (\<lambda>x. \<not> run_ok x) (reviewer_verify_runs (rcs_verify_enabled r) selected counts unresolved own rid)"
    and "missing \<equiv> missing_verification_ids (rcs_verify_enabled r) selected counts unresolved own rid"
  assumes "rcs_status r \<noteq> RST_NOT_APPLICABLE" "rcs_status r \<noteq> RST_WARN" "rcs_status r \<noteq> RST_FAIL"
    and "\<not> rcs_reviewed_context_packs r < rcs_matching_context_packs r" and "finite unresolved"
  shows "failed = []" and "missing = {}"
    and "set (rcs_matching_context_pack_ids r) - set (rcs_reviewed_context_pack_ids r) = {}"
    and "rcs_reviewer_id r = rid"
proof -
  let ?reasons = "\<lambda>sel miss. reviewer_reasons (rcs_required r) rid (rcs_matching_context_pack_ids r) sel miss
    (int (length failed)) (int (card missing))"
  have st: "\<exists>sel miss. rcs_status r = fst (reviewer_outcome (lc_enabled (rc_llm config)) (rcs_required r)
      (rcs_matching_context_pack_ids r) (?reasons sel miss))"
    unfolding r_def failed_def missing_def selected_def own_def
      reviewer_summary_def Let_def split_beta llm_reviewer_coverage_summary.select_convs
    by (intro exI, rule refl)
  then obtain sel miss where "?reasons sel miss = []"
    using assms(6-8) by (auto simp: reviewer_outcome_def split: if_splits)
  then have "length failed = 0" "card missing = 0"
    by (auto simp: reviewer_reasons_def Let_def split: if_splits)
  moreover have "finite missing"
    using assms(10) by (simp add: missing_def missing_verification_ids_def Let_def)
  ultimately show "failed = []" "missing = {}" by simp_all
  have "\<exists>P. rcs_reviewed_context_pack_ids r = filter P (rcs_matching_context_pack_ids r)"
    unfolding r_def reviewer_summary_def Let_def split_beta llm_reviewer_coverage_summary.select_convs
    by (intro exI, rule refl)
  then obtain P where P: "rcs_reviewed_context_pack_ids r = filter P (rcs_matching_context_pack_ids r)" ..
  have "rcs_reviewed_context_packs r = int (length (rcs_reviewed_context_pack_ids r))"
    "rcs_matching_context_packs r = int (length (rcs_matching_context_pack_ids r))"
    unfolding r_def by (simp_all add: reviewer_summary_def Let_def split_beta)
  with assms(9) P have "\<forall>i\<in>set (rcs_matching_context_pack_ids r). P i"
    by (metis length_filter_less linorder_not_less of_nat_less_iff)
  with P show "set (rcs_matching_context_pack_ids r) - set (rcs_reviewed_context_pack_ids r) = {}" by auto
  show "rcs_reviewer_id r = rid"
    unfolding r_def by (simp add: reviewer_summary_def Let_def split_beta)
qed

lemma reviewer_pass_no_todos:
  fixes config packs selections states counts unresolved rid
  defines "r \<equiv> reviewer_summary config packs selections states counts unresolved rid"
  assumes "rcs_status r \<noteq> RST_WARN" "rcs_status r \<noteq> RST_FAIL"
    and "\<not> rcs_reviewed_context_packs r < rcs_matching_context_packs r" and "finite unresolved"
    and "keyed_states states" and counts: "\<And>k n. (k, n) \<in> set counts \<Longrightarrow> 0 < n"
    and scope: "\<And>k s. (k, s) \<in> set states \<Longrightarrow> in_selection config packs selections states k \<or> k \<in> fst ` set counts"
  shows "reviewer_todos os_name by_id states counts unresolved r = []"
proof (cases "rcs_status r = RST_NOT_APPLICABLE")
  case True
  then show ?thesis by (simp add: reviewer_todos_def)
next
  case False
  let ?own = "map snd (of_reviewer rid states)"
  let ?sel = "reviewer_selected_ids config packs selections ?own rid"
  note pass = reviewer_pass [of config packs selections states counts unresolved rid, folded r_def,
      OF False assms(2,3,4,5)]
  have total_pos: "0 < sum_list (map snd (of_reviewer rid counts))" if "(rid, i) \<in> fst ` set counts" for i
  proof -
    from that obtain n where n: "(i, n) \<in> set (of_reviewer rid counts)" by (auto simp: of_reviewer_set)
    have pos: "0 < snd x" if "x \<in> set (of_reviewer rid counts)" for x
      using that counts by (cases x rule: prod.exhaust) (auto simp: of_reviewer_set)
    have "snd (i, n) \<le> sum_list (map snd (of_reviewer rid counts))"
      by (rule member_le_sum_list) (use n pos in \<open>force+\<close>)
    with pos [OF n] show ?thesis by simp
  qed
  have state: "prn_context_pack_id s = i" "i \<in> set ?sel \<or> (rid, i) \<in> fst ` set counts"
    if "(i, s) \<in> set (of_reviewer rid states)" for i s
  proof -
    from that have "((rid, i), s) \<in> set states" by (simp add: of_reviewer_set)
    with assms(6) scope [OF this] show "prn_context_pack_id s = i" "i \<in> set ?sel \<or> (rid, i) \<in> fst ` set counts"
      by (auto simp: keyed_states_def in_selection_def)
  qed
  have verify_ok: "\<not> list_ex (\<lambda>x. \<not> run_ok x) (prn_verify_runs s)"
    if "rcs_verify_enabled r" "(i, s) \<in> set (of_reviewer rid states)" for i s
  proof -
    from state [OF that(2)] have "prn_context_pack_id s \<in>
        set (map fst (filter (\<lambda>(i, n). 0 < n) (of_reviewer rid counts))) \<union> snd ` {k \<in> unresolved. fst k = rid} \<union> set ?sel"
      using counts by (auto simp: of_reviewer_set image_iff split_beta)
    moreover have "s \<in> set ?own" using that(2) by force
    ultimately show ?thesis using pass(1) that(1)
      by (auto simp: reviewer_verify_runs_def Let_def filter_empty_conv list_ex_iff)
  qed
  have decided: "\<not> ((case prn_review s of None \<Rightarrow> False | Some x \<Rightarrow> run_ok x \<and> 0 < run_findings_count x)
      \<and> ((rid, i) \<in> unresolved \<or> (\<not> list_ex run_ok (prn_verify_runs s)
          \<and> sum_list (map snd (of_reviewer rid counts)) = 0)))"
    if "rcs_verify_enabled r" "(i, s) \<in> set (of_reviewer rid states)" for i s
  proof
    assume bad: "(case prn_review s of None \<Rightarrow> False | Some x \<Rightarrow> run_ok x \<and> 0 < run_findings_count x)
      \<and> ((rid, i) \<in> unresolved \<or> (\<not> list_ex run_ok (prn_verify_runs s)
          \<and> sum_list (map snd (of_reviewer rid counts)) = 0))"
    have "s \<in> set ?own" using that(2) by force
    with bad state [OF that(2)] total_pos [of i] pass(2) that(1) show False
      by (force simp: missing_verification_ids_def Let_def findings_unverified_def filter_empty_conv)
  qed
  have none: "{k \<in> unresolved. fst k = rid} = {}" if "rcs_verify_enabled r"
    using pass(2) that by (simp add: missing_verification_ids_def Let_def)
  have failed: "filter (\<lambda>(i, s). list_ex (\<lambda>x. \<not> run_ok x) (prn_verify_runs s)) (of_reviewer rid states) = []"
    if "rcs_verify_enabled r"
    unfolding filter_empty_conv using verify_ok [OF that] by blast
  have missing: "filter (\<lambda>(i, s). (case prn_review s of None \<Rightarrow> False | Some x \<Rightarrow> run_ok x \<and> 0 < run_findings_count x)
      \<and> ((rid, i) \<in> unresolved \<or> (\<not> list_ex run_ok (prn_verify_runs s)
          \<and> sum_list (map snd (of_reviewer rid counts)) = 0))) (of_reviewer rid states) = []"
    if "rcs_verify_enabled r"
    unfolding filter_empty_conv using decided [OF that] by blast
  show ?thesis
    unfolding reviewer_todos_def Let_def pass(3,4)
    by (cases "rcs_verify_enabled r")
      (simp_all only: failed missing none if_True if_False set_simps image_empty Un_empty_left sorted_list_of_set_empty
        List.map_filter_simps if_cancel)
qed

lemma concat_map_Nil: "(\<And>x. x \<in> set xs \<Longrightarrow> f x = []) \<Longrightarrow> concat (map f xs) = []"
  by simp

lemma enumerated_unresolved_finite: "finite (unresolved_verification_candidate_pack_ids enum fs vs)"
  by (simp add: unresolved_verification_candidate_pack_ids_def Let_def)

lemma scope_states:
  fixes enum config all_packs runs selection selections scope fs vs
  defines "sc \<equiv> coverage_scope_of enum config all_packs runs selection selections scope fs vs"
  shows "keyed_states (csc_states sc)"
    and "(k, s) \<in> set (csc_states sc) \<Longrightarrow>
      in_selection config (csc_packs sc) (csc_selections sc) (csc_states sc) k \<or> k \<in> fst ` set (csc_candidates sc)"
proof -
  let ?cands = "map fst (csc_candidates sc)"
  have states: "csc_states sc = filter (\<lambda>(k, s). run_state_in_reviewer_scope s (csc_selections sc)
      (configured_pack_ids config scope (csc_packs sc)) (map cp_id (csc_packs sc)) ?cands) (reduce_llm_pack_run_states runs)"
    by (simp add: sc_def coverage_scope_of_def Let_def)
  with reduced_states_keyed [of runs] show keyed: "keyed_states (csc_states sc)"
    by (auto simp: keyed_states_def)
  assume k: "(k, s) \<in> set (csc_states sc)"
  with keyed have key: "k = (prn_reviewer_id s, prn_context_pack_id s)" by (auto simp: keyed_states_def)
  have "run_state_in_reviewer_scope s (csc_selections sc)
      (configured_pack_ids config scope (csc_packs sc)) (map cp_id (csc_packs sc)) ?cands"
    using k unfolding states by simp
  from scope_state_selected [OF this k [unfolded key]] key
  show "in_selection config (csc_packs sc) (csc_selections sc) (csc_states sc) k \<or> k \<in> fst ` set (csc_candidates sc)"
    by simp
qed

lemma no_shallow_debt:
  assumes "fst (coverage_partial_severity (coverage_facts_of config packs rf residual ratio)) = PS_NONE"
    and "lc_enabled (rc_llm config)"
  shows "filter (\<lambda>i. i \<in> set (rvf_shallow rf) \<and> i \<notin> set (rvf_deep rf)) (ids_where is_high_risk_pack packs) = []"
proof (cases "packs = []")
  case False
  with assms have "cfa_shallow_only (coverage_facts_of config packs rf residual ratio) = 0"
    by (auto simp: coverage_partial_severity_def coverage_facts_of_def Let_def split: if_splits)
  then show ?thesis by (simp add: coverage_facts_of_def Let_def count_if_def)
qed (simp add: ids_where_def)

text \<open>C3: A complete coverage owes nothing: when the summary counts as complete, no pack is unreviewed,
  no high-risk pack was reviewed only shallowly, and there is no to-do left, of no reviewer and for
  no verification.\<close>

theorem complete_coverage_owes_nothing:
  assumes "c = build_llm_coverage os_name enum config all_packs runs selection selections scope fs vs"
    and "cov_completion_status c = COMP_COMPLETE"
  shows "cov_unreviewed_context_pack_ids c = []
    \<and> cov_shallow_only_high_risk_context_pack_ids c = [] \<and> cov_coverage_todos c = []"
proof -
  let ?sc = "coverage_scope_of enum config all_packs runs selection selections scope fs vs"
  let ?rf = "review_facts_of config (csc_states ?sc)"
  let ?reasons = "unreviewed_reasons config selection (csc_packs ?sc) ?rf"
  let ?reviewers = "build_reviewer_coverage config (csc_packs ?sc) (csc_selections ?sc) (csc_states ?sc) scope
       (csc_candidates ?sc) (csc_unresolved ?sc)"
  from assms(2) have main: "cov_enabled c" "cov_unreviewed_context_packs c = 0" "cov_partial_severity c = PS_NONE"
    and reviewers: "\<And>r. r \<in> set (cov_reviewers c) \<Longrightarrow> \<not> rcs_reviewed_context_packs r < rcs_matching_context_packs r
      \<and> rcs_status r \<noteq> RST_WARN \<and> rcs_status r \<noteq> RST_FAIL"
    by (auto simp: cov_completion_status_def Let_def list_ex_iff split: if_splits)
  note fields = build_llm_coverage_fields [of os_name enum config all_packs runs selection selections scope fs vs,
    folded assms(1)]
  from main have enabled: "lc_enabled (rc_llm config)" by (simp add: fields)
  from main have unreviewed: "cov_unreviewed_context_pack_ids c = []" by (simp add: fields)
  then have none: "filter (\<lambda>p. cp_id p \<notin> set (rvf_reviewed ?rf)) (csc_packs ?sc) = []"
    by (simp add: fields ids_where_def)
  have severity: "fst (coverage_partial_severity (coverage_facts_of config (csc_packs ?sc) ?rf
      (residual_risks (csc_packs ?sc) ?reasons) (cov_source_changed_line_coverage_ratio c))) = PS_NONE"
    using main(3) by (simp add: fields judge_def split_beta split: if_splits)
  have shallow: "cov_shallow_only_high_risk_context_pack_ids c = []"
    unfolding fields using severity enabled by (rule no_shallow_debt)
  have residual: "residual_risks (csc_packs ?sc) ?reasons = []"
    by (simp add: unreviewed_reasons_def none dict_of_def residual_risks_def List.map_filter_def)
  have "reviewer_todos os_name by_id (csc_states ?sc) (csc_candidates ?sc) (csc_unresolved ?sc) r = []"
    if "r \<in> set ?reviewers" for r by_id
  proof -
    from that obtain rid where r: "r = reviewer_summary config (csc_packs ?sc) (csc_selections ?sc)
        (csc_states ?sc) (csc_candidates ?sc) (csc_unresolved ?sc) rid"
      by (auto simp: build_reviewer_coverage_def)
    have "finite (csc_unresolved ?sc)"
      using enumerated_unresolved_finite by (simp add: coverage_scope_of_def Let_def)
    with that reviewers [of r] show ?thesis unfolding r fields(8)
      by (intro reviewer_pass_no_todos scope_states candidate_counts_positive) simp_all
  qed
  then have "build_reviewer_coverage_todos os_name ?reviewers all_packs (csc_states ?sc) (csc_candidates ?sc)
      (csc_unresolved ?sc) = []"
    unfolding build_reviewer_coverage_todos_def by (subst concat_map_Nil) simp_all
  moreover have "build_coverage_todos os_name [] packs = []" "build_high_risk_depth_todos os_name [] packs rs = []" for packs rs
    by (simp_all add: build_coverage_todos_def build_high_risk_depth_todos_def List.map_filter_def Let_def)
  ultimately have "cov_coverage_todos c = []"
    using shallow unfolding fields(9,10) residual by (simp add: coverage_todos_of_def Let_def)
  with unreviewed shallow show ?thesis by simp
qed

text \<open>A pack, and a successful deep review of it.\<close>

definition sample_run :: "string \<Rightarrow> string \<Rightarrow> llm_run" where
  "sample_run kind i = \<lparr>run_kind = kind, run_provider = ''codex'', run_model = None, run_effort = None,
     run_profile = None, run_route_reason = None, run_prompt_version = None, run_reviewer_id = ''general'',
     run_context_pack_id = i, run_status = ''ok'', run_duration_ms = 5, run_input_chars = 100,
     run_estimated_input_tokens = 25, run_actual_input_tokens = 0, run_actual_cached_input_tokens = 0,
     run_actual_output_tokens = 0, run_actual_reasoning_output_tokens = 0, run_actual_total_tokens = 0,
     run_actual_cache_read_input_tokens = 0, run_actual_cache_creation_input_tokens = 0,
     run_estimated_saved_input_tokens = 0, run_estimated_cost_usd = None, run_usage_source = None,
     run_findings_count = 0, run_cache_hit = False, run_cache_hits = 0, run_cache_misses = 0,
     run_cache_key = None, run_error = None\<rparr>"

definition sample_coverage :: "llm_run list \<Rightarrow> llm_coverage_summary" where
  "sample_coverage runs = build_llm_coverage ''posix'' sorted_list_of_set
     (default_review_config\<lparr>rc_llm := default_llm_config\<lparr>lc_enabled := True\<rparr>\<rparr>)
     [sample_pack ''a'' ''x.py''] runs None [] None [] []"

lemma sample_coverage_complete: "cov_completion_status (sample_coverage [sample_run ''review'' ''a'']) = COMP_COMPLETE"
  by code_simp

lemma complete_coverage_owes_nothing_witness:
  "let c = sample_coverage [sample_run ''review'' ''a'']
   in cov_unreviewed_context_pack_ids c = [] \<and> cov_shallow_only_high_risk_context_pack_ids c = [] \<and> cov_coverage_todos c = []"
  unfolding Let_def
  using complete_coverage_owes_nothing [OF sample_coverage_def sample_coverage_complete] .

end
