(* ===== verification/Triage.thy ===== *)
theory Triage
  imports Model_Report Verifications
begin

section \<open>Suppressing findings\<close>

text \<open>
  \<open>src/apex_ray/triage.py\<close>: a reader marks a finding as a false positive, and later runs leave it out
  until the mark expires, is pruned or becomes stale because the context pack has changed. The hash of a
  finding and of a pack, the random part of an identifier, and the JSON form of a record are parameters;
  a file is absent, unreadable or a text. \<open>render_triage_snapshot\<close> (one JSON document) is not modelled.
\<close>

subsection \<open>State\<close>

datatype suppression_verdict = SUP_FALSE_POSITIVE | SUP_NOT_ACTIONABLE | SUP_DUPLICATE | SUP_ACCEPTED_RISK

datatype triage_event_kind = TE_CREATED | TE_MATCHED | TE_STALE | TE_EXPIRED | TE_PRUNED | TE_REMOVED

record finding_snapshot =
  fsn_fingerprint :: string
  fsn_title :: string
  fsn_severity :: string
  fsn_confidence :: string
  fsn_file :: string
  fsn_line :: "int option"
  fsn_context_pack_id :: string
  fsn_context_pack_fingerprint :: string

record finding_suppression =
  sup_id :: string
  sup_finding_fingerprint :: string
  sup_context_pack_id :: string
  sup_context_pack_fingerprint :: string
  sup_file :: string
  sup_line :: "int option"
  sup_title :: string
  sup_severity :: string
  sup_confidence :: string
  sup_verdict :: suppression_verdict
  sup_reason :: string
  sup_target_base_ref :: "string option"
  sup_created_at :: datetime
  sup_expires_at :: "datetime option"
  sup_last_matched_at :: "datetime option"
  sup_match_count :: int
  sup_report_path :: string

text \<open>\<open>migrate_legacy_scope_base_ref\<close>: a key that is absent is \<^term>\<open>None\<close>, a null value \<^term>\<open>Some None\<close>.\<close>

definition migrate_legacy_scope_base_ref ::
  "string option option \<Rightarrow> string option option \<Rightarrow> string option" where
  "migrate_legacy_scope_base_ref target scope =
     (case target of Some v \<Rightarrow> v | None \<Rightarrow> (case scope of Some v \<Rightarrow> v | None \<Rightarrow> None))"

definition triage_state_schema :: string where
  "triage_state_schema = ''finding-triage-state/v1''"

record triage_state =
  tst_schema_version :: string
  tst_suppressions :: "finding_suppression list"

definition new_triage_state :: "finding_suppression list \<Rightarrow> triage_state" where
  "new_triage_state sups = \<lparr>tst_schema_version = triage_state_schema, tst_suppressions = sups\<rparr>"

record triage_event =
  tev_event :: triage_event_kind
  tev_suppression_id :: string
  tev_finding_fingerprint :: string
  tev_created_at :: datetime
  tev_verdict :: suppression_verdict
  tev_reason :: string
  tev_suppression_reason :: string
  tev_file :: string
  tev_line :: "int option"
  tev_title :: string
  tev_severity :: string
  tev_context_pack_id :: string

definition triage_event_of :: "triage_event_kind \<Rightarrow> finding_suppression \<Rightarrow> datetime \<Rightarrow> string \<Rightarrow> triage_event" where
  "triage_event_of kind s created reason = \<lparr>tev_event = kind, tev_suppression_id = sup_id s,
     tev_finding_fingerprint = sup_finding_fingerprint s, tev_created_at = created, tev_verdict = sup_verdict s,
     tev_reason = reason, tev_suppression_reason = sup_reason s, tev_file = sup_file s, tev_line = sup_line s,
     tev_title = sup_title s, tev_severity = sup_severity s, tev_context_pack_id = sup_context_pack_id s\<rparr>"

subsection \<open>Instants\<close>

text \<open>\<open>_as_utc\<close>: a naive value counts as UTC. \<open>utc_clock\<close> is the instant in microseconds.\<close>

definition utc_clock :: "datetime \<Rightarrow> int" where
  "utc_clock d = dt_clock d - (case dt_offset d of None \<Rightarrow> 0 | Some off \<Rightarrow> off)"

definition as_utc :: "datetime \<Rightarrow> datetime" where
  "as_utc d = Datetime (utc_clock d) (Some 0)"

definition day_microseconds :: int where
  "day_microseconds = 86400000000"

definition add_days :: "datetime \<Rightarrow> int \<Rightarrow> datetime" where
  "add_days d n = Datetime (dt_clock d + n * day_microseconds) (dt_offset d)"

definition suppression_expired :: "finding_suppression \<Rightarrow> datetime \<Rightarrow> bool" where
  "suppression_expired s now = (case sup_expires_at s of None \<Rightarrow> False | Some e \<Rightarrow> utc_clock e \<le> utc_clock now)"

subsection \<open>Files\<close>

datatype file_read = Absent | Unreadable | Text string

definition load_triage_state :: "(string \<Rightarrow> triage_state option) \<Rightarrow> file_read \<Rightarrow> triage_state" where
  "load_triage_state parse f =
     (case f of
        Text s \<Rightarrow> (case parse s of
            Some st \<Rightarrow> if tst_schema_version st \<noteq> triage_state_schema then new_triage_state [] else st
          | None \<Rightarrow> new_triage_state [])
      | _ \<Rightarrow> new_triage_state [])"

text \<open>Reading a text file line by line: a line ends at a newline, a carriage return, or both.\<close>

fun text_lines :: "string \<Rightarrow> string \<Rightarrow> string list" where
  "text_lines acc [] = (if acc = [] then [] else [rev acc])"
| "text_lines acc (c # cs) =
     (if c = CHR 0x0D then
        (rev acc @ [CHR 0x0A]) # text_lines [] (if cs \<noteq> [] \<and> hd cs = CHR 0x0A then tl cs else cs)
      else if c = CHR 0x0A then (rev acc @ [CHR 0x0A]) # text_lines [] cs
      else text_lines (c # acc) cs)"

fun parse_events :: "(string \<Rightarrow> triage_event option) \<Rightarrow> string list \<Rightarrow> triage_event list option" where
  "parse_events parse [] = Some []"
| "parse_events parse (l # ls) =
     (if py_strip l = [] then parse_events parse ls
      else (case parse l of None \<Rightarrow> None | Some e \<Rightarrow> map_option ((#) e) (parse_events parse ls)))"

definition load_triage_events :: "(string \<Rightarrow> triage_event option) \<Rightarrow> file_read \<Rightarrow> triage_event list" where
  "load_triage_events parse f =
     (case f of
        Text s \<Rightarrow> (case parse_events parse (text_lines [] s) of Some es \<Rightarrow> es | None \<Rightarrow> [])
      | _ \<Rightarrow> [])"

definition events_text :: "(triage_event \<Rightarrow> string) \<Rightarrow> triage_event list \<Rightarrow> string" where
  "events_text dump es = concat (map (\<lambda>e. dump e @ [CHR 0x0A]) es)"

definition retained :: "int option \<Rightarrow> datetime \<Rightarrow> triage_event list \<Rightarrow> triage_event list" where
  "retained retention_days now es =
     (case retention_days of
        None \<Rightarrow> es
      | Some n \<Rightarrow> filter (\<lambda>e. utc_clock now - n * day_microseconds \<le> utc_clock (tev_created_at e)) es)"

definition append_triage_events ::
  "(string \<Rightarrow> triage_event option) \<Rightarrow> (triage_event \<Rightarrow> string) \<Rightarrow> datetime \<Rightarrow> int option \<Rightarrow> triage_event list
     \<Rightarrow> file_read \<Rightarrow> file_read" where
  "append_triage_events parse dump now retention_days es f =
     (if es = [] \<and> retention_days = None then f
      else
        let combined = retained retention_days now (load_triage_events parse f @ es) in
        if combined = [] then (if f = Absent then Absent else Text [])
        else Text (events_text dump combined))"

subsection \<open>Creating and removing suppressions\<close>

definition finding_snapshot_of ::
  "(string \<Rightarrow> string) \<Rightarrow> (context_pack option \<Rightarrow> string) \<Rightarrow> finding \<Rightarrow> context_pack option \<Rightarrow> finding_snapshot" where
  "finding_snapshot_of sha256 pack_hash f pack =
     \<lparr>fsn_fingerprint = finding_fingerprint sha256 f, fsn_title = fi_title f,
      fsn_severity = finding_severity_value (fi_severity f),
      fsn_confidence = finding_confidence_value (fi_confidence f), fsn_file = fi_file f, fsn_line = fi_line f,
      fsn_context_pack_id = fi_context_pack_id f, fsn_context_pack_fingerprint = pack_hash pack\<rparr>"

type_synonym finding_candidate = "finding \<times> finding_snapshot"

definition finding_candidates_for_report ::
  "(string \<Rightarrow> string) \<Rightarrow> (context_pack option \<Rightarrow> string) \<Rightarrow> context_pack list \<Rightarrow> finding list \<Rightarrow> finding_candidate list" where
  "finding_candidates_for_report sha256 pack_hash packs fs =
     (let by_id = dict_of cp_id id packs in
      map (\<lambda>f. (f, finding_snapshot_of sha256 pack_hash f (dict_get by_id (fi_context_pack_id f)))) fs)"

definition create_suppression ::
  "(nat \<Rightarrow> string) \<Rightarrow> nat \<Rightarrow> finding_snapshot \<Rightarrow> string \<Rightarrow> triage_config \<Rightarrow> datetime \<Rightarrow> suppression_verdict
     \<Rightarrow> datetime option \<Rightarrow> string option \<Rightarrow> string option \<Rightarrow> finding_suppression \<times> triage_event" where
  "create_suppression uuid_hex seed snap reason config now verdict expires base_ref report_path =
     (let created = as_utc now;
          s = \<lparr>sup_id = ''sup-'' @ take 12 (uuid_hex seed), sup_finding_fingerprint = fsn_fingerprint snap,
            sup_context_pack_id = fsn_context_pack_id snap,
            sup_context_pack_fingerprint = fsn_context_pack_fingerprint snap, sup_file = fsn_file snap,
            sup_line = fsn_line snap, sup_title = fsn_title snap, sup_severity = fsn_severity snap,
            sup_confidence = fsn_confidence snap, sup_verdict = verdict, sup_reason = reason,
            sup_target_base_ref = base_ref, sup_created_at = created,
            sup_expires_at = Some (case expires of Some e \<Rightarrow> e
              | None \<Rightarrow> add_days created (trc_default_expiry_days config)),
            sup_last_matched_at = None, sup_match_count = 0,
            sup_report_path = (case report_path of None \<Rightarrow> [] | Some p \<Rightarrow> p)\<rparr>
      in (s, triage_event_of TE_CREATED s created reason))"

definition same_suppression_scope :: "finding_suppression \<Rightarrow> finding_suppression \<Rightarrow> bool" where
  "same_suppression_scope a b \<longleftrightarrow> sup_finding_fingerprint a = sup_finding_fingerprint b
     \<and> sup_context_pack_id a = sup_context_pack_id b \<and> sup_target_base_ref a = sup_target_base_ref b"

definition add_or_replace_suppression :: "triage_state \<Rightarrow> finding_suppression \<Rightarrow> triage_state" where
  "add_or_replace_suppression st s =
     new_triage_state (filter (\<lambda>e. \<not> same_suppression_scope e s) (tst_suppressions st) @ [s])"

definition remove_suppressions ::
  "triage_state \<Rightarrow> string \<Rightarrow> datetime \<Rightarrow> triage_state \<times> triage_event list" where
  "remove_suppressions st selector now =
     (let removed = filter (\<lambda>s. sup_id s = selector \<or> sup_finding_fingerprint s = selector) (tst_suppressions st);
          kept = filter (\<lambda>s. s \<notin> set removed) (tst_suppressions st)
      in (new_triage_state kept,
          map (\<lambda>s. triage_event_of TE_REMOVED s (as_utc now) ''Removed by user.'') removed))"

subsection \<open>Pruning\<close>

record triage_prune_result =
  tpr_state :: triage_state
  tpr_events :: "triage_event list"
  tpr_expired_count :: int
  tpr_pruned_count :: int

text \<open>Comparing a naive with an aware \<open>datetime\<close> raises.\<close>

datatype triage_error = Naive_And_Aware

definition last_use :: "finding_suppression \<Rightarrow> datetime" where
  "last_use s = (case sup_last_matched_at s of Some d \<Rightarrow> d | None \<Rightarrow> sup_created_at s)"

definition comparable :: "datetime list \<Rightarrow> bool" where
  "comparable ds \<longleftrightarrow> length ds \<le> 1 \<or> list_all (\<lambda>d. dt_offset d = None) ds \<or> list_all (\<lambda>d. dt_offset d \<noteq> None) ds"

definition prune_triage_state ::
  "triage_state \<Rightarrow> triage_config \<Rightarrow> datetime \<Rightarrow> triage_error + triage_prune_result" where
  "prune_triage_state st config now =
     (let timestamp = as_utc now;
          expired = filter (\<lambda>s. suppression_expired s timestamp) (tst_suppressions st);
          active = filter (\<lambda>s. \<not> suppression_expired s timestamp) (tst_suppressions st);
          expired_events = map (\<lambda>s. triage_event_of TE_EXPIRED s timestamp ''Suppression expired.'') expired;
          excess = int (length active) - trc_max_active_suppressions config
      in if 0 < excess then
           if \<not> comparable (map last_use active) then Inl Naive_And_Aware
           else
             let ordered = sort_key (utc_clock \<circ> last_use) active;
                 stale = take (nat excess) ordered
             in Inr \<lparr>tpr_state = new_triage_state (drop (nat excess) ordered),
                  tpr_events = expired_events
                    @ map (\<lambda>s. triage_event_of TE_PRUNED s timestamp ''Active suppression limit exceeded.'') stale,
                  tpr_expired_count = int (length expired), tpr_pruned_count = int (length stale)\<rparr>
         else Inr \<lparr>tpr_state = new_triage_state active, tpr_events = expired_events,
                tpr_expired_count = int (length expired), tpr_pruned_count = 0\<rparr>)"

subsection \<open>Applying suppressions\<close>

text \<open>The first suppression that applies to a snapshot, with the reason why it is stale, or none.\<close>

definition base_refs_conflict :: "string option \<Rightarrow> string option \<Rightarrow> bool" where
  "base_refs_conflict a b = (case (a, b) of (Some x, Some y) \<Rightarrow> x \<noteq> [] \<and> y \<noteq> [] \<and> x \<noteq> y | _ \<Rightarrow> False)"

definition suppression_applies ::
  "finding_snapshot \<Rightarrow> string option \<Rightarrow> datetime \<Rightarrow> finding_suppression \<Rightarrow> bool" where
  "suppression_applies snap base_ref now s \<longleftrightarrow> sup_finding_fingerprint s = fsn_fingerprint snap
     \<and> \<not> suppression_expired s now \<and> \<not> base_refs_conflict (sup_target_base_ref s) base_ref"

definition stale_reason :: "finding_snapshot \<Rightarrow> finding_suppression \<Rightarrow> string" where
  "stale_reason snap s =
     (if sup_context_pack_fingerprint s \<noteq> [] \<and> fsn_context_pack_fingerprint snap \<noteq> []
         \<and> sup_context_pack_fingerprint s \<noteq> fsn_context_pack_fingerprint snap
      then ''Context pack changed since suppression was created.'' else [])"

definition matching_suppression ::
  "finding_snapshot \<Rightarrow> finding_suppression list \<Rightarrow> string option \<Rightarrow> datetime \<Rightarrow> (finding_suppression \<times> string) option" where
  "matching_suppression snap sups base_ref now =
     map_option (\<lambda>s. (s, stale_reason snap s)) (find (suppression_applies snap base_ref now) sups)"

record triage_progress =
  tpg_remaining :: "finding list"
  tpg_suppressed :: "(finding \<times> finding_suppression \<times> finding_snapshot) list"
  tpg_stale :: "(finding \<times> finding_suppression \<times> finding_snapshot \<times> string) list"
  tpg_events :: "triage_event list"
  tpg_stale_ids :: "string list"
  tpg_updated :: "(string \<times> finding_suppression) list"

definition apply_candidate ::
  "finding_suppression list \<Rightarrow> string option \<Rightarrow> datetime \<Rightarrow> finding_candidate \<Rightarrow> triage_progress \<Rightarrow> triage_progress" where
  "apply_candidate sups base_ref now cand t =
     (let (f, snap) = cand in
      case matching_suppression snap sups base_ref now of
        None \<Rightarrow> t\<lparr>tpg_remaining := tpg_remaining t @ [f]\<rparr>
      | Some (s, reason) \<Rightarrow>
          if reason \<noteq> [] then
            let t' = (if sup_id s \<notin> set (tpg_stale_ids t)
                  then t\<lparr>tpg_stale_ids := tpg_stale_ids t @ [sup_id s], tpg_stale := tpg_stale t @ [(f, s, snap, reason)],
                      tpg_events := tpg_events t @ [triage_event_of TE_STALE s now reason]\<rparr>
                  else t)
            in t'\<lparr>tpg_remaining := tpg_remaining t' @ [f]\<rparr>
          else
            let updated = s\<lparr>sup_last_matched_at := Some now, sup_match_count := sup_match_count s + 1\<rparr>
            in t\<lparr>tpg_updated := dict_set (sup_id s) updated (tpg_updated t),
                 tpg_suppressed := tpg_suppressed t @ [(f, updated, snap)],
                 tpg_events := tpg_events t @ [triage_event_of TE_MATCHED updated now (sup_reason updated)]\<rparr>)"

record triage_apply_result =
  tar_remaining_findings :: "finding list"
  tar_suppressed_findings :: "(finding \<times> finding_suppression \<times> finding_snapshot) list"
  tar_stale_suppressions :: "(finding \<times> finding_suppression \<times> finding_snapshot \<times> string) list"
  tar_state :: triage_state
  tar_events :: "triage_event list"
  tar_stale_count :: int

definition no_progress :: triage_progress where
  "no_progress = \<lparr>tpg_remaining = [], tpg_suppressed = [], tpg_stale = [], tpg_events = [],
     tpg_stale_ids = [], tpg_updated = []\<rparr>"

definition next_suppressions :: "finding_suppression list \<Rightarrow> triage_progress \<Rightarrow> finding_suppression list" where
  "next_suppressions sups t =
     map (\<lambda>s. dict_get_or (tpg_updated t) (sup_id s) s) (filter (\<lambda>s. sup_id s \<notin> set (tpg_stale_ids t)) sups)"

definition apply_suppressions ::
  "finding_candidate list \<Rightarrow> triage_state \<Rightarrow> string option \<Rightarrow> datetime \<Rightarrow> triage_apply_result" where
  "apply_suppressions cands st base_ref now =
     (let timestamp = as_utc now; sups = tst_suppressions st;
          t = fold (apply_candidate sups base_ref timestamp) cands no_progress
      in \<lparr>tar_remaining_findings = tpg_remaining t, tar_suppressed_findings = tpg_suppressed t,
          tar_stale_suppressions = tpg_stale t, tar_state = new_triage_state (next_suppressions sups t),
          tar_events = tpg_events t, tar_stale_count = int (length (tpg_stale_ids t))\<rparr>)"

subsection \<open>What applying suppressions guarantees\<close>

abbreviation applied :: "finding_suppression list \<Rightarrow> string option \<Rightarrow> datetime \<Rightarrow> finding_candidate list \<Rightarrow> triage_progress" where
  "applied sups base_ref now cands \<equiv> fold (apply_candidate sups base_ref now) cands no_progress"

lemma apply_candidate_findings:
  "tpg_remaining (apply_candidate sups b now c t) = tpg_remaining t @ (if c \<in> C then [fst c] else [])
   \<and> map fst (tpg_suppressed (apply_candidate sups b now c t)) = map fst (tpg_suppressed t) @ (if c \<in> C then [] else [fst c])"
  if "C = {c. case matching_suppression (snd c) sups b now of None \<Rightarrow> True | Some (s, reason) \<Rightarrow> reason \<noteq> []}"
  unfolding that by (cases c) (auto simp: apply_candidate_def Let_def split: option.split prod.split)

lemma applied_findings:
  fixes sups b now
  defines "C \<equiv> {c. case matching_suppression (snd c) sups b now of None \<Rightarrow> True | Some (s, reason) \<Rightarrow> reason \<noteq> []}"
  shows "tpg_remaining (applied sups b now cands) = map fst (filter (\<lambda>c. c \<in> C) cands)
    \<and> map fst (tpg_suppressed (applied sups b now cands)) = map fst (filter (\<lambda>c. c \<notin> C) cands)"
proof (induction cands rule: rev_induct)
  case Nil
  show ?case by (simp add: no_progress_def)
next
  case (snoc c cs)
  with apply_candidate_findings [OF C_def [THEN meta_eq_to_obj_eq], of c "applied sups b now cs"] show ?case by simp
qed

text \<open>Every finding of a run is either reported or listed as suppressed, as often as it came in, and
  both lists keep the order of the findings.\<close>

theorem apply_suppressions_partition:
  "let r = apply_suppressions cands st base_ref now
   in mset (tar_remaining_findings r) + mset (map fst (tar_suppressed_findings r)) = mset (map fst cands)
      \<and> subseq (tar_remaining_findings r) (map fst cands)
      \<and> subseq (map fst (tar_suppressed_findings r)) (map fst cands)"
proof -
  let ?C = "{c. case matching_suppression (snd c) (tst_suppressions st) base_ref (as_utc now) of
      None \<Rightarrow> True | Some (s, reason) \<Rightarrow> reason \<noteq> []}"
  have split: "mset (map fst (filter P cands)) + mset (map fst (filter (\<lambda>c. \<not> P c) cands)) = mset (map fst cands)" for P
    unfolding mset_map image_mset_union [symmetric] mset_filter_split ..
  have subs: "subseq (map fst (filter P cands)) (map fst cands)" for P
    by (intro subseq_map subseq_filter_left)
  note lists = applied_findings [of "tst_suppressions st" base_ref "as_utc now" cands]
  show ?thesis
    unfolding apply_suppressions_def Let_def triage_apply_result.select_convs conjunct1 [OF lists] conjunct2 [OF lists]
    using split [of "\<lambda>c. c \<in> ?C"] subs [of "\<lambda>c. c \<in> ?C"] subs [of "\<lambda>c. c \<notin> ?C"] by (intro conjI)
qed

text \<open>A suppressed finding carries a mark.\<close>

definition suppressed_by_mark ::
  "finding_suppression list \<Rightarrow> string option \<Rightarrow> datetime \<Rightarrow> finding_candidate list
     \<Rightarrow> finding \<times> finding_suppression \<times> finding_snapshot \<Rightarrow> bool" where
  "suppressed_by_mark sups base_ref now cands x \<longleftrightarrow>
     (case x of (f, s, snap) \<Rightarrow> (f, snap) \<in> set cands
       \<and> list_ex (\<lambda>s0. sup_id s0 = sup_id s \<and> suppression_applies snap base_ref now s0
            \<and> stale_reason snap s0 = []) sups)"

definition matched_now :: "datetime \<Rightarrow> finding_suppression \<Rightarrow> finding_suppression" where
  "matched_now now s = s\<lparr>sup_last_matched_at := Some now, sup_match_count := sup_match_count s + 1\<rparr>"

lemma apply_candidate_suppressed:
  "tpg_suppressed (apply_candidate sups b now (f, snap) t) = tpg_suppressed t @
     (case find (suppression_applies snap b now) sups of
        None \<Rightarrow> []
      | Some s \<Rightarrow> if stale_reason snap s = [] then [(f, matched_now now s, snap)] else [])"
  by (auto simp: apply_candidate_def matching_suppression_def matched_now_def Let_def split: option.split)

lemma applied_suppressed:
  "list_all (suppressed_by_mark sups b now cands) (tpg_suppressed (applied sups b now cands))"
proof (induction cands rule: rev_induct)
  case Nil
  show ?case by (simp add: no_progress_def)
next
  case (snoc c cs)
  obtain f snap where c: "c = (f, snap)" by (cases c)
  have more: "list_all (suppressed_by_mark sups b now (cs @ [c])) (tpg_suppressed (applied sups b now cs))"
    using snoc by (auto simp: list_all_iff suppressed_by_mark_def)
  have new: "suppressed_by_mark sups b now (cs @ [c]) (f, matched_now now s, snap)"
    if "find (suppression_applies snap b now) sups = Some s" "stale_reason snap s = []" for s
    using find_SomeD [OF that(1)] that(2) by (auto simp: suppressed_by_mark_def matched_now_def c list_ex_iff)
  show ?case using more new
    by (auto simp: c apply_candidate_suppressed split: option.split)
qed

text \<open>Nothing is suppressed without a mark: every suppressed finding belongs to a live suppression
  with its fingerprint, of a compatible base, whose context pack has not changed.\<close>

theorem suppressed_findings_are_marked:
  assumes "(f, s, snap) \<in> set (tar_suppressed_findings (apply_suppressions cands st base_ref now))"
  shows "\<exists>s0 \<in> set (tst_suppressions st). sup_id s0 = sup_id s
      \<and> sup_finding_fingerprint s0 = fsn_fingerprint snap \<and> \<not> suppression_expired s0 (as_utc now)
      \<and> \<not> base_refs_conflict (sup_target_base_ref s0) base_ref
      \<and> (sup_context_pack_fingerprint s0 = [] \<or> fsn_context_pack_fingerprint snap = []
         \<or> sup_context_pack_fingerprint s0 = fsn_context_pack_fingerprint snap)
    \<and> (f, snap) \<in> set cands"
  using assms applied_suppressed [of "tst_suppressions st" base_ref "as_utc now" cands]
  by (auto simp: apply_suppressions_def Let_def list_all_iff suppressed_by_mark_def list_ex_iff
      suppression_applies_def stale_reason_def split: if_splits)

text \<open>The marks that survive a run: all but the stale ones, unchanged but for their use counters.\<close>

definition without_use :: "finding_suppression \<Rightarrow> finding_suppression" where
  "without_use s = s\<lparr>sup_last_matched_at := None, sup_match_count := 0\<rparr>"

definition updates_ok :: "finding_suppression list \<Rightarrow> (string \<times> finding_suppression) list \<Rightarrow> bool" where
  "updates_ok sups d \<longleftrightarrow> (\<forall>i u. dict_get d i = Some u \<longrightarrow> (\<exists>s \<in> set sups. sup_id s = i \<and> without_use s = without_use u))"

lemma updates_ok_set: "\<lbrakk>updates_ok sups d; s \<in> set sups; without_use s = without_use u\<rbrakk> \<Longrightarrow> updates_ok sups (dict_set (sup_id s) u d)"
  by (auto simp: updates_ok_def update_conv')

lemma apply_candidate_updated:
  "tpg_updated (apply_candidate sups b now (f, snap) t) =
     (case find (suppression_applies snap b now) sups of
        None \<Rightarrow> tpg_updated t
      | Some s \<Rightarrow> if stale_reason snap s = [] then dict_set (sup_id s) (matched_now now s) (tpg_updated t) else tpg_updated t)"
  by (auto simp: apply_candidate_def matching_suppression_def matched_now_def Let_def split: option.split)

lemma applied_updates: "updates_ok sups (tpg_updated (applied sups b now cands))"
proof (rule fold_inv [where P = "\<lambda>t. updates_ok sups (tpg_updated t)"])
  show "updates_ok sups (tpg_updated no_progress)" by (simp add: no_progress_def updates_ok_def)
next
  fix c and t :: triage_progress assume "updates_ok sups (tpg_updated t)"
  then show "updates_ok sups (tpg_updated (apply_candidate sups b now c t))"
    by (cases c) (auto simp: apply_candidate_updated matched_now_def without_use_def updates_ok_set
        dest!: find_SomeD split: option.split)
qed

definition stale_suppression_ids ::
  "(finding \<times> finding_suppression \<times> finding_snapshot \<times> string) list \<Rightarrow> string list" where
  "stale_suppression_ids stale = map (\<lambda>(f, s, snap, reason). sup_id s) stale"

lemma applied_stale_ids:
  "tpg_stale_ids (applied sups b now cands) = stale_suppression_ids (tpg_stale (applied sups b now cands))
   \<and> distinct (tpg_stale_ids (applied sups b now cands))"
proof (rule fold_inv [where P = "\<lambda>t. tpg_stale_ids t = stale_suppression_ids (tpg_stale t) \<and> distinct (tpg_stale_ids t)"])
  fix c and t :: triage_progress
  assume "tpg_stale_ids t = stale_suppression_ids (tpg_stale t) \<and> distinct (tpg_stale_ids t)"
  then show "tpg_stale_ids (apply_candidate sups b now c t) = stale_suppression_ids (tpg_stale (apply_candidate sups b now c t))
      \<and> distinct (tpg_stale_ids (apply_candidate sups b now c t))"
    by (cases c) (auto simp: apply_candidate_def stale_suppression_ids_def Let_def split: option.split)
qed (simp add: no_progress_def stale_suppression_ids_def)

text \<open>A run drops exactly the marks it reports as stale, each reported once, and changes nothing else
  of the others than their last match and their count, in the order they have.\<close>

theorem apply_suppressions_state:
  assumes "distinct (map sup_id (tst_suppressions st))"
    and "r = apply_suppressions cands st base_ref now"
  shows "map without_use (tst_suppressions (tar_state r))
      = map without_use (filter (\<lambda>s. sup_id s \<notin> set (stale_suppression_ids (tar_stale_suppressions r))) (tst_suppressions st))
    \<and> distinct (stale_suppression_ids (tar_stale_suppressions r))
    \<and> int (length (tar_stale_suppressions r)) = tar_stale_count r"
proof -
  let ?sups = "tst_suppressions st" and ?t = "applied (tst_suppressions st) base_ref (as_utc now) cands"
  have same: "without_use (dict_get_or (tpg_updated ?t) (sup_id s) s) = without_use s" if "s \<in> set ?sups" for s
  proof (cases "dict_get (tpg_updated ?t) (sup_id s)")
    case (Some u)
    with applied_updates [of ?sups base_ref "as_utc now" cands] obtain s' where
      "s' \<in> set ?sups" "sup_id s' = sup_id s" "without_use s' = without_use u"
      by (auto simp: updates_ok_def)
    moreover from this(1,2) assms that have "s' = s" by (auto simp: distinct_map dest: inj_onD)
    ultimately show ?thesis using Some by (simp add: dict_get_or_def)
  qed (simp add: dict_get_or_def)
  then have "map without_use (next_suppressions ?sups ?t)
      = map without_use (filter (\<lambda>s. sup_id s \<notin> set (tpg_stale_ids ?t)) ?sups)"
    by (simp add: next_suppressions_def)
  moreover have "length (tpg_stale_ids ?t) = length (tpg_stale ?t)"
    using applied_stale_ids [of ?sups base_ref "as_utc now" cands] by (simp add: stale_suppression_ids_def)
  moreover have "distinct (stale_suppression_ids (tpg_stale ?t))"
    using applied_stale_ids [of ?sups base_ref "as_utc now" cands] by metis
  ultimately show ?thesis
    using conjunct1 [OF applied_stale_ids [of ?sups base_ref "as_utc now" cands]]
    by (simp add: assms(2) apply_suppressions_def Let_def new_triage_state_def)
qed

text \<open>The search stops at the first mark of a finding, whatever pack it was made for: a stale mark
  for one pack hides a live mark for another, and the finding is reported.\<close>

theorem stale_mark_shadows_live_mark:
  assumes "suppression_applies snap base_ref (as_utc now) old" and "stale_reason snap old \<noteq> []"
    and "suppression_applies snap base_ref (as_utc now) new" and "stale_reason snap new = []"
  shows "tar_remaining_findings (apply_suppressions [(f, snap)] (new_triage_state [old, new]) base_ref now) = [f]
    \<and> tar_suppressed_findings (apply_suppressions [(f, snap)] (new_triage_state [new, old]) base_ref now)
      = [(f, matched_now (as_utc now) new, snap)]"
proof -
  have "matching_suppression snap [old, new] base_ref (as_utc now) = Some (old, stale_reason snap old)"
    using assms(1) by (simp add: matching_suppression_def)
  moreover have "matching_suppression snap [new, old] base_ref (as_utc now) = Some (new, [])"
    using assms(3,4) by (simp add: matching_suppression_def)
  ultimately show ?thesis using assms(2)
    by (simp add: apply_suppressions_def apply_candidate_def no_progress_def new_triage_state_def matched_now_def Let_def)
qed

subsection \<open>Pruning keeps the marks in use\<close>

text \<open>After pruning no mark is expired, the limit is respected, the marks used last survive, and
  expired, pruned and kept marks add up.\<close>

theorem prune_triage_state_keeps_recent:
  assumes "prune_triage_state st config now = Inr r" and "0 \<le> trc_max_active_suppressions config"
  shows "int (length (tst_suppressions (tpr_state r))) \<le> trc_max_active_suppressions config
    \<and> (\<forall>s \<in> set (tst_suppressions (tpr_state r)). \<not> suppression_expired s (as_utc now))
    \<and> (\<forall>k \<in> set (tst_suppressions (tpr_state r)). \<forall>s \<in> set (tst_suppressions st).
         s \<notin> set (tst_suppressions (tpr_state r)) \<and> \<not> suppression_expired s (as_utc now)
           \<longrightarrow> utc_clock (last_use s) \<le> utc_clock (last_use k))
    \<and> int (length (tst_suppressions (tpr_state r))) + tpr_expired_count r + tpr_pruned_count r
      = int (length (tst_suppressions st))"
proof -
  let ?active = "filter (\<lambda>s. \<not> suppression_expired s (as_utc now)) (tst_suppressions st)"
  let ?n = "nat (int (length ?active) - trc_max_active_suppressions config)"
  let ?ordered = "sort_key (utc_clock \<circ> last_use) ?active"
  have kept: "tst_suppressions (tpr_state r) = drop ?n ?ordered \<or> ?n = 0 \<and> tst_suppressions (tpr_state r) = ?active"
    using assms(1) by (auto simp: prune_triage_state_def Let_def new_triage_state_def split: if_splits)
  then have sets: "set (tst_suppressions (tpr_state r)) = set (drop ?n ?ordered)"
    and len: "length (tst_suppressions (tpr_state r)) = length ?active - ?n" by auto
  have "sorted (map (utc_clock \<circ> last_use) (take ?n ?ordered @ drop ?n ?ordered))" by simp
  then have order: "utc_clock (last_use s) \<le> utc_clock (last_use k)"
    if "s \<in> set (take ?n ?ordered)" "k \<in> set (drop ?n ?ordered)" for s k
    using that unfolding map_append sorted_append set_map comp_apply by blast
  have old: "s \<in> set (take ?n ?ordered)" if "s \<in> set ?active" "s \<notin> set (drop ?n ?ordered)" for s
    using that by (metis Un_iff append_take_drop_id set_append set_sort)
  have whole: "length (filter (\<lambda>s. suppression_expired s (as_utc now)) (tst_suppressions st)) + length ?active
      = length (tst_suppressions st)" by (rule sum_length_filter_compl)
  have counts: "tpr_expired_count r = int (length (filter (\<lambda>s. suppression_expired s (as_utc now)) (tst_suppressions st)))"
    "tpr_pruned_count r = int (min (length ?active) ?n)"
    using assms(1) by (auto simp: prune_triage_state_def Let_def split: if_splits)
  have 1: "int (length (tst_suppressions (tpr_state r))) \<le> trc_max_active_suppressions config"
    using assms(2) unfolding len by linarith
  have 2: "\<not> suppression_expired s (as_utc now)" if "s \<in> set (tst_suppressions (tpr_state r))" for s
    using that set_drop_subset [of ?n ?ordered] unfolding sets by auto
  have 3: "utc_clock (last_use s) \<le> utc_clock (last_use k)"
    if "k \<in> set (tst_suppressions (tpr_state r))" "s \<in> set (tst_suppressions st)"
      "s \<notin> set (tst_suppressions (tpr_state r))" "\<not> suppression_expired s (as_utc now)" for s k
    using that old [of s] order [of s k] unfolding sets by simp
  have 4: "int (length (tst_suppressions (tpr_state r))) + tpr_expired_count r + tpr_pruned_count r
      = int (length (tst_suppressions st))"
    using whole unfolding counts len by linarith
  show ?thesis using 1 2 3 4 by blast
qed

subsection \<open>The event log\<close>

text \<open>An event log line: not blank, without line ends, and read back as the event it shows.\<close>

definition line_codec :: "(string \<Rightarrow> triage_event option) \<Rightarrow> (triage_event \<Rightarrow> string) \<Rightarrow> triage_event \<Rightarrow> bool" where
  "line_codec parse dump e \<longleftrightarrow> CHR 0x0A \<notin> set (dump e) \<and> CHR 0x0D \<notin> set (dump e)
     \<and> py_strip (dump e @ [CHR 0x0A]) \<noteq> [] \<and> parse (dump e @ [CHR 0x0A]) = Some e"

lemma text_lines_line: "\<lbrakk>CHR 0x0A \<notin> set l; CHR 0x0D \<notin> set l\<rbrakk> \<Longrightarrow>
  text_lines acc (l @ CHR 0x0A # rest) = (rev acc @ l @ [CHR 0x0A]) # text_lines [] rest"
  by (induction l arbitrary: acc) auto

lemma text_lines_events: "list_all (line_codec parse dump) es \<Longrightarrow>
  text_lines [] (events_text dump es) = map (\<lambda>e. dump e @ [CHR 0x0A]) es"
  by (induction es) (auto simp: events_text_def line_codec_def text_lines_line)

lemma parse_events_lines: "list_all (line_codec parse dump) es \<Longrightarrow>
  parse_events parse (map (\<lambda>e. dump e @ [CHR 0x0A]) es) = Some es"
  by (induction es) (auto simp: line_codec_def)


text \<open>One unreadable line costs the whole log: the next run of the appender keeps its own events only.\<close>

theorem corrupt_line_loses_event_log:
  assumes "parse_events parse (text_lines [] old) = None" and "es \<noteq> []" and "days = None"
  shows "append_triage_events parse dump now days es (Text old) = Text (events_text dump es)"
  using assms by (simp add: append_triage_events_def load_triage_events_def retained_def)

subsection \<open>Samples\<close>

definition sample_snapshot_of :: "string \<Rightarrow> finding_snapshot" where
  "sample_snapshot_of pack_hash = \<lparr>fsn_fingerprint = ''apex-1'', fsn_title = ''t'', fsn_severity = ''high'',
     fsn_confidence = ''high'', fsn_file = ''a.py'', fsn_line = None, fsn_context_pack_id = ''a.py#1'',
     fsn_context_pack_fingerprint = pack_hash\<rparr>"

definition sample_suppression :: "string \<Rightarrow> string \<Rightarrow> int \<Rightarrow> finding_suppression" where
  "sample_suppression i pack_hash created = \<lparr>sup_id = i, sup_finding_fingerprint = ''apex-1'',
     sup_context_pack_id = ''a.py#1'', sup_context_pack_fingerprint = pack_hash, sup_file = ''a.py'',
     sup_line = None, sup_title = ''t'', sup_severity = ''high'', sup_confidence = ''high'',
     sup_verdict = SUP_FALSE_POSITIVE, sup_reason = ''checked'', sup_target_base_ref = None,
     sup_created_at = Datetime created (Some 0), sup_expires_at = Some (Datetime 1000 (Some 0)),
     sup_last_matched_at = None, sup_match_count = 0, sup_report_path = []\<rparr>"

lemmas sample_simps = sample_snapshot_of_def sample_suppression_def suppression_applies_def suppression_expired_def
  utc_clock_def as_utc_def base_refs_conflict_def stale_reason_def

lemma stale_mark_shadows_live_mark_witness:
  "tar_remaining_findings (apply_suppressions [(sample_finding, sample_snapshot_of ''p2'')]
      (new_triage_state [sample_suppression ''sup-1'' ''p1'' 1, sample_suppression ''sup-2'' ''p2'' 2]) None
      (Datetime 5 None)) = [sample_finding]"
  using stale_mark_shadows_live_mark [of "sample_snapshot_of ''p2''" None "Datetime 5 None"
      "sample_suppression ''sup-1'' ''p1'' 1" "sample_suppression ''sup-2'' ''p2'' 2" sample_finding]
  by (simp add: sample_simps)

lemma apply_suppressions_state_witness:
  "let r = apply_suppressions [] (new_triage_state [sample_suppression ''sup-1'' ''p1'' 1]) None (Datetime 5 None)
   in distinct (stale_suppression_ids (tar_stale_suppressions r))"
  using apply_suppressions_state [of "new_triage_state [sample_suppression ''sup-1'' ''p1'' 1]" _ "[]" None "Datetime 5 None"]
  by (simp add: new_triage_state_def Let_def)

lemma suppressed_findings_are_marked_witness:
  "\<exists>s0 \<in> {sample_suppression ''sup-1'' ''p1'' 1}. sup_id s0 = ''sup-1''"
proof -
  let ?s = "sample_suppression ''sup-1'' ''p1'' 1" and ?snap = "sample_snapshot_of ''p1''"
  have "matching_suppression ?snap [?s] None (as_utc (Datetime 5 None)) = Some (?s, [])"
    by (simp add: matching_suppression_def sample_simps)
  then have "(f, matched_now (as_utc (Datetime 5 None)) ?s, ?snap) \<in> set (tar_suppressed_findings
      (apply_suppressions [(f, ?snap)] (new_triage_state [?s]) None (Datetime 5 None)))" for f
    by (simp add: apply_suppressions_def apply_candidate_def no_progress_def new_triage_state_def matched_now_def Let_def)
  from suppressed_findings_are_marked [OF this] show ?thesis
    by (simp add: new_triage_state_def sample_suppression_def)
qed

lemma prune_triage_state_keeps_recent_witness:
  "\<exists>r. prune_triage_state (new_triage_state [sample_suppression ''sup-1'' [] 1, sample_suppression ''sup-2'' [] 2])
      (default_triage_config\<lparr>trc_max_active_suppressions := 1\<rparr>) (Datetime 5 None) = Inr r
    \<and> int (length (tst_suppressions (tpr_state r))) \<le> 1"
proof -
  let ?st = "new_triage_state [sample_suppression ''sup-1'' [] 1, sample_suppression ''sup-2'' [] 2]"
  let ?c = "default_triage_config\<lparr>trc_max_active_suppressions := 1\<rparr>"
  have "\<exists>r. prune_triage_state ?st ?c (Datetime 5 None) = Inr r"
    by (simp add: prune_triage_state_def new_triage_state_def sample_simps comparable_def last_use_def Let_def)
  then obtain r where r: "prune_triage_state ?st ?c (Datetime 5 None) = Inr r" ..
  from prune_triage_state_keeps_recent [OF r] r show ?thesis by auto
qed

definition sample_event :: triage_event where
  "sample_event = triage_event_of TE_MATCHED (sample_suppression ''sup-1'' [] 1) (Datetime 5 (Some 0)) ''checked''"


lemma corrupt_line_loses_event_log_witness:
  "append_triage_events (\<lambda>l. if l = ''x'' then None else Some sample_event) (\<lambda>e. ''{}'') (Datetime 9 None) None
     [sample_event] (Text ''x'') = Text (''{}'' @ [CHR 0x0A])"
  using corrupt_line_loses_event_log [of "\<lambda>l. if l = ''x'' then None else Some sample_event" "''x''" "[sample_event]" None
      "\<lambda>e. ''{}''" "Datetime 9 None"]
  by (simp add: py_strip_def py_lstrip_def py_rstrip_def py_space_def events_text_def)

end
