(* ===== verification/Gates.thy ===== *)
theory Gates
  imports Triage Report_Coverage
begin

section \<open>The pre-push gate\<close>

text \<open>
  \<open>src/apex_ray/gates.py\<close>: whether a push is blocked, and the text the gate prints. The order in which
  a set is traversed, the SHA-256 of a text and the ISO form of an instant are parameters.
\<close>

definition finding_severity_rank :: "finding_severity \<Rightarrow> int" where
  "finding_severity_rank s = (case s of FS_LOW \<Rightarrow> 1 | FS_MEDIUM \<Rightarrow> 2 | FS_HIGH \<Rightarrow> 3 | FS_CRITICAL \<Rightarrow> 4)"

definition partial_severity_rank :: "partial_severity \<Rightarrow> int" where
  "partial_severity_rank s = (case s of PS_NONE \<Rightarrow> 0 | PS_MINOR \<Rightarrow> 1 | PS_MAJOR \<Rightarrow> 2 | PS_CRITICAL \<Rightarrow> 3)"

record gate_decision =
  gd_blocked :: bool
  gd_reasons :: "string list"
  gd_blocking_findings :: "finding list"
  gd_quality_gate_failed :: bool
  gd_partial_blocked :: bool

record retry_summary =
  rty_mode :: string
  rty_fallback_reason :: string
  rty_new_blocking :: int
  rty_still_blocking_carried :: int
  rty_uncertain_carried :: int
  rty_resolved_carried :: int
  rty_carried_coverage_reasons :: "string list option"

subsection \<open>Findings that block\<close>

definition finding_reviewed_clean :: "(run_id \<times> pack_run_state) list \<Rightarrow> string \<Rightarrow> string \<Rightarrow> bool" where
  "finding_reviewed_clean states rid i =
     (case dict_get states (rid, i) of
        None \<Rightarrow> False
      | Some s \<Rightarrow> (case prn_review s of None \<Rightarrow> False | Some r \<Rightarrow> run_ok r \<and> run_findings_count r = 0))"

text \<open>One reviewer of a finding: it keeps the finding in scope, or says nothing.\<close>

definition reviewer_keeps_finding ::
  "review_report \<Rightarrow> (run_id \<times> pack_run_state) list \<Rightarrow> (string \<times> reviewer_config) list \<Rightarrow> finding \<Rightarrow> string \<Rightarrow> bool" where
  "reviewer_keeps_finding rep states by_id f rid =
     (case dict_get by_id rid of
        None \<Rightarrow> True
      | Some r \<Rightarrow>
          if (case rep_reviewer_scope_ids rep of None \<Rightarrow> False | Some ids \<Rightarrow> rid \<notin> set ids) then False
          else
            let matching = map cp_id (filter (reviewer_matches_pack r) (rep_context_packs rep));
                pack = find (\<lambda>p. cp_id p = fi_context_pack_id f) (rep_context_packs rep)
            in if reviewer_origins_are_explicit f rid
               then list_ex (\<lambda>i. i \<in> set matching) (reviewer_origin_pack_ids f rid)
               else if (case pack of None \<Rightarrow> False | Some p \<Rightarrow> reviewer_matches_pack r p) then True
               else matching \<noteq> [] \<and> \<not> list_all (finding_reviewed_clean states rid) matching)"

definition legacy_finding_is_in_current_reviewer_scope :: "review_report \<Rightarrow> finding \<Rightarrow> bool" where
  "legacy_finding_is_in_current_reviewer_scope rep f =
     (let provenance = (if fi_reviewer_ids f \<noteq> [] then fi_reviewer_ids f else [''general'']);
          reviewers = (case effective_reviewers (rc_reviewers (rep_config rep)) None of Inl _ \<Rightarrow> [] | Inr rs \<Rightarrow> rs);
          by_id = dict_of rv_id id reviewers;
          states = reduce_llm_pack_run_states (rep_llm_runs rep)
      in list_ex (reviewer_keeps_finding rep states by_id f) provenance)"

definition eligible_findings ::
  "(string set \<Rightarrow> string list) \<Rightarrow> review_report \<Rightarrow> pre_push_gate_config \<Rightarrow> finding list" where
  "eligible_findings enum rep c =
     (if \<not> gc_require_verified_findings c
      then filter (legacy_finding_is_in_current_reviewer_scope rep) (rep_findings rep)
      else verified_report_findings enum (rep_findings rep) (rep_verifications rep))"

definition blocking_findings ::
  "(string set \<Rightarrow> string list) \<Rightarrow> review_report \<Rightarrow> pre_push_gate_config \<Rightarrow> finding list" where
  "blocking_findings enum rep c =
     (case gc_min_finding_severity c of
        None \<Rightarrow> []
      | Some s \<Rightarrow> filter (\<lambda>f. finding_severity_rank s \<le> finding_severity_rank (fi_severity f))
          (eligible_findings enum rep c))"

subsection \<open>The decision\<close>

definition partial_severity_blocks :: "partial_severity \<Rightarrow> partial_severity option \<Rightarrow> bool" where
  "partial_severity_blocks current limit =
     (case limit of
        None \<Rightarrow> False
      | Some t \<Rightarrow> t \<noteq> PS_NONE \<and> partial_severity_rank t \<le> partial_severity_rank current)"

definition failed_review_status_details :: "review_report \<Rightarrow> string" where
  "failed_review_status_details rep =
     (let failed = filter (\<lambda>r. is_review_run r \<and> run_status r \<noteq> ''ok'' \<and> starts_with (run_status r) ''failed_'')
            (rep_llm_runs rep)
      in join '', '' (map (\<lambda>(s, n). s @ '': '' @ str_int n) (sort (counter (map run_status failed)))))"

definition with_details :: "string \<Rightarrow> string list \<Rightarrow> string" where
  "with_details text reasons =
     (let details = join ''; '' reasons in text @ (if details \<noteq> [] then '': '' @ details else []))"

definition evaluate_pre_push_gate ::
  "(string set \<Rightarrow> string list) \<Rightarrow> review_report \<Rightarrow> pre_push_gate_config \<Rightarrow> gate_decision" where
  "evaluate_pre_push_gate enum rep c =
     (let cov = rep_llm_coverage rep;
          blocking = blocking_findings enum rep c;
          failed = gc_fail_on_quality_gate c \<and> cov_quality_gate_status cov = ''fail'';
          run_details = failed_review_status_details rep;
          part = partial_severity_blocks (cov_partial_severity cov) (gc_fail_on_partial_severity c);
          reasons =
            (case gc_min_finding_severity c of
               None \<Rightarrow> []
             | Some s \<Rightarrow> if blocking = [] then []
                 else [''Blocking findings: '' @ str_int (int (length blocking)) @ '' >= '' @ finding_severity_value s])
            @ (if failed
               then with_details ''Coverage quality gate failed'' (cov_quality_gate_reasons cov)
                 # (if run_details \<noteq> [] then [''LLM review run failures: '' @ run_details] else [])
               else [])
            @ (if part
               then [with_details (''Partial coverage is '' @ partial_severity_value (cov_partial_severity cov))
                       (cov_partial_reasons cov)]
               else [])
      in \<lparr>gd_blocked = reasons \<noteq> [], gd_reasons = reasons, gd_blocking_findings = blocking,
          gd_quality_gate_failed = failed, gd_partial_blocked = part\<rparr>)"

subsection \<open>The printed text\<close>

type_synonym gate_finding_id = "string \<times> string \<times> string \<times> int option \<times> string"

definition gate_finding_key :: "finding \<Rightarrow> gate_finding_id" where
  "gate_finding_key f = (finding_severity_value (fi_severity f), fi_title f, fi_file f, fi_line f, fi_failure_mode f)"

definition render_delta :: "gate_decision \<Rightarrow> gate_decision \<Rightarrow> string list" where
  "render_delta current previous =
     (let cur = gate_finding_key ` set (gd_blocking_findings current);
          prev = gate_finding_key ` set (gd_blocking_findings previous)
      in [''Delta since previous pre-push report:'',
          ''- New blocking findings: '' @ str_int (int (card (cur - prev))),
          ''- Still blocking findings: '' @ str_int (int (card (cur \<inter> prev))),
          ''- Resolved blocking findings: '' @ str_int (int (card (prev - cur)))])"

definition render_retry_summary :: "retry_summary \<Rightarrow> string list" where
  "render_retry_summary s =
     [''Mode: '' @ rty_mode s]
     @ (if rty_fallback_reason s \<noteq> [] then [''Fallback reason: '' @ rty_fallback_reason s] else [])
     @ [''New blocking findings: '' @ str_int (rty_new_blocking s),
        ''Still blocking carried findings: '' @ str_int (rty_still_blocking_carried s),
        ''Uncertain carried findings: '' @ str_int (rty_uncertain_carried s),
        ''Resolved carried findings: '' @ str_int (rty_resolved_carried s)]
     @ (case rty_carried_coverage_reasons s of
          None \<Rightarrow> []
        | Some rs \<Rightarrow> if rs = [] then [] else [''Carried coverage debt: '' @ str_int (int (length rs))])"

definition gate_one_line :: "nat \<Rightarrow> string \<Rightarrow> string" where
  "gate_one_line max_chars value =
     (let compact = join '' '' (py_split value) in
      if length compact \<le> max_chars then compact else py_rstrip (take (max_chars - 3) compact) @ ''...'')"

definition at_line :: "string \<Rightarrow> int option \<Rightarrow> string" where
  "at_line file line = (case line of None \<Rightarrow> file | Some n \<Rightarrow> file @ '':'' @ str_int n)"

definition render_finding :: "(string \<Rightarrow> string) \<Rightarrow> nat \<Rightarrow> finding \<Rightarrow> string list" where
  "render_finding sha256 index f =
     [str_nat index @ ''. ['' @ finding_severity_value (fi_severity f) @ ''] '' @ fi_title f,
      ''   ID: '' @ finding_fingerprint sha256 f,
      ''   '' @ at_line (fi_file f) (fi_line f),
      ''   Failure: '' @ gate_one_line 220 (fi_failure_mode f),
      ''   Evidence: '' @ gate_one_line 220 (fi_evidence f),
      ''   Fix: '' @ gate_one_line 220 (fi_suggested_fix f)]
     @ (if fi_suggested_test f \<noteq> [] then [''   Test: '' @ gate_one_line 220 (fi_suggested_test f)] else [])
     @ (if fi_context_pack_id f \<noteq> [] then [''   Pack: '' @ fi_context_pack_id f] else [])
     @ [[]]"

text \<open>A slice \<open>xs[:n]\<close>; a negative bound counts from the end.\<close>

definition take_slice :: "int \<Rightarrow> 'a list \<Rightarrow> 'a list" where
  "take_slice n xs = (if n < 0 then take (nat (int (length xs) + n)) xs else take (nat n) xs)"

definition render_findings :: "(string \<Rightarrow> string) \<Rightarrow> finding list \<Rightarrow> int \<Rightarrow> string list" where
  "render_findings sha256 fs max_findings =
     (let visible = take_slice max_findings fs in
      [''Blocking findings shown: '' @ str_int (int (length visible)) @ ''/'' @ str_int (int (length fs)), []]
      @ concat (map (\<lambda>(i, f). render_finding sha256 (Suc i) f) (indexed visible))
      @ (if length visible < length fs
         then [''... '' @ str_int (int (length fs) - int (length visible)) @ '' more blocking finding(s) in the report.'', []]
         else []))"

definition verdict_value :: "suppression_verdict \<Rightarrow> string" where
  "verdict_value v = (case v of SUP_FALSE_POSITIVE \<Rightarrow> ''false_positive'' | SUP_NOT_ACTIONABLE \<Rightarrow> ''not_actionable''
     | SUP_DUPLICATE \<Rightarrow> ''duplicate'' | SUP_ACCEPTED_RISK \<Rightarrow> ''accepted_risk'')"

definition snapshot_title :: "finding_snapshot \<Rightarrow> string" where
  "snapshot_title snap = fsn_fingerprint snap @ '' ['' @ fsn_severity snap @ ''] '' @ fsn_title snap
     @ '' at '' @ at_line (fsn_file snap) (fsn_line snap)"

definition render_suppressed ::
  "(datetime \<Rightarrow> string) \<Rightarrow> finding \<times> finding_suppression \<times> finding_snapshot \<Rightarrow> string" where
  "render_suppressed iso_text x =
     (case x of (f, s, snap) \<Rightarrow> ''- '' @ snapshot_title snap @ '' ('' @ verdict_value (sup_verdict s) @ '', expires ''
        @ (case sup_expires_at s of None \<Rightarrow> ''never'' | Some e \<Rightarrow> iso_text e) @ '')'')"

definition render_stale ::
  "finding \<times> finding_suppression \<times> finding_snapshot \<times> string \<Rightarrow> string list" where
  "render_stale x =
     (case x of (f, s, snap, reason) \<Rightarrow>
       [''- '' @ snapshot_title snap,
        ''  Prior suppression: '' @ sup_id s @ '' ('' @ verdict_value (sup_verdict s) @ '')'',
        ''  Prior reason: '' @ gate_one_line 220 (sup_reason s),
        ''  Stale reason: '' @ gate_one_line 220 reason,
        ''  Re-check the current finding; if it is still objectively false positive, ''
          @ ''create a fresh suppression from the current report with a new reason.''])"

record triage_counts =
  tcn_stale :: int
  tcn_expired :: int
  tcn_pruned :: int

definition render_triage_summary ::
  "(datetime \<Rightarrow> string) \<Rightarrow> (finding \<times> finding_suppression \<times> finding_snapshot) list
     \<Rightarrow> (finding \<times> finding_suppression \<times> finding_snapshot \<times> string) list \<Rightarrow> triage_counts \<Rightarrow> string list" where
  "render_triage_summary iso_text suppressed stale n =
     [''Suppressed findings: '' @ str_int (int (length suppressed))]
     @ map (render_suppressed iso_text) (take 10 suppressed)
     @ (if 10 < length suppressed
        then [''- ... '' @ str_int (int (length suppressed) - 10) @ '' more suppressed finding(s).''] else [])
     @ (if tcn_stale n \<noteq> 0 then [''Stale suppressions removed: '' @ str_int (tcn_stale n)] else [])
     @ concat (map render_stale (take 10 stale))
     @ (if 10 < length stale then [''- ... '' @ str_int (int (length stale) - 10) @ '' more stale suppression(s).''] else [])
     @ (if tcn_expired n \<noteq> 0 then [''Expired suppressions pruned: '' @ str_int (tcn_expired n)] else [])
     @ (if tcn_pruned n \<noteq> 0 then [''Over-limit suppressions pruned: '' @ str_int (tcn_pruned n)] else [])"

definition render_continuations :: "llm_coverage_todo list \<Rightarrow> string list" where
  "render_continuations todos =
     [''Coverage continuation commands:'']
     @ map (\<lambda>t. ''- '' @ todo_suggested_command t) (filter (\<lambda>t. todo_suggested_command t \<noteq> []) (take 3 todos))
     @ (if 3 < length todos then [''- ... '' @ str_int (int (length todos) - 3) @ '' more in the report.''] else [])
     @ [[]]"

definition gate_title :: "bool \<Rightarrow> completion_status \<Rightarrow> string" where
  "gate_title blocked status =
     (if blocked then ''APEX RAY GATE: BLOCKED''
      else if status = COMP_PARTIAL then ''APEX RAY GATE: PASSED WITH PARTIAL COVERAGE''
      else if status = COMP_INCOMPLETE then ''APEX RAY GATE: PASSED WITH INCOMPLETE REVIEW''
      else ''APEX RAY GATE: PASSED'')"

definition block_unless :: "bool \<Rightarrow> string list \<Rightarrow> string list" where
  "block_unless absent ls = (if absent then [] else ls @ [[]])"

text \<open>What the caller passes besides the report and the decision.\<close>

record gate_output =
  go_markdown_path :: string
  go_json_path :: string
  go_base :: string
  go_previous :: "gate_decision option"
  go_retry :: "retry_summary option"
  go_suppressed :: "(finding \<times> finding_suppression \<times> finding_snapshot) list"
  go_stale :: "(finding \<times> finding_suppression \<times> finding_snapshot \<times> string) list"
  go_counts :: triage_counts

definition gate_header_lines ::
  "(datetime \<Rightarrow> string) \<Rightarrow> review_report \<Rightarrow> gate_decision \<Rightarrow> gate_output \<Rightarrow> string list" where
  "gate_header_lines iso_text rep d out =
     (let n = go_counts out in
      [gate_title (gd_blocked d) (cov_completion_status (rep_llm_coverage rep)), [],
       ''Push decision: '' @ (if gd_blocked d then ''BLOCKED'' else ''ALLOWED'')]
      @ render_coverage_summary_lines (rep_llm_coverage rep)
      @ [[], ''Target: base '' @ go_base out @ ''...HEAD'', ''Report: '' @ go_markdown_path out,
         ''JSON: '' @ go_json_path out, []]
      @ (case go_previous out of None \<Rightarrow> [] | Some p \<Rightarrow> render_delta d p @ [[]])
      @ (case go_retry out of None \<Rightarrow> [] | Some s \<Rightarrow> render_retry_summary s @ [[]])
      @ block_unless (gd_reasons d = []) (''Reasons:'' # map ((@) ''- '') (gd_reasons d))
      @ block_unless (go_suppressed out = [] \<and> go_stale out = [] \<and> tcn_stale n = 0 \<and> tcn_expired n = 0 \<and> tcn_pruned n = 0)
          (render_triage_summary iso_text (go_suppressed out) (go_stale out) n))"

definition gate_body_lines :: "(string \<Rightarrow> string) \<Rightarrow> review_report \<Rightarrow> gate_decision \<Rightarrow> pre_push_gate_config \<Rightarrow> string list" where
  "gate_body_lines sha256 rep d c =
     (let cov = rep_llm_coverage rep; blocking = gd_blocking_findings d in
      if gc_stdout_format c = SF_COMPACT then
        [''Blocking findings: '' @ str_int (int (length blocking))]
        @ (if gd_blocked d then [''Run the report command above for full details.''] else [])
      else
        (if blocking \<noteq> [] then render_findings sha256 blocking (gc_max_stdout_findings c) else [])
        @ (if (gd_partial_blocked d \<or> gd_quality_gate_failed d) \<and> cov_coverage_todos cov \<noteq> []
           then render_continuations (cov_coverage_todos cov) else [])
        @ (if gd_blocked d then [''After fixing, commit the changes and run git push again.'']
           else
             [if blocking \<noteq> [] then ''Blocking findings in reviewed scope: '' @ str_int (int (length blocking))
              else ''No blocking findings in reviewed scope.'',
              ''Findings: '' @ str_int (int (length (rep_findings rep))) @ '' in reviewed scope'',
              ''Coverage gate: '' @ cov_quality_gate_status cov,
              ''Partial severity: '' @ partial_severity_value (cov_partial_severity cov)]))"

definition render_pre_push_gate_stdout ::
  "(string \<Rightarrow> string) \<Rightarrow> (datetime \<Rightarrow> string) \<Rightarrow> review_report \<Rightarrow> gate_decision \<Rightarrow> pre_push_gate_config \<Rightarrow> gate_output \<Rightarrow> string" where
  "render_pre_push_gate_stdout sha256 iso_text rep d c out =
     py_rstrip (join [CHR 0x0A] (gate_header_lines iso_text rep d out @ gate_body_lines sha256 rep d c)) @ [CHR 0x0A]"

subsection \<open>When a push is blocked\<close>

lemma evaluate_blocked:
  "gd_blocked (evaluate_pre_push_gate enum rep c) \<longleftrightarrow>
     blocking_findings enum rep c \<noteq> []
     \<or> gc_fail_on_quality_gate c \<and> cov_quality_gate_status (rep_llm_coverage rep) = ''fail''
     \<or> partial_severity_blocks (cov_partial_severity (rep_llm_coverage rep)) (gc_fail_on_partial_severity c)"
  by (auto simp: evaluate_pre_push_gate_def blocking_findings_def Let_def split: option.split if_splits)


text \<open>A stricter policy.\<close>

definition stricter :: "pre_push_gate_config \<Rightarrow> pre_push_gate_config \<Rightarrow> bool" where
  "stricter c d \<longleftrightarrow>
     (case gc_min_finding_severity c of None \<Rightarrow> True
      | Some s \<Rightarrow> (case gc_min_finding_severity d of None \<Rightarrow> False
          | Some t \<Rightarrow> finding_severity_rank t \<le> finding_severity_rank s))
     \<and> gc_require_verified_findings d = gc_require_verified_findings c
     \<and> (gc_fail_on_quality_gate c \<longrightarrow> gc_fail_on_quality_gate d)
     \<and> (case gc_fail_on_partial_severity c of None \<Rightarrow> True
        | Some s \<Rightarrow> s = PS_NONE \<or> (case gc_fail_on_partial_severity d of None \<Rightarrow> False
            | Some t \<Rightarrow> t \<noteq> PS_NONE \<and> partial_severity_rank t \<le> partial_severity_rank s))"

text \<open>The gate is monotone: what a policy blocks, every stricter policy blocks, with at least the same
  blocking findings.\<close>

theorem stricter_gate_blocks:
  assumes "stricter c d"
  shows "set (gd_blocking_findings (evaluate_pre_push_gate enum rep c))
      \<subseteq> set (gd_blocking_findings (evaluate_pre_push_gate enum rep d))
    \<and> (gd_blocked (evaluate_pre_push_gate enum rep c) \<longrightarrow> gd_blocked (evaluate_pre_push_gate enum rep d))"
proof -
  have findings: "set (blocking_findings enum rep c) \<subseteq> set (blocking_findings enum rep d)"
    using assms by (auto simp: stricter_def blocking_findings_def eligible_findings_def split: option.splits)
  moreover have "partial_severity_blocks s (gc_fail_on_partial_severity c) \<Longrightarrow>
      partial_severity_blocks s (gc_fail_on_partial_severity d)" for s
    using assms by (auto simp: stricter_def partial_severity_blocks_def split: option.splits)
  ultimately show ?thesis
    using assms unfolding evaluate_blocked
    by (auto simp: stricter_def evaluate_pre_push_gate_def Let_def)
qed


lemma stricter_gate_blocks_witness:
  "\<forall>rep. set (gd_blocking_findings (evaluate_pre_push_gate sorted_list_of_set rep default_pre_push_gate_config))
    \<subseteq> set (gd_blocking_findings (evaluate_pre_push_gate sorted_list_of_set rep
      (default_pre_push_gate_config\<lparr>gc_min_finding_severity := Some FS_LOW\<rparr>)))"
  using stricter_gate_blocks [of default_pre_push_gate_config
      "default_pre_push_gate_config\<lparr>gc_min_finding_severity := Some FS_LOW\<rparr>" sorted_list_of_set]
  by (simp add: stricter_def default_pre_push_gate_config_def finding_severity_rank_def split: option.split)

subsection \<open>The printed lines\<close>

lemma words_from_spaceless:
  "list_all (\<lambda>c. \<not> py_space c) acc \<Longrightarrow> list_all (list_all (\<lambda>c. \<not> py_space c)) (words_from acc s)"
proof (induction s arbitrary: acc)
  case (Cons c cs)
  from Cons.prems Cons.IH [of "[]"] Cons.IH [of "c # acc"] show ?case
    by (simp add: list_all_rev)
qed simp

lemma set_join: "set (join sep ws) \<subseteq> set sep \<union> \<Union> (set ` set ws)"
  by (induction sep ws rule: join.induct) auto

lemma spaceless_one_line: "\<not> py_space c \<Longrightarrow> \<not> line_break c"
  by (auto simp: py_space_def line_break_def Let_def)

lemma compact_chars: "c \<in> set (join '' '' (py_split v)) \<Longrightarrow> c = CHR '' '' \<or> \<not> py_space c"
  using set_join [of "'' ''" "py_split v"] words_from_spaceless [of "[]" v]
  by (fastforce simp: py_split_def list_all_iff)

text \<open>A quoted text stays one line of the printed report and within its bound.\<close>

theorem gate_one_line_fits:
  assumes "3 \<le> n"
  shows "length (gate_one_line n v) \<le> n \<and> one_line (gate_one_line n v)"
proof
  have "length (py_rstrip (take (n - 3) (join '' '' (py_split v)))) \<le> n - 3"
    using length_py_rstrip [of "take (n - 3) (join '' '' (py_split v))"] by simp
  then have "length (py_rstrip (take (n - 3) (join '' '' (py_split v))) @ ''...'') \<le> n"
    using assms unfolding length_append by simp
  then show "length (gate_one_line n v) \<le> n" unfolding gate_one_line_def Let_def by (split if_split) blast
  have blank: "\<not> line_break (CHR '' '')" and dot: "\<not> line_break (CHR ''.'')" by (simp_all add: line_break_def Let_def)
  have chars: "\<not> line_break c" if "c \<in> set (join '' '' (py_split v))" for c
    using compact_chars [OF that] blank spaceless_one_line by blast
  have "set (gate_one_line n v) \<subseteq> set (join '' '' (py_split v)) \<union> {CHR ''.''}"
    using subset_trans [OF set_py_rstrip set_take_subset, of "n - 3" "join '' '' (py_split v)"]
    by (auto simp: gate_one_line_def Let_def)
  with chars dot show "one_line (gate_one_line n v)"
    unfolding one_line_def list_all_iff by blast
qed

lemma gate_one_line_fits_witness: "length (gate_one_line 5 ''alpha beta'') \<le> 5"
  using gate_one_line_fits [of 5 "''alpha beta''"] by simp

end
