(* ===== verification/Gate_Retry.thy ===== *)
theory Gate_Retry
  imports Gates Path_Matching
begin

section \<open>Retrying a push\<close>

text \<open>
  \<open>src/apex_ray/gate_retry.py\<close> and \<open>src/apex_ray/resolution.py\<close>: the state a gate run leaves for
  the next push, when it may be reused, the findings carried over and the evidence that keeps them
  alive. JSON rendering, SHA-256, the process environment and \<open>git show\<close> are parameters.
\<close>

subsection \<open>State\<close>

datatype carried_status = CRS_STILL_PRESENT | CRS_UNCERTAIN

record carried_finding =
  crf_finding :: finding
  crf_context_pack :: "context_pack option"
  crf_status :: carried_status
  crf_first_seen_report :: string
  crf_last_seen_report :: string
  crf_resolution_reason :: string
  crf_resolution_confidence :: "finding_confidence option"
  crf_relevant_files :: "string list"

record coverage_debt =
  cdb_quality_gate_failed :: bool
  cdb_partial_blocked :: bool
  cdb_reasons :: "string list"
  cdb_partial_severity :: string
  cdb_quality_gate_status :: string

definition pre_push_state_schema :: string where
  "pre_push_state_schema = ''pre-push-state/v2''"

record pre_push_state =
  pps_schema_version :: string
  pps_repo_root :: string
  pps_base_ref :: string
  pps_merge_base_sha :: string
  pps_head_sha :: string
  pps_config_fingerprint :: string
  pps_report_path :: string
  pps_json_path :: string
  pps_generated_at :: datetime
  pps_active_findings :: "carried_finding list"
  pps_coverage_debt :: coverage_debt
  pps_reviewed_context_pack_ids :: "string list"
  pps_context_pack_fingerprints :: "(string \<times> string) list"
  pps_input_snapshot_fingerprint :: string
  pps_report_fingerprint :: string

definition load_pre_push_state :: "(string \<Rightarrow> pre_push_state option) \<Rightarrow> file_read \<Rightarrow> pre_push_state option" where
  "load_pre_push_state parse f = (case f of Text s \<Rightarrow> parse s | _ \<Rightarrow> None)"

subsection \<open>Paths\<close>

text \<open>A POSIX path: its root and its parts, as \<open>pathlib\<close> reads a text.\<close>

definition pure_path :: "string \<Rightarrow> string \<times> string list" where
  "pure_path s =
     (if starts_with s ''//'' \<and> \<not> starts_with s ''///'' then ''//'' else if starts_with s ''/'' then ''/'' else [],
      filter (\<lambda>p. p \<noteq> [] \<and> p \<noteq> ''.'') (split_char (CHR ''/'') s))"

definition path_text :: "string \<times> string list \<Rightarrow> string" where
  "path_text p = (if p = ([], []) then ''.'' else fst p @ join ''/'' (snd p))"

definition resolve_state_path :: "string \<Rightarrow> string \<Rightarrow> string \<times> string list" where
  "resolve_state_path base_dir configured =
     (if fst (pure_path configured) \<noteq> [] then pure_path configured
      else (fst (pure_path base_dir), snd (pure_path base_dir) @ snd (pure_path configured)))"

subsection \<open>The identity of a configuration\<close>

definition api_provider_names :: "llm_provider_name list" where
  "api_provider_names = [PN_OPENAI_API, PN_ANTHROPIC_API, PN_DEEPSEEK_API, PN_QWEN_API, PN_KIMI_API, PN_ZAI_API,
     PN_OPENAI_COMPATIBLE]"

record api_identity =
  aid_allowed_hosts_sha256 :: "string option"
  aid_base_url_sha256 :: "string option option"
  aid_headers_sha256 :: "(string \<times> string option) list option"

definition environment_value_digest :: "(string \<Rightarrow> string) \<Rightarrow> (string \<Rightarrow> string option) \<Rightarrow> string \<Rightarrow> string option" where
  "environment_value_digest sha256 env name =
     (case env name of None \<Rightarrow> None | Some v \<Rightarrow> if v = [] then None else Some (sha256 v))"

definition api_environment_identity ::
  "(string \<Rightarrow> string) \<Rightarrow> (string \<Rightarrow> string option) \<Rightarrow> llmapi_config \<Rightarrow> api_identity" where
  "api_environment_identity sha256 env api =
     \<lparr>aid_allowed_hosts_sha256 = environment_value_digest sha256 env (api_allowed_hosts_env api),
      aid_base_url_sha256 = (case api_base_url_env api of None \<Rightarrow> None
        | Some n \<Rightarrow> if n = [] then None else Some (environment_value_digest sha256 env n)),
      aid_headers_sha256 = (if api_headers_from_env api = [] then None
        else Some (map (\<lambda>(h, n). (h, environment_value_digest sha256 env n)) (sort (api_headers_from_env api))))\<rparr>"

definition api_runtime_environment_identity ::
  "(string \<Rightarrow> string) \<Rightarrow> (string \<Rightarrow> string option) \<Rightarrow> review_config \<Rightarrow> (string \<times> api_identity) list" where
  "api_runtime_environment_identity sha256 env config =
     (let llm = rc_llm config in
      if \<not> lc_enabled llm then []
      else
        (if lc_provider llm \<in> set api_provider_names
         then [(''default'', api_environment_identity sha256 env (lc_api llm))] else [])
        @ map (\<lambda>(i, p). (''profile:'' @ i, api_environment_identity sha256 env
              (case pf_api p of None \<Rightarrow> lc_api llm | Some a \<Rightarrow> a)))
            (filter (\<lambda>(i, p). (case pf_provider p of None \<Rightarrow> lc_provider llm | Some n \<Rightarrow> n) \<in> set api_provider_names)
              (sort_key fst (lc_profiles llm))))"

text \<open>What is hashed; the prompt versions are constants of the program.\<close>

record config_identity =
  cid_review_config :: review_config
  cid_reviewer_ids :: "string list"
  cid_reviewers :: "reviewer_config list"
  cid_gate_policy :: pre_push_gate_config
  cid_api_environment :: "(string \<times> api_identity) list"

definition config_fingerprint ::
  "(config_identity \<Rightarrow> string) \<Rightarrow> (string \<Rightarrow> string) \<Rightarrow> (string \<Rightarrow> string option) \<Rightarrow> review_config
     \<Rightarrow> pre_push_gate_config \<Rightarrow> string list option \<Rightarrow> reviewer_error + string" where
  "config_fingerprint hash sha256 env config gate reviewer_ids =
     map_sum id (\<lambda>reviewers. hash
       \<lparr>cid_review_config = config\<lparr>rc_reviewers := []\<rparr>, cid_reviewer_ids = sort (map rv_id reviewers),
        cid_reviewers = sort_key rv_id reviewers, cid_gate_policy = gate,
        cid_api_environment = api_runtime_environment_identity sha256 env config\<rparr>)
     (effective_reviewers (rc_reviewers config) reviewer_ids)"

subsection \<open>Eligibility\<close>

definition check_incremental_eligibility ::
  "pre_push_state option \<Rightarrow> string \<Rightarrow> string \<Rightarrow> string \<Rightarrow> string \<Rightarrow> bool \<Rightarrow> bool \<Rightarrow> bool \<times> string" where
  "check_incremental_eligibility state repo_root base_ref merge_base config_hash head_exists head_is_ancestor =
     (case state of
        None \<Rightarrow> (False, ''no previous pre-push state'')
      | Some st \<Rightarrow>
          if pps_schema_version st \<noteq> pre_push_state_schema then (False, ''unsupported pre-push state schema'')
          else if pure_path (pps_repo_root st) \<noteq> pure_path repo_root
          then (False, ''previous state belongs to a different repo root'')
          else if pps_base_ref st \<noteq> base_ref then (False, ''previous state used a different base ref'')
          else if pps_merge_base_sha st \<noteq> merge_base then (False, ''merge-base changed'')
          else if pps_config_fingerprint st \<noteq> config_hash
          then (False, ''review config, reviewer scope, rules, memory, prompt, model, or gate policy changed'')
          else if \<not> head_exists then (False, ''previous gate HEAD is not available locally'')
          else if \<not> head_is_ancestor then (False, ''previous gate HEAD is not an ancestor of current HEAD'')
          else (True, []))"

definition build_pre_push_state ::
  "(context_pack \<Rightarrow> string) \<Rightarrow> (review_input_snapshot \<Rightarrow> string) \<Rightarrow> (review_report \<Rightarrow> string) \<Rightarrow> string \<Rightarrow> string
     \<Rightarrow> string \<Rightarrow> string \<Rightarrow> string \<Rightarrow> review_report \<Rightarrow> string \<Rightarrow> string \<Rightarrow> carried_finding list \<Rightarrow> coverage_debt
     \<Rightarrow> pre_push_state" where
  "build_pre_push_state pack_hash snap_hash report_hash repo_root base_ref merge_base head config_hash rep report_path
       json_path active debt =
     \<lparr>pps_schema_version = pre_push_state_schema, pps_repo_root = repo_root, pps_base_ref = base_ref,
      pps_merge_base_sha = merge_base, pps_head_sha = head, pps_config_fingerprint = config_hash,
      pps_report_path = report_path, pps_json_path = json_path, pps_generated_at = rep_generated_at rep,
      pps_active_findings = active, pps_coverage_debt = debt,
      pps_reviewed_context_pack_ids = cov_reviewed_context_pack_ids (rep_llm_coverage rep),
      pps_context_pack_fingerprints = dict_of cp_id pack_hash (rep_context_packs rep),
      pps_input_snapshot_fingerprint = (case rep_input_snapshot rep of None \<Rightarrow> [] | Some s \<Rightarrow> snap_hash s),
      pps_report_fingerprint = report_hash rep\<rparr>"

definition coverage_debt_from_decision ::
  "review_report \<Rightarrow> bool \<Rightarrow> bool \<Rightarrow> string list \<Rightarrow> coverage_debt" where
  "coverage_debt_from_decision rep quality_failed partial_blocked reasons =
     \<lparr>cdb_quality_gate_failed = quality_failed, cdb_partial_blocked = partial_blocked,
      cdb_reasons = (if quality_failed \<or> partial_blocked then reasons else []),
      cdb_partial_severity = partial_severity_value (cov_partial_severity (rep_llm_coverage rep)),
      cdb_quality_gate_status = cov_quality_gate_status (rep_llm_coverage rep)\<rparr>"

subsection \<open>Files a finding depends on\<close>

definition pack_surface_files :: "context_pack \<Rightarrow> string list" where
  "pack_surface_files p =
     map ar_file (cp_references p @ cp_callees p @ cp_contracts p @ cp_metadata p)
     @ map cs_file (cp_reference_snippets p @ cp_callee_snippets p @ cp_contract_snippets p
         @ cp_metadata_snippets p @ cp_related_test_snippets p)"

definition relevant_files_for_finding :: "context_pack list \<Rightarrow> finding \<Rightarrow> string list" where
  "relevant_files_for_finding packs f =
     (let i = fi_context_pack_id f; (before, found, after) = partition_char (CHR ''#'') i in
      sorted_set (filter (\<lambda>x. x \<noteq> []) (fi_file f # (if found then [before] else [])
        @ (case find (\<lambda>p. cp_id p = i) packs of
             None \<Rightarrow> []
           | Some p \<Rightarrow> cp_file p # cp_related_tests p @ concat (map rm_resolution_surfaces (cp_rule_matches p))
               @ pack_surface_files p))))"

definition current_blocking_findings ::
  "context_pack list \<Rightarrow> finding list \<Rightarrow> string \<Rightarrow> carried_finding list" where
  "current_blocking_findings packs blocking report_path =
     (let by_id = dict_of cp_id id packs in
      map (\<lambda>f. \<lparr>crf_finding = f, crf_context_pack = dict_get by_id (fi_context_pack_id f),
        crf_status = CRS_STILL_PRESENT, crf_first_seen_report = report_path, crf_last_seen_report = report_path,
        crf_resolution_reason = [], crf_resolution_confidence = None,
        crf_relevant_files = relevant_files_for_finding packs f\<rparr>) blocking)"

definition changed_file_paths :: "changed_file list \<Rightarrow> string set" where
  "changed_file_paths files =
     set (concat (map (\<lambda>f. List.map_filter (\<lambda>p. case p of None \<Rightarrow> None | Some s \<Rightarrow> if s = [] then None else Some s)
       [cf_old_path f, cf_new_path f] @ [cf_path f]) files))"

definition looks_like_glob :: "string \<Rightarrow> bool" where
  "looks_like_glob v = list_ex (\<lambda>c. c \<in> set v) ''*?[]''"

definition relevance_matches_changed_path :: "string \<Rightarrow> string \<Rightarrow> bool" where
  "relevance_matches_changed_path relevant_path changed_path =
     (let relevant = py_strip relevant_path; changed = py_strip changed_path in
      if relevant = [] \<or> changed = [] then False
      else if relevant = changed then True
      else looks_like_glob relevant \<and> fnmatch changed relevant)"

definition any_relevant_path_changed :: "string list \<Rightarrow> string list \<Rightarrow> bool" where
  "any_relevant_path_changed relevant changed =
     list_ex (\<lambda>r. list_ex (relevance_matches_changed_path r) changed) relevant"

fun dedupe_carried :: "gate_finding_id list \<Rightarrow> carried_finding list \<Rightarrow> carried_finding list" where
  "dedupe_carried seen [] = []"
| "dedupe_carried seen (c # cs) =
     (let key = gate_finding_key (crf_finding c) in
      if key \<in> set seen then dedupe_carried seen cs else c # dedupe_carried (key # seen) cs)"

definition dedupe_carried_findings :: "carried_finding list \<Rightarrow> carried_finding list" where
  "dedupe_carried_findings cs = dedupe_carried [] cs"

subsection \<open>Evidence\<close>

definition high_signal_anchor :: "string \<Rightarrow> bool" where
  "high_signal_anchor v \<longleftrightarrow> 8 \<le> length v \<and> list_ex py_alnum v \<and> v \<notin> {''return;'', ''break;'', ''continue;''}"

definition extend_anchors ::
  "string \<Rightarrow> string list \<Rightarrow> (string \<times> string list) list \<Rightarrow> (string \<times> string list) list" where
  "extend_anchors file candidates d =
     (let high = filter high_signal_anchor (map py_strip candidates) in
      if high \<noteq> [] \<and> file \<noteq> [] then dict_set file (dict_get_or d file [] @ high) d else d)"

definition diff_added_lines :: "string list \<Rightarrow> string list" where
  "diff_added_lines ls = map (drop 1) (filter (\<lambda>l. starts_with l ''+'' \<and> \<not> starts_with l ''+++'') ls)"

definition backtick_spans :: "string \<Rightarrow> string list" where
  "backtick_spans text = map snd (filter (\<lambda>(i, s). odd i) (indexed (split_char (CHR 0x60) text)))"

definition carried_evidence_anchors_by_file :: "carried_finding \<Rightarrow> (string \<times> string list) list" where
  "carried_evidence_anchors_by_file c =
     (let from_pack = (case crf_context_pack c of
            None \<Rightarrow> []
          | Some p \<Rightarrow> fold (\<lambda>s. extend_anchors (cs_file s) (split_lines (cs_code s))) (cp_changed_snippets p)
              (extend_anchors (cp_file p) (diff_added_lines (cp_diff_snippet p)) []))
      in if from_pack = []
         then extend_anchors (fi_file (crf_finding c)) (backtick_spans (fi_evidence (crf_finding c))) []
         else from_pack)"

text \<open>\<open>git show HEAD:path\<close>: no text, a text, or bytes that do not decode.\<close>

datatype head_text = No_Text | Decode_Error | Head_Text string

definition read_repo_head_text :: "(string \<Rightarrow> head_text) \<Rightarrow> string \<Rightarrow> head_text" where
  "read_repo_head_text show_head file =
     (if file = [] then No_Text
      else let p = pure_path file in
        if fst p \<noteq> [] \<or> ''..'' \<in> set (snd p) then No_Text else show_head (path_text p))"

fun stale_evidence :: "(string \<Rightarrow> head_text) \<Rightarrow> nat \<Rightarrow> (string \<times> string list) list \<Rightarrow> string option" where
  "stale_evidence show_head readable [] =
     Some (if readable = 0 then ''Stored carried-finding evidence files are no longer available.''
           else ''Stored carried-finding evidence no longer appears in the current file contents.'')"
| "stale_evidence show_head readable ((file, anchors) # rest) =
     (case read_repo_head_text show_head file of
        Decode_Error \<Rightarrow> None
      | No_Text \<Rightarrow> stale_evidence show_head readable rest
      | Head_Text source \<Rightarrow>
          if list_ex (\<lambda>a. str_in a source) anchors then None
          else stale_evidence show_head (Suc readable) rest)"

definition stale_carried_finding_reason :: "(string \<Rightarrow> head_text) \<Rightarrow> carried_finding \<Rightarrow> string option" where
  "stale_carried_finding_reason show_head c =
     (let anchors = carried_evidence_anchors_by_file c in
      if anchors = [] then None else stale_evidence show_head 0 anchors)"

subsection \<open>Resolution surfaces\<close>

definition resolution_file_is_reviewable :: "changed_file \<Rightarrow> bool" where
  "resolution_file_is_reviewable f \<longleftrightarrow> \<not> cf_is_ignored f
     \<and> file_kind_value (cf_file_kind f) \<notin> {''docs'', ''generated'', ''lockfile'', ''vendored''}"

definition novel_resolution_file_is_reviewable :: "changed_file \<Rightarrow> bool" where
  "novel_resolution_file_is_reviewable f \<longleftrightarrow>
     (let status = (if cf_old_path f = None \<and> cf_new_path f \<noteq> None then ''added'' else file_status_value (cf_status f)) in
      resolution_file_is_reviewable f \<and> status \<in> {''added'', ''copied'', ''renamed''})"

definition context_pack_resolution_paths :: "context_pack \<Rightarrow> string set" where
  "context_pack_resolution_paths p =
     set (cp_related_tests p) \<union> set (filter (\<lambda>f. f \<noteq> []) (pack_surface_files p))"

subsection \<open>When a state may be reused\<close>

text \<open>A state is reused exactly when it has the current schema, belongs to the same repository, base,
  merge base and configuration, and its head is an ancestor at hand; otherwise the reason is given.\<close>

theorem incremental_eligible_iff:
  "check_incremental_eligibility state repo base mb hash exists ancestor = (True, []) \<longleftrightarrow>
     (\<exists>st. state = Some st \<and> pps_schema_version st = pre_push_state_schema
       \<and> pure_path (pps_repo_root st) = pure_path repo \<and> pps_base_ref st = base \<and> pps_merge_base_sha st = mb
       \<and> pps_config_fingerprint st = hash \<and> exists \<and> ancestor)
   \<and> (fst (check_incremental_eligibility state repo base mb hash exists ancestor) \<longleftrightarrow>
      snd (check_incremental_eligibility state repo base mb hash exists ancestor) = [])"
  by (auto simp: check_incremental_eligibility_def split: option.split)

lemma uniq_eq_mset: "set xs = set ys \<Longrightarrow> mset (uniq xs) = mset (uniq ys)"
  by (simp flip: set_eq_iff_mset_eq_distinct)

lemma requested_reviewers:
  assumes "set ids = set ids'" and "effective_reviewers configured (Some ids) = Inr rs"
  shows "\<exists>rs'. effective_reviewers configured (Some ids') = Inr rs' \<and> mset rs' = mset rs \<and> distinct (map rv_id rs)"
proof -
  let ?get = "the \<circ> dict_get (enabled_by_id configured)"
  have known: "find (\<lambda>i. dict_get (enabled_by_id configured) i = None) ids = None" and "ids \<noteq> []"
    and rs: "rs = map ?get (uniq ids)" "map rv_id rs = uniq ids"
    using assms(2) reviewers_of_request [of configured ids] by (auto split: option.splits if_splits)
  moreover have "find (\<lambda>i. dict_get (enabled_by_id configured) i = None) ids' = None" "ids' \<noteq> []"
    using known \<open>ids \<noteq> []\<close> assms(1) by (auto simp: find_None_iff)
  ultimately have "effective_reviewers configured (Some ids') = Inr (map ?get (uniq ids'))"
    using reviewers_of_request [of configured ids'] by simp
  moreover have "mset (map ?get (uniq ids')) = mset rs"
    using uniq_eq_mset [OF assms(1)] unfolding rs(1) by (metis mset_map)
  ultimately show ?thesis using rs(2) by simp
qed

text \<open>The identity of a configuration does not depend on the order, or the repetition, in which
  reviewers are requested.\<close>

theorem config_fingerprint_order_free:
  assumes "set ids = set ids'"
  shows "config_fingerprint hash sha256 env config gate (Some ids) = Inr h \<longleftrightarrow>
    config_fingerprint hash sha256 env config gate (Some ids') = Inr h"
proof -
  have dir: "config_fingerprint hash sha256 env config gate (Some b) = Inr h"
    if "set a = set b" "config_fingerprint hash sha256 env config gate (Some a) = Inr h" for a b
  proof -
    from that(2) obtain rs where rs: "effective_reviewers (rc_reviewers config) (Some a) = Inr rs"
      by (cases "effective_reviewers (rc_reviewers config) (Some a)") (auto simp: config_fingerprint_def)
    from requested_reviewers [OF that(1) rs] obtain rs' where
      rs': "effective_reviewers (rc_reviewers config) (Some b) = Inr rs'" and same: "mset rs' = mset rs"
      and "distinct (map rv_id rs)" by blast
    then have "inj_on rv_id (set rs')"
      by (metis distinct_map mset_eq_setD)
    with same have "sort_key rv_id rs' = sort_key rv_id rs"
      by (intro sort_key_inj_key_eq) simp_all
    moreover have "sort (map rv_id rs') = sort (map rv_id rs)"
      using same by (metis mset_map properties_for_sort mset_sort sorted_sort)
    ultimately show ?thesis using that(2) rs rs' by (simp add: config_fingerprint_def)
  qed
  show ?thesis using dir [of ids ids'] dir [of ids' ids] assms by blast
qed

text \<open>A state built by a run is accepted by the next run of the same repository and configuration.\<close>

theorem built_state_is_eligible:
  "check_incremental_eligibility
     (Some (build_pre_push_state pack_hash snap_hash report_hash repo base mb head hash rep report_path json_path active debt))
     repo base mb hash True True = (True, [])"
  by (simp add: check_incremental_eligibility_def build_pre_push_state_def)

subsection \<open>Carried findings\<close>

lemma dedupe_carried_keys:
  "distinct (map (gate_finding_key \<circ> crf_finding) (dedupe_carried seen cs))
   \<and> (gate_finding_key \<circ> crf_finding) ` set (dedupe_carried seen cs) = (gate_finding_key \<circ> crf_finding) ` set cs - set seen
   \<and> subseq (dedupe_carried seen cs) cs"
  by (induction seen cs rule: dedupe_carried.induct) (auto simp: Let_def)

text \<open>Removing duplicates keeps one finding of each key, in order.\<close>

theorem dedupe_carried_findings_exact:
  "distinct (map (gate_finding_key \<circ> crf_finding) (dedupe_carried_findings cs))
   \<and> (gate_finding_key \<circ> crf_finding) ` set (dedupe_carried_findings cs) = (gate_finding_key \<circ> crf_finding) ` set cs
   \<and> subseq (dedupe_carried_findings cs) cs"
  using dedupe_carried_keys [of "[]" cs] by (simp add: dedupe_carried_findings_def)

lemma stale_evidence_spec:
  "stale_evidence show_head n d \<noteq> None \<longleftrightarrow> list_all (\<lambda>(file, anchors). case read_repo_head_text show_head file of
       Decode_Error \<Rightarrow> False | No_Text \<Rightarrow> True | Head_Text source \<Rightarrow> list_all (\<lambda>a. \<not> str_in a source) anchors) d"
  by (induction show_head n d rule: stale_evidence.induct)
    (auto simp: list_all_iff list_ex_iff split: head_text.splits)

lemma extend_anchors_signal:
  "list_all (\<lambda>(f, as). f \<noteq> [] \<and> as \<noteq> [] \<and> list_all high_signal_anchor as) d \<Longrightarrow>
   list_all (\<lambda>(f, as). f \<noteq> [] \<and> as \<noteq> [] \<and> list_all high_signal_anchor as) (extend_anchors file cands d)"
proof -
  assume d: "list_all (\<lambda>(f, as). f \<noteq> [] \<and> as \<noteq> [] \<and> list_all high_signal_anchor as) d"
  have set: "list_all (\<lambda>(f, as). f \<noteq> [] \<and> as \<noteq> [] \<and> list_all high_signal_anchor as) (dict_set file xs d)"
    if "file \<noteq> []" "xs \<noteq> []" "list_all high_signal_anchor xs" for xs
    using d that by (induction d) auto
  have old: "list_all high_signal_anchor (dict_get_or d file [])"
    using d by (induction d) (auto simp: dict_get_or_def)
  show ?thesis
  proof (cases "filter high_signal_anchor (map py_strip cands) \<noteq> [] \<and> file \<noteq> []")
    case True
    have "list_all high_signal_anchor (filter high_signal_anchor (map py_strip cands))" by (simp add: list_all_iff)
    with True old set [of "dict_get_or d file [] @ filter high_signal_anchor (map py_strip cands)"] show ?thesis
      by (simp add: extend_anchors_def Let_def)
  qed (use d in \<open>auto simp: extend_anchors_def Let_def\<close>)
qed

text \<open>A carried finding is dropped only when there is evidence to look for and none of it is left:
  every file of the evidence is gone, or readable without any of its anchors, each of them a line or
  quotation of at least eight characters.\<close>

theorem stale_only_without_evidence:
  "(stale_carried_finding_reason show_head c \<noteq> None \<longleftrightarrow>
     carried_evidence_anchors_by_file c \<noteq> []
     \<and> list_all (\<lambda>(file, anchors). case read_repo_head_text show_head file of
          Decode_Error \<Rightarrow> False | No_Text \<Rightarrow> True
        | Head_Text source \<Rightarrow> list_all (\<lambda>a. \<not> str_in a source) anchors) (carried_evidence_anchors_by_file c))
   \<and> list_all (\<lambda>(f, as). f \<noteq> [] \<and> as \<noteq> [] \<and> list_all high_signal_anchor as) (carried_evidence_anchors_by_file c)"
proof -
  have "list_all (\<lambda>(f, as). f \<noteq> [] \<and> as \<noteq> [] \<and> list_all high_signal_anchor as) (carried_evidence_anchors_by_file c)"
    unfolding carried_evidence_anchors_by_file_def Let_def
    by (auto intro!: extend_anchors_signal fold_inv [where P = "list_all (\<lambda>(f, as). f \<noteq> [] \<and> as \<noteq> [] \<and> list_all high_signal_anchor as)"]
        split: option.split)
  then show ?thesis
    using stale_evidence_spec [of show_head 0 "carried_evidence_anchors_by_file c"]
    by (simp add: stale_carried_finding_reason_def Let_def del: not_None_eq)
qed

lemma config_fingerprint_order_free_witness:
  "config_fingerprint (\<lambda>i. concat (cid_reviewer_ids i)) id (\<lambda>_. None) default_review_config default_pre_push_gate_config
     (Some [''general'', ''general'']) = Inr ''general''"
proof -
  have "config_fingerprint (\<lambda>i. concat (cid_reviewer_ids i)) id (\<lambda>_. None) default_review_config default_pre_push_gate_config
     (Some [''general'']) = Inr ''general''"
    by (simp add: config_fingerprint_def effective_reviewers_def enabled_by_id_def dict_of_def default_review_config_def
        general_reviewer_def)
  then show ?thesis
    using config_fingerprint_order_free [of "[''general'']" "[''general'', ''general'']"] by simp
qed

end
