(* ===== verification/Git_Commands.thy ===== *)
theory Git_Commands
  imports Prelude
begin

section \<open>Running git\<close>

text \<open>
  \<open>src/apex_ray/git.py\<close>: the diffs of the review targets, references and objects, the base of a
  pre-push review, and the bounded reader of NUL-separated output. The git program itself is outside the
  repository: \<open>git_env\<close> holds what it answers to a command line, in a repository that does not
  change while one operation runs. The one command that changes it, the fetch of a remote branch, is the last
  command of its operation and is part of the result. \<open>GitError\<close> and
  \<open>GitRemoteRefError\<close> are error values.
\<close>

record completed =
  cpl_returncode :: int
  cpl_stdout :: string
  cpl_stderr :: string

record git_env =
  ge_available :: bool
  ge_run :: "string list \<Rightarrow> completed"

datatype remote_ref_problem =
    Not_A_Configured_Remote_Tracking_Ref
  | Requires_Origin
  | Does_Not_Resolve
  | Not_A_Valid_Remote_Tracking_Ref
  | Not_An_Exact_Remote_Tracking_Ref

datatype git_error =
    Git_Error "string list" string int
  | Git_Remote_Ref_Error remote_ref_problem string

subsection \<open>Commands\<close>

definition git_error_of :: "string list \<Rightarrow> completed \<Rightarrow> git_error" where
  "git_error_of args c = Git_Error args (py_strip (cpl_stderr c)) (cpl_returncode c)"

definition run_git :: "git_env \<Rightarrow> string list \<Rightarrow> git_error + string" where
  "run_git g args =
     (let c = ge_run g args in
      if cpl_returncode c \<noteq> 0 then Inl (git_error_of args c) else Inr (cpl_stdout c))"

definition is_git_repo :: "git_env \<Rightarrow> bool" where
  "is_git_repo g \<longleftrightarrow> ge_available g
     \<and> (let c = ge_run g [''rev-parse'', ''--is-inside-work-tree''] in
        cpl_returncode c = 0 \<and> py_strip (cpl_stdout c) = ''true'')"

definition diff_base :: "git_env \<Rightarrow> string \<Rightarrow> git_error + string" where
  "diff_base g base = run_git g
     [''diff'', ''--find-renames'', ''--find-copies'', ''--end-of-options'', base @ ''...HEAD'']"

definition diff_range :: "git_env \<Rightarrow> string \<Rightarrow> string \<Rightarrow> git_error + string" where
  "diff_range g old_ref new_ref = run_git g
     [''diff'', ''--find-renames'', ''--find-copies'', ''--end-of-options'', old_ref, new_ref]"

definition diff_staged :: "git_env \<Rightarrow> git_error + string" where
  "diff_staged g = run_git g [''diff'', ''--cached'', ''--find-renames'', ''--find-copies'']"

definition listed_files :: "git_env \<Rightarrow> string list \<Rightarrow> string list" where
  "listed_files g args =
     (let c = ge_run g args in
      if cpl_returncode c \<noteq> 0 then [] else filter (\<lambda>l. l \<noteq> []) (split_lines (cpl_stdout c)))"

definition tracked_files :: "git_env \<Rightarrow> string list" where
  "tracked_files g = listed_files g [''ls-files'']"

definition untracked_files :: "git_env \<Rightarrow> string list" where
  "untracked_files g = listed_files g [''ls-files'', ''--others'', ''--exclude-standard'']"

definition untracked_args :: "string \<Rightarrow> string list" where
  "untracked_args file = [''diff'', ''--no-index'', ''--'', ''/dev/null'', file]"

fun untracked_chunks :: "git_env \<Rightarrow> string list \<Rightarrow> git_error + string list" where
  "untracked_chunks g [] = Inr []"
| "untracked_chunks g (f # fs) =
     (let c = ge_run g (untracked_args f) in
      if cpl_returncode c \<notin> {0, 1} then Inl (git_error_of (untracked_args f) c)
      else case untracked_chunks g fs of
          Inl e \<Rightarrow> Inl e
        | Inr cs \<Rightarrow> Inr (if cpl_stdout c \<noteq> [] then py_rstrip (cpl_stdout c) # cs else cs))"

definition diff_untracked :: "git_env \<Rightarrow> git_error + string" where
  "diff_untracked g =
     (case untracked_chunks g (untracked_files g) of
        Inl e \<Rightarrow> Inl e
      | Inr cs \<Rightarrow> Inr (join ''\<newline>'' cs @ (if cs \<noteq> [] then ''\<newline>'' else [])))"

definition diff_worktree :: "git_env \<Rightarrow> git_error + string" where
  "diff_worktree g =
     (case run_git g [''diff'', ''--find-renames'', ''--find-copies''] of
        Inl e \<Rightarrow> Inl e
      | Inr tracked \<Rightarrow> (case diff_untracked g of
            Inl e \<Rightarrow> Inl e
          | Inr untracked \<Rightarrow> Inr (join ''\<newline>''
                (filter (\<lambda>part. part \<noteq> []) [py_rstrip tracked, py_rstrip untracked])
              @ (if tracked \<noteq> [] \<or> untracked \<noteq> [] then ''\<newline>'' else []))))"

definition rev_parse :: "git_env \<Rightarrow> string \<Rightarrow> git_error + string" where
  "rev_parse g ref = map_sum id py_strip (run_git g [''rev-parse'', ''--verify'', ''--end-of-options'', ref])"

definition merge_base :: "git_env \<Rightarrow> string \<Rightarrow> string \<Rightarrow> git_error + string" where
  "merge_base g base head = map_sum id py_strip (run_git g [''merge-base'', ''--end-of-options'', base, head])"

definition is_ancestor :: "git_env \<Rightarrow> string \<Rightarrow> string \<Rightarrow> git_error + bool" where
  "is_ancestor g ancestor descendant =
     (let args = [''merge-base'', ''--is-ancestor'', ''--end-of-options'', ancestor, descendant];
          c = ge_run g args in
      if cpl_returncode c \<notin> {0, 1} then Inl (git_error_of args c) else Inr (cpl_returncode c = 0))"

definition object_exists :: "git_env \<Rightarrow> string \<Rightarrow> bool" where
  "object_exists g ref =
     (cpl_returncode (ge_run g [''cat-file'', ''-e'', ''--end-of-options'', ref @ ''^{commit}'']) = 0)"

subsection \<open>The base of a pre-push review\<close>

definition configured_remotes :: "git_env \<Rightarrow> git_error + string list" where
  "configured_remotes g =
     map_sum id (\<lambda>out. filter (\<lambda>l. l \<noteq> []) (split_lines out)) (run_git g [''remote''])"

definition remote_prefixes :: "string \<Rightarrow> string list" where
  "remote_prefixes remote = [''refs/remotes/'' @ remote @ ''/'', remote @ ''/'']"

definition branch_after :: "string \<Rightarrow> string \<Rightarrow> bool" where
  "branch_after ref pre \<longleftrightarrow> starts_with ref pre \<and> length pre < length ref"

fun match_remotes :: "string \<Rightarrow> string list \<Rightarrow> (string \<times> string) option" where
  "match_remotes ref [] = None"
| "match_remotes ref (r # rs) =
     (case find (branch_after ref) (remote_prefixes r) of
        Some pre \<Rightarrow> Some (r, drop (length pre) ref)
      | None \<Rightarrow> match_remotes ref rs)"

definition match_remote_tracking_ref :: "string \<Rightarrow> string list \<Rightarrow> (string \<times> string) option" where
  "match_remote_tracking_ref ref remotes = match_remotes ref (sort_desc length remotes)"

definition is_full_object_id :: "git_env \<Rightarrow> string \<Rightarrow> git_error + bool" where
  "is_full_object_id g ref =
     map_sum id (\<lambda>out. dict_get [(''sha1'', 40), (''sha256'', 64)] (py_strip out) = Some (length ref)
        \<and> list_all (\<lambda>c. c \<in> set ''0123456789abcdefABCDEF'') ref)
       (run_git g [''rev-parse'', ''--show-object-format''])"

definition ls_remote_contains_ref :: "string \<Rightarrow> string \<Rightarrow> bool" where
  "ls_remote_contains_ref out expected =
     list_ex (\<lambda>l. snd (snd (partition_char (CHR 0x09) l)) = expected) (split_lines out)"

definition valid_ref_format :: "git_env \<Rightarrow> string \<Rightarrow> bool" where
  "valid_ref_format g ref = (cpl_returncode (ge_run g [''check-ref-format'', ref]) = 0)"

definition validated_remote_branch_refs :: "git_env \<Rightarrow> string \<Rightarrow> string \<Rightarrow> (string \<times> string) option" where
  "validated_remote_branch_refs g remote branch =
     (let source_ref = ''refs/heads/'' @ branch; target_ref = ''refs/remotes/'' @ remote @ ''/'' @ branch in
      if valid_ref_format g source_ref \<and> valid_ref_format g target_ref
      then Some (source_ref, target_ref) else None)"

definition fetch_args :: "string \<Rightarrow> string \<Rightarrow> string \<Rightarrow> string list" where
  "fetch_args remote source_ref target_ref =
     [''fetch'', ''--quiet'', ''--no-tags'', ''--no-recurse-submodules'', ''--no-write-fetch-head'', ''--'',
      remote, ''+'' @ source_ref @ '':'' @ target_ref]"

text \<open>The value of a fetch is its command line, which is run.\<close>

definition fetch_remote_branch :: "git_env \<Rightarrow> string \<Rightarrow> string \<Rightarrow> string \<Rightarrow> git_error + string list" where
  "fetch_remote_branch g remote branch configured_ref =
     (case validated_remote_branch_refs g remote branch of
        None \<Rightarrow> Inl (Git_Remote_Ref_Error Not_A_Valid_Remote_Tracking_Ref configured_ref)
      | Some (source_ref, target_ref) \<Rightarrow>
          map_sum id (\<lambda>_. fetch_args remote source_ref target_ref) (run_git g (fetch_args remote source_ref target_ref)))"

definition fetch_remote_tracking_ref :: "git_env \<Rightarrow> string \<Rightarrow> git_error + string list" where
  "fetch_remote_tracking_ref g ref =
     (case configured_remotes g of
        Inl e \<Rightarrow> Inl e
      | Inr remotes \<Rightarrow> (case match_remote_tracking_ref ref remotes of
            None \<Rightarrow> Inl (Git_Remote_Ref_Error Not_An_Exact_Remote_Tracking_Ref ref)
          | Some (remote, branch) \<Rightarrow> fetch_remote_branch g remote branch ref))"

text \<open>What \<open>resolve_pre_push_base\<close> returns, with the fetch it ran, if any.\<close>

type_synonym resolved_base = "string \<times> string list option"

definition fetched_base :: "git_env \<Rightarrow> string \<Rightarrow> string \<Rightarrow> string \<Rightarrow> git_error + resolved_base" where
  "fetched_base g remote branch ref =
     map_sum id (\<lambda>args. (remote @ ''/'' @ branch, Some args)) (fetch_remote_branch g remote branch ref)"

definition local_base :: "git_env \<Rightarrow> bool \<Rightarrow> string \<Rightarrow> git_error + resolved_base" where
  "local_base g full_object_id ref =
     (if \<not> full_object_id \<and> object_exists g ref then Inr (ref, None)
      else Inl (Git_Remote_Ref_Error Does_Not_Resolve ref))"

definition resolve_pre_push_base :: "git_env \<Rightarrow> string \<Rightarrow> git_error + resolved_base" where
  "resolve_pre_push_base g ref =
     (case configured_remotes g of
        Inl e \<Rightarrow> Inl e
      | Inr remotes \<Rightarrow> (case match_remote_tracking_ref ref remotes of
            Some (remote, branch) \<Rightarrow> fetched_base g remote branch ref
          | None \<Rightarrow>
              if starts_with ref ''refs/remotes/''
              then Inl (Git_Remote_Ref_Error Not_A_Configured_Remote_Tracking_Ref ref)
              else if starts_with ref ''origin/'' \<and> ''origin'' \<notin> set remotes
              then Inl (Git_Remote_Ref_Error Requires_Origin ref)
              else (case is_full_object_id g ref of
                  Inl e \<Rightarrow> Inl e
                | Inr full \<Rightarrow>
                    if full \<and> object_exists g ref then Inr (ref, None)
                    else if ''origin'' \<in> set remotes \<and> \<not> starts_with ref ''refs/'' then
                      (case validated_remote_branch_refs g ''origin'' ref of
                         None \<Rightarrow> local_base g full ref
                       | Some (source_ref, _) \<Rightarrow>
                           let args = [''ls-remote'', ''--exit-code'', ''--heads'', ''--'', ''origin'', source_ref];
                               c = ge_run g args in
                           if cpl_returncode c = 0 \<and> ls_remote_contains_ref (cpl_stdout c) source_ref
                           then fetched_base g ''origin'' ref ref
                           else if cpl_returncode c \<notin> {0, 2} then Inl (git_error_of args c)
                           else local_base g full ref)
                    else local_base g full ref)))"

subsection \<open>Properties of the base\<close>

lemma branch_after_iff: "branch_after ref pre \<longleftrightarrow> (\<exists>b. b \<noteq> [] \<and> ref = pre @ b)"
  by (auto simp: branch_after_def starts_with_iff)

text \<open>A remote-tracking reference names a branch of a remote, in the long or the short form.\<close>

definition names_branch :: "string \<Rightarrow> string \<Rightarrow> string \<Rightarrow> bool" where
  "names_branch ref remote branch \<longleftrightarrow> branch \<noteq> []
     \<and> (ref = ''refs/remotes/'' @ remote @ ''/'' @ branch \<or> ref = remote @ ''/'' @ branch)"

lemma names_branch_iff: "(\<exists>b. names_branch ref r b) \<longleftrightarrow> (\<exists>pre\<in>set (remote_prefixes r). branch_after ref pre)"
  by (auto simp: names_branch_def remote_prefixes_def branch_after_iff)

lemma match_remotes_spec:
  "(match_remotes ref rs = None \<longleftrightarrow> (\<forall>r\<in>set rs. \<forall>b. \<not> names_branch ref r b))
   \<and> (match_remotes ref rs = Some (r, b) \<longrightarrow> names_branch ref r b
        \<and> (\<exists>us vs. rs = us @ r # vs \<and> (\<forall>u\<in>set us. \<forall>c. \<not> names_branch ref u c)))"
proof (induction rs)
  case (Cons x xs)
  show ?case
  proof (cases "find (branch_after ref) (remote_prefixes x)")
    case None
    then have none: "\<forall>c. \<not> names_branch ref x c"
      using names_branch_iff [of ref x] by (auto simp: find_None_iff)
    have "\<exists>us vs. x # xs = us @ r # vs \<and> (\<forall>u\<in>set us. \<forall>c. \<not> names_branch ref u c)"
      if "xs = us @ r # vs" "\<forall>u\<in>set us. \<forall>c. \<not> names_branch ref u c" for us vs
      using that none by (intro exI [of _ "x # us"] exI [of _ vs]) simp
    with Cons.IH None none show ?thesis by auto
  next
    case (Some pre)
    then have pre: "pre \<in> set (remote_prefixes x)" "branch_after ref pre" using find_SomeD by fast+
    then have "names_branch ref x (drop (length pre) ref)"
      by (auto simp: names_branch_def remote_prefixes_def branch_after_iff)
    with Some show ?thesis by (auto intro: exI [of _ "[]"])
  qed
qed simp

lemma match_remote_tracking_ref_spec:
  "case match_remote_tracking_ref ref remotes of
     None \<Rightarrow> \<not> list_ex (\<lambda>r. \<exists>b. names_branch ref r b) remotes
   | Some (r, b) \<Rightarrow> r \<in> set remotes \<and> names_branch ref r b
       \<and> list_all (\<lambda>q. (\<exists>c. names_branch ref q c) \<longrightarrow> length q \<le> length r) remotes"
proof (cases "match_remote_tracking_ref ref remotes")
  case None
  then show ?thesis
    using match_remotes_spec [of ref "sort_desc length remotes"]
    by (simp add: match_remote_tracking_ref_def list_ex_iff)
next
  case (Some rb)
  obtain r b where rb: "rb = (r, b)" by force
  with Some match_remotes_spec [of ref "sort_desc length remotes" r b]
  obtain us vs where names: "names_branch ref r b" and order: "sort_desc length remotes = us @ r # vs"
    and earlier: "\<forall>u\<in>set us. \<forall>c. \<not> names_branch ref u c"
    by (auto simp: match_remote_tracking_ref_def)
  have "sorted (rev (map length (us @ r # vs)))"
    using sort_desc_sorted [of length remotes] order by simp
  then have later: "length v \<le> length r" if "v \<in> set vs" for v
    using that by (auto simp: sorted_append)
  have set: "set remotes = set us \<union> {r} \<union> set vs"
    using arg_cong [OF order, of set] by auto
  then have "list_all (\<lambda>q. (\<exists>c. names_branch ref q c) \<longrightarrow> length q \<le> length r) remotes"
    using earlier later by (auto simp: list_all_iff)
  with names set show ?thesis by (simp add: Some rb)
qed

text \<open>Matching a reference against the configured remotes finds a remote and branch it names
  exactly when there is one, and of several remotes a longest one (a remote may have a
  slash in its name).\<close>

text \<open>What a resolved base guarantees: it was fetched from a configured remote into the
  remote-tracking reference it is read from, or it is the given reference and a commit there is.\<close>

definition base_resolved :: "git_env \<Rightarrow> string list \<Rightarrow> string \<Rightarrow> resolved_base \<Rightarrow> bool" where
  "base_resolved g remotes ref b \<longleftrightarrow>
     (case snd b of
        Some args \<Rightarrow> (\<exists>remote branch. remote \<in> set remotes \<and> fst b = remote @ ''/'' @ branch
          \<and> (names_branch ref remote branch \<or> (remote = ''origin'' \<and> branch = ref))
          \<and> args = fetch_args remote (''refs/heads/'' @ branch) (''refs/remotes/'' @ remote @ ''/'' @ branch)
          \<and> valid_ref_format g (''refs/heads/'' @ branch) \<and> cpl_returncode (ge_run g args) = 0)
      | None \<Rightarrow> fst b = ref \<and> object_exists g ref \<and> \<not> starts_with ref ''refs/remotes/''
          \<and> \<not> list_ex (\<lambda>r. \<exists>c. names_branch ref r c) remotes)"

lemma fetched_base_resolved:
  assumes "fetched_base g remote branch ref = Inr b" "remote \<in> set remotes"
    and "names_branch ref remote branch \<or> (remote = ''origin'' \<and> branch = ref)"
  shows "base_resolved g remotes ref b"
proof -
  obtain args where args: "fetch_remote_branch g remote branch ref = Inr args" "b = (remote @ ''/'' @ branch, Some args)"
    using assms(1) by (cases "fetch_remote_branch g remote branch ref") (auto simp: fetched_base_def)
  then have "args = fetch_args remote (''refs/heads/'' @ branch) (''refs/remotes/'' @ remote @ ''/'' @ branch)
      \<and> valid_ref_format g (''refs/heads/'' @ branch) \<and> cpl_returncode (ge_run g args) = 0"
    by (auto simp: fetch_remote_branch_def validated_remote_branch_refs_def run_git_def Let_def split: if_splits)
  with args(2) assms(2,3) show ?thesis unfolding base_resolved_def by auto
qed

lemma local_base_resolved:
  "local_base g full ref = Inr b \<Longrightarrow> b = (ref, None) \<and> object_exists g ref"
  by (simp add: local_base_def split: if_splits)

text \<open>resolving the base of a pre-push review only ever yields a base that exists: either a
  branch of a configured remote that was just fetched, under the reference the fetch wrote, or the given
  reference itself, when no remote is named by it and it is a commit of the repository. A reference
  to a remote that is not configured is an error.\<close>

theorem resolve_pre_push_base_exists:
  assumes "configured_remotes g = Inr remotes"
  shows "(case resolve_pre_push_base g ref of Inl _ \<Rightarrow> True | Inr b \<Rightarrow> base_resolved g remotes ref b)
    \<and> (match_remote_tracking_ref ref remotes = None
        \<and> (starts_with ref ''refs/remotes/'' \<or> starts_with ref ''origin/'' \<and> ''origin'' \<notin> set remotes) \<longrightarrow>
        (\<exists>problem. resolve_pre_push_base g ref = Inl (Git_Remote_Ref_Error problem ref)))"
proof -
  have "base_resolved g remotes ref b" if res: "resolve_pre_push_base g ref = Inr b" for b
  proof (cases "match_remote_tracking_ref ref remotes")
    case (Some rb)
    obtain remote branch where rb: "rb = (remote, branch)" by force
    have "remote \<in> set remotes" "names_branch ref remote branch"
      using match_remote_tracking_ref_spec [of ref remotes] Some by (simp_all add: rb)
    with res Some assms fetched_base_resolved show ?thesis
      by (simp add: resolve_pre_push_base_def rb)
  next
    case None
    then have unnamed: "\<not> list_ex (\<lambda>r. \<exists>c. names_branch ref r c) remotes"
      using match_remote_tracking_ref_spec [of ref remotes] by simp
    have not_remote: "\<not> starts_with ref ''refs/remotes/''"
      using res assms None by (auto simp: resolve_pre_push_base_def)
    have kept: "base_resolved g remotes ref b" if "b = (ref, None) \<and> object_exists g ref"
      using that unnamed not_remote by (simp add: base_resolved_def)
    have fetched: "base_resolved g remotes ref b" if "fetched_base g ''origin'' ref ref = Inr b" "''origin'' \<in> set remotes"
      using fetched_base_resolved [OF that] by simp
    show ?thesis
      using res assms None kept [OF local_base_resolved] kept fetched
      by (auto simp: resolve_pre_push_base_def Let_def split: if_splits sum.splits option.splits)
  qed
  moreover have "\<exists>problem. resolve_pre_push_base g ref = Inl (Git_Remote_Ref_Error problem ref)"
    if "match_remote_tracking_ref ref remotes = None"
      "starts_with ref ''refs/remotes/'' \<or> starts_with ref ''origin/'' \<and> ''origin'' \<notin> set remotes"
    using that assms by (cases "starts_with ref ''refs/remotes/''") (simp_all add: resolve_pre_push_base_def)
  ultimately show ?thesis by (simp split: sum.split)
qed

text \<open>A repository whose only remote has a slash in its name.\<close>

definition sample_git :: git_env where
  "sample_git = \<lparr>ge_available = True, ge_run = (\<lambda>args. \<lparr>cpl_returncode = 0,
     cpl_stdout = (if args = [''remote''] then ''team/fork'' else []), cpl_stderr = []\<rparr>)\<rparr>"

lemma resolve_pre_push_base_exists_witness:
  "configured_remotes sample_git = Inr [''team/fork'']
   \<and> (\<exists>args. resolve_pre_push_base sample_git ''team/fork/main'' = Inr (''team/fork/main'', Some args))
   \<and> (case resolve_pre_push_base sample_git ''team/fork/main'' of Inl _ \<Rightarrow> True
      | Inr b \<Rightarrow> base_resolved sample_git [''team/fork''] ''team/fork/main'' b)"
proof -
  have remotes: "configured_remotes sample_git = Inr [''team/fork'']" by code_simp
  moreover have "\<exists>args. resolve_pre_push_base sample_git ''team/fork/main'' = Inr (''team/fork/main'', Some args)"
    by (rule exI [of _ "fetch_args ''team/fork'' ''refs/heads/main'' ''refs/remotes/team/fork/main''"]) code_simp
  ultimately show ?thesis
    using resolve_pre_push_base_exists [OF remotes, of "''team/fork/main''"] by blast
qed

subsection \<open>Reading NUL-separated output\<close>

text \<open>\<open>read_git_nul_output\<close> on the chunks that the process delivers, in the order of their arrival;
  timeouts and the thread that reads them are left out. A chunk is a byte string. The state of the loop is the
  entries, the bytes after the last separator and the number of bytes seen.\<close>

datatype stream_error = Negative_Byte_Limit | Negative_Entry_Limit | Byte_Limit_Exceeded int | Entry_Limit_Exceeded int

definition append_nul_entry :: "int \<Rightarrow> string \<Rightarrow> string list \<Rightarrow> stream_error + string list" where
  "append_nul_entry max_entries raw entries =
     (if max_entries \<le> int (length entries) then Inl (Entry_Limit_Exceeded max_entries)
      else Inr (entries @ [raw]))"

fun take_entries :: "int \<Rightarrow> string list \<Rightarrow> string \<Rightarrow> string \<Rightarrow> stream_error + string list \<times> string" where
  "take_entries max_entries entries acc [] = Inr (entries, acc)"
| "take_entries max_entries entries acc (c # cs) =
     (if c \<noteq> CHR 0x00 then take_entries max_entries entries (acc @ [c]) cs
      else if acc = [] then take_entries max_entries entries [] cs
      else case append_nul_entry max_entries acc entries of
          Inl e \<Rightarrow> Inl e
        | Inr entries' \<Rightarrow> take_entries max_entries entries' [] cs)"

fun read_chunks :: "int \<Rightarrow> int \<Rightarrow> int \<Rightarrow> string list \<Rightarrow> string \<Rightarrow> string list \<Rightarrow> stream_error + string list" where
  "read_chunks max_bytes max_entries seen entries pending [] =
     (if pending = [] then Inr entries else append_nul_entry max_entries pending entries)"
| "read_chunks max_bytes max_entries seen entries pending (chunk # chunks) =
     (let seen' = seen + int (length chunk) in
      if max_bytes < seen' then Inl (Byte_Limit_Exceeded max_bytes)
      else case take_entries max_entries entries [] (pending @ chunk) of
          Inl e \<Rightarrow> Inl e
        | Inr (entries', pending') \<Rightarrow> read_chunks max_bytes max_entries seen' entries' pending' chunks)"

definition read_git_nul_output :: "int \<Rightarrow> int \<Rightarrow> string list \<Rightarrow> stream_error + string list" where
  "read_git_nul_output max_bytes max_entries chunks =
     (if max_bytes < 0 then Inl Negative_Byte_Limit
      else if max_entries < 0 then Inl Negative_Entry_Limit
      else read_chunks max_bytes max_entries 0 [] [] chunks)"

text \<open>The reference: split the whole output at the separators and drop the empty entries.\<close>

definition nul_entries :: "string \<Rightarrow> string list" where
  "nul_entries out = filter (\<lambda>e. e \<noteq> []) (split_char (CHR 0x00) out)"

lemma split_char_nonempty [simp]: "split_char a s \<noteq> []"
  by (induction s) (auto split: list.splits)

lemma split_char_prefix: "a \<notin> set p \<Longrightarrow> split_char a (p @ s) = (p @ hd (split_char a s)) # tl (split_char a s)"
  by (induction p) (auto split: list.splits)

definition complete_entries :: "string \<Rightarrow> string list" where
  "complete_entries s = filter (\<lambda>e. e \<noteq> []) (butlast (split_char (CHR 0x00) s))"

definition rest_entry :: "string \<Rightarrow> string" where
  "rest_entry s = last (split_char (CHR 0x00) s)"

lemma split_at_nul:
  "CHR 0x00 \<notin> set p \<Longrightarrow> split_char (CHR 0x00) (p @ CHR 0x00 # s) = p # split_char (CHR 0x00) s"
  by (simp add: split_char_prefix)

lemma entries_step:
  assumes "CHR 0x00 \<notin> set p"
  shows "complete_entries p = []" "rest_entry p = p"
    "complete_entries (p @ CHR 0x00 # s) = (if p = [] then [] else [p]) @ complete_entries s"
    "rest_entry (p @ CHR 0x00 # s) = rest_entry s"
  using assms split_char_prefix [OF assms, of "[]"]
  by (simp_all add: complete_entries_def rest_entry_def split_at_nul)

lemma rest_entry_no_nul: "CHR 0x00 \<notin> set (rest_entry s)"
proof (induction s)
  case (Cons c s)
  then show ?case
    by (cases "split_char (CHR 0x00) s") (auto simp: rest_entry_def split: if_splits)
qed (simp add: rest_entry_def)

lemma nul_entries_split:
  "nul_entries s = complete_entries s @ (if rest_entry s = [] then [] else [rest_entry s])"
proof -
  obtain ws w where "split_char (CHR 0x00) s = ws @ [w]"
    using split_char_nonempty [of "CHR 0x00" s] by (metis rev_exhaust)
  then show ?thesis by (simp add: nul_entries_def complete_entries_def rest_entry_def)
qed

lemma entries_append:
  "complete_entries (x @ y) = complete_entries x @ complete_entries (rest_entry x @ y)
   \<and> rest_entry (x @ y) = rest_entry (rest_entry x @ y)"
proof (induction x rule: measure_induct_rule [where f = length])
  case (less x)
  show ?case
  proof (cases "CHR 0x00 \<in> set x")
    case True
    then obtain p t where x: "x = p @ CHR 0x00 # t" "CHR 0x00 \<notin> set p" by (metis split_list_first)
    with less [of t] show ?thesis using entries_step [OF x(2)] by simp
  next
    case False
    then show ?thesis by (simp add: entries_step)
  qed
qed

lemma take_entries_spec:
  assumes "CHR 0x00 \<notin> set acc"
  shows "take_entries m entries acc s =
    (if complete_entries (acc @ s) \<noteq> [] \<and> m < int (length entries + length (complete_entries (acc @ s)))
     then Inl (Entry_Limit_Exceeded m)
     else Inr (entries @ complete_entries (acc @ s), rest_entry (acc @ s)))"
  using assms
proof (induction s arbitrary: acc entries)
  case Nil
  then show ?case by (simp add: entries_step)
next
  case (Cons c s)
  show ?case
  proof (cases "c = CHR 0x00")
    case False
    with Cons.IH [of "acc @ [c]" entries] Cons.prems show ?thesis by simp
  next
    case True
    with Cons.IH [of "[]" entries] Cons.IH [of "[]" "entries @ [acc]"] Cons.prems show ?thesis
      by (auto simp: entries_step append_nul_entry_def)
  qed
qed

lemma read_chunks_spec:
  assumes "seen \<le> max_bytes" "int (length entries) \<le> max_entries" "CHR 0x00 \<notin> set pending"
  shows "read_chunks max_bytes max_entries seen entries pending chunks = Inr es \<longleftrightarrow>
    seen + int (length (concat chunks)) \<le> max_bytes
    \<and> es = entries @ nul_entries (pending @ concat chunks) \<and> int (length es) \<le> max_entries"
  using assms
proof (induction chunks arbitrary: seen entries pending)
  case Nil
  then show ?case
    by (auto simp: nul_entries_split entries_step append_nul_entry_def)
next
  case (Cons chunk chunks)
  let ?seen = "seen + int (length chunk)"
  let ?done = "complete_entries (pending @ chunk)" and ?rest = "rest_entry (pending @ chunk)"
  have entries: "nul_entries (pending @ chunk @ concat chunks) = ?done @ nul_entries (?rest @ concat chunks)"
    using entries_append [of "pending @ chunk" "concat chunks"] by (simp add: nul_entries_split)
  show ?case
  proof (cases "max_bytes < ?seen")
    case True
    then show ?thesis by (simp add: Let_def)
  next
    case fits: False
    show ?thesis
    proof (cases "?done \<noteq> [] \<and> max_entries < int (length entries + length ?done)")
      case True
      with fits show ?thesis using take_entries_spec [of "[]" max_entries entries "pending @ chunk"]
        by (auto simp: Let_def entries)
    next
      case False
      with fits Cons.prems show ?thesis
        using take_entries_spec [of "[]" max_entries entries "pending @ chunk"]
          Cons.IH [of ?seen "entries @ ?done" ?rest]
        by (auto simp: Let_def entries rest_entry_no_nul add.assoc)
    qed
  qed
qed

text \<open>C33: reading NUL-separated output succeeds exactly when the output is within the two limits,
  and then yields the nonempty entries of the whole output, however the process splits it into
  chunks.\<close>

theorem read_git_nul_output_chunk_free:
  "read_git_nul_output max_bytes max_entries chunks = Inr es \<longleftrightarrow>
     0 \<le> max_entries \<and> int (length (concat chunks)) \<le> max_bytes
     \<and> es = nul_entries (concat chunks) \<and> int (length es) \<le> max_entries"
  using read_chunks_spec [of 0 max_bytes "[]" max_entries "[]" chunks es]
  by (auto simp: read_git_nul_output_def)

end
