(* ===== verification/Snapshot.thy ===== *)
theory Snapshot
  imports Model_Diff Git_Commands
begin

section \<open>The identity of a review input\<close>

text \<open>
  \<open>src/apex_ray/pipeline/snapshot.py\<close>: the snapshot that is taken when a diff is reviewed, and its
  validation against the repository before a later run relies on the report. The digest is a
  parameter (\<open>hashlib.sha256\<close>); git is the \<^typ>\<open>git_env\<close> of \<open>Git_Commands\<close>.
\<close>

datatype capture_error =
    Repository_Not_Available
  | Git_Identity_Unavailable
  | Invalid_Snapshot snapshot_error

datatype validation_error =
    Target_Mode_Mismatch
  | Base_Mismatch
  | Repository_Gone
  | No_Head_Identity
  | Head_Changed string string
  | Incomplete_Base_Identity
  | Merge_Base_Changed string string
  | Diff_Changed target_mode
  | Git_Failed git_error

datatype snapshot_state = Snapshot_Current | Snapshot_Detached

text \<open>A call of git whose failure ends the \<open>try\<close> block.\<close>

definition try_git :: "'f \<Rightarrow> git_error + 'a \<Rightarrow> ('a \<Rightarrow> 'f + 'b) \<Rightarrow> 'f + 'b" where
  "try_git failure r k = (case r of Inl _ \<Rightarrow> Inl failure | Inr x \<Rightarrow> k x)"

definition try_git_with :: "(git_error \<Rightarrow> 'f) \<Rightarrow> git_error + 'a \<Rightarrow> ('a \<Rightarrow> 'f + 'b) \<Rightarrow> 'f + 'b" where
  "try_git_with failure r k = (case r of Inl e \<Rightarrow> Inl (failure e) | Inr x \<Rightarrow> k x)"

definition optional :: "'a option \<Rightarrow> ('a \<Rightarrow> 'e + 'b) \<Rightarrow> 'e + 'b option" where
  "optional v f = (case v of None \<Rightarrow> Inr None | Some x \<Rightarrow> map_sum id Some (f x))"

definition live_identity ::
  "git_env \<Rightarrow> target_mode \<Rightarrow> string option \<Rightarrow> string option
     \<Rightarrow> capture_error + string \<times> string option \<times> string option" where
  "live_identity g mode base_ref range_start_ref =
     (if \<not> is_git_repo g then Inl Repository_Not_Available
      else try_git Git_Identity_Unavailable (rev_parse g ''HEAD'') (\<lambda>head.
        try_git Git_Identity_Unavailable
          (if mode = TM_BASE then optional base_ref (\<lambda>b. merge_base g b ''HEAD'') else Inr None) (\<lambda>mb.
        try_git Git_Identity_Unavailable (optional range_start_ref (rev_parse g)) (\<lambda>start.
        Inr (head, mb, start)))))"

definition capture_review_input_snapshot ::
  "(string \<Rightarrow> string) \<Rightarrow> git_env \<Rightarrow> string \<Rightarrow> target_mode \<Rightarrow> string option \<Rightarrow> string option
     \<Rightarrow> capture_error + review_input_snapshot" where
  "capture_review_input_snapshot sha256 g diff_text mode base_ref range_start_ref =
     (let snapshot = \<lambda>head mb start. map_sum Invalid_Snapshot id (validate_git_identity
            \<lparr>snap_schema_version = SV_REVIEW_INPUT_SNAPSHOT_V1, snap_target_mode = mode,
             snap_base_ref = base_ref, snap_head_sha = head, snap_merge_base_sha = mb,
             snap_range_start_sha = start, snap_diff_sha256 = sha256 diff_text\<rparr>)
      in if mode \<noteq> TM_PATCH \<or> range_start_ref \<noteq> None
         then (case live_identity g mode base_ref range_start_ref of
                 Inl e \<Rightarrow> Inl e | Inr (head, mb, start) \<Rightarrow> snapshot (Some head) mb start)
         else snapshot None None None)"

text \<open>The diff that the live target has now.\<close>

definition live_diff :: "git_env \<Rightarrow> review_input_snapshot \<Rightarrow> validation_error + string" where
  "live_diff g s =
     (case snap_target_mode s of
        TM_PATCH \<Rightarrow> (case snap_range_start_sha s of
            None \<Rightarrow> Inl (Diff_Changed TM_PATCH)
          | Some start \<Rightarrow> try_git_with Git_Failed (diff_range g start ''HEAD'') Inr)
      | TM_BASE \<Rightarrow> (case (snap_base_ref s, snap_merge_base_sha s) of
            (Some base, Some saved) \<Rightarrow> try_git_with Git_Failed (merge_base g base ''HEAD'') (\<lambda>now.
              if now \<noteq> saved then Inl (Merge_Base_Changed saved now)
              else try_git_with Git_Failed (diff_base g base) Inr)
          | _ \<Rightarrow> Inl Incomplete_Base_Identity)
      | TM_STAGED \<Rightarrow> try_git_with Git_Failed (diff_staged g) Inr
      | TM_WORKTREE \<Rightarrow> try_git_with Git_Failed (diff_worktree g) Inr)"

text \<open>The two expectations are optional arguments of the code; an expected base may be \<open>None\<close>.\<close>

definition validate_review_input_snapshot ::
  "(string \<Rightarrow> string) \<Rightarrow> git_env \<Rightarrow> review_input_snapshot \<Rightarrow> target_mode option \<Rightarrow> string option option
     \<Rightarrow> validation_error + snapshot_state" where
  "validate_review_input_snapshot sha256 g s expected_mode expected_base =
     (if expected_mode \<noteq> None \<and> expected_mode \<noteq> Some (snap_target_mode s) then Inl Target_Mode_Mismatch
      else if expected_base \<noteq> None \<and> expected_base \<noteq> Some (snap_base_ref s) then Inl Base_Mismatch
      else if snap_target_mode s = TM_PATCH \<and> snap_range_start_sha s = None then Inr Snapshot_Detached
      else if \<not> is_git_repo g then Inl Repository_Gone
      else case snap_head_sha s of
          None \<Rightarrow> Inl No_Head_Identity
        | Some head \<Rightarrow> try_git_with Git_Failed (rev_parse g ''HEAD'') (\<lambda>now.
            if now \<noteq> head then Inl (Head_Changed head now)
            else case live_diff g s of
                Inl e \<Rightarrow> Inl e
              | Inr diff \<Rightarrow> if sha256 diff \<noteq> snap_diff_sha256 s then Inl (Diff_Changed (snap_target_mode s))
                            else Inr Snapshot_Current))"

subsection \<open>What a validated snapshot guarantees\<close>

text \<open>The diff text of a target in a repository, as the caller of the capture obtains it.\<close>

definition target_diff :: "git_env \<Rightarrow> target_mode \<Rightarrow> string option \<Rightarrow> string option \<Rightarrow> git_error + string" where
  "target_diff g mode base_ref start =
     (case mode of
        TM_BASE \<Rightarrow> diff_base g (case base_ref of Some b \<Rightarrow> b | None \<Rightarrow> [])
      | TM_STAGED \<Rightarrow> diff_staged g
      | TM_WORKTREE \<Rightarrow> diff_worktree g
      | TM_PATCH \<Rightarrow> diff_range g (case start of Some s \<Rightarrow> s | None \<Rightarrow> []) ''HEAD'')"

text \<open>C32: a snapshot validates as current only if the repository is there, its head and (for a
  base review) the merge base are the saved ones, and the live diff of the saved target has the
  saved digest. So a report whose digest is that of the reviewed diff is reused only for that very diff, as far
  as the digest tells texts apart.\<close>

theorem validated_snapshot_is_current:
  assumes "validate_review_input_snapshot sha256 g s expected_mode expected_base = Inr Snapshot_Current"
  shows "is_git_repo g
    \<and> map_sum id Some (rev_parse g ''HEAD'') = Inr (snap_head_sha s)
    \<and> map_sum id sha256 (target_diff g (snap_target_mode s) (snap_base_ref s) (snap_range_start_sha s))
        = Inr (snap_diff_sha256 s)
    \<and> (snap_target_mode s = TM_BASE \<longrightarrow> (\<exists>base. snap_base_ref s = Some base
          \<and> map_sum id Some (merge_base g base ''HEAD'') = Inr (snap_merge_base_sha s)))
    \<and> expected_mode \<in> {None, Some (snap_target_mode s)} \<and> expected_base \<in> {None, Some (snap_base_ref s)}"
proof -
  obtain diff where repo: "is_git_repo g" and head: "map_sum id Some (rev_parse g ''HEAD'') = Inr (snap_head_sha s)"
    and diff: "live_diff g s = Inr diff" "sha256 diff = snap_diff_sha256 s"
    and expected: "expected_mode \<in> {None, Some (snap_target_mode s)}" "expected_base \<in> {None, Some (snap_base_ref s)}"
    using assms
    by (auto simp: validate_review_input_snapshot_def try_git_with_def
        split: if_splits option.splits sum.splits)
  have "target_diff g (snap_target_mode s) (snap_base_ref s) (snap_range_start_sha s) = Inr diff"
    using diff(1) by (auto simp: live_diff_def target_diff_def try_git_with_def
        split: target_mode.splits option.splits sum.splits if_splits)
  moreover have "snap_target_mode s = TM_BASE \<longrightarrow> (\<exists>base. snap_base_ref s = Some base
      \<and> map_sum id Some (merge_base g base ''HEAD'') = Inr (snap_merge_base_sha s))"
    using diff(1) by (auto simp: live_diff_def try_git_with_def split: option.splits sum.splits if_splits)
  ultimately show ?thesis using repo head expected diff(2) by simp
qed

lemma validate_git_identity_Inr: "validate_git_identity s = Inr t \<Longrightarrow> t = s"
  by (simp add: validate_git_identity_def split: if_splits)

text \<open>a snapshot that was captured of the present diff of a target validates, as long as the
  repository stays as it is: a detached patch as detached, every other target as current.\<close>

theorem captured_snapshot_validates:
  assumes captured: "capture_review_input_snapshot sha256 g diff_text mode base_ref range_start_ref = Inr s"
    and present: "mode = TM_PATCH \<and> range_start_ref = None
      \<or> target_diff g mode base_ref (snap_range_start_sha s) = Inr diff_text"
  shows "validate_review_input_snapshot sha256 g s (Some mode) (Some base_ref) =
    Inr (if mode = TM_PATCH \<and> range_start_ref = None then Snapshot_Detached else Snapshot_Current)"
proof (cases "mode = TM_PATCH \<and> range_start_ref = None")
  case True
  then have "snap_target_mode s = mode \<and> snap_base_ref s = base_ref \<and> snap_range_start_sha s = None"
    using captured
    by (auto simp: capture_review_input_snapshot_def Let_def map_sum_def dest: validate_git_identity_Inr
        split: sum.splits)
  with True show ?thesis by (simp add: validate_review_input_snapshot_def)
next
  case False
  then obtain head mb start where live: "live_identity g mode base_ref range_start_ref = Inr (head, mb, start)"
    and made: "validate_git_identity \<lparr>snap_schema_version = SV_REVIEW_INPUT_SNAPSHOT_V1, snap_target_mode = mode,
             snap_base_ref = base_ref, snap_head_sha = Some head, snap_merge_base_sha = mb,
             snap_range_start_sha = start, snap_diff_sha256 = sha256 diff_text\<rparr> = Inr s"
    using captured
    by (auto simp: capture_review_input_snapshot_def Let_def map_sum_def split: sum.splits if_splits)
  note s = validate_git_identity_Inr [OF made]
  have valid: "validate_git_identity s = Inr s" using made by (simp only: s)
  have repo: "is_git_repo g" and head: "rev_parse g ''HEAD'' = Inr head"
    and mb: "(if mode = TM_BASE then optional base_ref (\<lambda>b. merge_base g b ''HEAD'') else Inr None) = Inr mb"
    and start: "optional range_start_ref (rev_parse g) = Inr start"
    using live by (auto simp: live_identity_def try_git_def split: if_splits sum.splits)
  have "start \<noteq> None" if "mode = TM_PATCH"
    using that False start by (auto simp: optional_def map_sum_def split: option.splits sum.splits)
  moreover have "live_diff g s = Inr diff_text" if "mode \<noteq> TM_PATCH \<or> start \<noteq> None"
  proof (cases mode)
    case TM_BASE
    with valid obtain b where b: "base_ref = Some b" "mb \<noteq> None"
      by (auto simp: s validate_git_identity_def split: if_splits)
    with mb TM_BASE have "map_sum id Some (merge_base g b ''HEAD'') = Inr mb" by (simp add: optional_def)
    with b have "\<exists>m. mb = Some m \<and> merge_base g b ''HEAD'' = Inr m"
      by (auto simp: map_sum_def split: sum.splits)
    with b present TM_BASE show ?thesis
      by (auto simp: live_diff_def s target_diff_def try_git_with_def)
  qed (use that present False in \<open>auto simp: live_diff_def s target_diff_def try_git_with_def\<close>)
  ultimately have "live_diff g s = Inr diff_text" by blast
  then show ?thesis using False repo head \<open>mode = TM_PATCH \<Longrightarrow> start \<noteq> None\<close>
    by (auto simp: validate_review_input_snapshot_def try_git_with_def s)
qed

text \<open>A staged review of a repository with one commit.\<close>

definition snapshot_git :: git_env where
  "snapshot_git = \<lparr>ge_available = True, ge_run = (\<lambda>args. \<lparr>cpl_returncode = 0,
     cpl_stdout =
       (if args = [''rev-parse'', ''--is-inside-work-tree''] then ''true''
        else if hd args = ''rev-parse'' then replicate 40 (CHR ''a'') else ''diff text''),
     cpl_stderr = []\<rparr>)\<rparr>"

definition constant_digest :: "string \<Rightarrow> string" where
  "constant_digest text = replicate 64 (CHR ''0'')"

definition sample_snapshot :: review_input_snapshot where
  "sample_snapshot = \<lparr>snap_schema_version = SV_REVIEW_INPUT_SNAPSHOT_V1, snap_target_mode = TM_STAGED,
     snap_base_ref = None, snap_head_sha = Some (replicate 40 (CHR ''a'')), snap_merge_base_sha = None,
     snap_range_start_sha = None, snap_diff_sha256 = replicate 64 (CHR ''0'')\<rparr>"

lemma validated_snapshot_is_current_witness:
  "map_sum id Some (rev_parse snapshot_git ''HEAD'') = Inr (Some (replicate 40 (CHR ''a'')))
   \<and> map_sum id constant_digest (diff_staged snapshot_git) = Inr (replicate 64 (CHR ''0''))"
proof -
  have "validate_review_input_snapshot constant_digest snapshot_git sample_snapshot (Some TM_STAGED) None
      = Inr Snapshot_Current"
    by code_simp
  from validated_snapshot_is_current [OF this] show ?thesis
    by (simp add: sample_snapshot_def target_diff_def)
qed

lemma captured_snapshot_validates_witness:
  "validate_review_input_snapshot constant_digest snapshot_git sample_snapshot (Some TM_STAGED) (Some None)
     = Inr Snapshot_Current"
proof -
  have "capture_review_input_snapshot constant_digest snapshot_git ''diff text'' TM_STAGED None None = Inr sample_snapshot"
    by code_simp
  moreover have "target_diff snapshot_git TM_STAGED None (snap_range_start_sha sample_snapshot) = Inr ''diff text''"
    by code_simp
  ultimately show ?thesis using captured_snapshot_validates [of constant_digest snapshot_git "''diff text''"] by force
qed

end
