(* ===== verification/Coverage_Drain.thy ===== *)
theory Coverage_Drain
  imports Model_Report Reviewers
begin

section \<open>Draining a review until its coverage is complete\<close>

text \<open>
  \<open>src/apex_ray/pipeline/coverage.py\<close>: the reviewer scope of a completion, which packs are still
  pending and in which order, the progress key, and the loop that continues a review in bounded
  batches until it is complete, has no eligible work, makes no progress or has used its batches.
  The two calls that leave the component, \<open>continue_review_from_report\<close> and the validation of
  the snapshot, are the arguments \<open>continue\<close> and \<open>validate\<close>; both act on a world (the
  repository, the provider) that is threaded through, and both may fail. What is proved holds for every
  choice of them.
\<close>

subsection \<open>Scope\<close>

datatype scope_error = Reviewer_Config_Error reviewer_error | Ambiguous_Reviewer_Scope

definition resolve_completion_reviewer_scope ::
  "review_config \<Rightarrow> string list option \<Rightarrow> scope_error + string list option" where
  "resolve_completion_reviewer_scope config requested =
     (if requested \<noteq> None \<and> requested \<noteq> Some []
      then (case effective_reviewers (rc_reviewers config) requested of
              Inl e \<Rightarrow> Inl (Reviewer_Config_Error e) | Inr rs \<Rightarrow> Inr (Some (map rv_id rs)))
      else case effective_reviewers (rc_reviewers config) None of
          Inl e \<Rightarrow> Inl (Reviewer_Config_Error e)
        | Inr reviewers \<Rightarrow>
            if rc_reviewers config = [] then Inr None
            else (case map rv_id (filter rv_required reviewers) of
                [r] \<Rightarrow> Inr (Some [r])
              | _ \<Rightarrow> (case reviewers of [r] \<Rightarrow> Inr (Some [rv_id r]) | _ \<Rightarrow> Inl Ambiguous_Reviewer_Scope)))"

subsection \<open>Completeness, pending packs and progress\<close>

definition summaries_by_id :: "llm_coverage_summary \<Rightarrow> (string \<times> llm_reviewer_coverage_summary) list" where
  "summaries_by_id c = dict_of rcs_reviewer_id id (cov_reviewers c)"

definition reviewer_covered :: "llm_reviewer_coverage_summary \<Rightarrow> bool" where
  "reviewer_covered r \<longleftrightarrow> rcs_reviewed_context_packs r = rcs_matching_context_packs r
     \<and> rcs_status r \<in> {RST_PASS, RST_NOT_APPLICABLE}"

definition coverage_is_complete :: "review_report \<Rightarrow> string list option \<Rightarrow> bool" where
  "coverage_is_complete rep reviewer_ids =
     (let c = rep_llm_coverage rep in
      case reviewer_ids of
        None \<Rightarrow> cov_completion_status c = COMP_COMPLETE
      | Some ids \<Rightarrow> cov_enabled c
          \<and> list_all (\<lambda>i. case dict_get (summaries_by_id c) i of
               None \<Rightarrow> False | Some r \<Rightarrow> reviewer_covered r) ids
          \<and> \<not> list_ex (\<lambda>p. p \<in> set (cov_shallow_only_high_risk_context_pack_ids c))
               (concat (map (\<lambda>i. case dict_get (summaries_by_id c) i of
                  None \<Rightarrow> [] | Some r \<Rightarrow> rcs_matching_context_pack_ids r) ids)))"

definition priority_rank :: "string \<Rightarrow> int" where
  "priority_rank p = dict_get_or [(''p0'', 0), (''p1'', 1), (''p2'', 2)] p 9"

definition target_reviewers :: "string list option \<Rightarrow> string list" where
  "target_reviewers reviewer_ids = (case reviewer_ids of None \<Rightarrow> [] | Some ids \<Rightarrow> ids)"

definition targeted_summaries ::
  "llm_coverage_summary \<Rightarrow> string list option \<Rightarrow> llm_reviewer_coverage_summary list" where
  "targeted_summaries c reviewer_ids =
     (let target = target_reviewers reviewer_ids in
      filter (\<lambda>r. target = [] \<or> rcs_reviewer_id r \<in> set target) (cov_reviewers c))"

text \<open>The to-dos that keep a pack pending.\<close>

definition todo_pending ::
  "llm_coverage_summary \<Rightarrow> string list option \<Rightarrow> llm_coverage_todo \<Rightarrow> bool" where
  "todo_pending c reviewer_ids todo \<longleftrightarrow>
     (let target = target_reviewers reviewer_ids;
          scope = concat (map rcs_matching_context_pack_ids (targeted_summaries c reviewer_ids))
      in \<not> (target \<noteq> [] \<and> (case todo_reviewer_id todo of None \<Rightarrow> False | Some r \<Rightarrow> r \<notin> set target))
       \<and> \<not> (target \<noteq> [] \<and> todo_context_pack_id todo \<notin> set scope)
       \<and> (todo_context_pack_id todo \<notin> set (cov_reviewed_context_pack_ids c)
          \<or> todo_reviewer_id todo \<noteq> None \<or> str_in ''verif'' (py_casefold (todo_reason todo))))"

definition pending_set :: "llm_coverage_summary \<Rightarrow> string list option \<Rightarrow> string list" where
  "pending_set c reviewer_ids =
     (let target = target_reviewers reviewer_ids;
          summaries = targeted_summaries c reviewer_ids;
          scope = concat (map rcs_matching_context_pack_ids summaries);
          start = (if target \<noteq> [] then filter (\<lambda>p. p \<in> set scope) (cov_shallow_only_high_risk_context_pack_ids c)
                   else cov_unreviewed_context_pack_ids c @ cov_shallow_only_high_risk_context_pack_ids c)
      in start
       @ concat (map (\<lambda>r. filter (\<lambda>p. p \<notin> set (rcs_reviewed_context_pack_ids r)) (rcs_matching_context_pack_ids r)) summaries)
       @ map todo_context_pack_id (filter (todo_pending c reviewer_ids) (cov_coverage_todos c)))"

definition raise_priority :: "llm_coverage_todo \<Rightarrow> (string \<times> string) list \<Rightarrow> (string \<times> string) list" where
  "raise_priority todo d =
     (let raised = dict_set (todo_context_pack_id todo) (todo_priority todo) d in
      case dict_get d (todo_context_pack_id todo) of
        None \<Rightarrow> raised
      | Some p \<Rightarrow> if priority_rank (todo_priority todo) < priority_rank p then raised else d)"

definition priority_by_pack_id :: "llm_coverage_summary \<Rightarrow> (string \<times> string) list" where
  "priority_by_pack_id c = fold raise_priority (cov_coverage_todos c)
     (dict_of rrs_context_pack_id rrs_priority (cov_residual_risk_context_packs c))"

definition order_by_pack_id :: "review_report \<Rightarrow> (string \<times> nat) list" where
  "order_by_pack_id rep = dict_of (\<lambda>(i, p). cp_id p) fst (indexed (rep_context_packs rep))"

definition pending_key :: "review_report \<Rightarrow> string \<Rightarrow> int \<times> nat \<times> string" where
  "pending_key rep i =
     (let order = order_by_pack_id rep in
      (priority_rank (dict_get_or (priority_by_pack_id (rep_llm_coverage rep)) i ''p2''),
       dict_get_or order i (length order), i))"

text \<open>The code sorts a set; the key ends in the identifier, so the order does not depend on that of the set.\<close>

definition pending_context_pack_ids :: "review_report \<Rightarrow> string list option \<Rightarrow> string list" where
  "pending_context_pack_ids rep reviewer_ids =
     sort_key (pending_key rep) (sorted_set (pending_set (rep_llm_coverage rep) reviewer_ids))"

type_synonym progress_key = "int \<times> int \<times> int \<times> int"

definition coverage_progress_key :: "review_report \<Rightarrow> string list option \<Rightarrow> progress_key" where
  "coverage_progress_key rep reviewer_ids =
     (let c = rep_llm_coverage rep in
      (cov_reviewed_context_packs c,
       sum_list (map rcs_reviewed_context_packs (targeted_summaries c reviewer_ids)),
       cov_reviewed_high_risk_context_packs c - int (length (cov_shallow_only_high_risk_context_pack_ids c)),
       - int (length (pending_context_pack_ids rep reviewer_ids))))"

definition completion_scope_needs_rebase ::
  "review_report \<Rightarrow> review_config \<Rightarrow> string list option \<Rightarrow> bool" where
  "completion_scope_needs_rebase rep config reviewer_ids =
     (if rep_config rep \<noteq> config then True
      else case reviewer_ids of
          None \<Rightarrow> False
        | Some ids \<Rightarrow>
            if \<not> list_all (\<lambda>i. i \<in> rcs_reviewer_id ` set (cov_reviewers (rep_llm_coverage rep))) ids then True
            else (case rep_reviewer_scope_ids rep of None \<Rightarrow> False
              | Some scope \<Rightarrow> \<not> list_all (\<lambda>i. i \<in> set scope) ids))"

text \<open>A pack whose only debt is its depth is given to one reviewer, even when several match it.\<close>

definition matching_summaries ::
  "llm_coverage_summary \<Rightarrow> string list \<Rightarrow> string \<Rightarrow> llm_reviewer_coverage_summary list" where
  "matching_summaries c reviewer_ids p =
     filter (\<lambda>r. p \<in> set (rcs_matching_context_pack_ids r))
       (List.map_filter (dict_get (summaries_by_id c)) reviewer_ids)"

definition single_reviewer_depth_upgrade ::
  "review_report \<Rightarrow> string list \<Rightarrow> string list \<Rightarrow> string list option \<Rightarrow> int
     \<Rightarrow> (string list \<times> string list) option" where
  "single_reviewer_depth_upgrade rep pending_ids force_ids reviewer_ids batch_size =
     (case reviewer_ids of
        None \<Rightarrow> None
      | Some ids \<Rightarrow>
          if force_ids = [] \<or> length ids < 2 then None
          else
            let c = rep_llm_coverage rep;
                depth_only = (\<lambda>p. p \<in> set force_ids \<and> matching_summaries c ids p \<noteq> []
                  \<and> list_all (\<lambda>r. p \<in> set (rcs_reviewed_context_pack_ids r)) (matching_summaries c ids p))
            in (case find depth_only pending_ids of
                  None \<Rightarrow> None
                | Some p \<Rightarrow>
                    let r = hd (matching_summaries c ids p) in
                    Some (take (nat batch_size) (filter (\<lambda>q. q \<in> set force_ids
                            \<and> q \<in> set (rcs_matching_context_pack_ids r)) pending_ids),
                          [rcs_reviewer_id r])))"

subsection \<open>The loop\<close>

text \<open>One call of \<open>continue_review_from_report\<close>: the packs as sets, the reviewers to run.\<close>

record continuation_request =
  crq_pack_ids :: "string list"
  crq_force_review_pack_ids :: "string list"
  crq_max_pack_reviews :: "int option"
  crq_review_depth :: "review_depth option"
  crq_reviewer_ids :: "string list option"

datatype 'e drain_error =
    Batch_Size_Not_Positive
  | Max_Batches_Not_Positive
  | Snapshot_Missing
  | Drain_Failed 'e

record drain_result =
  drr_report :: review_report
  drr_complete :: bool
  drr_batches :: nat
  drr_stop_reason :: coverage_stop_reason

type_synonym ('w, 'e) validator = "review_report \<Rightarrow> 'w \<Rightarrow> ('e + unit) \<times> 'w"

type_synonym ('w, 'e) continuation =
  "review_report \<Rightarrow> continuation_request \<Rightarrow> 'w \<Rightarrow> ('e + review_report) \<times> 'w"

definition validate_current_snapshot ::
  "('w, 'e) validator \<Rightarrow> review_report \<Rightarrow> 'w \<Rightarrow> ('e drain_error + unit) \<times> 'w" where
  "validate_current_snapshot validate rep w =
     (if rep_input_snapshot rep = None then (Inl Snapshot_Missing, w)
      else let (r, w') = validate rep w in (map_sum Drain_Failed id r, w'))"

text \<open>A continuation followed by the validation of what it returns.\<close>

definition continue_checked ::
  "('w, 'e) validator \<Rightarrow> ('w, 'e) continuation \<Rightarrow> review_report \<Rightarrow> continuation_request \<Rightarrow> 'w
     \<Rightarrow> ('e drain_error + review_report) \<times> 'w" where
  "continue_checked validate continue rep rq w =
     (case continue rep rq w of
        (Inl e, w1) \<Rightarrow> (Inl (Drain_Failed e), w1)
      | (Inr rep', w1) \<Rightarrow> (case validate_current_snapshot validate rep' w1 of
            (Inl e, w2) \<Rightarrow> (Inl e, w2) | (Inr _, w2) \<Rightarrow> (Inr rep', w2)))"

definition batch_request ::
  "review_report \<Rightarrow> string list \<Rightarrow> string list option \<Rightarrow> int \<Rightarrow> continuation_request" where
  "batch_request rep pending_ids reviewer_ids batch_size =
     (let force_ids = filter (\<lambda>p. p \<in> set (cov_shallow_only_high_risk_context_pack_ids (rep_llm_coverage rep))) pending_ids
      in case single_reviewer_depth_upgrade rep pending_ids force_ids reviewer_ids batch_size of
          None \<Rightarrow> \<lparr>crq_pack_ids = pending_ids, crq_force_review_pack_ids = force_ids,
            crq_max_pack_reviews = Some batch_size, crq_review_depth = Some RD_DEEP, crq_reviewer_ids = reviewer_ids\<rparr>
        | Some (selected, ids) \<Rightarrow> \<lparr>crq_pack_ids = selected,
            crq_force_review_pack_ids = filter (\<lambda>p. p \<in> set selected) force_ids,
            crq_max_pack_reviews = Some batch_size, crq_review_depth = Some RD_DEEP, crq_reviewer_ids = Some ids\<rparr>)"

definition rebase_request :: "string list option \<Rightarrow> continuation_request" where
  "rebase_request reviewer_ids = \<lparr>crq_pack_ids = [], crq_force_review_pack_ids = [],
     crq_max_pack_reviews = None, crq_review_depth = None, crq_reviewer_ids = reviewer_ids\<rparr>"

definition drain_stop :: "review_report \<Rightarrow> nat \<Rightarrow> coverage_stop_reason \<Rightarrow> drain_result" where
  "drain_stop rep n reason = \<lparr>drr_report = rep, drr_complete = (reason = CSR_COMPLETE), drr_batches = n,
     drr_stop_reason = reason\<rparr>"

text \<open>The loop over \<open>range(1, max_batches + 1)\<close>: \<open>fuel\<close> counts the batches that are left,
  \<open>done\<close> those that have run; the reports that are handed to \<open>on_batch\<close> are collected.\<close>

fun drain_loop ::
  "('w, 'e) validator \<Rightarrow> ('w, 'e) continuation \<Rightarrow> string list option \<Rightarrow> int \<Rightarrow> nat \<Rightarrow> nat \<Rightarrow> review_report \<Rightarrow> 'w
     \<Rightarrow> ('e drain_error + drain_result) \<times> review_report list \<times> 'w" where
  "drain_loop validate continue reviewer_ids batch_size 0 n rep w = (Inr (drain_stop rep n CSR_MAX_BATCHES), [], w)"
| "drain_loop validate continue reviewer_ids batch_size (Suc fuel) n rep w =
     (case validate_current_snapshot validate rep w of
        (Inl e, w1) \<Rightarrow> (Inl e, [], w1)
      | (Inr _, w1) \<Rightarrow>
          let pending_ids = pending_context_pack_ids rep reviewer_ids in
          if pending_ids = [] then (Inr (drain_stop rep n CSR_NO_ELIGIBLE_WORK), [], w1)
          else (case continue_checked validate continue rep (batch_request rep pending_ids reviewer_ids batch_size) w1 of
              (Inl e, w2) \<Rightarrow> (Inl e, [], w2)
            | (Inr rep', w2) \<Rightarrow>
                if coverage_is_complete rep' reviewer_ids
                then (Inr (drain_stop rep' (Suc n) CSR_COMPLETE), [rep'], w2)
                else if coverage_progress_key rep' reviewer_ids \<le> coverage_progress_key rep reviewer_ids
                then (Inr (drain_stop rep' (Suc n) CSR_NO_PROGRESS), [rep'], w2)
                else (case drain_loop validate continue reviewer_ids batch_size fuel (Suc n) rep' w2 of
                    (r, reps, w3) \<Rightarrow> (r, rep' # reps, w3))))"

definition continue_review_until_complete ::
  "('w, 'e) validator \<Rightarrow> ('w, 'e) continuation \<Rightarrow> review_report \<Rightarrow> review_config \<Rightarrow> string list option
     \<Rightarrow> int \<Rightarrow> int \<Rightarrow> 'w \<Rightarrow> ('e drain_error + drain_result) \<times> review_report list \<times> 'w" where
  "continue_review_until_complete validate continue rep config reviewer_ids batch_size max_batches w =
     (if batch_size \<le> 0 then (Inl Batch_Size_Not_Positive, [], w)
      else if max_batches \<le> 0 then (Inl Max_Batches_Not_Positive, [], w)
      else
        let current = rep\<lparr>rep_coverage_completion := None\<rparr> in
        case validate_current_snapshot validate current w of
          (Inl e, w1) \<Rightarrow> (Inl e, [], w1)
        | (Inr _, w1) \<Rightarrow>
            (case (if completion_scope_needs_rebase current config reviewer_ids
                   then continue_checked validate continue current (rebase_request reviewer_ids) w1
                   else (Inr current, w1)) of
               (Inl e, w2) \<Rightarrow> (Inl e, [], w2)
             | (Inr current', w2) \<Rightarrow>
                 if coverage_is_complete current' reviewer_ids
                 then (Inr (drain_stop current' 0 CSR_COMPLETE), [], w2)
                 else drain_loop validate continue reviewer_ids batch_size (nat max_batches) 0 current' w2))"

subsection \<open>What the loop returns\<close>

text \<open>The contract of a result: complete exactly when its report is, within the bound, one report
  per batch, and a stop reason that tells the truth.\<close>

definition strictly_grows :: "string list option \<Rightarrow> review_report list \<Rightarrow> bool" where
  "strictly_grows reviewer_ids reps \<longleftrightarrow>
     sorted_wrt (\<lambda>a b. coverage_progress_key a reviewer_ids < coverage_progress_key b reviewer_ids) reps"

definition batches_before_stop :: "coverage_stop_reason \<Rightarrow> review_report list \<Rightarrow> review_report list" where
  "batches_before_stop reason reps = (if reason \<in> {CSR_COMPLETE, CSR_NO_PROGRESS} then butlast reps else reps)"

definition drain_contract ::
  "string list option \<Rightarrow> nat \<Rightarrow> drain_result \<Rightarrow> review_report list \<Rightarrow> bool" where
  "drain_contract reviewer_ids bound res reps \<longleftrightarrow>
     drr_complete res = coverage_is_complete (drr_report res) reviewer_ids
     \<and> coverage_is_complete (drr_report res) reviewer_ids = (drr_stop_reason res = CSR_COMPLETE)
     \<and> length reps \<le> bound
     \<and> (reps \<noteq> [] \<longrightarrow> last reps = drr_report res)
     \<and> (drr_stop_reason res = CSR_NO_ELIGIBLE_WORK \<longrightarrow> pending_context_pack_ids (drr_report res) reviewer_ids = [])
     \<and> (drr_stop_reason res = CSR_MAX_BATCHES \<longrightarrow> length reps = bound)
     \<and> strictly_grows reviewer_ids (batches_before_stop (drr_stop_reason res) reps)"

lemma strictly_grows_Cons:
  "strictly_grows reviewer_ids (k # x # ys) \<longleftrightarrow>
     coverage_progress_key k reviewer_ids < coverage_progress_key x reviewer_ids \<and> strictly_grows reviewer_ids (x # ys)"
  unfolding strictly_grows_def by (auto dest: less_trans)

lemma batches_before_stop_Cons:
  "batches_before_stop reason (x # ys) =
     (if ys = [] \<and> reason \<in> {CSR_COMPLETE, CSR_NO_PROGRESS} then [] else x # batches_before_stop reason ys)"
  by (simp add: batches_before_stop_def)

lemma batches_before_stop_Nil [simp]: "batches_before_stop reason [] = []"
  by (simp add: batches_before_stop_def)

lemma strictly_grows_tl: "strictly_grows reviewer_ids (x # ys) \<Longrightarrow> strictly_grows reviewer_ids ys"
  by (simp add: strictly_grows_def)

lemma drain_contract_Cons:
  assumes "drain_contract reviewer_ids fuel res reps"
    and "strictly_grows reviewer_ids (r # batches_before_stop (drr_stop_reason res) reps)"
    and "reps \<noteq> [] \<or> drr_report res = r"
  shows "drain_contract reviewer_ids (Suc fuel) res (r # reps)"
proof -
  have "strictly_grows reviewer_ids (batches_before_stop (drr_stop_reason res) (r # reps))"
    using assms(2) by (simp add: batches_before_stop_Cons strictly_grows_def)
  with assms(1,3) show ?thesis by (simp add: drain_contract_def)
qed

lemma drain_loop_contract:
  assumes "drain_loop validate continue reviewer_ids batch_size fuel n rep w = (Inr res, reps, w')"
    and "\<not> coverage_is_complete rep reviewer_ids"
  shows "drain_contract reviewer_ids fuel res reps \<and> drr_batches res = n + length reps
    \<and> strictly_grows reviewer_ids (rep # batches_before_stop (drr_stop_reason res) reps)
    \<and> (reps = [] \<longrightarrow> drr_report res = rep)"
  using assms
proof (induction fuel arbitrary: n rep w res reps w')
  case 0
  then show ?case by (auto simp: drain_stop_def drain_contract_def strictly_grows_def)
next
  case (Suc fuel)
  let ?pending = "pending_context_pack_ids rep reviewer_ids"
  obtain v w1 where v: "validate_current_snapshot validate rep w = (v, w1)" by force
  with Suc.prems(1) obtain u where u: "v = Inr u" by (cases v) auto
  note step = Suc.prems(1) [unfolded drain_loop.simps v prod.case u sum.case Let_def]
  show ?case
  proof (cases "?pending = []")
    case True
    with step Suc.prems(2) show ?thesis
      by (auto simp: drain_stop_def drain_contract_def strictly_grows_def)
  next
    case pending: False
    obtain c w2 where c: "continue_checked validate continue rep (batch_request rep ?pending reviewer_ids batch_size) w1 = (c, w2)"
      by force
    with step pending obtain rep' where rep': "c = Inr rep'" by (cases c) auto
    note step = step [unfolded if_not_P [OF pending] c prod.case rep' sum.case]
    show ?thesis
    proof (cases "coverage_is_complete rep' reviewer_ids \<or>
        coverage_progress_key rep' reviewer_ids \<le> coverage_progress_key rep reviewer_ids")
      case True
      then obtain reason where "reason \<in> {CSR_COMPLETE, CSR_NO_PROGRESS}" "reps = [rep']"
        "res = drain_stop rep' (Suc n) reason" "(reason = CSR_COMPLETE) = coverage_is_complete rep' reviewer_ids"
        using step by (auto split: if_splits)
      then show ?thesis
        by (auto simp: drain_stop_def drain_contract_def strictly_grows_def batches_before_stop_def)
    next
      case False
      obtain r reps' w3 where rest: "drain_loop validate continue reviewer_ids batch_size fuel (Suc n) rep' w2 = (r, reps', w3)"
        using prod_cases3 by blast
      with step False have r: "r = Inr res" "reps = rep' # reps'" by auto
      have IH: "drain_contract reviewer_ids fuel res reps'" "drr_batches res = Suc n + length reps'"
        "strictly_grows reviewer_ids (rep' # batches_before_stop (drr_stop_reason res) reps')"
        "reps' = [] \<longrightarrow> drr_report res = rep'"
        using Suc.IH [OF rest [unfolded r(1)]] False by simp_all
      have "strictly_grows reviewer_ids (rep # batches_before_stop (drr_stop_reason res) (rep' # reps'))"
        using IH(3) False by (auto simp: batches_before_stop_Cons strictly_grows_Cons not_le strictly_grows_def)
      moreover have "drain_contract reviewer_ids (Suc fuel) res (rep' # reps')"
        using drain_contract_Cons [OF IH(1,3)] IH(4) by blast
      ultimately show ?thesis using IH(2) unfolding r(2) by simp
    qed
  qed
qed


subsection \<open>Draining ends the work\<close>

text \<open>A step that counts as progress: fewer pending packs, and no counter falls back.\<close>

definition advances :: "string list option \<Rightarrow> review_report \<Rightarrow> review_report \<Rightarrow> bool" where
  "advances reviewer_ids rep rep' \<longleftrightarrow>
     length (pending_context_pack_ids rep' reviewer_ids) \<le> length (pending_context_pack_ids rep reviewer_ids) - 1
     \<and> (let (a, b, c, _) = coverage_progress_key rep reviewer_ids;
            (a', b', c', _) = coverage_progress_key rep' reviewer_ids in a \<le> a' \<and> b \<le> b' \<and> c \<le> c')
     \<and> rep_input_snapshot rep' = rep_input_snapshot rep"

definition always_advances :: "('w, 'e) continuation \<Rightarrow> string list option \<Rightarrow> bool" where
  "always_advances continue reviewer_ids \<longleftrightarrow>
     (\<forall>rep rq w. \<exists>rep'. fst (continue rep rq w) = Inr rep' \<and> advances reviewer_ids rep rep')"

definition always_valid :: "('w, 'e) validator \<Rightarrow> bool" where
  "always_valid validate \<longleftrightarrow> (\<forall>rep w. fst (validate rep w) = Inr ())"

lemma advances_key:
  assumes "advances reviewer_ids rep rep'" "pending_context_pack_ids rep reviewer_ids \<noteq> []"
  shows "coverage_progress_key rep reviewer_ids < coverage_progress_key rep' reviewer_ids"
proof -
  have "length (pending_context_pack_ids rep' reviewer_ids) < length (pending_context_pack_ids rep reviewer_ids)"
    using assms by (cases "pending_context_pack_ids rep reviewer_ids") (auto simp: advances_def)
  with assms(1) show ?thesis
    by (auto simp: advances_def coverage_progress_key_def Let_def)
qed

lemma validate_current_ok:
  assumes "always_valid validate" "rep_input_snapshot rep \<noteq> None"
  shows "\<exists>w'. validate_current_snapshot validate rep w = (Inr (), w')"
proof -
  obtain r w' where "validate rep w = (r, w')" by force
  moreover from this have "r = Inr ()" using assms(1) by (metis always_valid_def fst_conv)
  ultimately show ?thesis using assms(2) by (simp add: validate_current_snapshot_def)
qed

lemma continue_checked_ok:
  assumes "always_valid validate" "always_advances continue reviewer_ids" "rep_input_snapshot rep \<noteq> None"
  shows "\<exists>rep' w'. continue_checked validate continue rep rq w = (Inr rep', w')
    \<and> advances reviewer_ids rep rep' \<and> rep_input_snapshot rep' \<noteq> None"
proof -
  obtain r w1 where c: "continue rep rq w = (r, w1)" by force
  then obtain rep' where rep': "r = Inr rep'" "advances reviewer_ids rep rep'"
    using assms(2) unfolding always_advances_def by (metis fst_conv)
  then have snap: "rep_input_snapshot rep' \<noteq> None" using assms(3) by (simp add: advances_def)
  with validate_current_ok [OF assms(1)] obtain w2 where "validate_current_snapshot validate rep' w1 = (Inr (), w2)"
    by blast
  with c rep' snap show ?thesis by (simp add: continue_checked_def)
qed

lemma drain_loop_ends:
  assumes "always_valid validate" "always_advances continue reviewer_ids"
    and "rep_input_snapshot rep \<noteq> None"
    and "length (pending_context_pack_ids rep reviewer_ids) < fuel"
  shows "\<exists>res reps w'. drain_loop validate continue reviewer_ids batch_size fuel n rep w = (Inr res, reps, w')
    \<and> drr_stop_reason res \<in> {CSR_COMPLETE, CSR_NO_ELIGIBLE_WORK}
    \<and> length reps \<le> length (pending_context_pack_ids rep reviewer_ids)"
  using assms(3,4)
proof (induction fuel arbitrary: n rep w)
  case (Suc fuel)
  let ?pending = "pending_context_pack_ids rep reviewer_ids"
  obtain w1 where v: "validate_current_snapshot validate rep w = (Inr (), w1)"
    using validate_current_ok [OF assms(1) Suc.prems(1)] by blast
  show ?case
  proof (cases "?pending = []")
    case True
    with v show ?thesis by (auto simp: drain_stop_def)
  next
    case False
    obtain rep' w2 where c: "continue_checked validate continue rep (batch_request rep ?pending reviewer_ids batch_size) w1 = (Inr rep', w2)"
      and adv: "advances reviewer_ids rep rep'" "rep_input_snapshot rep' \<noteq> None"
      using continue_checked_ok [OF assms(1,2) Suc.prems(1)] by blast
    have less: "length (pending_context_pack_ids rep' reviewer_ids) < length ?pending"
      using adv(1) False by (cases ?pending) (auto simp: advances_def)
    have key: "\<not> coverage_progress_key rep' reviewer_ids \<le> coverage_progress_key rep reviewer_ids"
      using advances_key [OF adv(1) False] by (simp only: not_le)
    obtain res reps w3 where "drain_loop validate continue reviewer_ids batch_size fuel (Suc n) rep' w2 = (Inr res, reps, w3)"
      "drr_stop_reason res \<in> {CSR_COMPLETE, CSR_NO_ELIGIBLE_WORK}"
      "length reps \<le> length (pending_context_pack_ids rep' reviewer_ids)"
      using Suc.IH [OF adv(2)] less Suc.prems(2) by fastforce
    with v c False key less show ?thesis
      by (cases "coverage_is_complete rep' reviewer_ids") (auto simp: drain_stop_def Let_def)
  qed
qed simp

lemma pending_completion_reset [simp]:
  "pending_context_pack_ids (rep\<lparr>rep_coverage_completion := c\<rparr>) reviewer_ids = pending_context_pack_ids rep reviewer_ids"
  by (simp add: pending_context_pack_ids_def pending_key_def [abs_def] order_by_pack_id_def)


subsection \<open>What a batch asks for\<close>

lemma set_pending:
  "set (pending_context_pack_ids rep reviewer_ids) = set (pending_set (rep_llm_coverage rep) reviewer_ids)"
  by (simp add: pending_context_pack_ids_def)

lemma matching_summaries_member:
  "r \<in> set (matching_summaries c ids p) \<Longrightarrow>
     p \<in> set (rcs_matching_context_pack_ids r) \<and> (\<exists>i\<in>set ids. dict_get (summaries_by_id c) i = Some r)"
  by (auto simp: matching_summaries_def map_filter_def)

lemma summaries_by_id_SomeD:
  "dict_get (summaries_by_id c) i = Some r \<Longrightarrow> rcs_reviewer_id r = i \<and> r \<in> set (cov_reviewers c)"
  using dict_of_SomeD [of rcs_reviewer_id id "cov_reviewers c" i r] by (auto simp: summaries_by_id_def)

text \<open>a batch asks for pending packs only, at least one, and forces a second review on pending
  high-risk packs that had a shallow one only. When it is narrowed to one reviewer, that reviewer
  is one of the requested ones and matches every pack of the batch, which has at most
  \<open>batch_size\<close> packs, all of them forced: no pack is upgraded by two reviewers.\<close>

theorem batch_request_eligible:
  assumes "pending_context_pack_ids rep reviewer_ids \<noteq> []" and "0 < batch_size"
  shows "let pending = pending_context_pack_ids rep reviewer_ids;
        rq = batch_request rep pending reviewer_ids batch_size;
        shallow = set (cov_shallow_only_high_risk_context_pack_ids (rep_llm_coverage rep))
    in crq_pack_ids rq \<noteq> [] \<and> set (crq_pack_ids rq) \<subseteq> set pending
      \<and> set (crq_force_review_pack_ids rq) = set (crq_pack_ids rq) \<inter> shallow
      \<and> crq_max_pack_reviews rq = Some batch_size
      \<and> (crq_reviewer_ids rq = reviewer_ids \<and> crq_pack_ids rq = pending
         \<or> (\<exists>ids r. reviewer_ids = Some ids \<and> rcs_reviewer_id r \<in> set ids
              \<and> crq_reviewer_ids rq = Some [rcs_reviewer_id r] \<and> r \<in> set (cov_reviewers (rep_llm_coverage rep))
              \<and> set (crq_pack_ids rq) \<subseteq> set (rcs_matching_context_pack_ids r) \<inter> shallow
              \<and> int (length (crq_pack_ids rq)) \<le> batch_size))"
proof -
  let ?pending = "pending_context_pack_ids rep reviewer_ids"
  let ?shallow = "cov_shallow_only_high_risk_context_pack_ids (rep_llm_coverage rep)"
  let ?force = "filter (\<lambda>p. p \<in> set ?shallow) ?pending"
  let ?up = "single_reviewer_depth_upgrade rep ?pending ?force reviewer_ids batch_size"
  let ?c = "rep_llm_coverage rep"
  show ?thesis
  proof (cases ?up)
    case None
    then show ?thesis using assms by (auto simp: batch_request_def Let_def)
  next
    case (Some sel)
    then obtain ids p where ids: "reviewer_ids = Some ids"
      and p: "find (\<lambda>p. p \<in> set ?force \<and> matching_summaries ?c ids p \<noteq> []
          \<and> list_all (\<lambda>r. p \<in> set (rcs_reviewed_context_pack_ids r)) (matching_summaries ?c ids p)) ?pending = Some p"
      and sel: "sel = (take (nat batch_size) (filter (\<lambda>q. q \<in> set ?force
          \<and> q \<in> set (rcs_matching_context_pack_ids (hd (matching_summaries ?c ids p)))) ?pending),
          [rcs_reviewer_id (hd (matching_summaries ?c ids p))])"
      by (auto simp: single_reviewer_depth_upgrade_def Let_def split: option.splits if_splits)
    let ?r = "hd (matching_summaries ?c ids p)"
    let ?cand = "filter (\<lambda>q. q \<in> set ?force \<and> q \<in> set (rcs_matching_context_pack_ids ?r)) ?pending"
    have p_in: "p \<in> set ?pending" "p \<in> set ?force" "matching_summaries ?c ids p \<noteq> []"
      using find_SomeD [OF p] by auto
    then have r: "p \<in> set (rcs_matching_context_pack_ids ?r)" "rcs_reviewer_id ?r \<in> set ids" "?r \<in> set (cov_reviewers ?c)"
      using matching_summaries_member [of ?r ?c ids p] summaries_by_id_SomeD [of ?c _ ?r] by (auto dest: hd_in_set)
    have "p \<in> set ?cand" using p_in r(1) by simp
    then have ne: "take (nat batch_size) ?cand \<noteq> []" using assms(2) by (metis empty_iff list.set(1) nat_0_iff not_le take_eq_Nil)
    have sub: "set (take (nat batch_size) ?cand) \<subseteq> set ?pending \<inter> set ?shallow \<inter> set (rcs_matching_context_pack_ids ?r)"
      using set_take_subset [of "nat batch_size" ?cand] by auto
    have rq: "batch_request rep ?pending reviewer_ids batch_size = \<lparr>crq_pack_ids = take (nat batch_size) ?cand,
        crq_force_review_pack_ids = filter (\<lambda>q. q \<in> set (take (nat batch_size) ?cand)) ?force,
        crq_max_pack_reviews = Some batch_size, crq_review_depth = Some RD_DEEP,
        crq_reviewer_ids = Some [rcs_reviewer_id ?r]\<rparr>"
      using Some by (simp add: batch_request_def sel Let_def)
    have "int (length (take (nat batch_size) ?cand)) \<le> batch_size" using assms(2) by simp
    then show ?thesis unfolding Let_def rq continuation_request.simps using ne sub r(2,3) ids by auto
  qed
qed

subsection \<open>A sample report\<close>

text \<open>A report with one pack that nobody has reviewed, and a continuation that settles everything.\<close>

definition sample_report :: review_report where
  "sample_report = \<lparr>
     rep_schema_version = ''1'',
     rep_project = \<lparr>pp_root = ''/repo'', pp_is_git_repo = True, pp_config_path = None,
       pp_detected_languages = [], pp_package_managers = [], pp_framework_hints = [], pp_ignored_patterns = []\<rparr>,
     rep_config = default_review_config,
     rep_diff = \<lparr>dsum_base = None, dsum_target_mode = TM_STAGED, dsum_files = [],
       dsum_stats = default_diff_stats, dsum_warnings = []\<rparr>,
     rep_input_snapshot = Some \<lparr>snap_schema_version = SV_REVIEW_INPUT_SNAPSHOT_V1,
       snap_target_mode = TM_STAGED, snap_base_ref = None, snap_head_sha = Some (replicate 40 (CHR ''a'')),
       snap_merge_base_sha = None, snap_range_start_sha = None, snap_diff_sha256 = replicate 64 (CHR ''0'')\<rparr>,
     rep_summary = default_report_summary, rep_llm_selection = None, rep_reviewer_selections = [],
     rep_reviewer_scope_ids = None, rep_stage_durations_ms = [],
     rep_llm_coverage = default_llm_coverage_summary\<lparr>cov_enabled := True, cov_total_context_packs := 1,
       cov_unreviewed_context_packs := 1, cov_unreviewed_context_pack_ids := [''a.py#1'']\<rparr>,
     rep_coverage_completion = None, rep_memory_summary = default_memory_summary, rep_rules = [],
     rep_analyzer_results = [], rep_context_packs = [], rep_findings = [], rep_verifications = [],
     rep_llm_runs = [], rep_generated_at = Datetime 0 (Some 0), rep_version = ''0''\<rparr>"

definition settle :: "review_report \<Rightarrow> review_report" where
  "settle rep = rep\<lparr>rep_llm_coverage := (rep_llm_coverage rep)\<lparr>cov_unreviewed_context_packs := 0,
     cov_unreviewed_context_pack_ids := [], cov_shallow_only_high_risk_context_pack_ids := [],
     cov_coverage_todos := [],
     cov_reviewers := map (\<lambda>r. r\<lparr>rcs_matching_context_pack_ids := []\<rparr>) (cov_reviewers (rep_llm_coverage rep))\<rparr>\<rparr>"

definition settling :: "(unit, unit) continuation" where
  "settling rep rq w = (Inr (settle rep), w)"

definition accepting :: "(unit, unit) validator" where
  "accepting rep w = (Inr (), w)"

lemma settle_fields:
  "cov_unreviewed_context_pack_ids (rep_llm_coverage (settle rep)) = []"
  "cov_shallow_only_high_risk_context_pack_ids (rep_llm_coverage (settle rep)) = []"
  "cov_coverage_todos (rep_llm_coverage (settle rep)) = []"
  "cov_reviewed_context_packs (rep_llm_coverage (settle rep)) = cov_reviewed_context_packs (rep_llm_coverage rep)"
  "cov_reviewed_high_risk_context_packs (rep_llm_coverage (settle rep))
     = cov_reviewed_high_risk_context_packs (rep_llm_coverage rep)"
  "rep_input_snapshot (settle rep) = rep_input_snapshot rep"
  "cov_reviewers (rep_llm_coverage (settle rep))
     = map (\<lambda>r. r\<lparr>rcs_matching_context_pack_ids := []\<rparr>) (cov_reviewers (rep_llm_coverage rep))"
  by (simp_all add: settle_def)

lemma targeted_summaries_None: "targeted_summaries c None = cov_reviewers c"
  by (simp add: targeted_summaries_def target_reviewers_def)

lemma pending_set_None:
  "pending_set c None = cov_unreviewed_context_pack_ids c @ cov_shallow_only_high_risk_context_pack_ids c
     @ concat (map (\<lambda>r. filter (\<lambda>p. p \<notin> set (rcs_reviewed_context_pack_ids r)) (rcs_matching_context_pack_ids r)) (cov_reviewers c))
     @ map todo_context_pack_id (filter (todo_pending c None) (cov_coverage_todos c))"
  by (simp add: pending_set_def targeted_summaries_None target_reviewers_def Let_def)

lemma settling_advances: "always_advances settling None"
proof -
  have "pending_set (rep_llm_coverage (settle rep)) None = []" for rep
    by (simp add: pending_set_None settle_fields)
  then have "pending_context_pack_ids (settle rep) None = []" for rep
    by (simp add: pending_context_pack_ids_def sorted_set_def)
  then have "advances None rep (settle rep)" for rep
    by (simp add: advances_def coverage_progress_key_def targeted_summaries_None settle_fields comp_def Let_def)
  then show ?thesis by (simp add: always_advances_def settling_def)
qed



lemma batch_request_eligible_witness:
  "crq_pack_ids (batch_request sample_report (pending_context_pack_ids sample_report None) None 8) \<noteq> []"
proof -
  have "pending_context_pack_ids sample_report None \<noteq> []" by code_simp
  from batch_request_eligible [OF this, of 8] show ?thesis unfolding Let_def by (simp only: simp_thms)
qed

end
