(* ===== verification/Routing.thy ===== *)
theory Routing
  imports Model_Finding
begin

section \<open>Routing a pack or a finding to a provider\<close>

text \<open>
  \<open>src/apex_ray/llm/routing.py\<close>: which provider, model and profile review a pack or verify a
  finding, and why. A route is the resolved configuration, the profile it came from and the reason.
  A profile may carry API settings; they are merged over the current ones and validated again.

  Parameters: \<open>endpoint_ok\<close>, the endpoint check of the API settings (a URL and whether plain HTTP on
  the loopback interface is allowed); \<open>set_fields\<close>, which API fields the profile of a name sets
  explicitly (pydantic's \<open>exclude_unset\<close>), by their names in the class.
\<close>

type_synonym route = "llm_config \<times> string option \<times> string"

datatype routing_error =
    Invalid_API_Settings llmapi_config
  | Unknown_Pack string

text \<open>Python truth of an optional text.\<close>

fun text_set :: "string option \<Rightarrow> bool" where
  "text_set None = False"
| "text_set (Some s) = (s \<noteq> [])"

subsection \<open>API settings\<close>

definition http_field_char :: "char \<Rightarrow> bool" where
  "http_field_char c \<longleftrightarrow> c \<in> set ''!#$%&*+-.^_`|~'' \<or> c = CHR 0x27
     \<or> of_char c < (128 :: nat) \<and> py_alnum c"

text \<open>\<open>env_name.replace("_", "a").isalnum() and not env_name[0].isdigit()\<close>, for a non-empty name.\<close>

definition header_env_name_ok :: "string \<Rightarrow> bool" where
  "header_env_name_ok name \<longleftrightarrow>
     name \<noteq> [] \<and> list_all py_alnum (replace_char (CHR ''_'') (CHR ''a'') name) \<and> \<not> py_isdigit [hd name]"

definition validate_endpoint_and_headers :: "(string \<Rightarrow> bool \<Rightarrow> bool) \<Rightarrow> llmapi_config \<Rightarrow> bool" where
  "validate_endpoint_and_headers endpoint_ok a \<longleftrightarrow>
     \<not> (text_set (api_base_url a) \<and> text_set (api_base_url_env a))
     \<and> (case api_base_url a of None \<Rightarrow> True
        | Some url \<Rightarrow> url = [] \<or> endpoint_ok url (api_allow_insecure_loopback_http a))
     \<and> list_all (\<lambda>(header, name). header \<noteq> [] \<and> list_all http_field_char header \<and> header_env_name_ok name)
         (api_headers_from_env a)"

definition chosen_field :: "string list \<Rightarrow> string \<Rightarrow> 'a \<Rightarrow> 'a \<Rightarrow> 'a" where
  "chosen_field given name over base = (if name \<in> set given then over else base)"

definition merged_api :: "string list \<Rightarrow> llmapi_config \<Rightarrow> llmapi_config \<Rightarrow> llmapi_config" where
  "merged_api given base over = \<lparr>
     api_protocol = chosen_field given ''protocol'' (api_protocol over) (api_protocol base),
     api_structured_output =
       chosen_field given ''structured_output'' (api_structured_output over) (api_structured_output base),
     api_base_url = chosen_field given ''base_url'' (api_base_url over) (api_base_url base),
     api_base_url_env = chosen_field given ''base_url_env'' (api_base_url_env over) (api_base_url_env base),
     api_api_key_env = chosen_field given ''api_key_env'' (api_api_key_env over) (api_api_key_env base),
     api_allowed_hosts_env =
       chosen_field given ''allowed_hosts_env'' (api_allowed_hosts_env over) (api_allowed_hosts_env base),
     api_headers_from_env =
       chosen_field given ''headers_from_env'' (api_headers_from_env over) (api_headers_from_env base),
     api_api_version = chosen_field given ''api_version'' (api_api_version over) (api_api_version base),
     api_max_output_tokens =
       chosen_field given ''max_output_tokens'' (api_max_output_tokens over) (api_max_output_tokens base),
     api_max_retries = chosen_field given ''max_retries'' (api_max_retries over) (api_max_retries base),
     api_retry_backoff_seconds =
       chosen_field given ''retry_backoff_seconds'' (api_retry_backoff_seconds over) (api_retry_backoff_seconds base),
     api_retry_max_seconds =
       chosen_field given ''retry_max_seconds'' (api_retry_max_seconds over) (api_retry_max_seconds base),
     api_use_system_proxy =
       chosen_field given ''use_system_proxy'' (api_use_system_proxy over) (api_use_system_proxy base),
     api_allow_insecure_loopback_http = chosen_field given ''allow_insecure_loopback_http''
       (api_allow_insecure_loopback_http over) (api_allow_insecure_loopback_http base)\<rparr>"

subsection \<open>Profiles and models\<close>

definition override_field :: "'a option \<Rightarrow> 'a option \<Rightarrow> 'a option" where
  "override_field over current = (case over of None \<Rightarrow> current | Some x \<Rightarrow> Some x)"

definition profile_settings :: "llm_profile \<Rightarrow> llm_config \<Rightarrow> llm_config" where
  "profile_settings p c =
     (let provider = (case pf_provider p of None \<Rightarrow> lc_provider c | Some q \<Rightarrow> q)
      in c\<lparr>lc_provider := provider,
           lc_api := (if provider \<noteq> lc_provider c then default_llmapi_config else lc_api c),
           lc_model := override_field (pf_model p) (lc_model c),
           lc_effort := override_field (pf_effort p) (lc_effort c),
           lc_timeout_seconds := (case pf_timeout_seconds p of None \<Rightarrow> lc_timeout_seconds c | Some t \<Rightarrow> t),
           lc_codex_path := (case pf_codex_path p of None \<Rightarrow> lc_codex_path c | Some x \<Rightarrow> x),
           lc_claude_path := (case pf_claude_path p of None \<Rightarrow> lc_claude_path c | Some x \<Rightarrow> x)\<rparr>)"

definition config_for_profile_or_model ::
  "(string \<Rightarrow> bool \<Rightarrow> bool) \<Rightarrow> (string \<Rightarrow> string list) \<Rightarrow> llm_config \<Rightarrow> string \<Rightarrow> string
     \<Rightarrow> routing_error + route" where
  "config_for_profile_or_model endpoint_ok set_fields config name reason =
     (case dict_get (lc_profiles config) name of
        None \<Rightarrow> Inr (config\<lparr>lc_model := Some name\<rparr>, None, reason)
      | Some p \<Rightarrow>
          (let resolved = profile_settings p config in
           case pf_api p of
             None \<Rightarrow> Inr (resolved, Some name, reason)
           | Some over \<Rightarrow>
               (let api = merged_api (set_fields name) (lc_api resolved) over in
                if valid_llmapi_config api \<and> validate_endpoint_and_headers endpoint_ok api
                then Inr (resolved\<lparr>lc_api := api\<rparr>, Some name, reason)
                else Inl (Invalid_API_Settings api))))"

subsection \<open>Conditions\<close>

definition routing_severity_rank :: "finding_severity \<Rightarrow> int" where
  "routing_severity_rank s = (case s of FS_CRITICAL \<Rightarrow> 4 | FS_HIGH \<Rightarrow> 3 | FS_MEDIUM \<Rightarrow> 2 | FS_LOW \<Rightarrow> 1)"

definition rule_model_override :: "(rule_match \<Rightarrow> string option) \<Rightarrow> rule_match list \<Rightarrow> string option" where
  "rule_model_override field rules =
     (case sort_desc (\<lambda>(i, r). (routing_severity_rank (rm_severity r), rm_mode r = RM_STRICT, - int i))
        (filter (\<lambda>(i, r). text_set (field r)) (indexed rules)) of
        [] \<Rightarrow> None
      | (i, r) # _ \<Rightarrow> field r)"

definition matched_texts :: "string list \<Rightarrow> string set \<Rightarrow> string list" where
  "matched_texts wanted present = sort (filter (\<lambda>s. s \<in> present) wanted)"

definition routing_condition_reason ::
  "llm_routing_condition \<Rightarrow> context_pack \<Rightarrow> finding option \<Rightarrow> string option" where
  "routing_condition_reason w p finding =
     (let risks = matched_texts (rcond_risk w) (rs_kind ` set (cp_risk_signals p));
          severities = matched_texts (map finding_severity_value (rcond_rule_severity w))
            ((finding_severity_value \<circ> rm_severity) ` set (cp_rule_matches p))
      in if cp_file_kind p \<in> set (rcond_exclude_file_kind w) then None
         else if cp_file_kind p \<in> set (rcond_file_kind w)
           then Some (''file_kind:'' @ file_kind_value (cp_file_kind p))
         else case map_option (\<lambda>f. (f, fi_severity f \<in> set (rcond_finding_severity w),
                 fi_confidence f \<in> set (rcond_finding_confidence w))) finding of
           Some (f, True, _) \<Rightarrow> Some (''finding_severity:'' @ finding_severity_value (fi_severity f))
         | Some (f, False, True) \<Rightarrow> Some (''finding_confidence:'' @ finding_confidence_value (fi_confidence f))
         | _ \<Rightarrow>
           (if risks \<noteq> [] then Some (''risk:'' @ hd risks)
            else if severities \<noteq> [] then Some (''rule_severity:'' @ hd severities)
            else if rcond_strict_rule w \<and> list_ex (\<lambda>r. rm_mode r = RM_STRICT) (cp_rule_matches p)
              then Some ''strict_rule''
            else if rcond_pack_truncated w \<and> st_truncated (cp_stats p) then Some ''pack_truncated''
            else case rcond_min_pack_chars w of
                Some n \<Rightarrow> if n \<le> st_estimated_chars (cp_stats p) then Some (''min_pack_chars:'' @ str_int n) else None
              | None \<Rightarrow> None))"

fun first_reason :: "llm_routing_condition \<Rightarrow> context_pack \<Rightarrow> finding list \<Rightarrow> string option" where
  "first_reason w p [] = None"
| "first_reason w p (f # fs) =
     (case routing_condition_reason w p (Some f) of None \<Rightarrow> first_reason w p fs | Some r \<Rightarrow> Some r)"

subsection \<open>The route of a review and of a verification\<close>

fun shallow_route :: "route \<Rightarrow> route" where
  "shallow_route (c, profile, reason) = (c, profile, ''shallow:'' @ reason)"

definition review_config_for_pack ::
  "(string \<Rightarrow> bool \<Rightarrow> bool) \<Rightarrow> (string \<Rightarrow> string list) \<Rightarrow> llm_config \<Rightarrow> context_pack \<Rightarrow> routing_error + route" where
  "review_config_for_pack endpoint_ok set_fields config p =
     (let routing = lc_routing config;
          by_profile = (\<lambda>name reason. config_for_profile_or_model endpoint_ok set_fields config name reason);
          rule = rule_model_override rm_model (cp_rule_matches p);
          escalate = routing_condition_reason (rtg_escalate_review_when routing) p None;
          review = rtg_review_profile routing;
          escalated = rtg_escalated_review_profile routing
      in if lc_review_depth config = RD_SHALLOW then
           (if text_set review
            then map_sum id shallow_route
              (by_profile (the review) (''profile:'' @ the review))
            else Inr (config, None, ''shallow:default''))
         else if text_set rule then by_profile (the rule) (''rule:'' @ the rule)
         else if text_set escalated \<and> text_set escalate
           then by_profile (the escalated) (''escalated:'' @ the escalated @ '':'' @ the escalate)
         else if text_set review then by_profile (the review) (''profile:'' @ the review)
         else Inr (config, None, ''default''))"

definition fallback_review_config_after_error ::
  "(string \<Rightarrow> bool \<Rightarrow> bool) \<Rightarrow> (string \<Rightarrow> string list) \<Rightarrow> llm_config \<Rightarrow> string option \<Rightarrow> string
     \<Rightarrow> routing_error + route option" where
  "fallback_review_config_after_error endpoint_ok set_fields config failed_profile status =
     (let fallback = rtg_escalated_review_profile (lc_routing config) in
      if status \<noteq> ''failed_quota'' \<or> \<not> text_set fallback \<or> fallback = failed_profile then Inr None
      else map_sum id Some (config_for_profile_or_model endpoint_ok set_fields config (the fallback)
        (''fallback:'' @ the fallback @ '':after_'' @ status)))"

definition verification_config_for_findings ::
  "(string \<Rightarrow> bool \<Rightarrow> bool) \<Rightarrow> (string \<Rightarrow> string list) \<Rightarrow> llm_config \<Rightarrow> finding list \<Rightarrow> context_pack
     \<Rightarrow> routing_error + route" where
  "verification_config_for_findings endpoint_ok set_fields config findings p =
     (let routing = lc_routing config;
          by_profile = (\<lambda>name reason. config_for_profile_or_model endpoint_ok set_fields config name reason);
          rule = rule_model_override rm_verify (cp_rule_matches p);
          escalate = first_reason (rtg_escalate_verify_when routing) p findings;
          verify = rtg_verify_profile routing;
          escalated = rtg_escalated_verify_profile routing
      in if text_set rule then by_profile (the rule) (''rule-verify:'' @ the rule)
         else if text_set escalated \<and> text_set escalate
           then by_profile (the escalated) (''escalated-verify:'' @ the escalated @ '':'' @ the escalate)
         else if text_set verify then by_profile (the verify) (''profile:'' @ the verify)
         else Inr (config, None, ''default''))"

definition verification_config_for_finding ::
  "(string \<Rightarrow> bool \<Rightarrow> bool) \<Rightarrow> (string \<Rightarrow> string list) \<Rightarrow> llm_config \<Rightarrow> finding \<Rightarrow> context_pack
     \<Rightarrow> routing_error + route" where
  "verification_config_for_finding endpoint_ok set_fields config f p =
     verification_config_for_findings endpoint_ok set_fields config [f] p"

type_synonym verification_route_id =
  "string \<times> string option \<times> string option \<times> string option \<times> string \<times> string \<times> int \<times> string option \<times> string"

fun verification_route_key :: "route \<Rightarrow> verification_route_id" where
  "verification_route_key (c, profile, reason) =
     (llm_provider_name_value (lc_provider c), lc_model c, map_option llm_reasoning_effort_value (lc_effort c),
      profile, lc_codex_path c, lc_claude_path c, lc_timeout_seconds c, lc_cache_dir c, reason)"

subsection \<open>Verification groups\<close>

type_synonym route_groups = "(verification_route_id \<times> route \<times> (nat \<times> finding) list) list"

definition add_to_group :: "route \<Rightarrow> nat \<times> finding \<Rightarrow> route_groups \<Rightarrow> route_groups" where
  "add_to_group r item groups =
     (let (r0, items) = dict_get_or groups (verification_route_key r) (r, [])
      in dict_set (verification_route_key r) (r0, items @ [item]) groups)"

fun group_findings ::
  "(string \<Rightarrow> bool \<Rightarrow> bool) \<Rightarrow> (string \<Rightarrow> string list) \<Rightarrow> llm_config \<Rightarrow> context_pack \<Rightarrow> (nat \<times> finding) list
     \<Rightarrow> route_groups \<Rightarrow> routing_error + route_groups" where
  "group_findings endpoint_ok set_fields config p [] groups = Inr groups"
| "group_findings endpoint_ok set_fields config p (item # items) groups =
     (case verification_config_for_finding endpoint_ok set_fields config (snd item) p of
        Inl e \<Rightarrow> Inl e
      | Inr r \<Rightarrow> group_findings endpoint_ok set_fields config p items (add_to_group r item groups))"

type_synonym verification_group = "string \<times> (nat \<times> finding) list \<times> route"

fun verification_groups_by_route ::
  "(string \<Rightarrow> bool \<Rightarrow> bool) \<Rightarrow> (string \<Rightarrow> string list) \<Rightarrow> (string \<times> (nat \<times> finding) list) list
     \<Rightarrow> (string \<times> context_pack) list \<Rightarrow> llm_config \<Rightarrow> routing_error + verification_group list" where
  "verification_groups_by_route endpoint_ok set_fields [] packs config = Inr []"
| "verification_groups_by_route endpoint_ok set_fields ((pack_id, items) # rest) packs config =
     (case dict_get packs pack_id of
        None \<Rightarrow> Inl (Unknown_Pack pack_id)
      | Some p \<Rightarrow>
          (case group_findings endpoint_ok set_fields config p items [] of
             Inl e \<Rightarrow> Inl e
           | Inr groups \<Rightarrow>
               map_sum id (\<lambda>gs. map (\<lambda>(k, r, fs). (pack_id, fs, r)) groups @ gs)
                 (verification_groups_by_route endpoint_ok set_fields rest packs config)))"


subsection \<open>What a route keeps\<close>

text \<open>The settings that decide how much is reviewed and how: no profile touches them.\<close>

definition same_policy :: "llm_config \<Rightarrow> llm_config \<Rightarrow> bool" where
  "same_policy c d \<longleftrightarrow>
     d\<lparr>lc_provider := lc_provider c, lc_model := lc_model c, lc_effort := lc_effort c,
       lc_timeout_seconds := lc_timeout_seconds c, lc_codex_path := lc_codex_path c,
       lc_claude_path := lc_claude_path c, lc_api := lc_api c\<rparr> = c"

lemma same_policy_refl [simp]: "same_policy c c"
  by (simp add: same_policy_def)

lemma same_policy_model [simp]: "same_policy c (c\<lparr>lc_model := m\<rparr>)"
  by (simp add: same_policy_def)

lemma same_policy_profile [simp]:
  "same_policy c (profile_settings p c)" "same_policy c ((profile_settings p c)\<lparr>lc_api := a\<rparr>)"
  by (simp_all add: same_policy_def profile_settings_def Let_def)

lemma profile_settings_valid:
  assumes "valid_llm_config c" and "valid_llm_profile p"
  shows "valid_llm_config (profile_settings p c)"
  using assms
  by (simp add: profile_settings_def valid_llm_config_def valid_llm_profile_def Let_def
      default_llmapi_config_def valid_llmapi_config_def env_name_ok_def letter_or_underscore_def
      split: option.splits)

lemma profile_of_valid:
  "\<lbrakk>valid_llm_config c; dict_get (lc_profiles c) name = Some p\<rbrakk> \<Longrightarrow> valid_llm_profile p"
  by (auto simp: valid_llm_config_def list_all_iff dest!: map_of_SomeD)

lemma config_for_profile_valid:
  assumes "valid_llm_config c" and "config_for_profile_or_model endpoint_ok set_fields c name reason = Inr (d, profile, r)"
  shows "valid_llm_config d \<and> same_policy c d"
proof (cases "dict_get (lc_profiles c) name")
  case None
  with assms show ?thesis
    by (auto simp: config_for_profile_or_model_def valid_llm_config_def)
next
  case (Some p)
  have valid: "valid_llm_config (profile_settings p c)"
    by (rule profile_settings_valid [OF assms(1) profile_of_valid [OF assms(1) Some]])
  then have "valid_llmapi_config a \<Longrightarrow> valid_llm_config ((profile_settings p c)\<lparr>lc_api := a\<rparr>)" for a
    by (simp add: valid_llm_config_def)
  with valid assms(2) Some show ?thesis
    by (auto simp: config_for_profile_or_model_def Let_def split: option.splits if_splits)
qed

lemma config_for_profile_policy:
  assumes "config_for_profile_or_model endpoint_ok set_fields c name reason = Inr (d, profile, r)"
  shows "same_policy c d"
  using assms unfolding config_for_profile_or_model_def
  by (auto simp: Let_def split: option.splits if_splits)

text \<open>What the profile name and the model of a route determine.\<close>

lemma config_for_profile_determined:
  assumes "config_for_profile_or_model endpoint_ok set_fields c name reason = Inr (d, profile, r)"
  shows "profile = None \<and> d = c\<lparr>lc_model := Some name\<rparr>
    \<or> profile = Some name \<and> config_for_profile_or_model endpoint_ok set_fields c name [] = Inr (d, Some name, [])"
  using assms
  by (auto simp: config_for_profile_or_model_def Let_def split: option.splits if_splits)


lemma verification_route_determined:
  assumes "verification_config_for_findings endpoint_ok set_fields c fs p = Inr (d, profile, r)"
  shows "profile = None \<and> d = c\<lparr>lc_model := lc_model d\<rparr>
    \<or> (\<exists>name. profile = Some name \<and> config_for_profile_or_model endpoint_ok set_fields c name [] = Inr (d, Some name, []))"
proof -
  have "(d, profile) = (c, None) \<or>
    (\<exists>name reason. config_for_profile_or_model endpoint_ok set_fields c name reason = Inr (d, profile, r))"
    using assms unfolding verification_config_for_findings_def Let_def by (simp split: if_splits) blast+
  then consider "d = c" "profile = None"
    | name reason where "config_for_profile_or_model endpoint_ok set_fields c name reason = Inr (d, profile, r)"
    by blast
  then show ?thesis
  proof cases
    case 2
    from config_for_profile_determined [OF this] show ?thesis
    proof (elim disjE conjE)
      assume "profile = None" and d: "d = c\<lparr>lc_model := Some name\<rparr>"
      moreover have "d = c\<lparr>lc_model := lc_model d\<rparr>" unfolding d by simp
      ultimately show ?thesis by blast
    qed blast
  qed simp
qed

lemma same_key_same_route:
  assumes "verification_config_for_findings endpoint_ok set_fields c fs p = Inr r1"
    and "verification_config_for_findings endpoint_ok set_fields c gs p = Inr r2"
    and "verification_route_key r1 = verification_route_key r2"
  shows "r1 = r2"
proof -
  obtain d1 pr1 re1 d2 pr2 re2 where r: "r1 = (d1, pr1, re1)" "r2 = (d2, pr2, re2)"
    by (metis prod_cases3)
  with assms(3) have same: "lc_model d1 = lc_model d2" "pr1 = pr2" "re1 = re2" by simp_all
  from verification_route_determined [OF assms(1) [unfolded r]]
    verification_route_determined [OF assms(2) [unfolded r]]
  have "d1 = d2" by (auto simp: same)
  with r same show ?thesis by simp
qed

lemma shallow_route_Inr [simp]:
  "map_sum id shallow_route x = Inr (d, profile, r)
     \<longleftrightarrow> (\<exists>reason. x = Inr (d, profile, reason) \<and> r = ''shallow:'' @ reason)"
  by (auto simp: map_sum_eq_Inr)



text \<open>A profile for another provider starts from the default API settings: the endpoint, the key
  variable and the headers configured for the first provider are never sent to the second.\<close>

theorem provider_change_drops_api_settings:
  assumes "dict_get (lc_profiles c) name = Some p" and "pf_provider p = Some q" and "q \<noteq> lc_provider c"
    and "config_for_profile_or_model endpoint_ok set_fields c name reason = Inr (d, profile, r)"
  shows "lc_api d = (case pf_api p of None \<Rightarrow> default_llmapi_config
    | Some over \<Rightarrow> merged_api (set_fields name) default_llmapi_config over)"
  using assms
  by (auto simp: config_for_profile_or_model_def profile_settings_def Let_def split: option.splits if_splits)

subsection \<open>The groups\<close>

definition group_ok ::
  "(string \<Rightarrow> bool \<Rightarrow> bool) \<Rightarrow> (string \<Rightarrow> string list) \<Rightarrow> llm_config \<Rightarrow> context_pack
     \<Rightarrow> verification_route_id \<times> route \<times> (nat \<times> finding) list \<Rightarrow> bool" where
  "group_ok endpoint_ok set_fields c p g \<longleftrightarrow>
     (let (k, r, items) = g in k = verification_route_key r \<and> items \<noteq> []
       \<and> list_all (\<lambda>item. verification_config_for_finding endpoint_ok set_fields c (snd item) p = Inr r) items)"

lemma add_to_group_mset:
  "mset (concat (map (\<lambda>g. snd (snd g)) (add_to_group r item groups)))
     = add_mset item (mset (concat (map (\<lambda>g. snd (snd g)) groups)))"
proof -
  define k where "k = verification_route_key r"
  have upd: "mset (concat (map (\<lambda>g. snd (snd g)) (dict_set k (r0, items @ [item]) groups)))
      = add_mset item (mset (concat (map (\<lambda>g. snd (snd g)) groups)))"
    if "dict_get_or groups k (r, []) = (r0, items)" for r0 items
    using that
  proof (induction groups)
    case Nil
    then show ?case by (simp add: dict_get_or_def)
  next
    case (Cons g groups)
    then show ?case by (cases g) (auto simp: dict_get_or_def)
  qed
  show ?thesis
    unfolding add_to_group_def k_def [symmetric] by (auto simp: upd split: prod.split)
qed

lemma add_to_group_ok:
  assumes "list_all (group_ok endpoint_ok set_fields c p) groups"
    and r: "verification_config_for_finding endpoint_ok set_fields c (snd item) p = Inr r"
  shows "list_all (group_ok endpoint_ok set_fields c p) (add_to_group r item groups)"
proof -
  define k where "k = verification_route_key r"
  obtain r0 items where cur: "dict_get_or groups k (r, []) = (r0, items)" by fastforce
  have "group_ok endpoint_ok set_fields c p (k, r0, items @ [item])"
  proof (cases "dict_get groups k")
    case None
    with cur r show ?thesis by (auto simp: dict_get_or_def group_ok_def k_def)
  next
    case (Some v)
    with cur have "(k, r0, items) \<in> set groups" by (auto simp: dict_get_or_def dest: map_of_SomeD)
    with assms(1) have old: "group_ok endpoint_ok set_fields c p (k, r0, items)" by (auto simp: list_all_iff)
    then obtain item0 where "item0 \<in> set items" and
      "verification_config_for_finding endpoint_ok set_fields c (snd item0) p = Inr r0"
      by (cases items) (auto simp: group_ok_def)
    moreover have "verification_route_key r0 = verification_route_key r"
      using old by (simp add: group_ok_def k_def)
    ultimately have "r0 = r"
      using r same_key_same_route unfolding verification_config_for_finding_def by blast
    with old r show ?thesis by (auto simp: group_ok_def)
  qed
  then show ?thesis
    using assms(1) cur
    by (auto simp: add_to_group_def k_def [symmetric] list_all_iff dest!: dict_set_entries)
qed


lemma group_findings_spec:
  assumes "group_findings endpoint_ok set_fields c p items groups = Inr groups'"
    and "list_all (group_ok endpoint_ok set_fields c p) groups" and "distinct (map fst groups)"
  shows "list_all (group_ok endpoint_ok set_fields c p) groups' \<and> distinct (map fst groups')
    \<and> mset (concat (map (\<lambda>g. snd (snd g)) groups')) = mset items + mset (concat (map (\<lambda>g. snd (snd g)) groups))"
  using assms
proof (induction items arbitrary: groups)
  case (Cons item items)
  from Cons.prems(1) obtain r where r: "verification_config_for_finding endpoint_ok set_fields c (snd item) p = Inr r"
    and rest: "group_findings endpoint_ok set_fields c p items (add_to_group r item groups) = Inr groups'"
    by (simp split: sum.splits)
  have "distinct (map fst (add_to_group r item groups))"
    using Cons.prems(3) by (simp add: add_to_group_def split: prod.split)
  from Cons.IH [OF rest add_to_group_ok [where item = item, OF Cons.prems(2) r] this] show ?case
    by (simp add: add_to_group_mset)
qed simp

definition sound_group ::
  "(string \<Rightarrow> bool \<Rightarrow> bool) \<Rightarrow> (string \<Rightarrow> string list) \<Rightarrow> llm_config \<Rightarrow> (string \<times> context_pack) list
     \<Rightarrow> verification_group \<Rightarrow> bool" where
  "sound_group endpoint_ok set_fields c packs g =
     (let (pack_id, items, r) = g in items \<noteq> [] \<and>
       (case dict_get packs pack_id of None \<Rightarrow> False
        | Some p \<Rightarrow> list_all (\<lambda>(_, f). verification_config_for_finding endpoint_ok set_fields c f p = Inr r) items))"

definition group_of :: "string \<Rightarrow> verification_route_id \<times> route \<times> (nat \<times> finding) list \<Rightarrow> verification_group" where
  "group_of pack_id g = (pack_id, snd (snd g), fst (snd g))"

definition group_key :: "verification_group \<Rightarrow> string \<times> verification_route_id" where
  "group_key g = (fst g, verification_route_key (snd (snd g)))"

lemma group_of_ok:
  assumes "group_ok endpoint_ok set_fields c p g" and "dict_get packs pack_id = Some p"
  shows "sound_group endpoint_ok set_fields c packs (group_of pack_id g) \<and> group_key (group_of pack_id g) = (pack_id, fst g)"
  using assms by (cases g) (auto simp: sound_group_def group_of_def group_key_def group_ok_def list_all_iff)

lemma verification_groups_Cons:
  assumes "verification_groups_by_route endpoint_ok set_fields ((pack_id, items) # by_pack) packs c = Inr groups"
  obtains p gs rest where "dict_get packs pack_id = Some p"
    and "group_findings endpoint_ok set_fields c p items [] = Inr gs"
    and "verification_groups_by_route endpoint_ok set_fields by_pack packs c = Inr rest"
    and "groups = map (group_of pack_id) gs @ rest"
proof -
  have "(\<lambda>(k, r, fs). (pack_id, fs, r)) = group_of pack_id"
    by (auto simp: group_of_def)
  with assms that show ?thesis
    by (simp add: map_sum_eq_Inr split: option.splits sum.splits) blast
qed

lemma verification_groups_facts:
  assumes "verification_groups_by_route endpoint_ok set_fields by_pack packs c = Inr groups"
  shows "mset (concat (map (fst \<circ> snd) groups)) = mset (concat (map snd by_pack))
    \<and> list_all (sound_group endpoint_ok set_fields c packs) groups
    \<and> fst ` set groups \<subseteq> fst ` set by_pack
    \<and> (distinct (map fst by_pack) \<longrightarrow> distinct (map group_key groups))"
  using assms
proof (induction by_pack arbitrary: groups)
  case (Cons entry by_pack)
  obtain pack_id items where entry: "entry = (pack_id, items)" by fastforce
  from Cons.prems [unfolded entry] obtain p gs rest where p: "dict_get packs pack_id = Some p"
    and gs: "group_findings endpoint_ok set_fields c p items [] = Inr gs"
    and rest: "verification_groups_by_route endpoint_ok set_fields by_pack packs c = Inr rest"
    and groups: "groups = map (group_of pack_id) gs @ rest"
    by (rule verification_groups_Cons)
  from group_findings_spec [OF gs] have ok: "list_all (group_ok endpoint_ok set_fields c p) gs"
    and keys: "distinct (map fst gs)" and items: "mset (concat (map (\<lambda>g. snd (snd g)) gs)) = mset items"
    by simp_all
  from ok group_of_ok [OF _ p] have sound: "list_all (sound_group endpoint_ok set_fields c packs) (map (group_of pack_id) gs)"
    and key: "map group_key (map (group_of pack_id) gs) = map (Pair pack_id \<circ> fst) gs"
    by (auto simp: list_all_iff)
  have flat: "map (fst \<circ> snd) (map (group_of pack_id) gs) = map (\<lambda>g. snd (snd g)) gs"
    by (simp add: group_of_def)
  have only: "fst ` set (map (group_of pack_id) gs) \<subseteq> {pack_id}"
    by (auto simp: group_of_def)
  note IH = Cons.IH [OF rest]
  have "distinct (map group_key groups)" if "distinct (map fst (entry # by_pack))"
  proof -
    have "group_key ` set rest \<subseteq> (fst ` set by_pack) \<times> UNIV"
      using IH by (auto simp: group_key_def)
    moreover have "distinct (map (Pair pack_id \<circ> fst) gs)"
      using keys by (simp add: distinct_map inj_on_def comp_def)
    ultimately show ?thesis
      using that IH unfolding groups map_append key distinct_append by (auto simp: entry)
  qed
  moreover have "mset (concat (map (fst \<circ> snd) groups)) = mset (concat (map snd (entry # by_pack)))"
    using IH items unfolding groups map_append flat by (simp add: entry comp_def)
  moreover have "fst ` set groups \<subseteq> fst ` set (entry # by_pack)"
    using IH only unfolding groups by (auto simp: entry)
  moreover have "list_all (sound_group endpoint_ok set_fields c packs) groups"
    using IH sound unfolding groups by simp
  ultimately show ?case by blast
qed simp

text \<open>Findings are verified in groups. Every finding is in exactly one group; the route of the group is
  the route the finding has on its own, so grouping changes no routing decision; and two groups of one
  pack have different routes.\<close>

theorem verification_groups_keep_routes:
  assumes "verification_groups_by_route endpoint_ok set_fields by_pack packs c = Inr groups"
    and "distinct (map fst by_pack)"
  shows "mset (concat (map (fst \<circ> snd) groups)) = mset (concat (map snd by_pack))
    \<and> list_all (\<lambda>(pack_id, items, r). items \<noteq> [] \<and> (case dict_get packs pack_id of None \<Rightarrow> False
        | Some p \<Rightarrow> list_all (\<lambda>(_, f). verification_config_for_finding endpoint_ok set_fields c f p = Inr r) items))
        groups
    \<and> distinct (map (\<lambda>(pack_id, _, r). (pack_id, verification_route_key r)) groups)"
  using verification_groups_facts [OF assms(1)] assms(2)
  by (simp add: sound_group_def [abs_def] group_key_def [abs_def] split_def)

lemma default_verification_route:
  "\<lbrakk>lc_routing c = default_llm_routing_config; cp_rule_matches p = []\<rbrakk> \<Longrightarrow>
     verification_config_for_finding endpoint_ok set_fields c f p = Inr (c, None, ''default'')"
  by (simp add: verification_config_for_finding_def verification_config_for_findings_def rule_model_override_def
      indexed_def default_llm_routing_config_def sort_desc_def)

lemma default_llm_routing [simp]: "lc_routing default_llm_config = default_llm_routing_config"
  by (simp add: default_llm_config_def)

lemma verification_groups_keep_routes_witness:
  "\<forall>f p. case verification_groups_by_route (\<lambda>_ _. True) (\<lambda>_. []) [(''p1'', [(0, f)])]
      [(''p1'', p\<lparr>cp_rule_matches := []\<rparr>)] default_llm_config of
        Inl _ \<Rightarrow> False | Inr groups \<Rightarrow> mset (concat (map (fst \<circ> snd) groups)) = {#(0, f)#}"
proof (intro allI)
  fix f p
  obtain groups where groups: "verification_groups_by_route (\<lambda>_ _. True) (\<lambda>_. []) [(''p1'', [(0, f)])]
      [(''p1'', p\<lparr>cp_rule_matches := []\<rparr>)] default_llm_config = Inr groups"
    by (simp add: default_verification_route)
  from verification_groups_keep_routes [OF groups] show "case verification_groups_by_route (\<lambda>_ _. True)
      (\<lambda>_. []) [(''p1'', [(0, f)])] [(''p1'', p\<lparr>cp_rule_matches := []\<rparr>)] default_llm_config of
        Inl _ \<Rightarrow> False | Inr groups \<Rightarrow> mset (concat (map (fst \<circ> snd) groups)) = {#(0, f)#}"
    unfolding groups by simp
qed

text \<open>The fallback route: only an exhausted quota leads to it, and it is never the profile that
  failed, so a pack has at most two routes.\<close>

theorem fallback_only_after_quota:
  assumes "fallback_review_config_after_error endpoint_ok set_fields c failed status = Inr (Some (d, profile, r))"
  shows "status = ''failed_quota'' \<and> rtg_escalated_review_profile (lc_routing c) \<noteq> failed
    \<and> (profile = None \<or> profile = rtg_escalated_review_profile (lc_routing c))
    \<and> same_policy c d"
proof -
  obtain name where name: "rtg_escalated_review_profile (lc_routing c) = Some name"
    "status = ''failed_quota''" "Some name \<noteq> failed"
    and d: "config_for_profile_or_model endpoint_ok set_fields c name (''fallback:'' @ name @ '':after_'' @ status)
          = Inr (d, profile, r)"
    using assms unfolding fallback_review_config_after_error_def Let_def
    by (cases "rtg_escalated_review_profile (lc_routing c)") (auto split: if_splits simp: map_sum_eq_Inr)
  from config_for_profile_determined [OF d] have "profile = None \<or> profile = Some name" by (rule disj_forward) simp_all
  with name config_for_profile_policy [OF d] show ?thesis by simp
qed

end
