(* ===== verification/Route_Circuit.thy ===== *)
theory Route_Circuit
  imports Routing
begin

section \<open>The circuit breaker of a provider route\<close>

text \<open>
  \<open>LLMRouteCircuitBreaker\<close> of \<open>src/apex_ray/llm/review.py\<close>: after a terminal failure, or enough
  failures in a row, no further call goes to a route during the run. The lock makes each operation
  atomic, so an operation is a function on the dictionary of route states. The API part of a route key
  is the JSON text of a dictionary with sorted keys; the record of its values stands for it.
\<close>

record api_route =
  art_protocol :: "string option"
  art_base_url :: "string option"
  art_base_url_env :: "string option"
  art_api_key_env :: "string option"
  art_allowed_hosts_env :: string
  art_headers_from_env :: "(string \<times> string) list"
  art_api_version :: "string option"
  art_use_system_proxy :: bool

type_synonym circuit_key =
  "string \<times> string option \<times> string option \<times> int \<times> string option \<times> api_route option"

definition circuit_route_key :: "llm_config \<Rightarrow> circuit_key" where
  "circuit_route_key c =
     (let api = lc_api c;
          executable = (case lc_provider c of PN_CODEX_CLI \<Rightarrow> Some (lc_codex_path c)
            | PN_CLAUDE_CODE_CLI \<Rightarrow> Some (lc_claude_path c) | _ \<Rightarrow> None);
          route = (if lc_provider c \<in> {PN_CODEX_CLI, PN_CLAUDE_CODE_CLI, PN_FAKE} then None
            else Some \<lparr>art_protocol = map_option llmapi_protocol_value (api_protocol api),
              art_base_url = api_base_url api, art_base_url_env = api_base_url_env api,
              art_api_key_env = api_api_key_env api, art_allowed_hosts_env = api_allowed_hosts_env api,
              art_headers_from_env = sort_key fst (api_headers_from_env api),
              art_api_version = api_api_version api, art_use_system_proxy = api_use_system_proxy api\<rparr>)
      in (llm_provider_name_value (lc_provider c), lc_model c,
          map_option llm_reasoning_effort_value (lc_effort c), lc_timeout_seconds c, executable, route))"

definition route_label :: "llm_config \<Rightarrow> string option \<Rightarrow> string" where
  "route_label c profile =
     (let text = (\<lambda>s. if text_set s then the s else ''<default>'') in
      ''provider='' @ llm_provider_name_value (lc_provider c) @ '', model='' @ text (lc_model c)
        @ '', profile='' @ text profile)"

record circuit_state =
  cst_consecutive_failures :: int
  cst_open_reason :: "string option"
  cst_trigger_status :: "string option"

definition new_circuit_state :: circuit_state where
  "new_circuit_state = \<lparr>cst_consecutive_failures = 0, cst_open_reason = None, cst_trigger_status = None\<rparr>"

type_synonym circuit = "(circuit_key \<times> circuit_state) list"

definition terminal_failures :: "string list" where
  "terminal_failures = [''failed_auth'', ''failed_quota'']"

definition retryable_failures :: "string list" where
  "retryable_failures = [''failed_provider'', ''failed_rate_limit'', ''failed_timeout'']"

definition open_failure :: "circuit \<Rightarrow> llm_config \<Rightarrow> (string \<times> string) option" where
  "open_failure circuit c =
     (case dict_get circuit (circuit_route_key c) of
        None \<Rightarrow> None
      | Some s \<Rightarrow>
          (case (cst_open_reason s, cst_trigger_status s) of
             (Some reason, Some status) \<Rightarrow> Some (reason, status)
           | _ \<Rightarrow> None))"

definition record_state :: "string \<Rightarrow> string \<Rightarrow> int \<Rightarrow> circuit_state \<Rightarrow> circuit_state" where
  "record_state label status max_failures s =
     (if cst_open_reason s \<noteq> None then s
      else if status \<in> set terminal_failures then
        s\<lparr>cst_open_reason := Some (''Provider circuit for '' @ label @ '' opened after terminal ''
             @ remove_prefix status ''failed_'' @ '' failure.''),
          cst_trigger_status := Some status\<rparr>
      else if status \<in> set retryable_failures then
        (let n = cst_consecutive_failures s + 1; s' = s\<lparr>cst_consecutive_failures := n\<rparr> in
         if max_failures \<le> n then
           s'\<lparr>cst_open_reason := Some (''Provider circuit for '' @ label @ '' opened after '' @ str_int n
                @ '' consecutive provider failures.''),
              cst_trigger_status := Some status\<rparr>
         else s')
      else s\<lparr>cst_consecutive_failures := 0\<rparr>)"

definition record_outcome :: "circuit \<Rightarrow> llm_config \<Rightarrow> string option \<Rightarrow> string \<Rightarrow> int \<Rightarrow> circuit" where
  "record_outcome circuit c profile status max_failures =
     (let key = circuit_route_key c in
      dict_set key (record_state (route_label c profile) status max_failures
        (dict_get_or circuit key new_circuit_state)) circuit)"

subsection \<open>The contract of a breaker\<close>

text \<open>What the callers of a breaker rely on: a route that is closed to calls stays closed, a terminal
  failure closes its route, and an outcome on one route leaves the others alone.\<close>

locale breaker =
  fixes ok :: "'c \<Rightarrow> bool"
    and admits :: "'c \<Rightarrow> 'r \<Rightarrow> bool"
    and record_call :: "'c \<Rightarrow> 'r \<Rightarrow> 's \<Rightarrow> 'c"
    and terminal :: "'s \<Rightarrow> bool"
  assumes ok_record: "ok c \<Longrightarrow> ok (record_call c r s)"
    and stays_closed: "\<lbrakk>ok c; \<not> admits c r\<rbrakk> \<Longrightarrow> \<not> admits (record_call c r' s) r"
    and terminal_closes: "\<lbrakk>ok c; terminal s\<rbrakk> \<Longrightarrow> \<not> admits (record_call c r s) r"
    and independent: "r' \<noteq> r \<Longrightarrow> admits (record_call c r' s) r = admits c r"
begin

text \<open>A caller that asks before every call, with the outcome of the call decided by the provider.\<close>

fun guarded_calls :: "'c \<Rightarrow> ('r \<times> 's) list \<Rightarrow> ('r \<times> 's) list" where
  "guarded_calls c [] = []"
| "guarded_calls c ((r, s) # calls) =
     (if admits c r then (r, s) # guarded_calls (record_call c r s) calls else guarded_calls c calls)"

lemma closed_never_called: "\<lbrakk>ok c; \<not> admits c r\<rbrakk> \<Longrightarrow> (r, s) \<notin> set (guarded_calls c calls)"
  by (induction c calls rule: guarded_calls.induct) (auto simp: stays_closed ok_record)

lemma one_terminal_call:
  "ok c \<Longrightarrow> length (filter (\<lambda>(r', s). r' = r \<and> terminal s) (guarded_calls c calls)) \<le> 1"
proof (induction c calls rule: guarded_calls.induct)
  case (2 c r' s calls)
  show ?case
  proof (cases "admits c r'")
    case True
    note IH = "2.IH"(1) [OF True ok_record [OF "2.prems"]]
    show ?thesis
    proof (cases "r' = r \<and> terminal s")
      case hit: True
      then have "\<not> admits (record_call c r' s) r" using terminal_closes "2.prems" by blast
      from closed_never_called [OF ok_record [OF "2.prems"] this]
      have "filter (\<lambda>(r', s). r' = r \<and> terminal s) (guarded_calls (record_call c r' s) calls) = []"
        by (auto simp: filter_empty_conv)
      with True hit show ?thesis by simp
    qed (use IH True in auto)
  qed (use "2.IH"(2) "2.prems" in auto)
qed simp

lemma other_routes_unaffected:
  "r \<notin> fst ` set calls \<Longrightarrow> admits (fold (\<lambda>(r', s) c. record_call c r' s) calls c) r = admits c r"
  by (induction calls arbitrary: c) (auto simp: independent)

end

subsection \<open>The breaker meets the contract\<close>

definition admits_key :: "circuit \<Rightarrow> circuit_key \<Rightarrow> bool" where
  "admits_key circuit key \<longleftrightarrow>
     (case dict_get circuit key of None \<Rightarrow> True
      | Some s \<Rightarrow> cst_open_reason s = None \<or> cst_trigger_status s = None)"

definition record_key :: "circuit \<Rightarrow> circuit_key \<Rightarrow> string \<times> string \<times> int \<Rightarrow> circuit" where
  "record_key circuit key outcome =
     (let (label, status, max_failures) = outcome in
      dict_set key (record_state label status max_failures (dict_get_or circuit key new_circuit_state)) circuit)"

lemma open_failure_None: "open_failure circuit c = None \<longleftrightarrow> admits_key circuit (circuit_route_key c)"
  by (auto simp: open_failure_def admits_key_def split: option.split)

lemma record_outcome_key:
  "record_outcome circuit c profile status max_failures
     = record_key circuit (circuit_route_key c) (route_label c profile, status, max_failures)"
  by (simp add: record_outcome_def record_key_def Let_def)

lemma record_state_open:
  "cst_open_reason s \<noteq> None \<Longrightarrow> record_state label status n s = s"
  by (simp add: record_state_def)

definition circuit_ok :: "circuit \<Rightarrow> bool" where
  "circuit_ok circuit \<longleftrightarrow>
     list_all (\<lambda>(k, s). cst_open_reason s = None \<longleftrightarrow> cst_trigger_status s = None) circuit"

lemma record_state_ok:
  "(cst_open_reason s = None \<longleftrightarrow> cst_trigger_status s = None) \<Longrightarrow>
     (cst_open_reason (record_state label status n s) = None \<longleftrightarrow> cst_trigger_status (record_state label status n s) = None)"
  by (auto simp: record_state_def Let_def)

lemma state_of_ok:
  "circuit_ok circuit \<Longrightarrow> cst_open_reason (dict_get_or circuit key new_circuit_state) = None
     \<longleftrightarrow> cst_trigger_status (dict_get_or circuit key new_circuit_state) = None"
  by (auto simp: circuit_ok_def list_all_iff dict_get_or_def new_circuit_state_def dest!: map_of_SomeD
      split: option.split)

interpretation circuit: breaker circuit_ok admits_key record_key "\<lambda>(label, status, n). status \<in> set terminal_failures"
proof unfold_locales
  fix c :: circuit and r :: circuit_key and s :: "string \<times> string \<times> int"
  assume "circuit_ok c"
  then show "circuit_ok (record_key c r s)"
    using record_state_ok [OF state_of_ok [OF \<open>circuit_ok c\<close>]]
    by (auto simp: record_key_def circuit_ok_def list_all_iff split_def dest!: dict_set_entries)
next
  fix c :: circuit and r r' :: circuit_key and s :: "string \<times> string \<times> int"
  assume "\<not> admits_key c r"
  then show "\<not> admits_key (record_key c r' s) r"
    by (auto simp: admits_key_def record_key_def update_conv' dict_get_or_def record_state_open split: option.splits prod.splits)
next
  fix c :: circuit and r :: circuit_key and s :: "string \<times> string \<times> int"
  assume "circuit_ok c" and "case s of (label, status, n) \<Rightarrow> status \<in> set terminal_failures"
  then show "\<not> admits_key (record_key c r s) r"
    using state_of_ok [of c r]
    by (auto simp: admits_key_def record_key_def update_conv' record_state_def split: prod.splits)
next
  fix c :: circuit and r r' :: circuit_key and s :: "string \<times> string \<times> int"
  assume "r' \<noteq> r"
  then show "admits_key (record_key c r' s) r = admits_key c r"
    by (simp add: admits_key_def record_key_def update_conv' split_def)
qed

subsection \<open>When a route opens\<close>

text \<open>The specification reads the log of the calls on a route, oldest first: the breaker has tripped if
  at some call the failure was terminal, or the failures in a row that end there reached the limit.\<close>

definition failures_in_row :: "string list \<Rightarrow> int" where
  "failures_in_row sts = int (length (takeWhile (\<lambda>s. s \<in> set retryable_failures) (rev sts)))"

definition trips :: "int \<Rightarrow> string list \<Rightarrow> bool" where
  "trips n sts \<longleftrightarrow> (\<exists>i<length sts. sts ! i \<in> set terminal_failures
     \<or> sts ! i \<in> set retryable_failures \<and> n \<le> failures_in_row (take (Suc i) sts))"

lemma trips_snoc:
  "trips n (sts @ [s]) \<longleftrightarrow> trips n sts \<or> s \<in> set terminal_failures
     \<or> s \<in> set retryable_failures \<and> n \<le> failures_in_row (sts @ [s])"
proof -
  have "(\<exists>i<length (sts @ [s]). P i) \<longleftrightarrow> (\<exists>i<length sts. P i) \<or> P (length sts)" for P
    by (auto simp: less_Suc_eq)
  then show ?thesis by (auto simp: trips_def nth_append cong: conj_cong)
qed

lemma failures_in_row_snoc:
  "failures_in_row (sts @ [s]) = (if s \<in> set retryable_failures then failures_in_row sts + 1 else 0)"
  by (simp add: failures_in_row_def)

lemma failure_kinds_disjoint: "s \<in> set terminal_failures \<Longrightarrow> s \<notin> set retryable_failures"
  by (auto simp: terminal_failures_def retryable_failures_def)

definition state_after :: "int \<Rightarrow> (string \<times> string) list \<Rightarrow> circuit_state" where
  "state_after n calls = fold (\<lambda>(label, status). record_state label status n) calls new_circuit_state"

lemma state_after_snoc: "state_after n (calls @ [(label, status)]) = record_state label status n (state_after n calls)"
  by (simp add: state_after_def)

lemma state_after_spec:
  "(cst_open_reason (state_after n calls) \<noteq> None \<longleftrightarrow> trips n (map snd calls))
   \<and> (cst_trigger_status (state_after n calls) \<noteq> None \<longleftrightarrow> trips n (map snd calls))
   \<and> (trips n (map snd calls) \<or> cst_consecutive_failures (state_after n calls) = failures_in_row (map snd calls))"
proof (induction calls rule: rev_induct)
  case Nil
  then show ?case by (simp add: state_after_def new_circuit_state_def trips_def failures_in_row_def)
next
  case (snoc call calls)
  obtain label status where call: "call = (label, status)" by fastforce
  let ?s = "state_after n calls"
  have trips: "trips n (map snd (calls @ [call])) \<longleftrightarrow> trips n (map snd calls) \<or> status \<in> set terminal_failures
      \<or> status \<in> set retryable_failures \<and> n \<le> failures_in_row (map snd calls) + 1"
    by (simp add: call trips_snoc failures_in_row_snoc)
  show ?case
  proof (cases "trips n (map snd calls)")
    case True
    with snoc.IH have "cst_open_reason ?s \<noteq> None" by blast
    from record_state_open [OF this] have "state_after n (calls @ [call]) = ?s"
      by (simp add: call state_after_snoc)
    with True snoc.IH trips show ?thesis by simp
  next
    case False
    with snoc.IH have s: "cst_open_reason ?s = None" "cst_trigger_status ?s = None"
      "cst_consecutive_failures ?s = failures_in_row (map snd calls)" by blast+
    have row: "failures_in_row (map snd (calls @ [call])) =
        (if status \<in> set retryable_failures then failures_in_row (map snd calls) + 1 else 0)"
      by (simp add: call failures_in_row_snoc)
    show ?thesis
      unfolding trips row unfolding call state_after_snoc
      using s False failure_kinds_disjoint [of status] by (auto simp: record_state_def Let_def)
  qed
qed

lemma record_key_get:
  "dict_get (record_key c k (label, status, n)) key =
     (if key = k then Some (record_state label status n (dict_get_or c k new_circuit_state)) else dict_get c key)"
  by (simp add: record_key_def update_conv')

lemma state_after_Nil: "state_after n [] = new_circuit_state"
  by (simp add: state_after_def)

lemma dict_get_record_history:
  "dict_get (fold (\<lambda>(key, label, status) c. record_key c key (label, status, n)) history []) key =
     (if filter (\<lambda>e. fst e = key) history = [] then None
      else Some (state_after n (map snd (filter (\<lambda>e. fst e = key) history))))"
proof (induction history rule: rev_induct)
  case (snoc e history)
  obtain k label status where e: "e = (k, label, status)" by (metis prod_cases3)
  show ?case
  proof (cases "key = k")
    case True
    with snoc show ?thesis
      by (simp add: e record_key_get dict_get_or_def state_after_snoc state_after_Nil)
  next
    case False
    with snoc show ?thesis by (simp add: e record_key_get)
  qed
qed simp

lemma circuit_of_history:
  "admits_key (fold (\<lambda>(key, label, status) c. record_key c key (label, status, n)) history []) key
     \<longleftrightarrow> \<not> trips n (map (snd \<circ> snd) (filter (\<lambda>e. fst e = key) history))"
proof (cases "filter (\<lambda>e. fst e = key) history = []")
  case True
  then show ?thesis unfolding admits_key_def dict_get_record_history by (simp add: trips_def)
next
  case False
  define calls where "calls = map snd (filter (\<lambda>e. fst e = key) history)"
  have "map (snd \<circ> snd) (filter (\<lambda>e. fst e = key) history) = map snd calls"
    by (simp add: calls_def)
  moreover have "admits_key (fold (\<lambda>(key, label, status) c. record_key c key (label, status, n)) history []) key
      \<longleftrightarrow> cst_open_reason (state_after n calls) = None \<or> cst_trigger_status (state_after n calls) = None"
    using False unfolding admits_key_def dict_get_record_history calls_def by simp
  ultimately show ?thesis using state_after_spec [of n calls] by metis
qed

text \<open>C39: The breaker refines the log: a call is refused on a route exactly when the outcomes recorded for
  that route, and no others, have tripped it. The label of a call, its profile, does not matter.\<close>

theorem circuit_refines_log:
  "admits_key (fold (\<lambda>(key, label, status) c. record_key c key (label, status, n)) history []) key
     \<longleftrightarrow> \<not> trips n (map (snd \<circ> snd) (filter (\<lambda>e. fst e = key) history))"
  by (rule circuit_of_history)

end
