(* ===== verification/Responses.thy ===== *)
theory Responses
  imports Model_Finding
begin

section \<open>Provider failures and responses\<close>

text \<open>
  \<open>src/apex_ray/llm/errors.py\<close> and the parsers of \<open>src/apex_ray/llm/responses.py\<close>. A provider answers
  in text; a parser finds the JSON object in it, validates it and turns it into findings or decisions,
  or raises \<open>LLMProviderError\<close>. An exception is a value of \<open>failure\<close>: an \<open>LLMProviderError\<close> or any
  other exception, of which only its text is read.

  Parameters: \<open>loads\<close>, \<open>json.loads\<close> (an error text where it raises \<open>JSONDecodeError\<close>), and the pydantic
  validators of the response classes.
\<close>

subsection \<open>Failures\<close>

datatype failure_category =
    CAT_AUTH | CAT_MALFORMED | CAT_PROVIDER | CAT_QUOTA | CAT_RATE_LIMIT | CAT_REFUSAL | CAT_TIMEOUT | CAT_TRUNCATED

record provider_error =
  pe_message :: string
  pe_category :: "failure_category option"
  pe_retryable :: bool
  pe_status_code :: "int option"
  pe_retry_after :: "rat option"

datatype failure = Provider_Failure provider_error | Other_Failure string

definition llm_error :: "string \<Rightarrow> provider_error" where
  "llm_error message = \<lparr>pe_message = message, pe_category = None, pe_retryable = False,
     pe_status_code = None, pe_retry_after = None\<rparr>"

fun failure_text :: "failure \<Rightarrow> string" where
  "failure_text (Provider_Failure e) = pe_message e"
| "failure_text (Other_Failure s) = s"

fun failure_category_of :: "failure \<Rightarrow> failure_category option" where
  "failure_category_of (Provider_Failure e) = pe_category e"
| "failure_category_of (Other_Failure s) = None"

definition category_status :: "failure_category \<Rightarrow> string" where
  "category_status c = (case c of
      CAT_AUTH \<Rightarrow> ''failed_auth'' | CAT_MALFORMED \<Rightarrow> ''failed_malformed'' | CAT_PROVIDER \<Rightarrow> ''failed_provider''
    | CAT_QUOTA \<Rightarrow> ''failed_quota'' | CAT_RATE_LIMIT \<Rightarrow> ''failed_rate_limit'' | CAT_REFUSAL \<Rightarrow> ''failed_refusal''
    | CAT_TIMEOUT \<Rightarrow> ''failed_timeout'' | CAT_TRUNCATED \<Rightarrow> ''failed_truncated'')"

definition classify_llm_provider_error :: "failure \<Rightarrow> string" where
  "classify_llm_provider_error e =
     (case failure_category_of e of
        Some c \<Rightarrow> category_status c
      | None \<Rightarrow>
          (let text = py_lower (failure_text e) in
           if str_in ''timed out'' text \<or> str_in ''timeout'' text then ''failed_timeout''
           else if str_in ''usage limit'' text \<or> str_in ''quota'' text \<or> str_in ''insufficient_quota'' text
             then ''failed_quota''
           else if str_in ''rate limit'' text then ''failed_rate_limit''
           else ''failed_provider''))"

lemma classify_not_ok: "classify_llm_provider_error e \<noteq> ''ok''"
  by (auto simp: classify_llm_provider_error_def category_status_def Let_def
      split: option.split failure_category.split)

subsection \<open>The JSON object of an answer\<close>

definition extract_json_object :: "string \<Rightarrow> provider_error + string" where
  "extract_json_object text =
     (case (first_index (\<lambda>c. c = CHR ''{'') text, first_index (\<lambda>c. c = CHR ''}'') (rev text)) of
        (Some start, Some back) \<Rightarrow>
          (let stop = length text - 1 - back in
           if stop \<le> start then Inl (llm_error ''LLM response did not contain a JSON object.'')
           else Inr (take (stop + 1 - start) (drop start text)))
      | _ \<Rightarrow> Inl (llm_error ''LLM response did not contain a JSON object.''))"

definition load_json_response ::
  "(string \<Rightarrow> string + 'j) \<Rightarrow> string \<Rightarrow> string \<Rightarrow> provider_error + 'j" where
  "load_json_response loads text response_kind =
     (case loads text of
        Inr v \<Rightarrow> Inr v
      | Inl _ \<Rightarrow>
          (case extract_json_object text of
             Inl e \<Rightarrow> Inl e
           | Inr extracted \<Rightarrow>
               (case loads extracted of
                  Inr v \<Rightarrow> Inr v
                | Inl detail \<Rightarrow>
                    Inl (llm_error (''LLM '' @ response_kind @ '' response contained invalid JSON: '' @ detail)))))"

definition validated_response ::
  "(string \<Rightarrow> string + 'j) \<Rightarrow> ('j \<Rightarrow> string + 'r) \<Rightarrow> string \<Rightarrow> string \<Rightarrow> provider_error + 'r" where
  "validated_response loads validate text response_kind =
     (case load_json_response loads text response_kind of
        Inl e \<Rightarrow> Inl e
      | Inr v \<Rightarrow>
          (case validate v of
             Inl detail \<Rightarrow> Inl (llm_error (''Invalid '' @ response_kind @ '' response: '' @ detail))
           | Inr r \<Rightarrow> Inr r))"

subsection \<open>Findings, decisions and resolutions\<close>

definition parse_finding_response ::
  "(string \<Rightarrow> string + 'j) \<Rightarrow> ('j \<Rightarrow> string + finding_response) \<Rightarrow> string \<Rightarrow> string
     \<Rightarrow> provider_error + finding_response" where
  "parse_finding_response loads validate text pack_id =
     map_sum id (\<lambda>r. \<lparr>fr_findings = map (\<lambda>f. f\<lparr>fi_context_pack_id :=
         (if fi_context_pack_id f \<noteq> [] then fi_context_pack_id f else pack_id)\<rparr>) (fr_findings r)\<rparr>)
       (validated_response loads validate text ''finding'')"

definition new_verification :: "finding \<Rightarrow> bool \<Rightarrow> finding_confidence \<Rightarrow> string \<Rightarrow> finding_verification" where
  "new_verification f approved confidence reason =
     \<lparr>fv_finding = f, fv_reviewer_id = ''general'', fv_approved = approved, fv_confidence = confidence,
      fv_reason = reason, fv_review_snapshot_id = None, fv_superseded = False, fv_superseded_reason = None\<rparr>"

definition parse_verification_response ::
  "(string \<Rightarrow> string + 'j) \<Rightarrow> ('j \<Rightarrow> string + verification_response) \<Rightarrow> string \<Rightarrow> finding
     \<Rightarrow> provider_error + finding_verification" where
  "parse_verification_response loads validate text f =
     map_sum id (\<lambda>r. new_verification f (vr_approved r) (vr_confidence r) (vr_reason r))
       (validated_response loads validate text ''verification'')"

fun collect_decisions ::
  "int \<Rightarrow> verification_decision list \<Rightarrow> (int \<times> verification_decision) list
     \<Rightarrow> provider_error + (int \<times> verification_decision) list" where
  "collect_decisions n [] seen = Inr seen"
| "collect_decisions n (d # ds) seen =
     (if n \<le> vd_finding_index d
      then Inl (llm_error (''Verifier returned out-of-range finding_index: '' @ str_int (vd_finding_index d)))
      else if dict_get seen (vd_finding_index d) \<noteq> None
      then Inl (llm_error (''Verifier returned duplicate finding_index: '' @ str_int (vd_finding_index d)))
      else collect_decisions n ds (dict_set (vd_finding_index d) d seen))"

definition decided_findings ::
  "verification_batch_response \<Rightarrow> finding list \<Rightarrow> provider_error + finding_verification list" where
  "decided_findings response findings =
     (case collect_decisions (int (length findings)) (vbr_decisions response) [] of
        Inl e \<Rightarrow> Inl e
      | Inr decisions \<Rightarrow>
          (let missing = filter (\<lambda>i. dict_get decisions (int i) = None) [0..<length findings] in
           if missing \<noteq> []
           then Inl (llm_error (''Verifier omitted decisions for finding indexes: '' @ join '', '' (map str_nat missing)))
           else Inr (map (\<lambda>(i, f). let d = the (dict_get decisions (int i)) in
               new_verification f (vd_approved d) (vd_confidence d) (vd_reason d)) (indexed findings))))"

definition parse_verification_batch_response ::
  "(string \<Rightarrow> string + 'j) \<Rightarrow> ('j \<Rightarrow> string + verification_batch_response) \<Rightarrow> string \<Rightarrow> finding list
     \<Rightarrow> provider_error + finding_verification list" where
  "parse_verification_batch_response loads validate text findings =
     (case validated_response loads validate text ''verification'' of
        Inl e \<Rightarrow> Inl e
      | Inr response \<Rightarrow> decided_findings response findings)"

definition parse_resolution_response ::
  "(string \<Rightarrow> string + 'j) \<Rightarrow> ('j \<Rightarrow> string + finding_resolution_response) \<Rightarrow> string \<Rightarrow> finding
     \<Rightarrow> provider_error + finding_resolution" where
  "parse_resolution_response loads validate text f =
     map_sum id (\<lambda>r. \<lparr>fre_finding = f, fre_status = frr_status r, fre_confidence = frr_confidence r,
         fre_reason = frr_reason r, fre_evidence = frr_evidence r,
         fre_suggested_next_action = frr_suggested_next_action r\<rparr>)
       (validated_response loads validate text ''resolution'')"


subsection \<open>What a batch of decisions must be\<close>

lemma collect_decisions_iff:
  "distinct (map fst seen) \<Longrightarrow> collect_decisions n ds seen = Inr out \<longleftrightarrow>
     list_all (\<lambda>d. vd_finding_index d < n) ds \<and> distinct (map fst seen @ map vd_finding_index ds)
     \<and> out = seen @ map (\<lambda>d. (vd_finding_index d, d)) ds"
proof (induction ds arbitrary: seen)
  case (Cons d ds)
  have new: "dict_get seen (vd_finding_index d) = None \<longleftrightarrow> vd_finding_index d \<notin> fst ` set seen"
    by (simp add: map_of_eq_None_iff)
  show ?case
  proof (cases "vd_finding_index d \<in> fst ` set seen")
    case True
    then show ?thesis using new by auto
  next
    case False
    then have "distinct (map fst (seen @ [(vd_finding_index d, d)]))"
      using Cons.prems by simp
    from Cons.IH [OF this] False new show ?thesis
      by (auto simp: dict_set_new)
  qed
qed auto

definition decision_indexes :: "verification_batch_response \<Rightarrow> int list" where
  "decision_indexes response = map vd_finding_index (vbr_decisions response)"

definition decision_for :: "verification_batch_response \<Rightarrow> nat \<Rightarrow> verification_decision" where
  "decision_for response i = the (find (\<lambda>d. vd_finding_index d = int i) (vbr_decisions response))"

lemma indexes_permutation:
  assumes "list_all valid_verification_decision ds"
  shows "list_all (\<lambda>d. vd_finding_index d < int n) ds \<and> distinct (map vd_finding_index ds)
      \<and> (\<forall>i<n. find (\<lambda>d. vd_finding_index d = int i) ds \<noteq> None)
    \<longleftrightarrow> mset (map vd_finding_index ds) = mset (map int [0..<n])" (is "?L \<longleftrightarrow> ?R")
proof
  assume L: ?L
  have "set (map vd_finding_index ds) = set (map int [0..<n])"
  proof
    show "set (map vd_finding_index ds) \<subseteq> set (map int [0..<n])"
    proof
      fix k assume "k \<in> set (map vd_finding_index ds)"
      then obtain d where "d \<in> set ds" and k: "k = vd_finding_index d" by auto
      with L assms have "0 \<le> k" "k < int n"
        by (auto simp: list_all_iff valid_verification_decision_def)
      then have "k = int (nat k)" "nat k < n" by simp_all
      then show "k \<in> set (map int [0..<n])" by (metis atLeastLessThan_iff image_eqI le0 list.set_map set_upt)
    qed
    show "set (map int [0..<n]) \<subseteq> set (map vd_finding_index ds)"
    proof
      fix k assume "k \<in> set (map int [0..<n])"
      then obtain i where "i < n" and k: "k = int i" by auto
      with L have "find (\<lambda>d. vd_finding_index d = int i) ds \<noteq> None" by blast
      then show "k \<in> set (map vd_finding_index ds)" by (auto simp: find_None_iff k intro: rev_image_eqI)
    qed
  qed
  moreover have "distinct (map int [0..<n])" by (simp add: distinct_map)
  ultimately show ?R using L by (simp only: set_eq_iff_mset_eq_distinct)
next
  assume R: ?R
  have set: "vd_finding_index ` set ds = int ` {0..<n}"
    using mset_eq_setD [OF R] by simp
  have "distinct (map vd_finding_index ds)"
    using mset_eq_imp_distinct_iff [OF R] by (simp add: distinct_map)
  moreover have "find (\<lambda>d. vd_finding_index d = int i) ds \<noteq> None" if "i < n" for i
  proof -
    have "int i \<in> vd_finding_index ` set ds" using that by (simp add: set)
    then show ?thesis unfolding find_None_iff by (metis image_iff)
  qed
  moreover have "list_all (\<lambda>d. vd_finding_index d < int n) ds"
    unfolding list_all_iff
  proof
    fix d assume "d \<in> set ds"
    then have "vd_finding_index d \<in> int ` {0..<n}" using set by (metis imageI)
    then show "vd_finding_index d < int n" by auto
  qed
  ultimately show ?L by blast
qed

lemma decided_findings_iff:
  assumes "valid_verification_batch_response response"
  shows "decided_findings response findings = Inr vs \<longleftrightarrow>
     mset (decision_indexes response) = mset (map int [0..<length findings])
     \<and> vs = map (\<lambda>(i, f). new_verification f (vd_approved (decision_for response i))
         (vd_confidence (decision_for response i)) (vd_reason (decision_for response i))) (indexed findings)"
proof -
  let ?ds = "vbr_decisions response" and ?n = "length findings"
  have "decided_findings response findings = Inr vs \<longleftrightarrow>
     (list_all (\<lambda>d. vd_finding_index d < int ?n) ?ds \<and> distinct (map vd_finding_index ?ds)
      \<and> (\<forall>i<?n. find (\<lambda>d. vd_finding_index d = int i) ?ds \<noteq> None))
     \<and> vs = map (\<lambda>(i, f). new_verification f (vd_approved (decision_for response i))
         (vd_confidence (decision_for response i)) (vd_reason (decision_for response i))) (indexed findings)"
  proof (cases "collect_decisions (int ?n) ?ds []")
    case (Inl e)
    then have "\<not> (list_all (\<lambda>d. vd_finding_index d < int ?n) ?ds \<and> distinct (map vd_finding_index ?ds))"
      using collect_decisions_iff [of "[]" "int ?n" ?ds "map (\<lambda>d. (vd_finding_index d, d)) ?ds"] by auto
    with Inl show ?thesis by (auto simp: decided_findings_def)
  next
    case (Inr out)
    with collect_decisions_iff [of "[]" "int ?n" ?ds out]
    have ok: "list_all (\<lambda>d. vd_finding_index d < int ?n) ?ds" "distinct (map vd_finding_index ?ds)"
      and out: "out = map (\<lambda>d. (vd_finding_index d, d)) ?ds" by simp_all
    show ?thesis
      using ok by (auto simp: decided_findings_def Inr out map_of_keyed decision_for_def filter_empty_conv Let_def)
  qed
  with assms show ?thesis
    unfolding valid_verification_batch_response_def decision_indexes_def
    by (simp only: indexes_permutation)
qed

text \<open>A batch of verifier decisions is accepted exactly when its indexes are each index of the asked
  findings once, in any order; then every finding gets the decision that carries its index. Nothing is
  dropped, doubled or attached to another finding.\<close>

theorem decisions_match_findings:
  assumes "valid_verification_batch_response response"
  shows "(case decided_findings response findings of
      Inl _ \<Rightarrow> mset (decision_indexes response) \<noteq> mset (map int [0..<length findings])
    | Inr vs \<Rightarrow> mset (decision_indexes response) = mset (map int [0..<length findings])
        \<and> map fv_finding vs = findings
        \<and> map fv_approved vs = map (\<lambda>i. vd_approved (decision_for response i)) [0..<length findings])"
proof (cases "decided_findings response findings")
  case (Inl e)
  with decided_findings_iff [OF assms, of findings] show ?thesis by auto
next
  case (Inr vs)
  with decided_findings_iff [OF assms, of findings vs]
  have "mset (decision_indexes response) = mset (map int [0..<length findings])"
    and vs: "vs = map (\<lambda>(i, f). new_verification f (vd_approved (decision_for response i))
         (vd_confidence (decision_for response i)) (vd_reason (decision_for response i))) (indexed findings)"
    by simp_all
  moreover have "map fv_finding vs = map snd (indexed findings)"
    by (simp add: vs new_verification_def split_def del: map_indexed)
  moreover have "map fv_approved vs = map (\<lambda>i. vd_approved (decision_for response i)) (map fst (indexed findings))"
    by (simp add: vs new_verification_def split_def del: map_indexed)
  ultimately show ?thesis using Inr by simp
qed

definition sample_batch :: "nat list \<Rightarrow> verification_batch_response" where
  "sample_batch is = \<lparr>vbr_decisions = map (\<lambda>i. \<lparr>vd_finding_index = int i, vd_approved = (i = 0),
     vd_confidence = FC_HIGH, vd_reason = []\<rparr>) is\<rparr>"

lemma decisions_match_findings_witness:
  "\<forall>f g. case decided_findings (sample_batch [1, 0]) [f, g] of
      Inl _ \<Rightarrow> False | Inr vs \<Rightarrow> map fv_finding vs = [f, g] \<and> map fv_approved vs = [True, False]"
proof (intro allI)
  fix f g
  have "valid_verification_batch_response (sample_batch [1, 0])" by code_simp
  from decisions_match_findings [OF this, of "[f, g]"]
  show "case decided_findings (sample_batch [1, 0]) [f, g] of
      Inl _ \<Rightarrow> False | Inr vs \<Rightarrow> map fv_finding vs = [f, g] \<and> map fv_approved vs = [True, False]"
    by (simp add: sample_batch_def decision_indexes_def decision_for_def split: sum.splits)
qed

text \<open>The JSON object of an answer is the text from its first opening to its last closing brace; an
  answer without such a pair is an error.\<close>

theorem extract_json_object_spec:
  "(case extract_json_object text of
      Inr s \<Rightarrow> \<exists>pre body post. text = pre @ s @ post \<and> s = ''{'' @ body @ ''}''
        \<and> CHR ''{'' \<notin> set pre \<and> CHR ''}'' \<notin> set post
    | Inl e \<Rightarrow> \<not> (\<exists>pre body post. text = pre @ ''{'' @ body @ ''}'' @ post))"
proof -
  let ?left = "first_index (\<lambda>c. c = CHR ''{'') text"
  let ?right = "first_index (\<lambda>c. c = CHR ''}'') (rev text)"
  have order: "start \<le> length pre \<and> length pre < length text - 1 - trail"
    if first: "?left = Some start" and last: "?right = Some trail"
      and whole: "text = pre @ ''{'' @ body @ ''}'' @ post" for start trail pre body post
  proof -
    have "start \<le> length pre" by (rule first_index_least [OF first]) (simp_all add: whole)
    moreover have "trail \<le> length post" by (rule first_index_least [OF last]) (simp_all add: whole nth_append)
    ultimately show ?thesis by (simp add: whole)
  qed
  have some: "?left \<noteq> None \<and> ?right \<noteq> None" if "text = pre @ ''{'' @ body @ ''}'' @ post" for pre body post
    by (auto simp: first_index_None list_all_iff that)
  show ?thesis
  proof (cases "\<exists>start trail. ?left = Some start \<and> ?right = Some trail \<and> start < length text - 1 - trail")
    case False
    then have "\<exists>e. extract_json_object text = Inl e"
      by (auto simp: extract_json_object_def Let_def split: option.split)
    moreover have "\<not> (\<exists>pre body post. text = pre @ ''{'' @ body @ ''}'' @ post)"
    proof
      assume "\<exists>pre body post. text = pre @ ''{'' @ body @ ''}'' @ post"
      then obtain pre body post where whole: "text = pre @ ''{'' @ body @ ''}'' @ post" by blast
      from some [OF whole] obtain start trail where "?left = Some start" "?right = Some trail" by auto
      with order [OF this whole] False show False by (metis le_less_trans)
    qed
    ultimately show ?thesis by auto
  next
    case True
    then obtain start trail where i: "?left = Some start" "?right = Some trail" and lt: "start < length text - 1 - trail"
      by blast
    define stop where "stop = length text - 1 - trail"
    from first_index_Some [OF i(1)] have open_at: "text ! start = CHR ''{''"
      and pre: "CHR ''{'' \<notin> set (take start text)" by (auto simp: list_all_iff)
    from first_index_Some [OF i(2)] have bk: "trail < length text" "rev text ! trail = CHR ''}''"
      and post: "CHR ''}'' \<notin> set (take trail (rev text))" by (auto simp: list_all_iff)
    from bk have close_at: "text ! stop = CHR ''}''" by (simp add: rev_nth stop_def)
    have rest: "CHR ''}'' \<notin> set (drop (stop + 1) text)"
      using post bk(1) by (simp add: take_rev stop_def Suc_diff_Suc)
    have lt: "start < stop" "stop < length text" using lt bk(1) by (simp_all add: stop_def)
    define body where "body = take (stop - start - 1) (drop (start + 1) text)"
    have s: "take (stop + 1 - start) (drop start text) = ''{'' @ body @ ''}''"
    proof -
      have "drop start text = CHR ''{'' # drop (start + 1) text"
        using lt open_at Cons_nth_drop_Suc [of start "text"] by simp
      moreover have "take (stop - start) (drop (start + 1) text) = body @ [CHR ''}'']"
        using lt close_at take_Suc_conv_app_nth [of "stop - start - 1" "drop (start + 1) text"]
        by (simp add: body_def Suc_diff_Suc)
      ultimately show ?thesis using lt by (simp add: Suc_diff_le)
    qed
    have "text = take start text @ take (stop + 1 - start) (drop start text) @ drop (stop + 1) text"
proof -
      have "drop (stop + 1) text = drop (stop + 1 - start) (drop start text)" using lt by simp
      then show ?thesis by (simp only: append_take_drop_id)
    qed
    moreover have "extract_json_object text = Inr (take (stop + 1 - start) (drop start text))"
      using i lt by (simp add: extract_json_object_def stop_def Let_def)
    ultimately show ?thesis using s pre rest by auto
  qed
qed

end
