(* ===== verification/Provider_Presets.thy ===== *)
theory Provider_Presets
  imports Responses
begin

section \<open>The known API providers\<close>

text \<open>
  The tables of \<open>src/apex_ray/llm/api.py\<close>: endpoint, key variable and allowed hosts of every known API
  provider, and the model options a provider cannot honour.
\<close>

record provider_preset =
  pst_protocol :: llmapi_protocol
  pst_structured_output :: llm_structured_output
  pst_base_url :: string
  pst_api_key_env :: string
  pst_allowed_hosts :: "string list"
  pst_allowed_host_suffixes :: "string list"
  pst_alternative_protocols :: "llmapi_protocol list"

definition preset_of :: "llm_provider_name \<Rightarrow> provider_preset option" where
  "preset_of p = (case p of
     PN_OPENAI_API \<Rightarrow> Some \<lparr>pst_protocol = AP_OPENAI_RESPONSES, pst_structured_output = SO_JSON_SCHEMA,
       pst_base_url = ''https://api.openai.com/v1'', pst_api_key_env = ''OPENAI_API_KEY'',
       pst_allowed_hosts = [''api.openai.com''], pst_allowed_host_suffixes = [],
       pst_alternative_protocols = [AP_OPENAI_CHAT]\<rparr>
   | PN_ANTHROPIC_API \<Rightarrow> Some \<lparr>pst_protocol = AP_ANTHROPIC_MESSAGES, pst_structured_output = SO_JSON_SCHEMA,
       pst_base_url = ''https://api.anthropic.com'', pst_api_key_env = ''ANTHROPIC_API_KEY'',
       pst_allowed_hosts = [''api.anthropic.com''], pst_allowed_host_suffixes = [],
       pst_alternative_protocols = []\<rparr>
   | PN_DEEPSEEK_API \<Rightarrow> Some \<lparr>pst_protocol = AP_OPENAI_CHAT, pst_structured_output = SO_JSON_OBJECT,
       pst_base_url = ''https://api.deepseek.com'', pst_api_key_env = ''DEEPSEEK_API_KEY'',
       pst_allowed_hosts = [''api.deepseek.com''], pst_allowed_host_suffixes = [],
       pst_alternative_protocols = []\<rparr>
   | PN_QWEN_API \<Rightarrow> Some \<lparr>pst_protocol = AP_OPENAI_CHAT, pst_structured_output = SO_JSON_OBJECT,
       pst_base_url = ''https://dashscope.aliyuncs.com/compatible-mode/v1'', pst_api_key_env = ''DASHSCOPE_API_KEY'',
       pst_allowed_hosts = [''dashscope.aliyuncs.com'', ''dashscope-intl.aliyuncs.com'', ''dashscope-us.aliyuncs.com''],
       pst_allowed_host_suffixes = [''.dashscope.aliyuncs.com'', ''.maas.aliyuncs.com''],
       pst_alternative_protocols = []\<rparr>
   | PN_KIMI_API \<Rightarrow> Some \<lparr>pst_protocol = AP_OPENAI_CHAT, pst_structured_output = SO_JSON_SCHEMA,
       pst_base_url = ''https://api.moonshot.ai/v1'', pst_api_key_env = ''MOONSHOT_API_KEY'',
       pst_allowed_hosts = [''api.moonshot.ai'', ''api.moonshot.cn''], pst_allowed_host_suffixes = [],
       pst_alternative_protocols = []\<rparr>
   | PN_ZAI_API \<Rightarrow> Some \<lparr>pst_protocol = AP_OPENAI_CHAT, pst_structured_output = SO_JSON_OBJECT,
       pst_base_url = ''https://api.z.ai/api/paas/v4'', pst_api_key_env = ''ZAI_API_KEY'',
       pst_allowed_hosts = [''api.z.ai'', ''open.bigmodel.cn''], pst_allowed_host_suffixes = [],
       pst_alternative_protocols = []\<rparr>
   | _ \<Rightarrow> None)"

definition api_key_environment_name :: "llm_config \<Rightarrow> string option" where
  "api_key_environment_name c =
     (case api_api_key_env (lc_api c) of
        Some n \<Rightarrow> if n \<noteq> [] then Some n else map_option pst_api_key_env (preset_of (lc_provider c))
      | None \<Rightarrow> map_option pst_api_key_env (preset_of (lc_provider c)))"

definition always_reasons_error :: "string \<Rightarrow> string \<Rightarrow> provider_error" where
  "always_reasons_error model suggestion =
     llm_error (model @ '' always reasons and cannot honor effort: none; '' @ suggestion @ ''.'')"

definition validate_api_model_compatibility :: "llm_config \<Rightarrow> provider_error option" where
  "validate_api_model_compatibility c =
     (let model = py_lower (py_strip (case lc_model c of None \<Rightarrow> [] | Some m \<Rightarrow> m));
          no_effort = (lc_effort c = Some RE_NONE)
      in if lc_provider c = PN_ANTHROPIC_API \<and> no_effort then
           Some (llm_error ''Anthropic API cannot honor effort: none; use effort: low for its most efficient mode.'')
         else if lc_provider c \<noteq> PN_KIMI_API then None
         else if starts_with model ''kimi-k3'' then
           (if no_effort then Some (always_reasons_error ''Kimi K3''
              ''use effort: low or a model with switchable thinking'') else None)
         else if starts_with model ''kimi-k2.7-code'' then
           (if no_effort then Some (always_reasons_error ''Kimi K2.7 Code''
              ''use a model with switchable thinking, such as Kimi K2.6'') else None)
         else None)"

end
