(* ===== verification/LLM_Cache.thy ===== *)
theory LLM_Cache
  imports Provider_Presets
begin

section \<open>The cache of provider answers\<close>

text \<open>
  \<open>src/apex_ray/llm/cache.py\<close>. The cache is a directory with one file per key; a key is the hash of
  everything the answer depends on. A file that is missing, unreadable, of another version, kind or key,
  or whose response does not validate is a miss; a file that is not valid UTF-8 raises (the code catches
  \<open>OSError\<close> and \<open>JSONDecodeError\<close> only). A file is written to a temporary name and renamed, so it is
  replaced as a whole or not at all.

  Parameters: \<open>hash\<close> (SHA-256 of the canonical JSON of an identity), \<open>sha256\<close>, the environment, and the
  prompt payload of a pack.
\<close>

subsection \<open>Keys\<close>

record api_cache_identity =
  aci_api :: llmapi_config
  aci_base_url_sha256 :: "string option option"
  aci_api_key_sha256 :: "string option option"
  aci_header_value_sha256 :: "(string \<times> string option) list"

record provider_identity =
  pid_provider :: llm_provider_name
  pid_model :: "string option"
  pid_effort :: "llm_reasoning_effort option"
  pid_executable :: "string option"
  pid_api :: "api_cache_identity option"

definition env_digest :: "(string \<Rightarrow> string) \<Rightarrow> (string \<Rightarrow> string option) \<Rightarrow> string \<Rightarrow> string option" where
  "env_digest sha256 env name =
     (case env name of None \<Rightarrow> None | Some v \<Rightarrow> if v \<noteq> [] then Some (sha256 v) else None)"

definition provider_cache_identity ::
  "(string \<Rightarrow> string) \<Rightarrow> (string \<Rightarrow> string option) \<Rightarrow> llm_config \<Rightarrow> provider_identity" where
  "provider_cache_identity sha256 env c =
     (let api = lc_api c in
      \<lparr>pid_provider = lc_provider c, pid_model = lc_model c, pid_effort = lc_effort c,
       pid_executable = (case lc_provider c of PN_CODEX_CLI \<Rightarrow> Some (lc_codex_path c)
         | PN_CLAUDE_CODE_CLI \<Rightarrow> Some (lc_claude_path c) | _ \<Rightarrow> None),
       pid_api = (if lc_provider c \<in> {PN_CODEX_CLI, PN_CLAUDE_CODE_CLI, PN_FAKE} then None else Some
         \<lparr>aci_api = api,
          aci_base_url_sha256 = (case api_base_url_env api of
              Some n \<Rightarrow> if n \<noteq> [] then Some (env_digest sha256 env n) else None | None \<Rightarrow> None),
          aci_api_key_sha256 = map_option (env_digest sha256 env) (api_key_environment_name c),
          aci_header_value_sha256 = dict_of (py_lower \<circ> fst) (\<lambda>(_, n). env_digest sha256 env n)
            (sort (api_headers_from_env api))\<rparr>)\<rparr>)"

definition review_prompt_version :: "llm_config \<Rightarrow> string" where
  "review_prompt_version c = (if lc_review_depth c = RD_SHALLOW then ''review-shallow-v4'' else ''review-v11'')"

definition verifier_prompt_version :: string where
  "verifier_prompt_version = ''verify-v11''"

definition llm_cache_version :: string where
  "llm_cache_version = ''apex-ray-llm-cache-v2''"

datatype 'p cache_identity =
    Review_Identity (cid_version: string) (cid_prompt: string) (cid_depth: review_depth)
      (cid_provider: provider_identity) (cid_payload: 'p)
  | Verify_Identity (cid_version: string) (cid_prompt: string) (cid_provider: provider_identity)
      (cid_finding: finding) (cid_payload: 'p)

definition review_identity ::
  "(string \<Rightarrow> string) \<Rightarrow> (string \<Rightarrow> string option) \<Rightarrow> llm_config \<Rightarrow> 'p \<Rightarrow> 'p cache_identity" where
  "review_identity sha256 env c payload =
     Review_Identity llm_cache_version (review_prompt_version c) (lc_review_depth c)
       (provider_cache_identity sha256 env c) payload"

definition review_cache_key ::
  "('p cache_identity \<Rightarrow> string) \<Rightarrow> (string \<Rightarrow> string) \<Rightarrow> (string \<Rightarrow> string option) \<Rightarrow> llm_config \<Rightarrow> 'p \<Rightarrow> string" where
  "review_cache_key hash sha256 env c payload = hash (review_identity sha256 env c payload)"

definition verification_cache_key ::
  "('p cache_identity \<Rightarrow> string) \<Rightarrow> (string \<Rightarrow> string) \<Rightarrow> (string \<Rightarrow> string option) \<Rightarrow> finding \<Rightarrow> 'p \<Rightarrow> llm_config \<Rightarrow> string" where
  "verification_cache_key hash sha256 env f payload c =
     hash (Verify_Identity llm_cache_version verifier_prompt_version (provider_cache_identity sha256 env c) f payload)"

subsection \<open>Entries\<close>

datatype cached_response =
    Cached_Review "finding list"
  | Cached_Verify verification_response
  | Malformed_Response

record cache_entry =
  ce_version :: string
  ce_kind :: string
  ce_key :: string
  ce_provider :: llm_provider_name
  ce_model :: "string option"
  ce_effort :: "llm_reasoning_effort option"
  ce_prompt_version :: string
  ce_created_at :: string
  ce_response :: cached_response

datatype cache_file = Unreadable_File | Undecodable_File | Entry_File cache_entry

type_synonym llm_cache = "(string \<times> cache_file) list"

definition read_cache_entry :: "llm_cache \<Rightarrow> string \<Rightarrow> string \<Rightarrow> failure + cache_entry option" where
  "read_cache_entry cache key kind =
     (case dict_get cache key of
        None \<Rightarrow> Inr None
      | Some Unreadable_File \<Rightarrow> Inr None
      | Some Undecodable_File \<Rightarrow> Inl (Other_Failure ''utf-8 codec cannot decode the cache file'')
      | Some (Entry_File e) \<Rightarrow>
          Inr (if ce_version e \<noteq> llm_cache_version \<or> ce_kind e \<noteq> kind \<or> ce_key e \<noteq> key then None else Some e))"

definition read_cached_review :: "llm_cache \<Rightarrow> string \<Rightarrow> failure + finding list option" where
  "read_cached_review cache key =
     map_sum id (\<lambda>entry. case entry of None \<Rightarrow> None
        | Some e \<Rightarrow> (case ce_response e of Cached_Review fs \<Rightarrow> Some fs | _ \<Rightarrow> None))
       (read_cache_entry cache key ''review'')"

definition read_cached_verification :: "llm_cache \<Rightarrow> string \<Rightarrow> finding \<Rightarrow> failure + finding_verification option" where
  "read_cached_verification cache key f =
     map_sum id (\<lambda>entry. case entry of None \<Rightarrow> None
        | Some e \<Rightarrow> (case ce_response e of
            Cached_Verify r \<Rightarrow> Some (new_verification f (vr_approved r) (vr_confidence r) (vr_reason r)) | _ \<Rightarrow> None))
       (read_cache_entry cache key ''verify'')"

definition write_cached_review :: "string \<Rightarrow> string \<Rightarrow> llm_config \<Rightarrow> finding list \<Rightarrow> llm_cache \<Rightarrow> llm_cache" where
  "write_cached_review now key c fs cache =
     dict_set key (Entry_File \<lparr>ce_version = llm_cache_version, ce_kind = ''review'', ce_key = key,
       ce_provider = lc_provider c, ce_model = lc_model c, ce_effort = lc_effort c,
       ce_prompt_version = review_prompt_version c, ce_created_at = now, ce_response = Cached_Review fs\<rparr>) cache"

definition write_cached_verification ::
  "string \<Rightarrow> string \<Rightarrow> llm_config \<Rightarrow> finding_verification \<Rightarrow> llm_cache \<Rightarrow> llm_cache" where
  "write_cached_verification now key c v cache =
     dict_set key (Entry_File \<lparr>ce_version = llm_cache_version, ce_kind = ''verify'', ce_key = key,
       ce_provider = lc_provider c, ce_model = lc_model c, ce_effort = lc_effort c,
       ce_prompt_version = verifier_prompt_version, ce_created_at = now,
       ce_response = Cached_Verify \<lparr>vr_approved = fv_approved v, vr_confidence = fv_confidence v,
         vr_reason = fv_reason v\<rparr>\<rparr>) cache"

definition llm_cache_used :: "llm_config \<Rightarrow> bool" where
  "llm_cache_used c \<longleftrightarrow> lc_cache_enabled c \<and> \<not> (lc_provider c = PN_FAKE \<and> lc_cache_dir c = None)"

subsection \<open>The contract of a cache\<close>

text \<open>What the review loop relies on: what was written is read back under its key, and writing leaves
  every other key alone. A failing read is neither a hit nor a miss.\<close>

locale answer_cache =
  fixes lookup :: "'c \<Rightarrow> string \<Rightarrow> 'a \<Rightarrow> 'e + 'v option"
    and store :: "string \<Rightarrow> 'v \<Rightarrow> 'c \<Rightarrow> 'c"
    and shown :: "'a \<Rightarrow> 'v \<Rightarrow> 'v"
  assumes stored: "lookup (store key v cache) key a = Inr (Some (shown a v))"
    and others: "key' \<noteq> key \<Longrightarrow> lookup (store key v cache) key' a = lookup cache key' a"
begin

definition store_all :: "(string \<times> 'v) list \<Rightarrow> 'c \<Rightarrow> 'c" where
  "store_all items cache = fold (\<lambda>(key, v) c. store key v c) items cache"

lemma lookup_store_all:
  "lookup (store_all items cache) key a =
     (case map_of (rev items) key of Some v \<Rightarrow> Inr (Some (shown a v)) | None \<Rightarrow> lookup cache key a)"
proof (induction items rule: rev_induct)
  case (snoc item items)
  obtain k v where item: "item = (k, v)" by fastforce
  show ?case
    using snoc by (cases "key = k") (simp_all add: item store_all_def stored others)
qed (simp add: store_all_def)

end

lemma read_cache_entry_set:
  "read_cache_entry (dict_set key (Entry_File e) cache) key' kind =
     (if key' = key then Inr (if ce_version e \<noteq> llm_cache_version \<or> ce_kind e \<noteq> kind \<or> ce_key e \<noteq> key
        then None else Some e) else read_cache_entry cache key' kind)"
  by (simp add: read_cache_entry_def update_conv')

interpretation review_cache: answer_cache "\<lambda>cache key (_ :: unit). read_cached_review cache key"
    "\<lambda>key fs cache. write_cached_review now key c fs cache" "\<lambda>_ fs. fs"
  by unfold_locales (simp_all add: read_cached_review_def write_cached_review_def read_cache_entry_set)

definition shown_decision :: "finding \<Rightarrow> finding_verification \<Rightarrow> finding_verification" where
  "shown_decision f v = new_verification f (fv_approved v) (fv_confidence v) (fv_reason v)"

interpretation verification_cache: answer_cache read_cached_verification
    "\<lambda>key v cache. write_cached_verification now key c v cache" shown_decision
  by unfold_locales
    (simp_all add: read_cached_verification_def write_cached_verification_def read_cache_entry_set shown_decision_def)

text \<open>Answers are shared between runs only when everything they depend on agrees: where the hash has no
  collision, two configurations that reach the same cached review have the same provider, model, effort,
  executable, API settings, endpoint and credentials digest, review depth, and the same pack.\<close>

theorem cached_review_is_for_same_question:
  assumes "inj_on hash {review_identity sha256 env c payload, review_identity sha256' env' d payload'}"
    and "review_cache_key hash sha256 env c payload = review_cache_key hash sha256' env' d payload'"
  shows "provider_cache_identity sha256 env c = provider_cache_identity sha256' env' d
    \<and> lc_provider c = lc_provider d \<and> lc_model c = lc_model d \<and> lc_effort c = lc_effort d
    \<and> lc_review_depth c = lc_review_depth d \<and> payload = payload'"
proof -
  from inj_onD [OF assms(1) assms(2) [unfolded review_cache_key_def]]
  have same: "provider_cache_identity sha256 env c = provider_cache_identity sha256' env' d"
    and rest: "lc_review_depth c = lc_review_depth d" "payload = payload'"
    by (simp_all add: review_identity_def)
  from arg_cong [OF same, of pid_provider] arg_cong [OF same, of pid_model] arg_cong [OF same, of pid_effort]
  have "lc_provider c = lc_provider d \<and> lc_model c = lc_model d \<and> lc_effort c = lc_effort d"
    by (simp add: provider_cache_identity_def Let_def)
  with same rest show ?thesis by simp
qed

lemma cached_review_is_for_same_question_witness:
  "provider_cache_identity id (\<lambda>_. None) default_llm_config
     = provider_cache_identity id (\<lambda>_. Some ''x'') default_llm_config"
proof -
  let ?h = "\<lambda>i :: unit cache_identity. ''k''"
  have "review_identity id (\<lambda>_. None) default_llm_config () = review_identity id (\<lambda>_. Some ''x'') default_llm_config ()"
    by (simp add: review_identity_def provider_cache_identity_def default_llm_config_def)
  then have "inj_on ?h {review_identity id (\<lambda>_. None) default_llm_config (),
      review_identity id (\<lambda>_. Some ''x'') default_llm_config ()}" by simp
  from cached_review_is_for_same_question [OF this] show ?thesis by (simp add: review_cache_key_def)
qed

end
