(* ===== verification/Context_Findings.thy ===== *)
theory Context_Findings
  imports Findings
begin

section \<open>Findings of one provider answer\<close>

text \<open>
  \<open>src/apex_ray/llm/findings.py\<close>. A provider may answer anything: only findings about a file shown in
  the pack are kept, their provenance is overwritten, and findings that say the same are merged.
\<close>

text \<open>\<open>posixpath.normpath\<close>, by path components; a component list is kept in reverse.\<close>

fun norm_components :: "bool \<Rightarrow> string list \<Rightarrow> string list \<Rightarrow> string list" where
  "norm_components rooted new [] = rev new"
| "norm_components rooted new (c # cs) =
     (if c = [] \<or> c = ''.'' then norm_components rooted new cs
      else if c \<noteq> ''..'' \<or> (\<not> rooted \<and> new = []) \<or> (new \<noteq> [] \<and> hd new = ''..'')
        then norm_components rooted (c # new) cs
      else norm_components rooted (tl new) cs)"

definition normpath :: "string \<Rightarrow> string" where
  "normpath path =
     (if path = [] then ''.''
      else
        (let slashes = (if starts_with path ''//'' \<and> \<not> starts_with path ''///'' then ''//''
               else if starts_with path ''/'' then ''/'' else []);
             body = slashes @ join ''/'' (norm_components (slashes \<noteq> []) [] (split_char (CHR ''/'') path))
         in if body = [] then ''.'' else body))"

definition normalize_context_file :: "string \<Rightarrow> string" where
  "normalize_context_file path =
     remove_prefix (normpath (replace_char backslash (CHR ''/'') (py_strip path))) ''./''"

definition context_files :: "context_pack \<Rightarrow> string set" where
  "context_files p = set (map normalize_context_file
     (cp_file p # map cs_file (cp_changed_snippets p @ cp_reference_snippets p @ cp_callee_snippets p
        @ cp_contract_snippets p @ cp_metadata_snippets p @ cp_related_test_snippets p)
      @ map ar_file (cp_references p @ cp_callees p @ cp_contracts p @ cp_metadata p)
      @ cp_related_tests p))"

definition belongs_to_pack :: "context_pack \<Rightarrow> finding \<Rightarrow> bool" where
  "belongs_to_pack p f \<longleftrightarrow>
     (fi_context_pack_id f = [] \<or> fi_context_pack_id f = cp_id p)
     \<and> normalize_context_file (fi_file f) \<in> context_files p"

definition filter_findings_for_context_pack :: "finding list \<Rightarrow> context_pack \<Rightarrow> finding list" where
  "filter_findings_for_context_pack fs p =
     map (\<lambda>f. f\<lparr>fi_context_pack_id := cp_id p, fi_file := normalize_context_file (fi_file f),
           fi_reviewer_context_pack_ids := []\<rparr>)
       (filter (belongs_to_pack p) fs)"

definition normalize_for_dedupe :: "string \<Rightarrow> string" where
  "normalize_for_dedupe v = join '' '' (py_split (py_strip (py_lower v)))"

definition finding_rank :: "finding \<Rightarrow> int \<times> int" where
  "finding_rank f =
     (case fi_severity f of FS_CRITICAL \<Rightarrow> 4 | FS_HIGH \<Rightarrow> 3 | FS_MEDIUM \<Rightarrow> 2 | FS_LOW \<Rightarrow> 1,
      case fi_confidence f of FC_HIGH \<Rightarrow> 3 | FC_MEDIUM \<Rightarrow> 2 | FC_LOW \<Rightarrow> 1)"

type_synonym dedupe_id = "string \<times> string \<times> int option \<times> string"

definition dedupe_key :: "finding \<Rightarrow> dedupe_id" where
  "dedupe_key f = (normalize_for_dedupe (fi_title f), normalize_context_file (fi_file f), fi_line f,
     normalize_for_dedupe (fi_failure_mode f))"

definition dedupe_step :: "finding \<Rightarrow> (dedupe_id \<times> finding) list \<Rightarrow> (dedupe_id \<times> finding) list" where
  "dedupe_step f deduped =
     (case dict_get deduped (dedupe_key f) of
        None \<Rightarrow> dict_set (dedupe_key f) f deduped
      | Some current \<Rightarrow>
          dict_set (dedupe_key f)
            (merge_finding_reviewer_provenance
              (if finding_rank current < finding_rank f then f else current) [current, f]) deduped)"

definition dedupe_findings :: "finding list \<Rightarrow> finding list" where
  "dedupe_findings fs = map snd (fold dedupe_step fs [])"

definition verification_for_finding :: "finding_verification \<Rightarrow> finding \<Rightarrow> finding_verification" where
  "verification_for_finding v f =
     (if fv_finding v = f then v
      else \<lparr>fv_finding = f, fv_reviewer_id = ''general'', fv_approved = fv_approved v,
        fv_confidence = fv_confidence v, fv_reason = fv_reason v, fv_review_snapshot_id = None,
        fv_superseded = False, fv_superseded_reason = None\<rparr>)"

subsection \<open>What is kept\<close>

text \<open>Only what the pack shows can be reported: the findings kept from an answer are exactly those
  about a file of the pack, in order, moved to the pack and stripped of any claimed provenance.\<close>

lemma filter_findings_in_context:
  "f \<in> set (filter_findings_for_context_pack fs p) \<Longrightarrow>
     fi_context_pack_id f = cp_id p \<and> fi_file f \<in> context_files p \<and> fi_reviewer_context_pack_ids f = []"
  by (auto simp: filter_findings_for_context_pack_def belongs_to_pack_def)

subsection \<open>Merging findings that say the same\<close>

lemma dedupe_key_merge [simp]: "dedupe_key (merge_finding_reviewer_provenance f cs) = dedupe_key f"
  by (simp add: merge_finding_reviewer_provenance_def dedupe_key_def Let_def)

lemma finding_rank_merge [simp]: "finding_rank (merge_finding_reviewer_provenance f cs) = finding_rank f"
  by (simp add: merge_finding_reviewer_provenance_def finding_rank_def Let_def)

text \<open>The best rank and all the reviewers behind a key, read off the findings seen so far.\<close>

definition with_key :: "dedupe_id \<Rightarrow> finding list \<Rightarrow> finding list" where
  "with_key k fs = filter (\<lambda>f. dedupe_key f = k) fs"

definition represents :: "finding \<Rightarrow> finding list \<Rightarrow> bool" where
  "represents f fs \<longleftrightarrow> fs \<noteq> [] \<and> finding_rank f = Max (finding_rank ` set fs)
     \<and> effective_set f = (\<Union>g \<in> set fs. effective_set g)"

definition deduped_inv :: "finding list \<Rightarrow> (dedupe_id \<times> finding) list \<Rightarrow> bool" where
  "deduped_inv fs d \<longleftrightarrow> distinct (map fst d) \<and> list_all (\<lambda>(k, f). dedupe_key f = k) d
     \<and> (\<forall>k. case dict_get d k of None \<Rightarrow> with_key k fs = [] | Some f \<Rightarrow> represents f (with_key k fs))"

lemma dedupe_step_inv:
  assumes "deduped_inv fs d"
  shows "deduped_inv (fs @ [f]) (dedupe_step f d)"
proof -
  define k where "k = dedupe_key f"
  define g where "g = (case dict_get d k of None \<Rightarrow> f | Some current \<Rightarrow>
    merge_finding_reviewer_provenance (if finding_rank current < finding_rank f then f else current) [current, f])"
  have step: "dedupe_step f d = dict_set k g d"
    by (simp add: dedupe_step_def k_def g_def split: option.split)
  have cur: "dedupe_key c = k" if "dict_get d k = Some c" for c
    using assms map_of_SomeD [OF that] by (auto simp: deduped_inv_def list_all_iff)
  then have key: "dedupe_key g = k"
    by (auto simp: g_def k_def split: option.split)
  have view: "case dict_get d j of None \<Rightarrow> with_key j fs = [] | Some f \<Rightarrow> represents f (with_key j fs)" for j
    using assms unfolding deduped_inv_def by (elim conjE allE)
  have new: "represents g (with_key k fs @ [f])"
  proof (cases "dict_get d k")
    case None
    with view [of k] show ?thesis by (simp add: g_def represents_def)
  next
    case (Some c)
    with view [of k] have c: "represents c (with_key k fs)" by simp
    then have "finding_rank g = Max (finding_rank ` set (with_key k fs @ [f]))"
    proof -
      have "Max (finding_rank ` set (with_key k fs @ [f])) = max (finding_rank f) (Max (finding_rank ` set (with_key k fs)))"
        using c by (simp add: represents_def)
      also have "Max (finding_rank ` set (with_key k fs)) = finding_rank c"
        using c by (simp only: represents_def)
      also have "max (finding_rank f) (finding_rank c) = finding_rank g"
        by (auto simp: g_def Some max_def)
      finally show ?thesis by (rule sym)
    qed
    moreover have "effective_set g = effective_set c \<union> effective_set f"
      by (auto simp: g_def Some merge_effective)
    ultimately show ?thesis using c by (auto simp: represents_def)
  qed
  have "list_all (\<lambda>(k, f). dedupe_key f = k) (dict_set k g d)"
    using assms key by (auto simp: deduped_inv_def list_all_iff dest!: dict_set_entries)
  moreover have "case dict_get (dict_set k g d) j of None \<Rightarrow> with_key j (fs @ [f]) = []
      | Some f' \<Rightarrow> represents f' (with_key j (fs @ [f]))" for j
  proof (cases "j = k")
    case True
    with new show ?thesis by (simp add: update_conv' with_key_def k_def)
  next
    case False
    then have "with_key j (fs @ [f]) = with_key j fs" by (auto simp: with_key_def k_def)
    with view [of j] False show ?thesis by (simp add: update_conv' split: option.splits)
  qed
  ultimately show ?thesis
    using assms by (simp add: deduped_inv_def step)
qed

lemma dedupe_inv: "deduped_inv fs (fold dedupe_step fs [])"
proof (induction fs rule: rev_induct)
  case Nil
  then show ?case by (simp add: deduped_inv_def with_key_def)
next
  case (snoc f fs)
  then show ?case by (simp add: dedupe_step_inv)
qed

text \<open>Merging keeps one finding for every distinct statement (title, file, line and failure mode up to
  case and blanks): no statement is lost or doubled, the one kept has the highest severity, then
  confidence, and carries every reviewer that reported it.\<close>

theorem dedupe_findings_keeps_best:
  "distinct (map dedupe_key (dedupe_findings fs))
   \<and> dedupe_key ` set (dedupe_findings fs) = dedupe_key ` set fs
   \<and> list_all (\<lambda>f. finding_rank f = Max (finding_rank ` set (with_key (dedupe_key f) fs))
        \<and> effective_set f = (\<Union>g \<in> set (with_key (dedupe_key f) fs). effective_set g)) (dedupe_findings fs)"
proof -
  define d where "d = fold dedupe_step fs []"
  have inv: "deduped_inv fs d" unfolding d_def by (rule dedupe_inv)
  then have keys: "map dedupe_key (map snd d) = map fst d" and dist: "distinct (map fst d)"
    by (auto simp: deduped_inv_def list_all_iff)
  have entry: "dict_get d (dedupe_key f) = Some f" if "f \<in> set (map snd d)" for f
    using that inv dist by (auto simp: deduped_inv_def list_all_iff)
  have "fst ` set d = dedupe_key ` set fs"
  proof -
    have "k \<in> fst ` set d \<longleftrightarrow> with_key k fs \<noteq> []" for k
    proof -
      have "case dict_get d k of None \<Rightarrow> with_key k fs = [] | Some f \<Rightarrow> represents f (with_key k fs)"
        using inv unfolding deduped_inv_def by (elim conjE allE)
      then show ?thesis
        by (cases "dict_get d k") (auto simp: represents_def map_of_eq_None_iff dest: map_of_SomeD intro: rev_image_eqI)
    qed
    moreover have "with_key k fs \<noteq> [] \<longleftrightarrow> k \<in> dedupe_key ` set fs" for k
      by (induction fs) (auto simp: with_key_def)
    ultimately show ?thesis by (intro set_eqI) simp
  qed
  moreover have "list_all (\<lambda>f. finding_rank f = Max (finding_rank ` set (with_key (dedupe_key f) fs))
      \<and> effective_set f = (\<Union>g \<in> set (with_key (dedupe_key f) fs). effective_set g)) (map snd d)"
    unfolding list_all_iff
  proof
    fix f assume "f \<in> set (map snd d)"
    from entry [OF this] have f: "dict_get d (dedupe_key f) = Some f" .
    have "case dict_get d (dedupe_key f) of None \<Rightarrow> with_key (dedupe_key f) fs = []
        | Some f' \<Rightarrow> represents f' (with_key (dedupe_key f) fs)"
      using inv unfolding deduped_inv_def by (elim conjE allE)
    with f have "represents f (with_key (dedupe_key f) fs)" by simp
    then show "finding_rank f = Max (finding_rank ` set (with_key (dedupe_key f) fs))
        \<and> effective_set f = (\<Union>g \<in> set (with_key (dedupe_key f) fs). effective_set g)"
      unfolding represents_def by (elim conjE) (intro conjI)
  qed
  moreover have "dedupe_key ` set (map snd d) = fst ` set d"
    using keys by (metis list.set_map)
  ultimately show ?thesis
    unfolding dedupe_findings_def d_def [symmetric] keys using dist by blast
qed

end
