(* ===== verification/Review_Run.thy ===== *)
theory Review_Run
  imports Route_Circuit LLM_Cache Context_Findings Reviewers Usage Selection_Limits Verifications
begin

section \<open>Reviewing packs and verifying findings\<close>

text \<open>
  The loops of \<open>src/apex_ray/llm/review.py\<close>, for one worker (the pool that runs several is in
  \<open>Worker_Pool\<close>). A pack is reviewed on its route: an answer is taken from the cache, or asked from the
  provider unless the circuit of the route is open; a failure is recorded, never raised, and an exhausted
  quota is tried once more on the fallback route. Findings are verified in groups that share a pack and a
  route; a finding whose verification did not complete is not approved.

  The state is the world the workers share: the breaker, the cache directory, and the log of the provider
  calls with the status each ended with. Parameters, in \<open>llm_services\<close>: what the provider answers, given
  the world; the rendered prompts and payloads (\<open>llm/prompts.py\<close>, \<open>memory.py\<close>), hash functions, the
  environment and the endpoint check of \<open>Routing\<close>; whether a cache file can be written; clocks.
\<close>

record llm_world =
  lw_circuit :: circuit
  lw_cache :: llm_cache
  lw_calls :: "(circuit_key \<times> string \<times> string) list"

record 'p llm_services =
  ls_endpoint_ok :: "string \<Rightarrow> bool \<Rightarrow> bool"
  ls_set_fields :: "string \<Rightarrow> string list"
  ls_prompt :: "review_depth \<Rightarrow> context_pack \<Rightarrow> string"
  ls_review_payload :: "review_depth \<Rightarrow> context_pack \<Rightarrow> 'p"
  ls_verify_payload :: "context_pack \<Rightarrow> 'p"
  ls_verify_prompt :: "finding list \<Rightarrow> context_pack \<Rightarrow> string"
  ls_hash :: "'p cache_identity \<Rightarrow> string"
  ls_sha256 :: "string \<Rightarrow> string"
  ls_env :: "string \<Rightarrow> string option"
  ls_now :: "llm_world \<Rightarrow> string"
  ls_elapsed_ms :: "llm_world \<Rightarrow> int"
  ls_write_error :: "llm_world \<Rightarrow> string \<Rightarrow> string option"
  ls_review :: "llm_world \<Rightarrow> llm_config \<Rightarrow> context_pack \<Rightarrow> string \<Rightarrow> failure + llm_review_result"
  ls_verify :: "llm_world \<Rightarrow> llm_config \<Rightarrow> context_pack \<Rightarrow> finding list \<Rightarrow> failure + llm_verification_result"

definition log_call :: "llm_config \<Rightarrow> llm_config \<Rightarrow> string option \<Rightarrow> string \<Rightarrow> llm_world \<Rightarrow> llm_world" where
  "log_call config c profile status w =
     w\<lparr>lw_circuit := record_outcome (lw_circuit w) c profile status (lc_max_consecutive_provider_failures config),
       lw_calls := lw_calls w @ [(circuit_route_key c, route_label c profile, status)]\<rparr>"

subsection \<open>Runs\<close>

definition base_run :: "string \<Rightarrow> route \<Rightarrow> string \<Rightarrow> string \<Rightarrow> string \<Rightarrow> string \<Rightarrow> int \<Rightarrow> llm_run" where
  "base_run kind r version reviewer_id pack_id status duration =
     (let (c, profile, reason) = r in
      \<lparr>run_kind = kind, run_provider = llm_provider_name_value (lc_provider c), run_model = lc_model c,
       run_effort = map_option llm_reasoning_effort_value (lc_effort c), run_profile = profile,
       run_route_reason = Some reason, run_prompt_version = Some version, run_reviewer_id = reviewer_id,
       run_context_pack_id = pack_id, run_status = status, run_duration_ms = duration, run_input_chars = 0,
       run_estimated_input_tokens = 0, run_actual_input_tokens = 0, run_actual_cached_input_tokens = 0,
       run_actual_output_tokens = 0, run_actual_reasoning_output_tokens = 0, run_actual_total_tokens = 0,
       run_actual_cache_read_input_tokens = 0, run_actual_cache_creation_input_tokens = 0,
       run_estimated_saved_input_tokens = 0, run_estimated_cost_usd = None, run_usage_source = None,
       run_findings_count = 0, run_cache_hit = False, run_cache_hits = 0, run_cache_misses = 0,
       run_cache_key = None, run_error = None\<rparr>)"

definition provider_tokens :: "int \<Rightarrow> llm_config \<Rightarrow> int" where
  "provider_tokens chars c = estimate_provider_input_tokens chars (Some (llm_provider_name_value (lc_provider c)))"

definition review_kind :: "review_depth \<Rightarrow> string" where
  "review_kind depth = (if depth = RD_SHALLOW then ''review_shallow'' else ''review'')"

definition skipped_review_run ::
  "context_pack \<Rightarrow> route \<Rightarrow> review_depth \<Rightarrow> string \<Rightarrow> string \<Rightarrow> string option \<Rightarrow> llm_run" where
  "skipped_review_run p r depth reviewer_id reason cache_key =
     (base_run (review_kind depth) r (review_prompt_version (fst r)) reviewer_id (cp_id p)
        ''skipped_circuit_open'' 0)
     \<lparr>run_cache_misses := (if text_set cache_key then 1 else 0), run_cache_key := cache_key,
      run_error := Some reason\<rparr>"

subsection \<open>Reviewing one pack\<close>

record review_task =
  rvt_config :: llm_config
  rvt_depth :: review_depth
  rvt_reviewer :: "reviewer_config option"

definition task_reviewer_id :: "review_task \<Rightarrow> string" where
  "task_reviewer_id t = (case rvt_reviewer t of None \<Rightarrow> ''general'' | Some r \<Rightarrow> rv_id r)"

definition task_base_config :: "review_task \<Rightarrow> llm_config" where
  "task_base_config t = (rvt_config t)\<lparr>lc_review_depth := rvt_depth t\<rparr>"

datatype answer =
    Answered "finding list" "llm_usage option" bool
  | Circuit_Open string string
  | Failed_With failure bool

text \<open>The body of the \<open>try\<close>: what a route answers, and whether the provider was called.\<close>

definition ask_for_review ::
  "'p llm_services \<Rightarrow> review_task \<Rightarrow> context_pack \<Rightarrow> llm_config \<Rightarrow> string option \<Rightarrow> llm_world \<Rightarrow> answer \<times> llm_cache" where
  "ask_for_review s t p c cache_key w =
     (let cache = lw_cache w in
      case validate_api_model_compatibility c of
        Some e \<Rightarrow> (Failed_With (Provider_Failure e) False, cache)
      | None \<Rightarrow>
          (case (if text_set cache_key \<and> \<not> lc_refresh_cache (rvt_config t)
                 then read_cached_review cache (the cache_key) else Inr None) of
             Inl e \<Rightarrow> (Failed_With e False, cache)
           | Inr (Some fs) \<Rightarrow> (Answered fs None False, cache)
           | Inr None \<Rightarrow>
               (case open_failure (lw_circuit w) c of
                  Some (reason, status) \<Rightarrow> (Circuit_Open reason status, cache)
                | None \<Rightarrow>
                    (case ls_review s w c p (ls_prompt s (rvt_depth t) p) of
                       Inl e \<Rightarrow> (Failed_With e True, cache)
                     | Inr result \<Rightarrow>
                         (if text_set cache_key then
                            (case ls_write_error s w (the cache_key) of
                               Some e \<Rightarrow> (Failed_With (Other_Failure e) True, cache)
                             | None \<Rightarrow> (Answered (lrr_findings result) (lrr_usage result) True,
                                 write_cached_review (ls_now s w) (the cache_key) c (lrr_findings result) cache))
                          else (Answered (lrr_findings result) (lrr_usage result) True, cache))))))"

definition own_findings :: "review_task \<Rightarrow> context_pack \<Rightarrow> finding list \<Rightarrow> finding list" where
  "own_findings t p fs =
     map (\<lambda>f. f\<lparr>fi_reviewer_ids := (case rvt_reviewer t of None \<Rightarrow> [] | Some r \<Rightarrow> [rv_id r]),
           fi_reviewer_context_pack_ids := [(task_reviewer_id t, [cp_id p])]\<rparr>)
       (filter_findings_for_context_pack fs p)"

definition review_key_for :: "'p llm_services \<Rightarrow> review_task \<Rightarrow> context_pack \<Rightarrow> llm_config \<Rightarrow> string option" where
  "review_key_for s t p c =
     (if llm_cache_used (rvt_config t)
      then Some (review_cache_key (ls_hash s) (ls_sha256 s) (ls_env s) c (ls_review_payload s (rvt_depth t) p))
      else None)"

text \<open>One round of the loop over the routes: the findings, or the status to fall back on, with the run.\<close>

definition review_attempt ::
  "'p llm_services \<Rightarrow> review_task \<Rightarrow> context_pack \<Rightarrow> route \<Rightarrow> llm_world
     \<Rightarrow> (string + finding list) \<times> llm_run \<times> llm_world" where
  "review_attempt s t p r w =
     (let (c, profile, reason) = r;
          reviewer_id = task_reviewer_id t;
          cache_key = review_key_for s t p c;
          kept = text_set cache_key;
          chars = int (length (ls_prompt s (rvt_depth t) p));
          (answer, cache) = ask_for_review s t p c cache_key w;
          w1 = w\<lparr>lw_cache := cache\<rparr>;
          run = (\<lambda>status. base_run (review_kind (rvt_depth t)) r (review_prompt_version c) reviewer_id (cp_id p)
                   status (ls_elapsed_ms s w1))
      in case answer of
           Circuit_Open reason status \<Rightarrow>
             (Inl status, skipped_review_run p r (rvt_depth t) reviewer_id reason cache_key, w1)
         | Failed_With e called \<Rightarrow>
             (let status = classify_llm_provider_error e;
                  sent = (if called then chars else 0)
              in (Inl status,
                  (run status)\<lparr>run_input_chars := sent, run_estimated_input_tokens := provider_tokens sent c,
                    run_cache_misses := (if kept \<and> called then 1 else 0), run_cache_key := cache_key,
                    run_error := Some (failure_text e)\<rparr>,
                  if called then log_call (rvt_config t) c profile status w1 else w1))
         | Answered fs usage called \<Rightarrow>
             (let found = own_findings t p fs;
                  hit = \<not> called;
                  sent = (if called then chars else 0)
              in (Inr found,
                  set_run_usage usage ((run ''ok'')\<lparr>run_input_chars := sent,
                    run_estimated_input_tokens := provider_tokens sent c,
                    run_findings_count := int (length found), run_cache_hit := hit,
                    run_cache_hits := (if hit then 1 else 0),
                    run_cache_misses := (if kept \<and> \<not> hit then 1 else 0), run_cache_key := cache_key,
                    run_estimated_saved_input_tokens := (if hit then provider_tokens chars c else 0)\<rparr>),
                  if called then log_call (rvt_config t) c profile ''ok'' w1 else w1)))"

function review_attempts ::
  "'p llm_services \<Rightarrow> review_task \<Rightarrow> context_pack \<Rightarrow> route list \<Rightarrow> bool \<Rightarrow> llm_run list \<Rightarrow> llm_world
     \<Rightarrow> routing_error + (finding list \<times> llm_run list) \<times> llm_world" where
  "review_attempts s t p [] attempted runs w = Inr (([], runs), w)"
| "review_attempts s t p (r # attempts) attempted runs w =
     (let (result, run, w') = review_attempt s t p r w in
      case result of
        Inr found \<Rightarrow> Inr ((found, runs @ [run]), w')
      | Inl status \<Rightarrow>
          (case fallback_review_config_after_error (ls_endpoint_ok s) (ls_set_fields s) (task_base_config t)
                  (fst (snd r)) status of
             Inl e \<Rightarrow> Inl e
           | Inr None \<Rightarrow> Inr (([], runs @ [run]), w')
           | Inr (Some fallback) \<Rightarrow>
               (if attempted then Inr (([], runs @ [run]), w')
                else review_attempts s t p (attempts @ [fallback]) True (runs @ [run]) w')))"
  by pat_completeness auto

text \<open>The loop ends: a round removes a route, and a route is added once at most.\<close>

termination
  by (relation "measure (\<lambda>(s, t, p, attempts, attempted, runs, w). 2 * length attempts + (if attempted then 0 else 3))")
    auto

declare review_attempts.simps(2) [simp del]

definition review_pack ::
  "'p llm_services \<Rightarrow> review_task \<Rightarrow> context_pack \<Rightarrow> llm_world
     \<Rightarrow> routing_error + (finding list \<times> llm_run list) \<times> llm_world" where
  "review_pack s t p w =
     (case review_config_for_pack (ls_endpoint_ok s) (ls_set_fields s) (task_base_config t) p of
        Inl e \<Rightarrow> Inl e
      | Inr r \<Rightarrow> review_attempts s t p [r] False [] w)"

subsection \<open>Reviewing all packs\<close>

fun review_packs ::
  "'p llm_services \<Rightarrow> review_task \<Rightarrow> context_pack list \<Rightarrow> llm_world
     \<Rightarrow> routing_error + (finding list \<times> llm_run list) list \<times> llm_world" where
  "review_packs s t [] w = Inr ([], w)"
| "review_packs s t (p # ps) w =
     (case review_pack s t p w of
        Inl e \<Rightarrow> Inl e
      | Inr (result, w') \<Rightarrow> map_sum id (\<lambda>(results, w''). (result # results, w'')) (review_packs s t ps w'))"

definition collect_reviews :: "(finding list \<times> llm_run list) list \<Rightarrow> finding list \<times> llm_run list" where
  "collect_reviews results =
     fold (\<lambda>(fs, rs) (findings, runs). (dedupe_findings (findings @ fs), runs @ rs)) results ([], [])"

definition review_context_packs ::
  "'p llm_services \<Rightarrow> review_task \<Rightarrow> context_pack list \<Rightarrow> llm_world
     \<Rightarrow> routing_error + (finding list \<times> llm_run list) \<times> llm_world" where
  "review_context_packs s t packs w =
     (if packs = [] then Inr (([], []), w)
      else map_sum id (\<lambda>(results, w'). (collect_reviews results, w'))
        (review_packs s t (case rvt_reviewer t of None \<Rightarrow> packs | Some r \<Rightarrow> map (\<lambda>p. pack_for_reviewer p r) packs) w))"


subsection \<open>Verifying one group of findings\<close>

type_synonym indexed_verifications = "(nat \<times> finding_verification) list"

definition incomplete_verification ::
  "string \<Rightarrow> string \<Rightarrow> string \<Rightarrow> nat \<times> finding \<Rightarrow> nat \<times> finding_verification" where
  "incomplete_verification reviewer_id reason superseded_reason item =
     (fst item, \<lparr>fv_finding = snd item, fv_reviewer_id = reviewer_id, fv_approved = False,
        fv_confidence = FC_LOW, fv_reason = reason, fv_review_snapshot_id = None, fv_superseded = True,
        fv_superseded_reason = Some superseded_reason\<rparr>)"

text \<open>The loop that reads the cache; an exception leaves what was read and missed before it.\<close>

fun read_verifications ::
  "llm_cache \<Rightarrow> bool \<Rightarrow> (finding \<Rightarrow> string option) \<Rightarrow> (nat \<times> finding) list \<Rightarrow> indexed_verifications
     \<Rightarrow> (nat \<times> finding) list \<Rightarrow> failure option \<times> indexed_verifications \<times> (nat \<times> finding) list" where
  "read_verifications cache fresh key_of [] hits misses = (None, hits, misses)"
| "read_verifications cache fresh key_of ((i, f) # items) hits misses =
     (case (if text_set (key_of f) \<and> \<not> fresh then read_cached_verification cache (the (key_of f)) f else Inr None) of
        Inl e \<Rightarrow> (Some e, hits, misses)
      | Inr None \<Rightarrow> read_verifications cache fresh key_of items hits (misses @ [(i, f)])
      | Inr (Some v) \<Rightarrow> read_verifications cache fresh key_of items (hits @ [(i, v)]) misses)"

text \<open>The loop over the provider's decisions, which writes them to the cache.\<close>

fun accept_verifications ::
  "'p llm_services \<Rightarrow> llm_world \<Rightarrow> llm_config \<Rightarrow> string \<Rightarrow> (finding \<Rightarrow> string option)
     \<Rightarrow> ((nat \<times> finding) \<times> finding_verification) list \<Rightarrow> indexed_verifications \<Rightarrow> llm_cache
     \<Rightarrow> failure option \<times> indexed_verifications \<times> llm_cache" where
  "accept_verifications s w c reviewer_id key_of [] acc cache = (None, acc, cache)"
| "accept_verifications s w c reviewer_id key_of (((i, f), v) # items) acc cache =
     (let v' = (verification_for_finding v f)\<lparr>fv_reviewer_id := reviewer_id\<rparr>;
          acc' = acc @ [(i, v')]
      in if text_set (key_of f)
         then (case ls_write_error s w (the (key_of f)) of
             Some e \<Rightarrow> (Some (Other_Failure e), acc', cache)
           | None \<Rightarrow> accept_verifications s w c reviewer_id key_of items acc'
               (write_cached_verification (ls_now s w) (the (key_of f)) c v' cache))
         else accept_verifications s w c reviewer_id key_of items acc' cache)"

record verify_outcome =
  vo_status :: string
  vo_error :: "string option"
  vo_called :: bool
  vo_hits :: indexed_verifications
  vo_misses :: "(nat \<times> finding) list"
  vo_new :: indexed_verifications
  vo_scanned :: bool
  vo_usage :: "llm_usage option"
  vo_cache :: llm_cache

definition failed_outcome ::
  "string \<Rightarrow> failure \<Rightarrow> bool \<Rightarrow> indexed_verifications \<Rightarrow> (nat \<times> finding) list \<Rightarrow> bool \<Rightarrow> llm_usage option \<Rightarrow> llm_cache
     \<Rightarrow> verify_outcome" where
  "failed_outcome reviewer_id e called hits misses scanned usage cache =
     (let status = classify_llm_provider_error e in
      \<lparr>vo_status = status, vo_error = Some (failure_text e), vo_called = called, vo_hits = hits, vo_misses = misses,
       vo_new = map (incomplete_verification reviewer_id (''Verifier failed for this finding: '' @ failure_text e)
         (''Verification run did not complete successfully ('' @ status @ '').'')) misses,
       vo_scanned = scanned, vo_usage = usage, vo_cache = cache\<rparr>)"

definition ask_for_verifications ::
  "'p llm_services \<Rightarrow> llm_config \<Rightarrow> string \<Rightarrow> context_pack \<Rightarrow> llm_config \<Rightarrow> (finding \<Rightarrow> string option)
     \<Rightarrow> (nat \<times> finding) list \<Rightarrow> llm_world \<Rightarrow> verify_outcome" where
  "ask_for_verifications s config reviewer_id p c key_of items w =
     (let cache = lw_cache w in
      case validate_api_model_compatibility c of
        Some e \<Rightarrow> failed_outcome reviewer_id (Provider_Failure e) False [] items False None cache
      | None \<Rightarrow>
          (let (error, hits, misses) = read_verifications cache (lc_refresh_cache config) key_of items [] [];
               complete = (\<lambda>status err called new usage cache. \<lparr>vo_status = status, vo_error = err,
                 vo_called = called, vo_hits = hits, vo_misses = misses, vo_new = new, vo_scanned = True,
                 vo_usage = usage, vo_cache = cache\<rparr>)
           in case error of
             Some e \<Rightarrow> failed_outcome reviewer_id e False hits misses False None cache
           | None \<Rightarrow>
               (if misses = [] then complete ''ok'' None False [] None cache
                else case open_failure (lw_circuit w) c of
                  Some (reason, _) \<Rightarrow>
                    complete ''skipped_circuit_open'' (Some reason) False
                      (map (incomplete_verification reviewer_id (''Verifier skipped because '' @ reason)
                        ''Verification run did not complete successfully (skipped_circuit_open).'') misses) None cache
                | None \<Rightarrow>
                    (case ls_verify s w c p (map snd misses) of
                       Inl e \<Rightarrow> failed_outcome reviewer_id e True hits misses True None cache
                     | Inr result \<Rightarrow>
                         (let vs = lvr_verifications result in
                          if length vs \<noteq> length misses then
                            failed_outcome reviewer_id (Provider_Failure (llm_error (''Verifier returned ''
                                @ str_nat (length vs) @ '' decisions for '' @ str_nat (length misses) @ '' findings.'')))
                              True hits misses True (lvr_usage result) cache
                          else
                            (let (write_error, new, cache') =
                                   accept_verifications s w c reviewer_id key_of (zip misses vs) [] cache
                             in case write_error of
                                  Some e \<Rightarrow> failed_outcome reviewer_id e True hits misses True (lvr_usage result) cache'
                                | None \<Rightarrow> complete ''ok'' None True new (lvr_usage result) cache'))))))"

definition saved_verification_tokens ::
  "'p llm_services \<Rightarrow> (nat \<times> finding) list \<Rightarrow> (nat \<times> finding) list \<Rightarrow> context_pack \<Rightarrow> llm_config \<Rightarrow> int" where
  "saved_verification_tokens s items misses p c =
     (let cached = map snd (filter (\<lambda>item. fst item \<notin> fst ` set misses) items)
      in if cached = [] then 0 else provider_tokens (int (length (ls_verify_prompt s cached p))) c)"

record verify_task =
  vft_config :: llm_config
  vft_reviewer :: "reviewer_config option"

definition verifier_id :: "verify_task \<Rightarrow> string" where
  "verifier_id t = (case vft_reviewer t of None \<Rightarrow> ''general'' | Some r \<Rightarrow> rv_id r)"

definition verify_key_for :: "'p llm_services \<Rightarrow> verify_task \<Rightarrow> context_pack \<Rightarrow> llm_config \<Rightarrow> finding \<Rightarrow> string option" where
  "verify_key_for s t p c f =
     (if llm_cache_used (vft_config t)
      then Some (verification_cache_key (ls_hash s) (ls_sha256 s) (ls_env s) f (ls_verify_payload s p) c) else None)"

definition verify_pack ::
  "'p llm_services \<Rightarrow> verify_task \<Rightarrow> context_pack \<Rightarrow> (nat \<times> finding) list \<Rightarrow> route \<Rightarrow> llm_world
     \<Rightarrow> indexed_verifications \<times> llm_run \<times> llm_world" where
  "verify_pack s t p items r w =
     (let (c, profile, reason) = r;
          cached = llm_cache_used (vft_config t);
          key_of = verify_key_for s t p c;
          out = ask_for_verifications s (vft_config t) (verifier_id t) p c key_of items w;
          w1 = w\<lparr>lw_cache := vo_cache out\<rparr>;
          w2 = (if vo_called out then log_call (vft_config t) c profile (vo_status out) w1 else w1);
          chars = (if vo_misses out \<noteq> [] \<and> vo_called out
            then int (length (ls_verify_prompt s (map snd (vo_misses out)) p)) else 0);
          vs = map (\<lambda>(i, v). (i, v\<lparr>fv_reviewer_id := verifier_id t\<rparr>)) (vo_hits out @ vo_new out);
          scanned = (cached \<and> vo_scanned out)
      in (vs,
          set_run_usage (vo_usage out)
            ((base_run ''verify'' r verifier_prompt_version (verifier_id t) (cp_id p) (vo_status out)
                (ls_elapsed_ms s w2))
             \<lparr>run_input_chars := chars, run_estimated_input_tokens := provider_tokens chars c,
              run_findings_count := int (length (filter (fv_approved \<circ> snd) vs)),
              run_cache_hit := (vo_scanned out \<and> vo_misses out = []),
              run_cache_hits := (if scanned then int (length items) - int (length (vo_misses out)) else 0),
              run_cache_misses := (if scanned then int (length (vo_misses out)) else 0),
              run_cache_key := (case items of [(_, f)] \<Rightarrow> key_of f | _ \<Rightarrow> None), run_error := vo_error out,
              run_estimated_saved_input_tokens := saved_verification_tokens s items (vo_misses out) p c\<rparr>),
          w2))"

subsection \<open>Verifying all findings\<close>

datatype verify_error = Routing_Failure routing_error | Key_Error nat

definition verification_packs :: "verify_task \<Rightarrow> context_pack list \<Rightarrow> finding list \<Rightarrow> (string \<times> context_pack) list" where
  "verification_packs t packs findings =
     (let referenced = filter (\<lambda>p. list_ex (\<lambda>f. fi_context_pack_id f = cp_id p) findings) packs
      in dict_of cp_id id (case vft_reviewer t of None \<Rightarrow> referenced
           | Some r \<Rightarrow> map (\<lambda>p. pack_for_reviewer p r) referenced))"

definition missing_pack_verification :: "string \<Rightarrow> finding \<Rightarrow> finding_verification" where
  "missing_pack_verification reviewer_id f =
     \<lparr>fv_finding = f, fv_reviewer_id = reviewer_id, fv_approved = False, fv_confidence = FC_HIGH,
      fv_reason = ''Missing context pack: '' @ fi_context_pack_id f, fv_review_snapshot_id = None,
      fv_superseded = True,
      fv_superseded_reason = Some ''Verification did not run because the context pack was unavailable.''\<rparr>"

definition findings_by_pack ::
  "(string \<times> context_pack) list \<Rightarrow> (nat \<times> finding) list \<Rightarrow> (string \<times> (nat \<times> finding) list) list" where
  "findings_by_pack packs items =
     fold (\<lambda>(i, f) d. case dict_get packs (fi_context_pack_id f) of
         None \<Rightarrow> d
       | Some p \<Rightarrow> dict_set (cp_id p) (dict_get_or d (cp_id p) [] @ [(i, f)]) d) items []"

fun verify_groups ::
  "'p llm_services \<Rightarrow> verify_task \<Rightarrow> (string \<times> context_pack) list \<Rightarrow> verification_group list \<Rightarrow> llm_world
     \<Rightarrow> (indexed_verifications \<times> llm_run) list \<times> llm_world" where
  "verify_groups s t packs [] w = ([], w)"
| "verify_groups s t packs ((pack_id, items, r) # groups) w =
     (let (vs, run, w') = verify_pack s t (the (dict_get packs pack_id)) items r w;
          (results, w'') = verify_groups s t packs groups w'
      in ((vs, run) # results, w''))"

fun verifications_in_order :: "indexed_verifications \<Rightarrow> nat list \<Rightarrow> verify_error + finding_verification list" where
  "verifications_in_order d [] = Inr []"
| "verifications_in_order d (i # is) =
     (case dict_get d i of
        None \<Rightarrow> Inl (Key_Error i)
      | Some v \<Rightarrow> map_sum id (\<lambda>vs. v # vs) (verifications_in_order d is))"

definition verify_findings ::
  "'p llm_services \<Rightarrow> verify_task \<Rightarrow> finding list \<Rightarrow> context_pack list \<Rightarrow> llm_world
     \<Rightarrow> verify_error + (finding list \<times> finding_verification list \<times> llm_run list) \<times> llm_world" where
  "verify_findings s t findings packs w =
     (if findings = [] then Inr (([], [], []), w)
      else
        (let by_id = verification_packs t packs findings;
             items = indexed findings;
             absent = map (\<lambda>(i, f). (i, missing_pack_verification (verifier_id t) f))
               (filter (\<lambda>(i, f). dict_get by_id (fi_context_pack_id f) = None) items)
         in case verification_groups_by_route (ls_endpoint_ok s) (ls_set_fields s) (findings_by_pack by_id items)
                by_id (vft_config t) of
              Inl e \<Rightarrow> Inl (Routing_Failure e)
            | Inr groups \<Rightarrow>
                (let (results, w') = verify_groups s t by_id groups w;
                     all_vs = fold (\<lambda>(vs, _) d. fold (\<lambda>(i, v) d. dict_set i v d) vs d) results absent
                 in map_sum id (\<lambda>vs. ((map fv_finding (filter (\<lambda>v. fv_approved v \<and> \<not> fv_superseded v) vs), vs,
                       map snd results), w'))
                     (verifications_in_order all_vs [0..<length findings]))))"


subsection \<open>Calls respect the breaker\<close>

definition statuses_on :: "circuit_key \<Rightarrow> (circuit_key \<times> string \<times> string) list \<Rightarrow> string list" where
  "statuses_on key calls = map (snd \<circ> snd) (filter (\<lambda>e. fst e = key) calls)"

definition calls_admitted :: "int \<Rightarrow> (circuit_key \<times> string \<times> string) list \<Rightarrow> bool" where
  "calls_admitted limit calls \<longleftrightarrow>
     (\<forall>i<length calls. \<not> trips limit (statuses_on (fst (calls ! i)) (take i calls)))"

definition world_ok :: "int \<Rightarrow> llm_world \<Rightarrow> bool" where
  "world_ok limit w \<longleftrightarrow>
     lw_circuit w = fold (\<lambda>(key, label, status) c. record_key c key (label, status, limit)) (lw_calls w) []
     \<and> calls_admitted limit (lw_calls w)"

lemma calls_admitted_snoc:
  "calls_admitted limit (calls @ [e]) \<longleftrightarrow>
     calls_admitted limit calls \<and> \<not> trips limit (statuses_on (fst e) calls)"
proof -
  have "(\<forall>i<length (calls @ [e]). P i) \<longleftrightarrow> (\<forall>i<length calls. P i) \<and> P (length calls)" for P
    by (auto simp: less_Suc_eq)
  then show ?thesis by (auto simp: calls_admitted_def nth_append)
qed

lemma world_ok_cache [simp]: "world_ok limit (w\<lparr>lw_cache := c\<rparr>) = world_ok limit w"
  by (simp add: world_ok_def)

lemma world_ok_log_call:
  assumes "world_ok (lc_max_consecutive_provider_failures config) w" and "open_failure (lw_circuit w) c = None"
  shows "world_ok (lc_max_consecutive_provider_failures config) (log_call config c profile status w)"
proof -
  let ?n = "lc_max_consecutive_provider_failures config"
  have circuit: "lw_circuit w = fold (\<lambda>(key, label, status) c. record_key c key (label, status, ?n)) (lw_calls w) []"
    using assms(1) by (simp add: world_ok_def)
  have "\<not> trips ?n (statuses_on (circuit_route_key c) (lw_calls w))"
    using assms(2) circuit_of_history [of ?n "lw_calls w" "circuit_route_key c"]
    unfolding open_failure_None circuit statuses_on_def by blast
  then show ?thesis
    using assms(1) by (simp add: world_ok_def log_call_def calls_admitted_snoc record_outcome_key)
qed

lemma ask_for_review_called:
  "ask_for_review s t p c key w = (a, cache) \<Longrightarrow>
     (case a of Answered fs u called \<Rightarrow> called | Failed_With e called \<Rightarrow> called | Circuit_Open r st \<Rightarrow> False) \<Longrightarrow>
     open_failure (lw_circuit w) c = None"
  unfolding ask_for_review_def Let_def
  by (auto split: option.splits sum.splits prod.splits if_splits)

definition review_limit :: "review_task \<Rightarrow> int" where
  "review_limit t = lc_max_consecutive_provider_failures (rvt_config t)"

lemma review_attempt_world:
  "snd (snd (review_attempt s t p (c, profile, reason) w)) =
     (case ask_for_review s t p c (review_key_for s t p c) w of (a, cache) \<Rightarrow>
        (case a of
           Circuit_Open _ _ \<Rightarrow> w\<lparr>lw_cache := cache\<rparr>
         | Failed_With e called \<Rightarrow>
             (if called then log_call (rvt_config t) c profile (classify_llm_provider_error e) (w\<lparr>lw_cache := cache\<rparr>)
              else w\<lparr>lw_cache := cache\<rparr>)
         | Answered fs u called \<Rightarrow>
             (if called then log_call (rvt_config t) c profile ''ok'' (w\<lparr>lw_cache := cache\<rparr>)
              else w\<lparr>lw_cache := cache\<rparr>)))"
  unfolding review_attempt_def Let_def by (simp split: prod.split answer.split)

lemma review_attempt_ok:
  assumes "world_ok (review_limit t) w"
  shows "world_ok (review_limit t) (snd (snd (review_attempt s t p r w)))"
proof -
  obtain c profile reason where r: "r = (c, profile, reason)" by (metis prod_cases3)
  obtain a cache where ask: "ask_for_review s t p c (review_key_for s t p c) w = (a, cache)" by fastforce
  have "world_ok (lc_max_consecutive_provider_failures (rvt_config t)) (w\<lparr>lw_cache := cache\<rparr>)"
    using assms by (simp add: review_limit_def)
  note logged = world_ok_log_call [OF this]
  show ?thesis
    unfolding r review_attempt_world ask
    using ask_for_review_called [OF ask] assms logged
    by (auto simp: review_limit_def split: answer.split)
qed

lemma review_attempts_ok:
  assumes "review_attempts s t p rs attempted runs w = Inr (out, w')" and "world_ok (review_limit t) w"
  shows "world_ok (review_limit t) w'"
  using assms
proof (induction s t p rs attempted runs w rule: review_attempts.induct)
  case (2 s t p r rs attempted runs w)
  obtain res run w1 where att: "review_attempt s t p r w = (res, run, w1)" by (metis prod_cases3)
  from review_attempt_ok [OF "2.prems"(2), of s p r] have w1: "world_ok (review_limit t) w1" by (simp add: att)
  show ?case
    using "2.prems"(1) w1 "2.IH" [OF att [symmetric] refl]
    by (auto simp: att review_attempts.simps(2) split: sum.splits option.splits if_splits)
qed simp

lemma review_pack_ok:
  "\<lbrakk>review_pack s t p w = Inr (out, w'); world_ok (review_limit t) w\<rbrakk> \<Longrightarrow> world_ok (review_limit t) w'"
  unfolding review_pack_def by (auto dest: review_attempts_ok split: sum.splits)

lemma review_packs_ok:
  "\<lbrakk>review_packs s t ps w = Inr (out, w'); world_ok (review_limit t) w\<rbrakk> \<Longrightarrow> world_ok (review_limit t) w'"
proof (induction ps arbitrary: w out)
  case (Cons p ps)
  then show ?case
    by (auto simp: map_sum_eq_Inr dest: review_pack_ok split: sum.splits prod.splits)
qed simp

lemma review_context_packs_ok:
  "\<lbrakk>review_context_packs s t ps w = Inr (out, w'); world_ok (review_limit t) w\<rbrakk> \<Longrightarrow> world_ok (review_limit t) w'"
  by (auto simp: review_context_packs_def map_sum_eq_Inr dest: review_packs_ok split: if_splits)

lemma ask_for_verifications_called:
  "vo_called (ask_for_verifications s config rid p c key_of items w) \<Longrightarrow> open_failure (lw_circuit w) c = None"
  unfolding ask_for_verifications_def Let_def failed_outcome_def
  by (auto split: option.splits sum.splits prod.splits if_splits)

definition verify_limit :: "verify_task \<Rightarrow> int" where
  "verify_limit t = lc_max_consecutive_provider_failures (vft_config t)"

lemma verify_pack_ok:
  assumes "world_ok (verify_limit t) w"
  shows "world_ok (verify_limit t) (snd (snd (verify_pack s t p items r w)))"
proof -
  obtain c profile reason where r: "r = (c, profile, reason)" by (metis prod_cases3)
  define out where "out = ask_for_verifications s (vft_config t) (verifier_id t) p c (verify_key_for s t p c) items w"
  have world: "snd (snd (verify_pack s t p items r w)) = (let w1 = w\<lparr>lw_cache := vo_cache out\<rparr> in
      if vo_called out then log_call (vft_config t) c profile (vo_status out) w1 else w1)"
    unfolding verify_pack_def r out_def Let_def by simp
  have ok: "world_ok (lc_max_consecutive_provider_failures (vft_config t)) (w\<lparr>lw_cache := vo_cache out\<rparr>)"
    using assms by (simp add: verify_limit_def)
  show ?thesis
    unfolding world Let_def verify_limit_def
    using ok world_ok_log_call [OF ok] ask_for_verifications_called [of s "vft_config t" "verifier_id t" p c _ items w]
    by (simp add: out_def)
qed

lemma verify_groups_ok:
  "world_ok (verify_limit t) w \<Longrightarrow> world_ok (verify_limit t) (snd (verify_groups s t packs groups w))"
proof (induction s t packs groups w rule: verify_groups.induct)
  case (2 s t packs pack_id items r groups w)
  obtain vs run w1 where vp: "verify_pack s t (the (dict_get packs pack_id)) items r w = (vs, run, w1)"
    by (metis prod_cases3)
  from verify_pack_ok [OF "2.prems", of s "the (dict_get packs pack_id)" items r]
  have "world_ok (verify_limit t) w1" by (simp add: vp)
  from "2.IH" [OF refl vp [symmetric] refl this] show ?case by (simp add: vp split_def Let_def)
qed simp

lemma verify_findings_ok:
  assumes "verify_findings s t fs packs w = Inr (out, w')" and "world_ok (verify_limit t) w"
  shows "world_ok (verify_limit t) w'"
  using assms verify_groups_ok [OF assms(2)]
  by (auto simp: verify_findings_def Let_def map_sum_eq_Inr split_def split: if_splits sum.splits)

text \<open>C6: In a run that reviews and then verifies with one breaker, every provider call was made on a route
  that the calls before it had not tripped: after a terminal failure, or after the configured number of
  failures in a row, a route is never called again.\<close>

theorem calls_respect_circuit:
  assumes "review_context_packs s t packs \<lparr>lw_circuit = [], lw_cache = cache, lw_calls = []\<rparr> = Inr (reviewed, w)"
    and "verify_findings s v findings packs w = Inr (verified, w')"
    and "verify_limit v = review_limit t"
  shows "\<forall>i<length (lw_calls w').
    \<not> trips (review_limit t) (statuses_on (fst (lw_calls w' ! i)) (take i (lw_calls w')))"
proof -
  have "world_ok (review_limit t) \<lparr>lw_circuit = [], lw_cache = cache, lw_calls = []\<rparr>"
    by (simp add: world_ok_def calls_admitted_def)
  from review_context_packs_ok [OF assms(1) this] have "world_ok (verify_limit v) w" by (simp add: assms(3))
  from verify_findings_ok [OF assms(2) this] have "calls_admitted (review_limit t) (lw_calls w')"
    by (simp add: world_ok_def assms(3))
  then show ?thesis by (simp add: calls_admitted_def)
qed


text \<open>A provider that rejects the key.\<close>

definition sample_services :: "unit llm_services" where
  "sample_services = \<lparr>ls_endpoint_ok = (\<lambda>_ _. True), ls_set_fields = (\<lambda>_. []), ls_prompt = (\<lambda>_ _. ''review''),
     ls_review_payload = (\<lambda>_ _. ()), ls_verify_payload = (\<lambda>_. ()), ls_verify_prompt = (\<lambda>_ _. ''verify''),
     ls_hash = (\<lambda>_. ''key''), ls_sha256 = id, ls_env = (\<lambda>_. None), ls_now = (\<lambda>_. ''now''),
     ls_elapsed_ms = (\<lambda>_. 1), ls_write_error = (\<lambda>_ _. None),
     ls_review = (\<lambda>_ _ _ _. Inl (Provider_Failure ((llm_error ''no'')\<lparr>pe_category := Some CAT_AUTH\<rparr>))),
     ls_verify = (\<lambda>_ _ _ _. Inl (Other_Failure ''no''))\<rparr>"

definition sample_review_task :: review_task where
  "sample_review_task = \<lparr>rvt_config = default_llm_config, rvt_depth = RD_DEEP, rvt_reviewer = None\<rparr>"

definition sample_verify_task :: verify_task where
  "sample_verify_task = \<lparr>vft_config = default_llm_config, vft_reviewer = None\<rparr>"

definition new_world :: "llm_cache \<Rightarrow> llm_world" where
  "new_world cache = \<lparr>lw_circuit = [], lw_cache = cache, lw_calls = []\<rparr>"

lemma calls_respect_circuit_witness:
  "\<exists>reviewed w. review_context_packs sample_services sample_review_task
      [sample_pack ''p1'' ''x.py'', sample_pack ''p2'' ''y.py''] (new_world []) = Inr (reviewed, w)
     \<and> length (snd reviewed) = 2 \<and> length (lw_calls w) = 1
     \<and> \<not> trips 3 (statuses_on (fst (lw_calls w ! 0)) [])
     \<and> trips 3 (statuses_on (fst (lw_calls w ! 0)) (lw_calls w))"
proof -
  let ?packs = "[sample_pack ''p1'' ''x.py'', sample_pack ''p2'' ''y.py'']"
  have "case review_context_packs sample_services sample_review_task ?packs (new_world []) of
      Inl _ \<Rightarrow> False
    | Inr (reviewed, w) \<Rightarrow> length (snd reviewed) = 2 \<and> map (snd \<circ> snd) (lw_calls w) = [''failed_auth'']"
    by code_simp
  then obtain reviewed w where run: "review_context_packs sample_services sample_review_task ?packs
      (new_world []) = Inr (reviewed, w)" and two: "length (snd reviewed) = 2"
    and calls: "map (snd \<circ> snd) (lw_calls w) = [''failed_auth'']"
    by (auto split: sum.splits)
  have "verify_findings sample_services sample_verify_task [] ?packs w = Inr (([], [], []), w)"
    by (simp add: verify_findings_def)
  from calls_respect_circuit [OF run [unfolded new_world_def] this]
  have "\<forall>i<length (lw_calls w). \<not> trips 3 (statuses_on (fst (lw_calls w ! i)) (take i (lw_calls w)))"
    by (simp add: verify_limit_def review_limit_def sample_verify_task_def sample_review_task_def default_llm_config_def)
  moreover from calls obtain e where e: "lw_calls w = [e]" "snd (snd e) = ''failed_auth''" by auto
  ultimately show ?thesis using run two
    by (auto simp: statuses_on_def trips_def terminal_failures_def)
qed

subsection \<open>What a pack costs and yields\<close>

lemma review_attempt_calls:
  "length (lw_calls (snd (snd (review_attempt s t p r w)))) \<le> length (lw_calls w) + 1"
proof -
  obtain c profile reason where r: "r = (c, profile, reason)" by (metis prod_cases3)
  show ?thesis unfolding r review_attempt_world by (simp add: log_call_def split: prod.split answer.split)
qed

definition rounds_left :: "bool \<Rightarrow> nat" where
  "rounds_left attempted = (if attempted then 1 else 2)"

lemma review_attempts_bound:
  "review_attempts s t p rs attempted runs w = Inr (out, w') \<Longrightarrow> length rs \<le> 1 \<Longrightarrow>
     length (snd out) \<le> length runs + rounds_left attempted
     \<and> length (lw_calls w') \<le> length (lw_calls w) + rounds_left attempted
     \<and> (rs \<noteq> [] \<longrightarrow> length runs < length (snd out))"
proof (induction s t p rs attempted runs w rule: review_attempts.induct)
  case (2 s t p r rs attempted runs w)
  obtain res run w1 where att: "review_attempt s t p r w = (res, run, w1)" by (metis prod_cases3)
  have calls: "length (lw_calls w1) \<le> length (lw_calls w) + 1"
    using review_attempt_calls [of s t p r w] by (simp add: att)
  from "2.prems"(2) have rs: "rs = []" by simp
  show ?case
  proof (cases "\<exists>status fb. res = Inl status \<and> \<not> attempted \<and>
      fallback_review_config_after_error (ls_endpoint_ok s) (ls_set_fields s) (task_base_config t) (fst (snd r)) status
        = Inr (Some fb)")
    case True
    then obtain status fb where res: "res = Inl status" and new: "\<not> attempted"
      and fb: "fallback_review_config_after_error (ls_endpoint_ok s) (ls_set_fields s) (task_base_config t)
        (fst (snd r)) status = Inr (Some fb)" by blast
    have step: "review_attempts s t p [fb] True (runs @ [run]) w1 = Inr (out, w')"
      using "2.prems"(1) by (simp add: review_attempts.simps(2) att res fb new rs)
    from "2.IH" [OF att [symmetric] refl refl res fb refl new, unfolded rs append_Nil, OF step] calls new show ?thesis
      by (simp add: rounds_left_def)
  next
    case False
    then have "snd out = runs @ [run] \<and> w' = w1"
      using "2.prems"(1) by (auto simp: review_attempts.simps(2) att split: sum.splits option.splits if_splits)
    with calls show ?thesis by (simp add: rounds_left_def)
  qed
qed auto



definition shown_in :: "context_pack \<Rightarrow> finding \<Rightarrow> bool" where
  "shown_in p f \<longleftrightarrow> fi_context_pack_id f = cp_id p \<and> fi_file f \<in> context_files p"

lemma own_findings_shown: "f \<in> set (own_findings t p fs) \<Longrightarrow> shown_in p f"
  by (auto simp: own_findings_def shown_in_def dest!: filter_findings_in_context)

lemma review_attempt_shown:
  assumes "review_attempt s t p r w = (Inr found, run, w')" and "f \<in> set found"
  shows "shown_in p f"
proof -
  obtain c profile reason where r: "r = (c, profile, reason)" by (metis prod_cases3)
  from assms(1) obtain fs where "found = own_findings t p fs"
    unfolding review_attempt_def r Let_def by (auto split: prod.splits answer.splits)
  with assms(2) show ?thesis by (simp add: own_findings_shown)
qed

lemma review_attempts_shown:
  "\<lbrakk>review_attempts s t p rs attempted runs w = Inr ((found, runs'), w'); f \<in> set found\<rbrakk> \<Longrightarrow> shown_in p f"
proof (induction s t p rs attempted runs w rule: review_attempts.induct)
  case (2 s t p r rs attempted runs w)
  obtain res run w1 where att: "review_attempt s t p r w = (res, run, w1)" by (metis prod_cases3)
  show ?case
  proof (cases res)
    case (Inr fs)
    with "2.prems" att review_attempt_shown [of s t p r w fs run w1 f] show ?thesis
      by (simp add: review_attempts.simps(2))
  next
    case (Inl status)
    with "2.prems" "2.IH" [OF att [symmetric] refl refl Inl] show ?thesis
      by (auto simp: review_attempts.simps(2) att split: sum.splits option.splits if_splits)
  qed
qed auto

lemma review_packs_shown:
  "\<lbrakk>review_packs s t ps w = Inr (results, w'); (found, runs) \<in> set results; f \<in> set found\<rbrakk> \<Longrightarrow>
     \<exists>p \<in> set ps. shown_in p f"
proof (induction ps arbitrary: w results)
  case (Cons p ps)
  then obtain found1 runs1 w1 rest where one: "review_pack s t p w = Inr ((found1, runs1), w1)"
    and rest: "review_packs s t ps w1 = Inr (rest, w')" and results: "results = (found1, runs1) # rest"
    by (auto simp: map_sum_eq_Inr split: sum.splits prod.splits)
  show ?case
  proof (cases "(found, runs) = (found1, runs1)")
    case True
    with one Cons.prems(3) show ?thesis
      by (auto simp: review_pack_def dest: review_attempts_shown split: sum.splits)
  next
    case False
    with Cons.prems results have "(found, runs) \<in> set rest" by auto
    from Cons.IH [OF rest this Cons.prems(3)] show ?thesis by simp
  qed
qed simp

lemma dedupe_place:
  assumes "f \<in> set (dedupe_findings fs)"
  shows "\<exists>g \<in> set fs. fi_file g = fi_file f \<and> fi_context_pack_id g = fi_context_pack_id f"
proof -
  have "\<forall>f \<in> snd ` set (fold dedupe_step fs []). \<exists>g \<in> set fs. fi_file g = fi_file f
      \<and> fi_context_pack_id g = fi_context_pack_id f"
  proof (induction fs rule: rev_induct)
    case (snoc h fs)
    show ?case
    proof
      fix f assume "f \<in> snd ` set (fold dedupe_step (fs @ [h]) [])"
      then obtain k where k: "(k, f) \<in> set (dedupe_step h (fold dedupe_step fs []))" by auto
      have merged: "fi_file (merge_finding_reviewer_provenance g cs) = fi_file g"
        "fi_context_pack_id (merge_finding_reviewer_provenance g cs) = fi_context_pack_id g" for g cs
        by (simp_all add: merge_finding_reviewer_provenance_def Let_def)
      from k consider "f = h" | "(k, f) \<in> set (fold dedupe_step fs [])"
        | current where "dict_get (fold dedupe_step fs []) (dedupe_key h) = Some current"
            "fi_file f \<in> {fi_file h, fi_file current}" "fi_file f = fi_file h \<and> fi_context_pack_id f = fi_context_pack_id h
              \<or> fi_file f = fi_file current \<and> fi_context_pack_id f = fi_context_pack_id current"
        by (auto simp: dedupe_step_def merged split: option.splits if_splits dest!: dict_set_entries)
      then show "\<exists>g \<in> set (fs @ [h]). fi_file g = fi_file f \<and> fi_context_pack_id g = fi_context_pack_id f"
      proof cases
        case 2
        with snoc show ?thesis by force
      next
        case 3
        then have "current \<in> snd ` set (fold dedupe_step fs [])" by (force dest: map_of_SomeD)
        with snoc obtain g where "g \<in> set fs" "fi_file g = fi_file current"
          "fi_context_pack_id g = fi_context_pack_id current" by blast
        with 3 show ?thesis by auto
      qed simp
    qed
  qed simp
  with assms show ?thesis by (auto simp: dedupe_findings_def)
qed

lemma collect_reviews_place:
  assumes "f \<in> set (fst (collect_reviews results))"
  shows "\<exists>found runs. (found, runs) \<in> set results
    \<and> (\<exists>g \<in> set found. fi_file g = fi_file f \<and> fi_context_pack_id g = fi_context_pack_id f)"
  using assms unfolding collect_reviews_def
proof (induction results arbitrary: f rule: rev_induct)
  case (snoc result results)
  obtain fs rs where result: "result = (fs, rs)" by fastforce
  define acc where "acc = fold (\<lambda>(fs, rs) (findings, runs). (dedupe_findings (findings @ fs), runs @ rs)) results ([], [])"
  from snoc.prems have "f \<in> set (dedupe_findings (fst acc @ fs))"
    by (simp add: result acc_def split_def)
  from dedupe_place [OF this] obtain g where g: "g \<in> set (fst acc) \<or> g \<in> set fs"
    "fi_file g = fi_file f" "fi_context_pack_id g = fi_context_pack_id f" by auto
  from g(1) show ?case
  proof
    assume "g \<in> set (fst acc)"
    from snoc.IH [OF this [unfolded acc_def]] g(2,3) show ?thesis by auto
  next
    assume "g \<in> set fs"
    with g(2,3) show ?thesis by (auto simp: result)
  qed
qed simp

lemma shown_in_reviewer [simp]: "shown_in (pack_for_reviewer p r) f = shown_in p f"
  by (simp add: shown_in_def context_files_def pack_for_reviewer_def)

text \<open>C9: Whatever a provider answers, every finding of a review belongs to a pack that was reviewed and is
  about a file that pack shows.\<close>

theorem reviewed_findings_are_shown:
  assumes "review_context_packs s t packs w = Inr ((findings, runs), w')" and "f \<in> set findings"
  shows "\<exists>p \<in> set packs. fi_context_pack_id f = cp_id p \<and> fi_file f \<in> context_files p"
proof -
  let ?ps = "case rvt_reviewer t of None \<Rightarrow> packs | Some r \<Rightarrow> map (\<lambda>p. pack_for_reviewer p r) packs"
  from assms obtain results where results: "review_packs s t ?ps w = Inr (results, w')"
    and f: "f \<in> set (fst (collect_reviews results))"
    by (auto simp: review_context_packs_def map_sum_eq_Inr dest: arg_cong [of _ _ fst] split: if_splits)
  from collect_reviews_place [OF f] obtain found rs g where in_results: "(found, rs) \<in> set results"
    and g: "g \<in> set found" "fi_file g = fi_file f" "fi_context_pack_id g = fi_context_pack_id f" by blast
  from review_packs_shown [OF results in_results g(1)] obtain p where "p \<in> set ?ps" "shown_in p g" by blast
  then have "\<exists>p \<in> set packs. shown_in p g" by (auto split: option.splits)
  with g(2,3) show ?thesis by (auto simp: shown_in_def)
qed


definition answering_services :: "unit llm_services" where
  "answering_services = sample_services\<lparr>ls_review :=
     (\<lambda>_ _ _ _. Inr \<lparr>lrr_findings = [sample_finding, sample_finding\<lparr>fi_file := ''other.py''\<rparr>], lrr_usage = None\<rparr>)\<rparr>"

lemma reviewed_findings_are_shown_witness:
  "\<exists>f runs w. review_context_packs answering_services sample_review_task [sample_pack ''p'' ''a.py''] (new_world [])
      = Inr (([f], runs), w) \<and> fi_context_pack_id f = ''p''"
proof -
  have "case review_context_packs answering_services sample_review_task [sample_pack ''p'' ''a.py''] (new_world []) of
      Inl _ \<Rightarrow> False | Inr ((findings, runs), w) \<Rightarrow> length findings = 1"
    by code_simp
  then obtain f runs w where run: "review_context_packs answering_services sample_review_task
      [sample_pack ''p'' ''a.py''] (new_world []) = Inr (([f], runs), w)"
    by (auto simp: length_Suc_conv split: sum.splits)
  have "cp_id (sample_pack ''p'' ''a.py'') = ''p''" by (simp add: sample_pack_def)
  with reviewed_findings_are_shown [OF run, of f] have "fi_context_pack_id f = ''p''" by simp
  with run show ?thesis by blast
qed

end
