(* ===== verification/Verify_Run.thy ===== *)
theory Verify_Run
  imports Review_Run
begin

section \<open>What verification guarantees\<close>

text \<open>
  Properties of \<open>verify_findings\<close> of \<open>Review_Run\<close> (\<open>src/apex_ray/llm/review.py\<close>): every finding gets one
  verification, in order, and nothing is approved that neither a provider nor the cache approved.
\<close>

subsection \<open>One group\<close>

text \<open>A list of verifications answers a list of items when it decides each item once.\<close>

definition tags :: "indexed_verifications \<Rightarrow> (nat \<times> finding) list" where
  "tags vs = map (\<lambda>(i, v). (i, fv_finding v)) vs"

lemma tags_simps [simp]:
  "tags [] = []" "tags ((i, v) # vs) = (i, fv_finding v) # tags vs" "tags (vs @ ws) = tags vs @ tags ws"
  by (simp_all add: tags_def)

lemma tags_incomplete [simp]: "tags (map (incomplete_verification rid reason why) items) = items"
  by (induction items) (auto simp: incomplete_verification_def)

lemma tags_reviewer [simp]: "tags (map (\<lambda>e. (fst e, snd e\<lparr>fv_reviewer_id := rid\<rparr>)) vs) = tags vs"
  by (induction vs) (auto simp: tags_def)

definition decodable :: "llm_cache \<Rightarrow> bool" where
  "decodable cache \<longleftrightarrow> Undecodable_File \<notin> snd ` set cache"

lemma decodable_update [simp]: "decodable cache \<Longrightarrow> decodable (dict_set key (Entry_File e) cache)"
  by (auto simp: decodable_def dest!: dict_set_entries)

lemma read_cache_entry_decodable: "decodable cache \<Longrightarrow> \<exists>e. read_cache_entry cache key kind = Inr e"
  by (auto simp: read_cache_entry_def decodable_def split: option.split cache_file.split dest!: map_of_SomeD
      intro: rev_image_eqI)

lemma read_verification_finding:
  "read_cached_verification cache key f = Inr (Some v) \<Longrightarrow> fv_finding v = f"
  unfolding read_cached_verification_def
  by (cases "read_cache_entry cache key ''verify''")
    (auto simp: new_verification_def split: option.splits cached_response.splits)

lemma read_verifications_tags:
  "read_verifications cache fresh key_of items hits misses = (None, hits', misses') \<Longrightarrow>
     mset (tags hits') + mset misses' = mset items + (mset (tags hits) + mset misses)"
proof (induction items arbitrary: hits misses)
  case (Cons item items)
  obtain i f where item: "item = (i, f)" by fastforce
  let ?r = "if text_set (key_of f) \<and> \<not> fresh then read_cached_verification cache (the (key_of f)) f else Inr None"
  from Cons.prems consider "?r = Inr None" | v where "?r = Inr (Some v)"
    by (cases ?r) (auto simp: item split: option.splits)
  then show ?case
  proof cases
    case 1
    with Cons.prems Cons.IH [of hits "misses @ [(i, f)]"] show ?thesis by (simp add: item)
  next
    case 2
    then have "fv_finding v = f" by (auto split: if_splits dest: read_verification_finding)
    with 2 Cons.prems Cons.IH [of "hits @ [(i, v)]" misses] show ?thesis by (simp add: item)
  qed
qed simp

lemma read_verifications_decodable:
  "decodable cache \<Longrightarrow> fst (read_verifications cache fresh key_of items hits misses) = None"
proof (induction items arbitrary: hits misses)
  case (Cons item items)
  obtain i f where item: "item = (i, f)" by fastforce
  have "\<exists>v. read_cached_verification cache key f = Inr v" for key
    using read_cache_entry_decodable [OF Cons.prems] by (auto simp: read_cached_verification_def map_sum_eq_Inr)
  then obtain v where "(if text_set (key_of f) \<and> \<not> fresh then read_cached_verification cache (the (key_of f)) f
      else Inr None) = Inr v" by metis
  with Cons show ?case by (cases v) (simp_all add: item)
qed simp

lemma accept_verifications_tags:
  assumes "accept_verifications s w c rid key_of (zip misses vs) acc cache = (None, new, cache')"
    and "length vs = length misses"
  shows "tags new = tags acc @ misses"
  using assms
proof (induction misses arbitrary: vs acc cache)
  case (Cons item misses)
  obtain i f where item: "item = (i, f)" by fastforce
  from Cons.prems obtain v vs' where vs: "vs = v # vs'" by (cases vs) auto
  have "fv_finding (verification_for_finding v f) = f" by (simp add: verification_for_finding_def)
  with Cons.prems show ?case
    by (auto simp: item vs Let_def split: if_splits option.splits dest!: Cons.IH)
qed simp

lemma accept_verifications_decodable:
  "decodable cache \<Longrightarrow> decodable (snd (snd (accept_verifications s w c rid key_of items acc cache)))"
proof (induction items arbitrary: acc cache)
  case (Cons item items)
  obtain i f v where "item = ((i, f), v)" by (metis prod.collapse)
  with Cons show ?case by (simp add: Let_def write_cached_verification_def split: option.split)
qed simp

lemma ask_for_verifications_answers:
  assumes "decodable (lw_cache w)"
    and out_def: "out = ask_for_verifications s config rid p c key_of items w"
  shows "mset (tags (vo_hits out @ vo_new out)) = mset items \<and> decodable (vo_cache out)"
proof -
  obtain hits misses where scan: "read_verifications (lw_cache w) (lc_refresh_cache config) key_of items [] []
      = (None, hits, misses)"
    using read_verifications_decodable [OF assms(1)] by (metis prod.collapse)
  from read_verifications_tags [OF this] have split: "mset (tags hits) + mset misses = mset items" by simp
  have dec: "decodable cache'"
    if "accept_verifications s w c rid key_of (zip misses vs) [] (lw_cache w) = (err, new, cache')" for vs err new cache'
    using accept_verifications_decodable [OF assms(1), of s w c rid key_of "zip misses vs" "[]"] that by simp
  have accepted: "tags new = misses"
    if "accept_verifications s w c rid key_of (zip misses vs) [] (lw_cache w) = (None, new, cache')"
      "length vs = length misses" for vs new cache'
    using accept_verifications_tags [OF that] by simp
  show ?thesis
    unfolding out_def ask_for_verifications_def Let_def scan
    using assms(1) split dec accepted
    by (auto simp: failed_outcome_def Let_def split: option.split sum.split prod.split)
qed

lemma verify_pack_answers:
  assumes "decodable (lw_cache w)"
  shows "mset (tags (fst (verify_pack s t p items r w))) = mset items
    \<and> decodable (lw_cache (snd (snd (verify_pack s t p items r w))))
    \<and> list_all (\<lambda>(i, v). fv_reviewer_id v = verifier_id t) (fst (verify_pack s t p items r w))"
proof -
  obtain c profile reason where r: "r = (c, profile, reason)" by (metis prod_cases3)
  note ask = ask_for_verifications_answers [OF assms refl, of s "vft_config t" "verifier_id t" p c
      "verify_key_for s t p c" items]
  show ?thesis
    unfolding verify_pack_def r Let_def
    using ask by (auto simp: log_call_def list_all_iff split_def)
qed

subsection \<open>All groups\<close>

lemma verify_groups_answers:
  "decodable (lw_cache w) \<Longrightarrow>
     mset (tags (concat (map fst (fst (verify_groups s t packs groups w))))) = mset (concat (map (fst \<circ> snd) groups))
     \<and> list_all (\<lambda>(i, v). fv_reviewer_id v = verifier_id t) (concat (map fst (fst (verify_groups s t packs groups w))))"
proof (induction s t packs groups w rule: verify_groups.induct)
  case (2 s t packs pack_id items r groups w)
  obtain vs run w1 where vp: "verify_pack s t (the (dict_get packs pack_id)) items r w = (vs, run, w1)"
    by (metis prod_cases3)
  from verify_pack_answers [OF "2.prems", of s t "the (dict_get packs pack_id)" items r]
  have one: "mset (tags vs) = mset items" "decodable (lw_cache w1)"
    "list_all (\<lambda>(i, v). fv_reviewer_id v = verifier_id t) vs" by (simp_all add: vp)
  from "2.IH" [OF refl vp [symmetric] refl one(2)] one show ?case by (simp add: vp split_def Let_def)
qed simp

lemma dict_append_items:
  "mset (concat (map snd (dict_set k (dict_get_or d k [] @ [x]) d))) = add_mset x (mset (concat (map snd d)))"
proof (induction d)
  case (Cons e d)
  then show ?case by (cases e) (auto simp: dict_get_or_def)
qed (simp add: dict_get_or_def)

lemma findings_by_pack_items:
  "mset (concat (map snd (findings_by_pack packs items)))
     = mset (filter (\<lambda>(i, f). dict_get packs (fi_context_pack_id f) \<noteq> None) items)"
proof (induction items rule: rev_induct)
  case (snoc item items)
  obtain i f where "item = (i, f)" by fastforce
  with snoc show ?case
    by (auto simp: findings_by_pack_def dict_append_items split: option.split)
qed (simp add: findings_by_pack_def)

text \<open>Verifications by index: what is stored under an index is about that finding.\<close>

definition placed :: "finding list \<Rightarrow> string \<Rightarrow> indexed_verifications \<Rightarrow> bool" where
  "placed fs rid d \<longleftrightarrow>
     list_all (\<lambda>(i, v). i < length fs \<and> fv_finding v = fs ! i \<and> fv_reviewer_id v = rid) d"

lemma placed_set:
  assumes "placed fs rid d" and "placed fs rid [e]"
  shows "placed fs rid (dict_set (fst e) (snd e) d)"
  unfolding placed_def list_all_iff
proof
  fix x assume "x \<in> set (dict_set (fst e) (snd e) d)"
  with dict_set_entries [of "fst x" "snd x" "fst e" "snd e" d] have "x = e \<or> x \<in> set d" by simp
  with assms show "case x of (i, v) \<Rightarrow> i < length fs \<and> fv_finding v = fs ! i \<and> fv_reviewer_id v = rid"
    unfolding placed_def list_all_iff by auto
qed

lemma placed_update:
  "\<lbrakk>placed fs rid d; placed fs rid vs\<rbrakk> \<Longrightarrow> placed fs rid (fold (\<lambda>(i, v) d. dict_set i v d) vs d)"
proof (induction vs arbitrary: d)
  case (Cons e vs)
  from Cons.prems have "placed fs rid [e]" "placed fs rid vs" by (simp_all add: placed_def)
  with Cons.IH [OF placed_set [OF Cons.prems(1)]] show ?case by (simp add: split_def)
qed simp

lemma keys_update: "fst ` set (fold (\<lambda>(i, v) d. dict_set i v d) vs d) = fst ` set d \<union> fst ` set vs"
proof (induction vs arbitrary: d)
  case (Cons e vs)
  then show ?case by (cases e) (auto simp: dom_map_of_conv_image_fst [symmetric] update_conv')
qed simp

lemma verifications_in_order_total:
  assumes "placed fs rid d" and "set is \<subseteq> fst ` set d"
  shows "\<exists>vs. verifications_in_order d is = Inr vs \<and> map fv_finding vs = map (\<lambda>i. fs ! i) is
    \<and> list_all (\<lambda>v. fv_reviewer_id v = rid) vs"
  using assms(2)
proof (induction "is")
  case (Cons i "is")
  then have "i \<in> fst ` set d" by simp
  then obtain v where v: "dict_get d i = Some v" by (metis map_of_eq_None_iff option.exhaust)
  then have "(i, v) \<in> set d" by (rule map_of_SomeD)
  with assms(1) have "fv_finding v = fs ! i" "fv_reviewer_id v = rid" by (auto simp: placed_def list_all_iff)
  with Cons v show ?case by (auto simp: map_sum_eq_Inr)
qed simp


lemma set_verification_packs:
  "dict_get (verification_packs t packs fs) i = Some p \<Longrightarrow> cp_id p = i"
  by (auto simp: verification_packs_def Let_def dest: dict_of_SomeD)

lemma verify_findings_total:
  assumes "decodable (lw_cache w)"
  shows "case verify_findings s t findings packs w of
      Inl e \<Rightarrow> (\<exists>r. e = Routing_Failure r)
    | Inr ((approved, vs, runs), w') \<Rightarrow> map fv_finding vs = findings
        \<and> list_all (\<lambda>v. fv_reviewer_id v = verifier_id t) vs
        \<and> approved = map fv_finding (filter (\<lambda>v. fv_approved v \<and> \<not> fv_superseded v) vs)"
proof (cases "findings = []")
  case True
  then show ?thesis by (simp add: verify_findings_def)
next
  case False
  define by_id where "by_id = verification_packs t packs findings"
  define items where "items = indexed findings"
  define absent where "absent = map (\<lambda>(i, f). (i, missing_pack_verification (verifier_id t) f))
      (filter (\<lambda>(i, f). dict_get by_id (fi_context_pack_id f) = None) items)"
  show ?thesis
  proof (cases "verification_groups_by_route (ls_endpoint_ok s) (ls_set_fields s) (findings_by_pack by_id items)
      by_id (vft_config t)")
    case (Inl e)
    with False show ?thesis by (simp add: verify_findings_def by_id_def items_def)
  next
    case (Inr groups)
    obtain results w' where results: "verify_groups s t by_id groups w = (results, w')" by fastforce
    define all_vs where "all_vs = fold (\<lambda>(vs, _) d. fold (\<lambda>(i, v) d. dict_set i v d) vs d) results absent"
    from verification_groups_facts [OF Inr] findings_by_pack_items [of by_id items]
    have group_items: "mset (concat (map (fst \<circ> snd) groups))
        = mset (filter (\<lambda>(i, f). dict_get by_id (fi_context_pack_id f) \<noteq> None) items)" by simp
    from verify_groups_answers [OF assms, of s t by_id groups] group_items
    have tagged: "mset (tags (concat (map fst results)))
        = mset (filter (\<lambda>(i, f). dict_get by_id (fi_context_pack_id f) \<noteq> None) items)"
      and rids: "list_all (\<lambda>(i, v). fv_reviewer_id v = verifier_id t) (concat (map fst results))"
      by (simp_all add: results)
    have at: "i < length findings \<and> f = findings ! i" if "(i, f) \<in> set items" for i f
      using that by (auto simp: items_def set_indexed)
    have result_items: "set (tags (concat (map fst results)))
        = {(i, f) \<in> set items. dict_get by_id (fi_context_pack_id f) \<noteq> None}"
      using mset_eq_setD [OF tagged] by auto
    have placed_all: "placed findings (verifier_id t) (concat (map fst results))"
      unfolding placed_def list_all_iff
    proof clarify
      fix i v assume iv: "(i, v) \<in> set (concat (map fst results))"
      then have "(i, fv_finding v) \<in> set (tags (concat (map fst results)))" by (force simp: tags_def)
      then have "(i, fv_finding v) \<in> set items" unfolding result_items by blast
      from at [OF this] rids iv show "i < length findings \<and> fv_finding v = findings ! i \<and> fv_reviewer_id v = verifier_id t"
        unfolding list_all_iff by blast
    qed
    have placed_absent: "placed findings (verifier_id t) absent"
      unfolding placed_def list_all_iff absent_def by (auto simp: missing_pack_verification_def dest: at)
    have joined: "fold (\<lambda>(vs, _) d. fold (\<lambda>(i, v) d. dict_set i v d) vs d) rs d
        = fold (\<lambda>(i, v) d. dict_set i v d) (concat (map fst rs)) d" for rs :: "(indexed_verifications \<times> llm_run) list" and d
      by (induction rs arbitrary: d) auto
    have placed_result: "placed findings (verifier_id t) all_vs"
      unfolding all_vs_def joined by (rule placed_update [OF placed_absent placed_all])
    have "set [0..<length findings] \<subseteq> fst ` set all_vs"
    proof
      fix i assume "i \<in> set [0..<length findings]"
      then have "(i, findings ! i) \<in> set items" by (auto simp: items_def set_indexed)
      then have "i \<in> fst ` set absent \<or> (i, findings ! i) \<in> set (tags (concat (map fst results)))"
        unfolding result_items absent_def by force
      then show "i \<in> fst ` set all_vs"
        unfolding all_vs_def joined keys_update by (force simp: tags_def)
    qed
    from verifications_in_order_total [OF placed_result this] obtain vs
      where vs: "verifications_in_order all_vs [0..<length findings] = Inr vs"
        and order: "map fv_finding vs = findings" and rid: "list_all (\<lambda>v. fv_reviewer_id v = verifier_id t) vs"
      by (auto simp: map_nth)
    have "verify_findings s t findings packs w = Inr ((map fv_finding
        (filter (\<lambda>v. fv_approved v \<and> \<not> fv_superseded v) vs), vs, map snd results), w')"
      using False vs Inr results
      unfolding verify_findings_def Let_def by_id_def [symmetric] items_def [symmetric] absent_def [symmetric]
      by (simp add: all_vs_def)
    then show ?thesis using order rid by simp
  qed
qed

text \<open>C7: Every finding gets exactly one verification, in the order of the findings and under the verifying
  reviewer, whatever the providers answer; the approved findings are those whose verification approves
  them and completed. No index is left without one, as long as no cache file is undecodable.\<close>

theorem verify_findings_decides_each:
  assumes "decodable (lw_cache w)"
  shows "case verify_findings s t findings packs w of
      Inl e \<Rightarrow> (\<exists>r. e = Routing_Failure r)
    | Inr ((approved, vs, runs), w') \<Rightarrow> map fv_finding vs = findings
        \<and> list_all (\<lambda>v. fv_reviewer_id v = verifier_id t) vs
        \<and> approved = map fv_finding (filter (\<lambda>v. fv_approved v \<and> \<not> fv_superseded v) vs)"
  by (rule verify_findings_total [OF assms])


lemma verify_findings_decides_each_witness:
  "\<forall>f g. case verify_findings sample_services sample_verify_task [f, g] [] (new_world []) of
     Inl e \<Rightarrow> False | Inr ((approved, vs, runs), w') \<Rightarrow> map fv_finding vs = [f, g]"
proof (intro allI)
  fix f g
  have "decodable (lw_cache (new_world []))" by (simp add: decodable_def new_world_def)
  from verify_findings_decides_each [OF this, where s = sample_services and t = sample_verify_task
      and findings = "[f, g]" and packs = "[]"]
  show "case verify_findings sample_services sample_verify_task [f, g] [] (new_world []) of
     Inl e \<Rightarrow> False | Inr ((approved, vs, runs), w') \<Rightarrow> map fv_finding vs = [f, g]"
    by (auto simp: verify_findings_def verification_packs_def findings_by_pack_def indexed_def dict_of_def
        sample_verify_task_def split: sum.splits)
qed

subsection \<open>Nothing is approved by default\<close>

lemma read_nothing_without_cache:
  "(\<And>f. key_of f = None) \<Longrightarrow> read_verifications cache fresh key_of items hits misses = (None, hits, misses @ items)"
  by (induction items arbitrary: hits misses) auto

lemma verify_pack_fails_closed:
  assumes "\<not> llm_cache_used (vft_config t)"
  shows "\<exists>new. lw_calls (snd (snd (verify_pack s t p items r w))) = lw_calls w @ new
    \<and> ((\<exists>(i, v) \<in> set (fst (verify_pack s t p items r w)). fv_approved v) \<longrightarrow> ''ok'' \<in> (snd \<circ> snd) ` set new)"
proof -
  obtain c profile reason where r: "r = (c, profile, reason)" by (metis prod_cases3)
  define out where "out = ask_for_verifications s (vft_config t) (verifier_id t) p c (verify_key_for s t p c) items w"
  have scan: "read_verifications (lw_cache w) fresh (verify_key_for s t p c) items [] [] = (None, [], items)" for fresh
    using read_nothing_without_cache [of "verify_key_for s t p c"] assms by (simp add: verify_key_for_def)
  have incomplete: "\<not> fv_approved (snd (incomplete_verification rid a b item))" for rid a b item
    by (simp add: incomplete_verification_def)
  have out: "vo_hits out = [] \<and> ((\<exists>(i, v) \<in> set (vo_new out). fv_approved v) \<longrightarrow> vo_called out \<and> vo_status out = ''ok'')"
    unfolding out_def ask_for_verifications_def Let_def scan failed_outcome_def
    by (auto simp: incomplete_verification_def split: option.split sum.split prod.split)
  have result: "fst (verify_pack s t p items r w) = map (\<lambda>(i, v). (i, v\<lparr>fv_reviewer_id := verifier_id t\<rparr>)) (vo_hits out @ vo_new out)"
    "lw_calls (snd (snd (verify_pack s t p items r w)))
      = (if vo_called out then lw_calls w @ [(circuit_route_key c, route_label c profile, vo_status out)] else lw_calls w)"
    unfolding verify_pack_def r Let_def out_def [symmetric] by (simp_all add: out_def log_call_def)
  show ?thesis
    unfolding result using out by (auto simp: image_iff)
qed

lemma verify_groups_fail_closed:
  "\<not> llm_cache_used (vft_config t) \<Longrightarrow>
   \<exists>new. lw_calls (snd (verify_groups s t packs groups w)) = lw_calls w @ new
    \<and> ((\<exists>(i, v) \<in> set (concat (map fst (fst (verify_groups s t packs groups w)))). fv_approved v)
        \<longrightarrow> ''ok'' \<in> (snd \<circ> snd) ` set new)"
proof (induction s t packs groups w rule: verify_groups.induct)
  case (2 s t packs pack_id items r groups w)
  obtain vs run w1 where vp: "verify_pack s t (the (dict_get packs pack_id)) items r w = (vs, run, w1)"
    by (metis prod_cases3)
  from verify_pack_fails_closed [OF "2.prems", of s "the (dict_get packs pack_id)" items r w]
  obtain new1 where one: "lw_calls w1 = lw_calls w @ new1"
    "(\<exists>(i, v) \<in> set vs. fv_approved v) \<longrightarrow> ''ok'' \<in> (snd \<circ> snd) ` set new1" by (auto simp: vp)
  from "2.IH" [OF refl vp [symmetric] refl "2.prems"] obtain new2 where two:
    "lw_calls (snd (verify_groups s t packs groups w1)) = lw_calls w1 @ new2"
    "(\<exists>(i, v) \<in> set (concat (map fst (fst (verify_groups s t packs groups w1)))). fv_approved v)
       \<longrightarrow> ''ok'' \<in> (snd \<circ> snd) ` set new2" by blast
  show ?case
    using one two by (intro exI [of _ "new1 @ new2"]) (auto simp: vp split_def Let_def)
qed simp

lemma set_update_all: "set (fold (\<lambda>(i, v) d. dict_set i v d) vs d) \<subseteq> set d \<union> set vs"
proof (induction vs arbitrary: d)
  case (Cons e vs)
  have "set (dict_set (fst e) (snd e) d) \<subseteq> insert e (set d)"
    using dict_set_entries [of _ _ "fst e" "snd e" d] by (auto simp del: dict_set_entries)
  with Cons [of "dict_set (fst e) (snd e) d"] show ?case by (auto simp: split_def)
qed simp

lemma verifications_in_order_from:
  "\<lbrakk>verifications_in_order d is = Inr vs; v \<in> set vs\<rbrakk> \<Longrightarrow> v \<in> snd ` set d"
  by (induction "is" arbitrary: vs) (force simp: map_sum_eq_Inr dest: map_of_SomeD split: option.splits)+

text \<open>C8: Verification fails closed: without the cache, a finding is approved only if some provider call of
  this verification ended well; errors, an open circuit, a missing pack or a short answer approve
  nothing.\<close>

theorem verification_fails_closed:
  assumes "\<not> llm_cache_used (vft_config t)"
    and "verify_findings s t findings packs w = Inr ((approved, vs, runs), w')" and "approved \<noteq> []"
  shows "\<exists>new. lw_calls w' = lw_calls w @ new \<and> ''ok'' \<in> (snd \<circ> snd) ` set new"
proof -
  define by_id where "by_id = verification_packs t packs findings"
  define items where "items = filter (\<lambda>(i, f). dict_get by_id (fi_context_pack_id f) = None) (indexed findings)"
  define absent where "absent = map (\<lambda>(i, f). (i, missing_pack_verification (verifier_id t) f)) items"
  have "findings \<noteq> []" using assms(2,3) by (auto simp: verify_findings_def)
  with assms(2) obtain groups where all: "map_sum id (\<lambda>vs. ((map fv_finding (filter (\<lambda>v. fv_approved v \<and> \<not> fv_superseded v) vs),
        vs, map snd (fst (verify_groups s t by_id groups w))), snd (verify_groups s t by_id groups w)))
      (verifications_in_order (fold (\<lambda>(vs, _) d. fold (\<lambda>(i, v) d. dict_set i v d) vs d)
        (fst (verify_groups s t by_id groups w)) absent) [0..<length findings]) = Inr ((approved, vs, runs), w')"
    by (auto simp: verify_findings_def Let_def split_def by_id_def absent_def items_def split: sum.splits)
  define results where "results = fst (verify_groups s t by_id groups w)"
  from all have groups: "verify_groups s t by_id groups w = (results, w')"
    and vs: "verifications_in_order (fold (\<lambda>(vs, _) d. fold (\<lambda>(i, v) d. dict_set i v d) vs d) results absent)
      [0..<length findings] = Inr vs"
    and approved: "approved = map fv_finding (filter (\<lambda>v. fv_approved v \<and> \<not> fv_superseded v) vs)"
    by (auto simp: map_sum_eq_Inr results_def prod_eq_iff)
  from assms(3) obtain v where v: "v \<in> set vs" "fv_approved v" by (auto simp: approved filter_empty_conv)
  have joined: "fold (\<lambda>(vs, _) d. fold (\<lambda>(i, v) d. dict_set i v d) vs d) rs d
      = fold (\<lambda>(i, v) d. dict_set i v d) (concat (map fst rs)) d" for rs :: "(indexed_verifications \<times> llm_run) list" and d
    by (induction rs arbitrary: d) auto
  from verifications_in_order_from [OF vs v(1)] set_update_all
  have "v \<in> snd ` (set absent \<union> set (concat (map fst results)))" unfolding joined by blast
  moreover have "v \<notin> snd ` set absent" using v(2) by (auto simp: absent_def missing_pack_verification_def)
  ultimately have "\<exists>(i, v) \<in> set (concat (map fst results)). fv_approved v" using v(2) by force
  with verify_groups_fail_closed [OF assms(1), of s by_id groups w] show ?thesis by (auto simp: groups)
qed


definition approving_services :: "unit llm_services" where
  "approving_services = sample_services\<lparr>ls_verify :=
     (\<lambda>_ _ _ fs. Inr \<lparr>lvr_verifications = map (\<lambda>f. new_verification f True FC_HIGH ''real'') fs, lvr_usage = None\<rparr>)\<rparr>"

text \<open>One finding of one pack, with the default routing.\<close>

lemma verify_one_finding:
  assumes "lc_routing (vft_config t) = default_llm_routing_config" and "cp_rule_matches p = []"
    and "vft_reviewer t = None" and "fi_context_pack_id f = cp_id p"
  shows "verify_findings s t [f] [p] w =
    (let (vs, run, w') = verify_pack s t p [(0, f)] (vft_config t, None, ''default'') w in
     case dict_get (fold (\<lambda>(i, v) d. dict_set i v d) vs []) 0 of
       None \<Rightarrow> Inl (Key_Error 0)
     | Some v \<Rightarrow> Inr ((if fv_approved v \<and> \<not> fv_superseded v then [fv_finding v] else [], [v], [run]), w'))"
proof -
  have by_id: "verification_packs t [p] [f] = [(cp_id p, p)]"
    using assms(3,4) by (simp add: verification_packs_def dict_of_def)
  have grouped: "findings_by_pack [(cp_id p, p)] [(0, f)] = [(cp_id p, [(0, f)])]"
    using assms(4) by (simp add: findings_by_pack_def dict_get_or_def)
  have items: "indexed [f] = [(0, f)]" by (simp add: indexed_def)
  have groups: "verification_groups_by_route (ls_endpoint_ok s) (ls_set_fields s) [(cp_id p, [(0, f)])] [(cp_id p, p)]
      (vft_config t) = Inr [(cp_id p, [(0, f)], vft_config t, None, ''default'')]"
    using assms(1,2) by (simp add: default_verification_route add_to_group_def dict_get_or_def)
  show ?thesis
    unfolding verify_findings_def Let_def by_id items grouped groups
    using assms(4) by (auto split: prod.split option.split)
qed

lemma verification_fails_closed_witness:
  "\<exists>approved vs runs w'. verify_findings approving_services
      (sample_verify_task\<lparr>vft_config := default_llm_config\<lparr>lc_cache_enabled := False\<rparr>\<rparr>)
      [sample_finding] [sample_pack ''p'' ''a.py''] (new_world []) = Inr ((approved, vs, runs), w')
    \<and> approved = [sample_finding] \<and> (\<exists>new. lw_calls w' = new \<and> ''ok'' \<in> (snd \<circ> snd) ` set new)"
proof -
  let ?t = "sample_verify_task\<lparr>vft_config := default_llm_config\<lparr>lc_cache_enabled := False\<rparr>\<rparr>"
  have no_cache: "\<not> llm_cache_used (vft_config ?t)" by (simp add: llm_cache_used_def)
  have asked: "validate_api_model_compatibility (default_llm_config\<lparr>lc_cache_enabled := False\<rparr>) = None"
    by code_simp
  obtain run w' where "verify_pack approving_services ?t (sample_pack ''p'' ''a.py'') [(0, sample_finding)]
      (vft_config ?t, None, ''default'') (new_world [])
        = ([(0, new_verification sample_finding True FC_HIGH ''real'')], run, w')"
    using asked by (simp add: verify_pack_def ask_for_verifications_def verify_key_for_def llm_cache_used_def
        new_world_def open_failure_def approving_services_def sample_services_def verification_for_finding_def
        verifier_id_def sample_verify_task_def new_verification_def Let_def)
  then obtain vs runs where run: "verify_findings approving_services ?t [sample_finding] [sample_pack ''p'' ''a.py'']
      (new_world []) = Inr (([sample_finding], vs, runs), w')"
    by (simp add: verify_one_finding sample_verify_task_def sample_pack_def sample_finding_def new_verification_def)
  from verification_fails_closed [OF no_cache this] have "\<exists>new. lw_calls w' = new \<and> ''ok'' \<in> (snd \<circ> snd) ` set new"
    by (auto simp: new_world_def)
  with run show ?thesis by blast
qed

subsection \<open>A cache file that is not UTF-8\<close>



end
