(* ===== verification/Budget_Trim.thy ===== *)
theory Budget_Trim
  imports Model_Pack
begin

section \<open>Fitting a context pack into its budget\<close>

text \<open>
  \<open>src/apex_ray/context/budget.py\<close>. A pack that is too long for a prompt is trimmed in a fixed order:
  snippets beyond the configured counts, related tests, references, callees, memory cards, contracts
  and metadata, the analyzer graph, and only then the changed code. The code mutates a copy of the
  pack and a list of notes; here both are the state that is passed along. The size of a pack is the
  length of the JSON text of its review prompt without the statistics; that text is the parameter
  \<open>prompt_chars\<close>, the key of the policy (a hash of the configuration) the parameter \<open>policy_key\<close>.
\<close>

subsection \<open>The snippets of a pack, by group\<close>

datatype snippet_group =
  Changed_Snippets | Reference_Snippets | Callee_Snippets | Contract_Snippets | Metadata_Snippets
| Related_Test_Snippets

definition snippet_groups :: "snippet_group list" where
  "snippet_groups = [Changed_Snippets, Reference_Snippets, Callee_Snippets, Contract_Snippets,
     Metadata_Snippets, Related_Test_Snippets]"

fun group_label :: "snippet_group \<Rightarrow> string" where
  "group_label Changed_Snippets = ''changed snippet''"
| "group_label Reference_Snippets = ''reference snippet''"
| "group_label Callee_Snippets = ''callee snippet''"
| "group_label Contract_Snippets = ''contract snippet''"
| "group_label Metadata_Snippets = ''metadata snippet''"
| "group_label Related_Test_Snippets = ''related test snippet''"

fun group_snippets :: "snippet_group \<Rightarrow> context_pack \<Rightarrow> code_snippet list" where
  "group_snippets Changed_Snippets p = cp_changed_snippets p"
| "group_snippets Reference_Snippets p = cp_reference_snippets p"
| "group_snippets Callee_Snippets p = cp_callee_snippets p"
| "group_snippets Contract_Snippets p = cp_contract_snippets p"
| "group_snippets Metadata_Snippets p = cp_metadata_snippets p"
| "group_snippets Related_Test_Snippets p = cp_related_test_snippets p"

fun with_group :: "snippet_group \<Rightarrow> code_snippet list \<Rightarrow> context_pack \<Rightarrow> context_pack" where
  "with_group Changed_Snippets ss p = p\<lparr>cp_changed_snippets := ss\<rparr>"
| "with_group Reference_Snippets ss p = p\<lparr>cp_reference_snippets := ss\<rparr>"
| "with_group Callee_Snippets ss p = p\<lparr>cp_callee_snippets := ss\<rparr>"
| "with_group Contract_Snippets ss p = p\<lparr>cp_contract_snippets := ss\<rparr>"
| "with_group Metadata_Snippets ss p = p\<lparr>cp_metadata_snippets := ss\<rparr>"
| "with_group Related_Test_Snippets ss p = p\<lparr>cp_related_test_snippets := ss\<rparr>"

lemma group_snippets_with_group [simp]:
  "group_snippets g (with_group h ss p) = (if g = h then ss else group_snippets g p)"
  by (cases g; cases h) simp_all

text \<open>The code keeps a slice \<open>snippets[:max_count]\<close>; a negative bound counts from the end.\<close>

definition limit_snippet_count ::
    "int \<Rightarrow> string \<Rightarrow> code_snippet list \<Rightarrow> code_snippet list \<times> string list" where
  "limit_snippet_count max_count label snippets =
     (if int (length snippets) \<le> max_count then (snippets, [])
      else (take (nat (if 0 \<le> max_count then max_count else int (length snippets) + max_count)) snippets,
            [''trimmed '' @ str_int (int (length snippets) - max_count) @ '' '' @ label @ '' by count'']))"

definition group_limit :: "context_config \<Rightarrow> snippet_group \<Rightarrow> int" where
  "group_limit config g = (case g of
     Changed_Snippets \<Rightarrow> cc_max_changed_snippets config
   | Related_Test_Snippets \<Rightarrow> cc_max_related_test_snippets config
   | _ \<Rightarrow> cc_max_reference_snippets config)"

definition limit_group ::
    "context_config \<Rightarrow> snippet_group \<Rightarrow> context_pack \<times> string list \<Rightarrow> context_pack \<times> string list" where
  "limit_group config g = (\<lambda>(p, notes).
     let (kept, note) = limit_snippet_count (group_limit config g) (group_label g @ ''s'') (group_snippets g p)
     in (with_group g kept p, notes @ note))"

subsection \<open>Cutting one snippet\<close>

definition estimated_pack_chars :: "(context_pack \<Rightarrow> int) \<Rightarrow> context_pack \<Rightarrow> int" where
  "estimated_pack_chars prompt_chars p = prompt_chars (p\<lparr>cp_stats := default_context_pack_stats\<rparr>)"

definition snippet_candidates ::
    "snippet_group list \<Rightarrow> context_pack \<Rightarrow> (nat \<times> string \<times> nat \<times> snippet_group) list" where
  "snippet_candidates allowed p = concat (map (\<lambda>g.
     if g \<in> set allowed
     then map (\<lambda>(i, s). (length (cs_code s), group_label g, i, g))
            (filter (\<lambda>(i, s). 128 < length (cs_code s)) (indexed (group_snippets g p)))
     else []) snippet_groups)"

text \<open>The longest candidate; between equal lengths the later label, then the later index.\<close>

fun longest_candidate ::
    "(nat \<times> string \<times> nat \<times> snippet_group) list \<Rightarrow> (nat \<times> string \<times> nat \<times> snippet_group) option" where
  "longest_candidate [] = None"
| "longest_candidate (c # cs) = (case longest_candidate cs of
     None \<Rightarrow> Some c
   | Some d \<Rightarrow> (let (n, l, i, g) = c; (n', l', i', g') = d
               in if (n, l, i) < (n', l', i') then Some d else Some c))"

definition centred_group :: "snippet_group \<Rightarrow> bool" where
  "centred_group g \<longleftrightarrow>
     g \<in> {Reference_Snippets, Callee_Snippets, Contract_Snippets, Metadata_Snippets}"

definition truncated_snippet :: "snippet_group \<Rightarrow> code_snippet \<Rightarrow> code_snippet" where
  "truncated_snippet g s =
     (let lines = split_lines_keep (cs_code s) in
      if 1 < length lines
      then let new_line_count = max 1 (length lines div 2);
               start_offset = (if centred_group g then (length lines - new_line_count) div 2 else 0);
               new_start_line = cs_start_line s + int start_offset
           in s\<lparr>cs_start_line := new_start_line,
                cs_end_line := new_start_line + int new_line_count - 1,
                cs_code := concat (take new_line_count (drop start_offset lines))\<rparr>
      else s\<lparr>cs_code := take (max 128 (length (cs_code s) div 2)) (cs_code s)\<rparr>)"

definition truncate_longest_snippet ::
    "snippet_group list \<Rightarrow> context_pack \<times> string list \<Rightarrow> (context_pack \<times> string list) option" where
  "truncate_longest_snippet allowed st =
     (case longest_candidate (snippet_candidates allowed (fst st)) of
        None \<Rightarrow> None
      | Some (_, label, i, g) \<Rightarrow>
          let snippets = group_snippets g (fst st)
          in Some (with_group g (snippets[i := truncated_snippet g (snippets ! i)]) (fst st),
                   snd st @ [''truncated longest '' @ label @ '' to fit context budget'']))"

subsection \<open>The loops of the budget\<close>

text \<open>The body of each \<open>while\<close> loop, with its guard other than the budget: nothing is left to do when
  it is \<open>None\<close>.\<close>

datatype trim_phase =
  Squeeze snippet_group        \<comment> \<open>cut the longest snippet of the group, or drop its last\<close>
| Drop_Cards                   \<comment> \<open>drop the last memory card and record the omission\<close>
| Truncate "snippet_group list"
| Drop_Last snippet_group

definition drop_last_snippet ::
    "snippet_group \<Rightarrow> context_pack \<times> string list \<Rightarrow> context_pack \<times> string list" where
  "drop_last_snippet g st =
     (with_group g (butlast (group_snippets g (fst st))) (fst st),
      snd st @ [''dropped '' @ group_label g @ '' to fit context budget''])"

definition omission_of :: "memory_match \<Rightarrow> memory_omission" where
  "omission_of m = \<lparr>mo_id = mm_id m, mo_title = mm_title m, mo_kind = mm_kind m,
     mo_reason = ''dropped memory card to fit context budget'', mo_score = mm_score m,
     mo_source_path = mm_source_path m\<rparr>"

definition drop_last_card :: "context_pack \<times> string list \<Rightarrow> context_pack \<times> string list" where
  "drop_last_card st =
     ((fst st)\<lparr>cp_memory_matches := butlast (cp_memory_matches (fst st)),
               cp_memory_omissions := cp_memory_omissions (fst st)
                                        @ [omission_of (last (cp_memory_matches (fst st)))]\<rparr>,
      snd st @ [''dropped memory card to fit context budget''])"

fun trim_step :: "trim_phase \<Rightarrow> context_pack \<times> string list \<Rightarrow> (context_pack \<times> string list) option" where
  "trim_step (Squeeze g) st =
     (if group_snippets g (fst st) = [] then None
      else case truncate_longest_snippet [g] st of
             None \<Rightarrow> Some (drop_last_snippet g st)
           | Some st' \<Rightarrow> Some st')"
| "trim_step Drop_Cards st =
     (if cp_memory_matches (fst st) = [] then None else Some (drop_last_card st))"
| "trim_step (Truncate gs) st = truncate_longest_snippet gs st"
| "trim_step (Drop_Last g) st =
     (if group_snippets g (fst st) = [] then None else Some (drop_last_snippet g st))"


text \<open>The weight that every step of every loop lowers.\<close>

definition snippets_weight :: "code_snippet list \<Rightarrow> nat" where
  "snippets_weight ss = sum_list (map (\<lambda>s. length (cs_code s) + 1) ss)"

definition pack_weight :: "context_pack \<Rightarrow> nat" where
  "pack_weight p = sum_list (map (\<lambda>g. snippets_weight (group_snippets g p)) snippet_groups)
     + length (cp_memory_matches p)"

lemma lines_from_keep:
  "concat (lines_from True acc s) = rev acc @ s"
  "l \<in> set (lines_from True acc s) \<Longrightarrow> l \<noteq> []"
  by (induction True acc s rule: lines_from.induct) (auto dest: hd_Cons_tl split: if_splits)

lemma concat_split_lines_keep [simp]: "concat (split_lines_keep s) = s"
  by (simp add: split_lines_keep_def lines_from_keep)

lemma split_lines_keep_nonempty: "l \<in> set (split_lines_keep s) \<Longrightarrow> l \<noteq> []"
  using lines_from_keep(2)[of l "[]" s] by (simp add: split_lines_keep_def)

lemma concat_shorter:
  fixes ls :: "string list"
  assumes ne: "\<And>l. l \<in> set ls \<Longrightarrow> l \<noteq> []" and k: "k < length ls"
  shows "length (concat (take k (drop a ls))) < length (concat ls)"
proof -
  define before after where "before = take a ls" and "after = drop k (drop a ls)"
  have ls: "ls = before @ take k (drop a ls) @ after"
    by (simp add: before_def after_def del: drop_drop)
  have "before \<noteq> [] \<or> after \<noteq> []"
    using k by (auto simp: before_def after_def)
  then obtain l where "l \<in> set before \<union> set after" by (cases before; cases after) auto
  moreover from this have "l \<noteq> []" using ne ls by (metis Un_iff set_append)
  ultimately have "concat before @ concat after \<noteq> []" by auto
  then have "0 < length (concat before) + length (concat after)" by simp
  with arg_cong[OF ls, of "\<lambda>xs. length (concat xs)"] show ?thesis by simp
qed

lemma truncated_snippet_shorter:
  "128 < length (cs_code s) \<Longrightarrow> length (cs_code (truncated_snippet g s)) < length (cs_code s)"
proof (cases "1 < length (split_lines_keep (cs_code s))")
  case True
  then have "max 1 (length (split_lines_keep (cs_code s)) div 2) < length (split_lines_keep (cs_code s))"
    by auto
  with concat_shorter[of "split_lines_keep (cs_code s)"] True show ?thesis
    by (simp add: truncated_snippet_def Let_def split_lines_keep_nonempty)
qed (auto simp: truncated_snippet_def Let_def)

lemma longest_candidate_member: "longest_candidate cs = Some c \<Longrightarrow> c \<in> set cs"
  by (induction cs arbitrary: c) (auto split: option.splits prod.splits if_splits simp: Let_def)

lemma set_snippet_groups [simp]: "set snippet_groups = UNIV"
proof -
  have "g \<in> set snippet_groups" for g by (cases g) (simp_all add: snippet_groups_def)
  then show ?thesis by blast
qed

lemma snippet_candidates_member:
  "(n, l, i, g) \<in> set (snippet_candidates allowed p) \<Longrightarrow>
     g \<in> set allowed \<and> l = group_label g \<and> i < length (group_snippets g p) \<and>
     n = length (cs_code (group_snippets g p ! i)) \<and> 128 < n"
  by (auto simp: snippet_candidates_def set_indexed split: if_splits)

text \<open>What one cut does: it replaces one snippet of an allowed group, one longer than 128 characters.\<close>

lemma truncate_longest_SomeD:
  assumes "truncate_longest_snippet allowed st = Some st'"
  obtains g i where "g \<in> set allowed" "i < length (group_snippets g (fst st))"
    "128 < length (cs_code (group_snippets g (fst st) ! i))"
    "fst st' = with_group g ((group_snippets g (fst st))[i := truncated_snippet g (group_snippets g (fst st) ! i)]) (fst st)"
    "snd st' = snd st @ [''truncated longest '' @ group_label g @ '' to fit context budget'']"
proof -
  from assms obtain n l i g where c: "longest_candidate (snippet_candidates allowed (fst st)) = Some (n, l, i, g)"
    and st': "st' = (with_group g ((group_snippets g (fst st))[i := truncated_snippet g (group_snippets g (fst st) ! i)]) (fst st),
       snd st @ [''truncated longest '' @ l @ '' to fit context budget''])"
    by (auto simp: truncate_longest_snippet_def Let_def split: option.splits)
  from longest_candidate_member[OF c] show ?thesis
    by (intro that[of g i]) (auto dest: snippet_candidates_member simp: st')
qed

lemma memory_with_group [simp]:
  "cp_memory_matches (with_group g ss p) = cp_memory_matches p"
  "cp_memory_omissions (with_group g ss p) = cp_memory_omissions p"
  by (cases g; simp)+

lemma pack_weight_with_group:
  "snippets_weight ss < snippets_weight (group_snippets g p) \<Longrightarrow> pack_weight (with_group g ss p) < pack_weight p"
  by (cases g) (simp_all add: pack_weight_def snippet_groups_def)

lemma snippets_weight_update:
  "\<lbrakk>i < length ss; length (cs_code s) < length (cs_code (ss ! i))\<rbrakk>
     \<Longrightarrow> snippets_weight (ss[i := s]) < snippets_weight ss"
  unfolding snippets_weight_def
  by (induction ss arbitrary: i) (auto simp: nth_Cons split: nat.splits)

lemma snippets_weight_butlast: "ss \<noteq> [] \<Longrightarrow> snippets_weight (butlast ss) < snippets_weight ss"
  by (cases ss rule: rev_cases) (simp_all add: snippets_weight_def)

lemma truncate_longest_lighter:
  "truncate_longest_snippet allowed st = Some st' \<Longrightarrow> pack_weight (fst st') < pack_weight (fst st)"
  by (elim truncate_longest_SomeD)
    (simp add: pack_weight_with_group snippets_weight_update truncated_snippet_shorter)

lemma drop_last_lighter:
  "group_snippets g (fst st) \<noteq> [] \<Longrightarrow> pack_weight (fst (drop_last_snippet g st)) < pack_weight (fst st)"
  by (simp add: drop_last_snippet_def pack_weight_with_group snippets_weight_butlast)

lemma group_snippets_cards [simp]:
  "group_snippets g (p\<lparr>cp_memory_matches := ms, cp_memory_omissions := os\<rparr>) = group_snippets g p"
  by (cases g) simp_all

lemma drop_last_card_lighter:
  "cp_memory_matches (fst st) \<noteq> [] \<Longrightarrow> pack_weight (fst (drop_last_card st)) < pack_weight (fst st)"
  by (simp add: drop_last_card_def pack_weight_def)

lemma trim_step_lighter: "trim_step ph st = Some st' \<Longrightarrow> pack_weight (fst st') < pack_weight (fst st)"
  by (cases ph) (auto split: if_splits option.splits
      intro: truncate_longest_lighter drop_last_lighter drop_last_card_lighter)

function trim_loop ::
    "(context_pack \<Rightarrow> int) \<Rightarrow> int \<Rightarrow> trim_phase \<Rightarrow> context_pack \<times> string list \<Rightarrow> context_pack \<times> string list" where
  "trim_loop chars limit ph st =
     (if estimated_pack_chars chars (fst st) \<le> limit then st
      else case trim_step ph st of None \<Rightarrow> st | Some st' \<Rightarrow> trim_loop chars limit ph st')"
  by pat_completeness auto
termination
  by (relation "measure (\<lambda>(chars, limit, ph, st). pack_weight (fst st))") (simp_all add: trim_step_lighter)

declare trim_loop.simps [simp del]

text \<open>The last loop cuts any snippet, 65 times at most.\<close>

fun trim_rounds ::
    "nat \<Rightarrow> (context_pack \<Rightarrow> int) \<Rightarrow> int \<Rightarrow> context_pack \<times> string list \<Rightarrow> context_pack \<times> string list" where
  "trim_rounds 0 chars limit st = st"
| "trim_rounds (Suc n) chars limit st =
     (if estimated_pack_chars chars (fst st) \<le> limit then st
      else case truncate_longest_snippet snippet_groups st of
             None \<Rightarrow> st
           | Some st' \<Rightarrow> trim_rounds n chars limit st')"

subsection \<open>The analyzer graph\<close>

definition symbol_has_graph_context :: "analyzer_symbol \<Rightarrow> bool" where
  "symbol_has_graph_context sy \<longleftrightarrow>
     sy_references sy \<noteq> [] \<or> sy_callees sy \<noteq> [] \<or> sy_contracts sy \<noteq> [] \<or> sy_metadata sy \<noteq> []"

definition compact_symbol_graph :: "analyzer_symbol \<Rightarrow> analyzer_symbol" where
  "compact_symbol_graph sy =
     sy\<lparr>sy_references := [], sy_callees := [], sy_contracts := [], sy_metadata := []\<rparr>"

definition has_analyzer_graph :: "context_pack \<Rightarrow> bool" where
  "has_analyzer_graph p \<longleftrightarrow>
     cp_references p \<noteq> [] \<or> cp_callees p \<noteq> [] \<or> cp_contracts p \<noteq> [] \<or> cp_metadata p \<noteq> []
     \<or> (case cp_symbol p of None \<Rightarrow> False | Some sy \<Rightarrow> symbol_has_graph_context sy)
     \<or> list_ex symbol_has_graph_context (cp_symbols p)"

definition without_analyzer_graph :: "context_pack \<Rightarrow> context_pack" where
  "without_analyzer_graph p =
     (let compact = (\<lambda>sy. if symbol_has_graph_context sy then compact_symbol_graph sy else sy)
      in p\<lparr>cp_references := [], cp_callees := [], cp_contracts := [], cp_metadata := [],
           cp_symbol := map_option compact (cp_symbol p), cp_symbols := map compact (cp_symbols p)\<rparr>)"

definition compact_analyzer_graph :: "context_pack \<times> string list \<Rightarrow> context_pack \<times> string list" where
  "compact_analyzer_graph st =
     (if has_analyzer_graph (fst st)
      then (without_analyzer_graph (fst st),
            snd st @ [''compacted over-budget analyzer graph to fit context budget''])
      else st)"

subsection \<open>The budget of a pack\<close>

definition trim_phases :: "trim_phase list" where
  "trim_phases = [Squeeze Related_Test_Snippets, Squeeze Reference_Snippets, Squeeze Callee_Snippets,
     Drop_Cards, Truncate [Contract_Snippets, Metadata_Snippets], Drop_Last Contract_Snippets,
     Drop_Last Metadata_Snippets]"

definition enforce_char_budget ::
    "(context_pack \<Rightarrow> int) \<Rightarrow> context_config \<Rightarrow> context_pack \<times> string list \<Rightarrow> context_pack \<times> string list" where
  "enforce_char_budget chars config st =
     (let limit = cc_max_pack_chars config;
          over = (\<lambda>st. limit < estimated_pack_chars chars (fst st)) in
      if \<not> over st then st
      else let st = fold (trim_loop chars limit) trim_phases st;
               st = (if over st then compact_analyzer_graph st else st);
               st = trim_rounds 65 chars limit st
           in if over st
              then (fst st, snd st @ [''pack remains over context budget after snippet truncation''])
              else st)"

definition snippet_lines :: "code_snippet list \<Rightarrow> int" where
  "snippet_lines ss = sum_list (map (\<lambda>s. int (length (split_lines (cs_code s)))) ss)"

definition pack_stats ::
    "(context_pack \<Rightarrow> int) \<Rightarrow> (context_config \<Rightarrow> string) \<Rightarrow> context_config \<Rightarrow> context_pack \<times> string list
     \<Rightarrow> context_pack_stats" where
  "pack_stats chars policy_key config = (\<lambda>(p, notes). \<lparr>
     st_diff_lines = int (length (cp_diff_snippet p)),
     st_changed_snippet_lines = snippet_lines (cp_changed_snippets p),
     st_reference_snippet_lines = snippet_lines (cp_reference_snippets p),
     st_callee_snippet_lines = snippet_lines (cp_callee_snippets p),
     st_contract_snippet_lines = snippet_lines (cp_contract_snippets p),
     st_metadata_snippet_lines = snippet_lines (cp_metadata_snippets p),
     st_related_test_snippet_lines = snippet_lines (cp_related_test_snippets p),
     st_memory_cards = int (length (cp_memory_matches p)),
     st_memory_chars = sum_list (map mm_prompt_chars (cp_memory_matches p)),
     st_estimated_chars = estimated_pack_chars chars p,
     st_truncated = (notes \<noteq> []),
     st_truncation_notes = notes,
     st_policy_key = policy_key config\<rparr>)"

definition limited_pack :: "context_config \<Rightarrow> context_pack \<Rightarrow> context_pack \<times> string list" where
  "limited_pack config pack = fold (limit_group config) snippet_groups (pack, [])"

definition finalize_pack ::
    "(context_pack \<Rightarrow> int) \<Rightarrow> (context_config \<Rightarrow> string) \<Rightarrow> context_config \<Rightarrow> context_pack \<Rightarrow> context_pack" where
  "finalize_pack chars policy_key config pack =
     (let st = enforce_char_budget chars config (limited_pack config pack)
      in (fst st)\<lparr>cp_stats := pack_stats chars policy_key config st\<rparr>)"


subsection \<open>What every step of the trimming keeps\<close>

text \<open>The trimming is made of five kinds of steps; what all of them keep, the whole trimming keeps.\<close>

locale trim_invariant =
  fixes P :: "context_pack \<times> string list \<Rightarrow> bool"
  assumes cut: "\<lbrakk>truncate_longest_snippet gs st = Some st'; P st\<rbrakk> \<Longrightarrow> P st'"
    and drop_snippet: "\<lbrakk>group_snippets g (fst st) \<noteq> []; P st\<rbrakk> \<Longrightarrow> P (drop_last_snippet g st)"
    and drop_card: "\<lbrakk>cp_memory_matches (fst st) \<noteq> []; P st\<rbrakk> \<Longrightarrow> P (drop_last_card st)"
    and compact: "P st \<Longrightarrow> P (compact_analyzer_graph st)"
    and remark: "P st \<Longrightarrow> P (fst st, snd st @ [msg])"
begin

lemma step_kept: "\<lbrakk>trim_step ph st = Some st'; P st\<rbrakk> \<Longrightarrow> P st'"
  by (cases ph) (auto split: if_splits option.splits intro: cut drop_snippet drop_card)

lemma loop_kept: "P st \<Longrightarrow> P (trim_loop chars limit ph st)"
proof (induction chars limit ph st rule: trim_loop.induct)
  case (1 chars limit ph st)
  then show ?case by (subst trim_loop.simps) (auto split: option.split intro: step_kept)
qed

lemma phases_kept: "P st \<Longrightarrow> P (fold (trim_loop chars limit) phs st)"
  by (rule fold_inv[of P]) (auto intro: loop_kept)

lemma rounds_kept: "P st \<Longrightarrow> P (trim_rounds n chars limit st)"
  by (induction n chars limit st rule: trim_rounds.induct) (auto split: option.split intro: cut)

lemma enforced: "P st \<Longrightarrow> P (enforce_char_budget chars config st)"
  unfolding enforce_char_budget_def Let_def
  by (auto intro!: remark rounds_kept compact phases_kept)

end

text \<open>A trimmed pack is the same change with the same rules, risks and tests: only the snippets, the
  analyzer graph, the memory cards and the statistics may differ.\<close>

definition trim_frame :: "context_pack \<Rightarrow> context_pack" where
  "trim_frame p = p\<lparr>
     cp_changed_snippets := [], cp_reference_snippets := [], cp_callee_snippets := [],
     cp_contract_snippets := [], cp_metadata_snippets := [], cp_related_test_snippets := [],
     cp_symbol := None, cp_symbols := [], cp_references := [], cp_callees := [], cp_contracts := [],
     cp_metadata := [], cp_memory_matches := [], cp_memory_omissions := [],
     cp_stats := default_context_pack_stats\<rparr>"

definition cards_accounted :: "context_pack \<Rightarrow> context_pack \<Rightarrow> bool" where
  "cards_accounted p p' \<longleftrightarrow>
     cp_memory_omissions p' = cp_memory_omissions p
       @ map omission_of (rev (drop (length (cp_memory_matches p')) (cp_memory_matches p))) \<and>
     cp_memory_matches p' = take (length (cp_memory_matches p')) (cp_memory_matches p)"

lemma trim_frame_with_group [simp]: "trim_frame (with_group g ss p) = trim_frame p"
  by (cases g) (simp_all add: trim_frame_def)

lemma without_analyzer_graph_simps [simp]:
  "group_snippets g (without_analyzer_graph p) = group_snippets g p"
  "cp_memory_matches (without_analyzer_graph p) = cp_memory_matches p"
  "cp_memory_omissions (without_analyzer_graph p) = cp_memory_omissions p"
  "trim_frame (without_analyzer_graph p) = trim_frame p"
  by (cases g) (simp_all add: without_analyzer_graph_def trim_frame_def Let_def)

lemma compact_analyzer_graph_simps [simp]:
  "group_snippets g (fst (compact_analyzer_graph st)) = group_snippets g (fst st)"
  "cp_memory_matches (fst (compact_analyzer_graph st)) = cp_memory_matches (fst st)"
  "cp_memory_omissions (fst (compact_analyzer_graph st)) = cp_memory_omissions (fst st)"
  "trim_frame (fst (compact_analyzer_graph st)) = trim_frame (fst st)"
  by (simp_all add: compact_analyzer_graph_def)

lemma drop_last_simps [simp]:
  "trim_frame (fst (drop_last_card st)) = trim_frame (fst st)"
  "trim_frame (fst (drop_last_snippet g st)) = trim_frame (fst st)"
  by (simp_all add: drop_last_card_def drop_last_snippet_def) (simp add: trim_frame_def)

lemma cards_accounted_refl [simp]: "cards_accounted p p"
  by (simp add: cards_accounted_def)

lemma cards_accounted_drop:
  assumes "cp_memory_matches p' \<noteq> []" "cards_accounted p p'"
  shows "cards_accounted p (fst (drop_last_card (p', notes)))"
proof -
  obtain ms m where ms: "cp_memory_matches p' = ms @ [m]" using assms(1) by (cases "cp_memory_matches p'" rule: rev_cases) auto
  then have "cp_memory_matches p = (ms @ [m]) @ drop (Suc (length ms)) (cp_memory_matches p)"
    using assms(2) by (metis cards_accounted_def append_take_drop_id length_append_singleton)
  then obtain rest where "cp_memory_matches p = ms @ m # rest" by simp
  with ms assms(2) show ?thesis
    by (simp add: cards_accounted_def drop_last_card_def)
qed

interpretation frame: trim_invariant
  "\<lambda>st. trim_frame (fst st) = trim_frame pack \<and> cards_accounted pack (fst st)" for pack
proof unfold_locales
  show "trim_frame (fst st') = trim_frame pack \<and> cards_accounted pack (fst st')"
    if "truncate_longest_snippet gs st = Some st'" "trim_frame (fst st) = trim_frame pack \<and> cards_accounted pack (fst st)"
    for gs st st'
    using that by (elim truncate_longest_SomeD) (simp add: cards_accounted_def)
  show "trim_frame (fst (drop_last_card st)) = trim_frame pack \<and> cards_accounted pack (fst (drop_last_card st))"
    if "cp_memory_matches (fst st) \<noteq> []" "trim_frame (fst st) = trim_frame pack \<and> cards_accounted pack (fst st)" for st
    using that cards_accounted_drop[of "fst st" pack "snd st"] by simp
qed (auto simp: drop_last_snippet_def cards_accounted_def)

lemma limited_pack_inv:
  assumes "\<And>g kept msgs p notes. \<lbrakk>P (p, notes); limit_snippet_count (group_limit config g) (group_label g @ ''s'') (group_snippets g p) = (kept, msgs)\<rbrakk>
      \<Longrightarrow> P (with_group g kept p, notes @ msgs)" "P (pack, [])"
  shows "P (limited_pack config pack)"
  unfolding limited_pack_def
  by (rule fold_inv[of P]) (auto simp: limit_group_def intro: assms split: prod.split)

lemma finalize_pack_frame:
  "trim_frame (finalize_pack chars policy_key config pack) = trim_frame pack \<and>
   cards_accounted pack (finalize_pack chars policy_key config pack)"
proof -
  have "trim_frame (fst (limited_pack config pack)) = trim_frame pack \<and> cards_accounted pack (fst (limited_pack config pack))"
    by (rule limited_pack_inv) (auto simp: cards_accounted_def)
  from frame.enforced[OF this, of chars config] show ?thesis
    by (simp add: finalize_pack_def Let_def trim_frame_def cards_accounted_def)
qed

text \<open>a finalised pack is about the same change: its identity, diff, changed lines, rules, risk signals, tests and
  imports are untouched, and every memory card that is gone is recorded as an omission, the cards dropped from the
  end of the list first.\<close>

theorem finalize_pack_keeps_change:
  "trim_frame (finalize_pack chars policy_key config pack) = trim_frame pack \<and>
   cards_accounted pack (finalize_pack chars policy_key config pack)"
  by (rule finalize_pack_frame)


text \<open>A pack without notes is the pack that came in; a pack that is still too long says so.\<close>

lemma limit_snippet_count_quiet: "limit_snippet_count n l ss = (kept, []) \<Longrightarrow> kept = ss"
  by (auto simp: limit_snippet_count_def split: if_splits)

lemma with_group_same [simp]: "with_group g (group_snippets g p) p = p"
  by (cases g) simp_all

interpretation quiet: trim_invariant "\<lambda>st. snd st = [] \<longrightarrow> fst st = pack" for pack
  by unfold_locales (auto simp: drop_last_snippet_def drop_last_card_def compact_analyzer_graph_def
      elim!: truncate_longest_SomeD)

text \<open>a finalised pack fits the configured budget or carries the note that it does not, and a pack whose
  statistics do not say \<open>truncated\<close> is the pack that came in, nothing having been cut.\<close>

theorem finalize_pack_says_what_it_cut:
  "(st_estimated_chars (cp_stats (finalize_pack chars policy_key config pack)) \<le> cc_max_pack_chars config \<or>
    ''pack remains over context budget after snippet truncation''
      \<in> set (st_truncation_notes (cp_stats (finalize_pack chars policy_key config pack)))) \<and>
   (st_truncated (cp_stats (finalize_pack chars policy_key config pack)) \<or>
    finalize_pack chars policy_key config pack
      = pack\<lparr>cp_stats := cp_stats (finalize_pack chars policy_key config pack)\<rparr>)"
proof -
  let ?st = "enforce_char_budget chars config (limited_pack config pack)"
  have "snd (limited_pack config pack) = [] \<longrightarrow> fst (limited_pack config pack) = pack"
    by (rule limited_pack_inv) (auto dest!: limit_snippet_count_quiet)
  from quiet.enforced[OF this] have "snd ?st = [] \<longrightarrow> fst ?st = pack" .
  moreover have "estimated_pack_chars chars (fst ?st) \<le> cc_max_pack_chars config \<or>
      ''pack remains over context budget after snippet truncation'' \<in> set (snd ?st)"
    by (auto simp: enforce_char_budget_def Let_def)
  ultimately show ?thesis
    by (auto simp: finalize_pack_def Let_def pack_stats_def split: prod.split)
qed

text \<open>The changed code is cut last. While any other snippet or card is left, the loops work on those;
  a loop is left because the pack fits or because it has nothing left to do.\<close>

fun phase_spent :: "trim_phase \<Rightarrow> context_pack \<Rightarrow> bool" where
  "phase_spent (Squeeze g) p \<longleftrightarrow> group_snippets g p = []"
| "phase_spent Drop_Cards p \<longleftrightarrow> cp_memory_matches p = []"
| "phase_spent (Truncate gs) p \<longleftrightarrow> True"
| "phase_spent (Drop_Last g) p \<longleftrightarrow> group_snippets g p = []"

lemma nothing_left: "trim_step ph st = None \<Longrightarrow> phase_spent ph (fst st)"
  by (cases ph) (auto split: if_splits option.splits)

interpretation spent: trim_invariant "\<lambda>st. phase_spent ph (fst st)" for ph
proof unfold_locales
  show "phase_spent ph (fst st')" if "truncate_longest_snippet gs st = Some st'" "phase_spent ph (fst st)" for gs st st'
    using that by (elim truncate_longest_SomeD) (cases ph; auto)
qed (cases ph; auto simp: drop_last_snippet_def drop_last_card_def)+

lemma trim_loop_exit:
  "limit < estimated_pack_chars chars (fst (trim_loop chars limit ph st))
     \<Longrightarrow> phase_spent ph (fst (trim_loop chars limit ph st))"
proof (induction chars limit ph st rule: trim_loop.induct)
  case (1 chars limit ph st)
  then show ?case
    by (subst (asm) (2) trim_loop.simps, subst trim_loop.simps) (auto split: option.splits if_splits intro: nothing_left)
qed

lemma trim_loop_fits: "estimated_pack_chars chars (fst st) \<le> limit \<Longrightarrow> trim_loop chars limit ph st = st"
  by (simp add: trim_loop.simps)

lemma phases_exit:
  "limit < estimated_pack_chars chars (fst (fold (trim_loop chars limit) phs st))
     \<Longrightarrow> list_all (\<lambda>ph. phase_spent ph (fst (fold (trim_loop chars limit) phs st))) phs"
proof (induction phs rule: rev_induct)
  case (snoc ph phs)
  let ?before = "fold (trim_loop chars limit) phs st"
  have "limit < estimated_pack_chars chars (fst ?before)"
    using snoc.prems by (force simp: trim_loop_fits not_le[symmetric])
  with snoc have "list_all (\<lambda>ph. phase_spent ph (fst ?before)) phs" by blast
  then show ?case
    using snoc.prems by (auto simp: list_all_iff intro: spent.loop_kept trim_loop_exit)
qed simp

lemma changed_simps [simp]:
  "g \<noteq> Changed_Snippets \<Longrightarrow> cp_changed_snippets (with_group g ss p) = cp_changed_snippets p"
  by (cases g) simp_all

lemma trim_step_changed:
  "\<lbrakk>trim_step ph st = Some st'; ph \<in> set trim_phases\<rbrakk>
     \<Longrightarrow> cp_changed_snippets (fst st') = cp_changed_snippets (fst st)"
  by (auto simp: trim_phases_def drop_last_snippet_def drop_last_card_def split: if_splits option.splits
      elim!: truncate_longest_SomeD)

lemma trim_loop_changed:
  "ph \<in> set trim_phases
     \<Longrightarrow> cp_changed_snippets (fst (trim_loop chars limit ph st)) = cp_changed_snippets (fst st)"
proof (induction chars limit ph st rule: trim_loop.induct)
  case (1 chars limit ph st)
  then show ?case
    by (subst trim_loop.simps) (auto split: option.split dest: trim_step_changed)
qed

lemma phases_changed:
  "set phs \<subseteq> set trim_phases
     \<Longrightarrow> cp_changed_snippets (fst (fold (trim_loop chars limit) phs st)) = cp_changed_snippets (fst st)"
  by (induction phs arbitrary: st) (simp_all add: trim_loop_changed)

lemma limited_changed:
  "cp_changed_snippets (fst (limited_pack config pack))
     = fst (limit_snippet_count (cc_max_changed_snippets config) ''changed snippets'' (cp_changed_snippets pack))"
  by (simp add: limited_pack_def snippet_groups_def limit_group_def group_limit_def split: prod.split)

text \<open>Nothing but changed code is left.\<close>

definition only_changed_code :: "context_pack \<Rightarrow> bool" where
  "only_changed_code p \<longleftrightarrow>
     list_all (\<lambda>g. group_snippets g p = []) (tl snippet_groups) \<and> cp_memory_matches p = [] \<and>
     \<not> has_analyzer_graph p"

lemma compacted_graph: "\<not> has_analyzer_graph (fst (compact_analyzer_graph st))"
  by (auto simp: compact_analyzer_graph_def has_analyzer_graph_def without_analyzer_graph_def Let_def
      symbol_has_graph_context_def compact_symbol_graph_def list_ex_iff split: option.splits)

lemma has_analyzer_graph_with_group [simp]: "has_analyzer_graph (with_group g ss p) = has_analyzer_graph p"
  by (cases g) (simp_all add: has_analyzer_graph_def)

lemma cut_only_changed:
  "\<lbrakk>truncate_longest_snippet gs st = Some st'; only_changed_code (fst st)\<rbrakk> \<Longrightarrow> only_changed_code (fst st')"
  by (elim truncate_longest_SomeD) (auto simp: only_changed_code_def snippet_groups_def)

lemma rounds_only_changed:
  "only_changed_code (fst st) \<Longrightarrow> only_changed_code (fst (trim_rounds n chars limit st))"
  by (induction n chars limit st rule: trim_rounds.induct) (auto split: option.split intro: cut_only_changed)

lemma only_changed_code_stats [simp]: "only_changed_code (p\<lparr>cp_stats := st\<rparr>) = only_changed_code p"
  by (simp add: only_changed_code_def snippet_groups_def has_analyzer_graph_def)

lemma phases_fit:
  "estimated_pack_chars chars (fst st) \<le> limit \<Longrightarrow> fold (trim_loop chars limit) phs st = st"
  by (induction phs) (simp_all add: trim_loop_fits)

text \<open>C14: the changed code of a pack is cut last: when a finalised pack shows less of it than the first
  \<open>max_changed_snippets\<close> snippets as they came in, then no reference, callee, contract, metadata or test snippet, no
  memory card and no analyzer graph is left in the pack.\<close>

theorem changed_code_is_cut_last:
  "cp_changed_snippets (finalize_pack chars policy_key config pack)
     = fst (limit_snippet_count (cc_max_changed_snippets config) ''changed snippets'' (cp_changed_snippets pack))
   \<or> only_changed_code (finalize_pack chars policy_key config pack)"
proof -
  let ?limit = "cc_max_pack_chars config"
  let ?st = "limited_pack config pack"
  let ?st1 = "fold (trim_loop chars ?limit) trim_phases ?st"
  let ?st2 = "compact_analyzer_graph ?st1"
  have changed: "cp_changed_snippets (fst ?st1) = cp_changed_snippets (fst ?st)"
    by (rule phases_changed) simp
  show ?thesis
  proof (cases "?limit < estimated_pack_chars chars (fst ?st1)")
    case True
    from phases_exit[OF True] have "only_changed_code (fst ?st2)"
      by (auto simp: only_changed_code_def trim_phases_def snippet_groups_def compacted_graph)
    from rounds_only_changed[OF this, of 65 chars ?limit]
    have "only_changed_code (fst (enforce_char_budget chars config ?st))"
      using True phases_fit[of chars ?st ?limit trim_phases]
      by (auto simp: enforce_char_budget_def Let_def)
    then show ?thesis by (simp add: finalize_pack_def Let_def)
  next
    case False
    then have "trim_rounds 65 chars ?limit ?st1 = ?st1" by (simp add: numeral_eq_Suc)
    with False changed show ?thesis
      by (simp add: finalize_pack_def enforce_char_budget_def Let_def limited_changed)
  qed
qed

end
