(* ===== verification/Budget_Excerpts.thy ===== *)
theory Budget_Excerpts
  imports Budget_Trim Selection_Limits
begin

section \<open>Trimmed snippets still point at the lines they show\<close>

text \<open>
  A snippet of a trimmed pack (\<open>src/apex_ray/context/budget.py\<close>) is a run of whole lines of a snippet
  of the pack that came in, or the beginning of one line, under the number that line had. The facts
  about \<open>str.splitlines(keepends=True)\<close> this rests on come first: a run of the lines of a text splits
  into just these lines again.
\<close>

subsection \<open>Lines of a run of lines\<close>

lemma lines_from_first:
  "lines_from True acc s = l # ls \<Longrightarrow> \<exists>t r. s = t @ r \<and> l = rev acc @ t \<and> ls = lines_from True [] r \<and> (s = [] \<or> t \<noteq> [])"
proof (induction True acc s arbitrary: l ls rule: lines_from.induct)
  case (2 acc c cs)
  show ?case
  proof (cases "c = CHR 0x0D \<and> cs \<noteq> [] \<and> hd cs = CHR 0x0A")
    case True
    then obtain cs' where "cs = CHR 0x0A # cs'" by (cases cs) auto
    with 2 True have "c # cs = [c, CHR 0x0A] @ cs' \<and> l = rev acc @ [c, CHR 0x0A] \<and> ls = lines_from True [] cs'" by auto
    then show ?thesis by blast
  next
    case crlf: False
    show ?thesis
    proof (cases "line_break c")
      case True
      with crlf 2 have "l = rev acc @ [c]" "ls = lines_from True [] cs" by (auto split: if_splits)
      then have "c # cs = [c] @ cs \<and> l = rev acc @ [c] \<and> ls = lines_from True [] cs" by simp
      then show ?thesis by blast
    next
      case False
      with crlf 2(4) have "lines_from True (c # acc) cs = l # ls" by (auto split: if_splits)
      with 2(3)[OF crlf False] obtain t r where "cs = t @ r" "l = rev (c # acc) @ t" "ls = lines_from True [] r" by blast
      then have "c # cs = (c # t) @ r \<and> l = rev acc @ (c # t) \<and> ls = lines_from True [] r" by simp
      then show ?thesis by blast
    qed
  qed
qed (auto split: if_splits)

text \<open>A line that is followed by more text ends at its own boundary, whatever prefix of that text follows.\<close>

lemma lines_from_prefix:
  "\<lbrakk>lines_from True acc (t @ r) = (rev acc @ t) # lines_from True [] r; t \<noteq> []; prefix r' r\<rbrakk>
     \<Longrightarrow> lines_from True acc (t @ r') = (rev acc @ t) # lines_from True [] r'"
proof (induction t arbitrary: acc)
  case (Cons c t)
  show ?case
  proof (cases t)
    case Nil
    have "\<not> line_break c \<Longrightarrow> r = []"
      using Cons.prems Nil lines_from_first[of "c # acc" r "rev acc @ [c]" "lines_from True [] r"]
      by (auto split: if_splits simp: line_break_def)
    with Cons.prems Nil show ?thesis
      by (cases r'; cases r) (auto split: if_splits simp: line_break_def)
  next
    case (Cons d t')
    with Cons.prems Cons.IH[of "c # acc"] show ?thesis
      by (auto split: if_splits)
  qed
qed simp

lemma split_lines_keep_Cons:
  assumes "split_lines_keep s = l # ls"
  obtains r where "s = l @ r" "l \<noteq> []" "ls = split_lines_keep r"
    "\<forall>r'. prefix r' r \<longrightarrow> split_lines_keep (l @ r') = l # split_lines_keep r'"
proof -
  from assms lines_from_first[of "[]" s l ls] obtain r where r: "s = l @ r" "ls = split_lines_keep r"
    by (auto simp: split_lines_keep_def)
  have "l \<noteq> []" using assms split_lines_keep_nonempty[of l s] by simp
  with r assms lines_from_prefix[of "[]" l r] that show ?thesis by (auto simp: split_lines_keep_def)
qed

lemma concat_take_prefix: "prefix (concat (take k ls)) (concat ls)"
  by (metis append_take_drop_id concat_append prefixI)

lemma split_lines_keep_take: "split_lines_keep (concat (take k (split_lines_keep s))) = take k (split_lines_keep s)"
proof (induction k arbitrary: s)
  case (Suc k)
  show ?case
  proof (cases "split_lines_keep s")
    case (Cons l ls)
    then obtain r where r: "s = l @ r" "l \<noteq> []" "ls = split_lines_keep r"
      "\<forall>r'. prefix r' r \<longrightarrow> split_lines_keep (l @ r') = l # split_lines_keep r'" by (rule split_lines_keep_Cons)
    have "prefix (concat (take k (split_lines_keep r))) r"
      using concat_take_prefix[of k "split_lines_keep r"] by simp
    with Suc[of r] r Cons show ?thesis by simp
  qed (simp add: split_lines_keep_def)
qed (simp add: split_lines_keep_def)

lemma split_lines_keep_drop: "split_lines_keep (concat (drop k (split_lines_keep s))) = drop k (split_lines_keep s)"
proof (induction k arbitrary: s)
  case (Suc k)
  show ?case
  proof (cases "split_lines_keep s")
    case (Cons l ls)
    then obtain r where "ls = split_lines_keep r" by (rule split_lines_keep_Cons)
    with Suc[of r] Cons show ?thesis by simp
  qed (simp add: split_lines_keep_def)
qed simp

lemma split_lines_keep_run:
  "split_lines_keep (concat (take k (drop a (split_lines_keep s)))) = take k (drop a (split_lines_keep s))"
  by (metis split_lines_keep_drop split_lines_keep_take)

lemma lines_from_one_line:
  "lines_from True acc s = [rev acc @ s] \<Longrightarrow> take m s \<noteq> [] \<Longrightarrow> lines_from True acc (take m s) = [rev acc @ take m s]"
proof (induction s arbitrary: acc m)
  case (Cons c cs)
  then obtain m' where m: "m = Suc m'" by (cases m) auto
  show ?case
  proof (cases "take m' cs = []")
    case True
    then show ?thesis by (auto simp: m)
  next
    case False
    then obtain d ds where "cs = d # ds" by (cases cs) auto
    with Cons.prems Cons.IH[of "c # acc" m'] False m show ?thesis
      by (cases m') (auto split: if_splits simp: line_break_def dest: lines_from_first)
  qed
qed simp

lemma split_lines_keep_one_line:
  "\<lbrakk>split_lines_keep s = [s]; take m s \<noteq> []\<rbrakk> \<Longrightarrow> split_lines_keep (take m s) = [take m s]"
  using lines_from_one_line[of "[]" s m] by (simp add: split_lines_keep_def)


subsection \<open>Excerpts\<close>

definition shows_lines :: "code_snippet \<Rightarrow> code_snippet \<Rightarrow> bool" where
  "shows_lines s0 s \<longleftrightarrow> cs_file s = cs_file s0 \<and>
     (\<exists>a k. a + k \<le> length (split_lines_keep (cs_code s0)) \<and> cs_start_line s = cs_start_line s0 + int a \<and>
        (cs_code s = concat (take k (drop a (split_lines_keep (cs_code s0)))) \<or>
         k = 1 \<and> (\<exists>m. cs_code s = take m (split_lines_keep (cs_code s0) ! a))))"

definition numbered_ok :: "code_snippet \<Rightarrow> bool" where
  "numbered_ok s \<longleftrightarrow> cs_end_line s = cs_start_line s + int (length (split_lines_keep (cs_code s))) - 1"

lemma shows_lines_refl [simp]: "shows_lines s s"
  unfolding shows_lines_def
  by (intro conjI exI[of _ 0] exI[of _ "length (split_lines_keep (cs_code s))"]) simp_all

lemma split_lines_keep_Nil [simp]: "split_lines_keep s = [] \<longleftrightarrow> s = []"
  by (metis concat.simps(1) concat_split_lines_keep lines_from.simps(1) split_lines_keep_def)

lemma single_line: "\<lbrakk>s \<noteq> []; \<not> 1 < length (split_lines_keep s)\<rbrakk> \<Longrightarrow> split_lines_keep s = [s]"
proof -
  assume "s \<noteq> []" "\<not> 1 < length (split_lines_keep s)"
  then obtain l where "split_lines_keep s = [l]" by (cases "split_lines_keep s") (auto simp: Suc_lessI)
  then show ?thesis using concat_split_lines_keep[of s] by simp
qed

lemma truncated_snippet_cases:
  assumes "128 < length (cs_code s)"
  obtains (lines) off n where "truncated_snippet g s = s\<lparr>cs_start_line := cs_start_line s + int off,
      cs_end_line := cs_start_line s + int off + int n - 1,
      cs_code := concat (take n (drop off (split_lines_keep (cs_code s))))\<rparr>"
    "1 \<le> n" "off + n \<le> length (split_lines_keep (cs_code s))"
  | (one) m where "truncated_snippet g s = s\<lparr>cs_code := take m (cs_code s)\<rparr>" "0 < m"
    "split_lines_keep (cs_code s) = [cs_code s]"
proof (cases "1 < length (split_lines_keep (cs_code s))")
  case True
  show ?thesis
    by (rule lines[where off = "if centred_group g then (length (split_lines_keep (cs_code s))
            - max 1 (length (split_lines_keep (cs_code s)) div 2)) div 2 else 0"
          and n = "max 1 (length (split_lines_keep (cs_code s)) div 2)"])
      (use True in \<open>auto simp: truncated_snippet_def Let_def\<close>)
next
  case False
  show ?thesis
    by (rule one[of "max 128 (length (cs_code s) div 2)"])
      (use False assms in \<open>auto simp: truncated_snippet_def Let_def intro!: single_line\<close>)
qed

lemma truncated_numbered:
  assumes "128 < length (cs_code s)" "numbered_ok s"
  shows "numbered_ok (truncated_snippet g s)"
using assms(1) proof (cases rule: truncated_snippet_cases[where g = g])
  case (lines off n)
  then show ?thesis by (simp add: numbered_ok_def split_lines_keep_run)
next
  case (one m)
  with assms have "take m (cs_code s) \<noteq> []" by auto
  with one assms show ?thesis by (simp add: numbered_ok_def split_lines_keep_one_line)
qed

lemma truncated_shows_lines:
  assumes "128 < length (cs_code s)" "shows_lines s0 s"
  shows "shows_lines s0 (truncated_snippet g s)"
proof -
  let ?L = "split_lines_keep (cs_code s0)"
  from assms(2) obtain a k where ak: "cs_file s = cs_file s0" "a + k \<le> length ?L"
    "cs_start_line s = cs_start_line s0 + int a"
    "cs_code s = concat (take k (drop a ?L)) \<or> k = 1 \<and> (\<exists>m. cs_code s = take m (?L ! a))"
    unfolding shows_lines_def by blast
  have at_a: "concat (take 1 (drop a ?L)) = ?L ! a" if "k = 1"
    using that ak(2) by (simp add: take_Suc_conv_app_nth hd_drop_conv_nth take_Suc)
  have line: "split_lines_keep (?L ! a) = [?L ! a]" if "k = 1"
    using split_lines_keep_run[of 1 a "cs_code s0"] that ak(2) at_a[OF that]
    by (simp add: take_Suc hd_drop_conv_nth)
  show ?thesis using assms(1)
  proof (cases rule: truncated_snippet_cases[where g = g])
    case (lines off n)
    from ak(4) show ?thesis
    proof (elim disjE conjE exE)
      assume code: "cs_code s = concat (take k (drop a ?L))"
      then have "split_lines_keep (cs_code s) = take k (drop a ?L)" by (simp add: split_lines_keep_run)
      then have "concat (take n (drop off (split_lines_keep (cs_code s)))) = concat (take n (drop (a + off) ?L))"
        "a + off + n \<le> length ?L"
        using lines(3) ak(2) by (auto simp: drop_take min_def add.commute split: if_splits)
      with lines ak show ?thesis unfolding shows_lines_def
        by (intro conjI exI[of _ "a + off"] exI[of _ n]) simp_all
    next
      fix m assume k: "k = 1" and code: "cs_code s = take m (?L ! a)"
      then have "split_lines_keep (cs_code s) = [cs_code s]"
        using split_lines_keep_one_line[OF line[OF k], of m] assms(1) by (metis list.size(3) not_less_zero)
      then have "off = 0" "n = 1" using lines by auto
      then have "truncated_snippet g s = s\<lparr>cs_end_line := cs_start_line s\<rparr>"
        using lines \<open>split_lines_keep (cs_code s) = [cs_code s]\<close> by simp
      then show ?thesis using assms(2) by (simp add: shows_lines_def)
    qed
  next
    case (one m)
    have "k = 1 \<and> (\<exists>m'. take m (cs_code s) = take m' (?L ! a))"
      using ak(4)
    proof (elim disjE conjE exE)
      assume code: "cs_code s = concat (take k (drop a ?L))"
      then have "take k (drop a ?L) = [cs_code s]" using one(3) by (simp add: split_lines_keep_run)
      then have "k = 1" using ak(2) by (metis add_diff_cancel_left' add_leD1 diff_le_mono length_drop length_take
            length_Cons list.size(3) min.absorb2 One_nat_def)
      with code at_a show ?thesis by auto
    qed (auto simp: take_take)
    then show ?thesis unfolding shows_lines_def one(1)
      using ak(1-3) by (intro conjI exI[of _ a] exI[of _ "1::nat"]) simp_all
  qed
qed

lemma group_snippets_stats [simp]: "group_snippets g (p\<lparr>cp_stats := st\<rparr>) = group_snippets g p"
  by (cases g) simp_all

text \<open>What a cut keeps of a snippet, the trimming keeps of all snippets of a pack.\<close>

locale snippet_invariant =
  fixes Q :: "snippet_group \<Rightarrow> code_snippet \<Rightarrow> bool"
  assumes truncated: "\<lbrakk>128 < length (cs_code s); Q g s\<rbrakk> \<Longrightarrow> Q g (truncated_snippet g s)"
begin

definition all_snippets :: "context_pack \<Rightarrow> bool" where
  "all_snippets p \<longleftrightarrow> (\<forall>g. list_all (Q g) (group_snippets g p))"

lemma all_snippets_nth: "\<lbrakk>all_snippets p; i < length (group_snippets g p)\<rbrakk> \<Longrightarrow> Q g (group_snippets g p ! i)"
  by (simp add: all_snippets_def list_all_length)

lemma all_snippets_group: "all_snippets p \<Longrightarrow> list_all (Q g) (group_snippets g p)"
  by (simp add: all_snippets_def)

lemma all_snippets_with_group:
  "\<lbrakk>all_snippets p; list_all (Q g) ss\<rbrakk> \<Longrightarrow> all_snippets (with_group g ss p)"
  by (simp add: all_snippets_def)

lemma all_snippets_update:
  "\<lbrakk>list_all (Q g) ss; Q g s\<rbrakk> \<Longrightarrow> list_all (Q g) (ss[i := s])"
  by (auto simp: list_all_iff dest!: set_update_subset_insert[THEN subsetD])

sublocale trim_invariant "\<lambda>st. all_snippets (fst st)"
proof unfold_locales
  show "all_snippets (fst st')" if "truncate_longest_snippet gs st = Some st'" "all_snippets (fst st)" for gs st st'
    using that by (elim truncate_longest_SomeD)
      (simp add: all_snippets_with_group all_snippets_update truncated all_snippets_nth all_snippets_group)
  show "all_snippets (fst (drop_last_snippet g st))" if "all_snippets (fst st)" for g st
    using that by (auto simp: drop_last_snippet_def all_snippets_def list_all_iff dest: in_set_butlastD)
qed (simp_all add: all_snippets_def drop_last_card_def)

lemma limited_snippets: "all_snippets pack \<Longrightarrow> all_snippets (fst (limited_pack config pack))"
  by (rule limited_pack_inv)
    (auto simp: all_snippets_def list_all_iff limit_snippet_count_def dest!: in_set_takeD split: if_splits)

lemma finalized_snippets: "all_snippets pack \<Longrightarrow> list_all (Q g) (group_snippets g (finalize_pack chars policy_key config pack))"
  using enforced[OF limited_snippets, of pack chars config config]
  by (simp add: all_snippets_def finalize_pack_def Let_def)

end

interpretation excerpts: snippet_invariant "\<lambda>g s. list_ex (\<lambda>s0. shows_lines s0 s) (group_snippets g pack)" for pack
  by unfold_locales (auto simp: list_ex_iff intro: truncated_shows_lines)

interpretation numbered: snippet_invariant "\<lambda>g. numbered_ok"
  by unfold_locales (rule truncated_numbered)

lemma finalized_numbered:
  "(\<And>h. list_all numbered_ok (group_snippets h pack))
     \<Longrightarrow> list_all numbered_ok (group_snippets g (finalize_pack chars policy_key config pack))"
  by (rule numbered.finalized_snippets) (simp add: numbered.all_snippets_def)

text \<open>C27: every snippet of a finalised pack is an excerpt of a snippet of the same group of the pack that came
  in: of the same file, a run of its whole lines or the beginning of one of them, and its start line is the number
  which the first of these lines had.\<close>

theorem trimmed_snippets_are_excerpts:
  "list_all (\<lambda>s. list_ex (\<lambda>s0. shows_lines s0 s) (group_snippets g pack))
     (group_snippets g (finalize_pack chars policy_key config pack))"
  by (rule excerpts.finalized_snippets)
    (unfold excerpts.all_snippets_def, unfold list_all_iff list_ex_iff, use shows_lines_refl in blast)

text \<open>if the line numbers of every snippet span exactly the lines of its code, they still do after the pack
  is finalised.\<close>

theorem trimmed_snippets_keep_numbering:
  assumes "list_all (\<lambda>h. list_all numbered_ok (group_snippets h pack)) snippet_groups"
  shows "list_all numbered_ok (group_snippets g (finalize_pack chars policy_key config pack))"
  using assms by (intro finalized_numbered) (simp add: list_all_iff)


text \<open>A pack of one long reference snippet and one long changed line, under a budget of 200 characters.\<close>

definition code_chars :: "context_pack \<Rightarrow> int" where
  "code_chars p = sum_list (map (\<lambda>g. sum_list (map (\<lambda>s. int (length (cs_code s))) (group_snippets g p))) snippet_groups)"

definition long_pack :: context_pack where
  "long_pack = (sample_pack ''p'' ''a.py'')
     \<lparr>cp_changed_snippets := [\<lparr>cs_file = ''a.py'', cs_start_line = 7, cs_end_line = 7, cs_code = replicate 300 CHR ''x''\<rparr>],
      cp_reference_snippets := [\<lparr>cs_file = ''b.py'', cs_start_line = 3, cs_end_line = 6,
        cs_code = concat (replicate 4 (replicate 50 CHR ''y'' @ [CHR 0x0A]))\<rparr>]\<rparr>"

lemma trimmed_snippets_keep_numbering_witness:
  "list_all numbered_ok (group_snippets Changed_Snippets
     (finalize_pack code_chars (\<lambda>_. []) (default_context_config\<lparr>cc_max_pack_chars := 200\<rparr>) long_pack))"
  by (rule trimmed_snippets_keep_numbering) code_simp

end
