(* ===== verification/Guidance.thy ===== *)
theory Guidance
  imports Path_Matching Model_Pack
begin

section \<open>Rules and memory cards: files and matching\<close>

text \<open>
  What \<open>src/apex_ray/rules.py\<close> and \<open>src/apex_ray/memory.py\<close> have in common, and the rules
  themselves: markdown files with YAML frontmatter are read from the configured paths, every card
  under its own id; a rule or card is matched against the paths and the text of a context pack.
  Parameters are the file tree, the YAML parser and the validation of a card.
\<close>

subsection \<open>Frontmatter\<close>

text \<open>The frontmatter, when there is one, and the body.\<close>

definition split_frontmatter :: "string \<Rightarrow> string option \<times> string" where
  "split_frontmatter text =
     (if \<not> starts_with text ''---'' then (None, text)
      else case split_lines text of
             [] \<Rightarrow> (None, text)
           | l # ls \<Rightarrow>
               if py_strip l \<noteq> ''---'' then (None, text)
               else (case first_index (\<lambda>l. py_strip l = ''---'') ls of
                       None \<Rightarrow> (None, text)
                     | Some i \<Rightarrow> (Some (join [CHR 0x0A] (take i ls)), join [CHR 0x0A] (drop (i + 1) ls))))"

lemma split_frontmatter_fenced:
  assumes "list_all one_line (fm @ body)" "list_all (\<lambda>l. py_strip l \<noteq> ''---'') fm"
  shows "split_frontmatter (unlines (''---'' # fm @ ''---'' # body))
    = (Some (join [CHR 0x0A] fm), join [CHR 0x0A] body)"
proof -
  have fence: "py_strip ''---'' = ''---''" by code_simp
  have "first_index (\<lambda>l. py_strip l = ''---'') (fm @ ''---'' # body) = Some (length fm)"
    using assms(2) by (induction fm) (simp_all add: fence)
  moreover have "split_lines (unlines (''---'' # fm @ ''---'' # body)) = ''---'' # fm @ ''---'' # body"
    using assms(1) by (intro split_lines_unlines) (simp add: one_line_def line_break_def)
  moreover have "starts_with (unlines (''---'' # fm @ ''---'' # body)) ''---''"
    by (simp add: unlines_def)
  ultimately show ?thesis by (simp add: split_frontmatter_def fence)
qed

text \<open>A value of the frontmatter: a text, or something else with its truth value.\<close>

datatype 'o yaml_value = Yaml_Text string | Yaml_Other bool 'o

fun yaml_truth :: "'o yaml_value \<Rightarrow> bool" where
  "yaml_truth (Yaml_Text s) \<longleftrightarrow> s \<noteq> []"
| "yaml_truth (Yaml_Other b v) \<longleftrightarrow> b"

datatype 'o yaml_document = Yaml_Broken | Yaml_No_Mapping | Yaml_Mapping "(string \<times> 'o yaml_value) list"

datatype guidance_error =
  Missing_Path string
| Unreadable_File string
| Invalid_Frontmatter string
| Frontmatter_No_Mapping
| Invalid_File string
| Duplicate_Id string string

definition first_true :: "'o yaml_value option list \<Rightarrow> 'o yaml_value \<Rightarrow> 'o yaml_value" where
  "first_true vs fallback = (case find (\<lambda>v. case v of None \<Rightarrow> False | Some x \<Rightarrow> yaml_truth x) vs of
     Some (Some x) \<Rightarrow> x | _ \<Rightarrow> fallback)"

text \<open>\<open>{"id": ..., "title": ..., "body": ..., **metadata}\<close>: the metadata win over the defaults, an empty
  \<open>id\<close> included.\<close>

definition raw_card :: "(string \<times> 'o yaml_value) list \<Rightarrow> string \<Rightarrow> string \<Rightarrow> (string \<times> 'o yaml_value) list" where
  "raw_card metadata stem body =
     (let given = dict_get metadata
      in fold (\<lambda>(k, v) d. dict_set k v d) metadata
           [(''id'', first_true [given ''id''] (Yaml_Text stem)),
            (''title'', first_true [given ''title'', given ''id''] (Yaml_Text stem)),
            (''body'', Yaml_Text (py_strip body))])"

definition load_guidance_file ::
    "(string \<Rightarrow> string option) \<Rightarrow> (string \<Rightarrow> 'o yaml_document) \<Rightarrow> ((string \<times> 'o yaml_value) list \<Rightarrow> 'card option)
     \<Rightarrow> (string \<Rightarrow> string) \<Rightarrow> string \<Rightarrow> guidance_error + 'card" where
  "load_guidance_file read_text yaml validate stem path =
     (case read_text path of
        None \<Rightarrow> Inl (Unreadable_File path)
      | Some text \<Rightarrow>
          let (frontmatter, body) = split_frontmatter text
          in case (case frontmatter of None \<Rightarrow> Yaml_Mapping [] | Some fm \<Rightarrow> yaml fm) of
               Yaml_Broken \<Rightarrow> Inl (Invalid_Frontmatter path)
             | Yaml_No_Mapping \<Rightarrow> Inl Frontmatter_No_Mapping
             | Yaml_Mapping metadata \<Rightarrow>
                 (case validate (raw_card metadata (stem path) body) of
                    None \<Rightarrow> Inl (Invalid_File path)
                  | Some crd \<Rightarrow> Inr crd))"

subsection \<open>Reading the configured paths\<close>

datatype path_state = No_Path | One_File | Folder "string list"

definition last_part :: "string \<Rightarrow> string" where
  "last_part path = last (split_char CHR ''/'' path)"

text \<open>\<open>file.suffix.lower() in {".md", ".markdown"}\<close>: a suffix follows a character of the name.\<close>

definition markdown_file :: "string \<Rightarrow> bool" where
  "markdown_file path \<longleftrightarrow> list_ex (\<lambda>suffix. ends_with (py_lower (last_part path)) suffix
       \<and> length suffix < length (last_part path)) [''.md'', ''.markdown'']"

definition guidance_files :: "string \<Rightarrow> path_state \<Rightarrow> string list" where
  "guidance_files path st = (case st of
     No_Path \<Rightarrow> []
   | One_File \<Rightarrow> [path]
   | Folder files \<Rightarrow> sort_key (split_char CHR ''/'') (filter markdown_file files))"

fun load_files ::
    "(string \<Rightarrow> guidance_error + 'card) \<Rightarrow> ('card \<Rightarrow> string) \<Rightarrow> (string \<Rightarrow> 'card \<Rightarrow> 'card) \<Rightarrow> string list
     \<Rightarrow> 'card list \<Rightarrow> guidance_error + 'card list" where
  "load_files load card_id placed [] cards = Inr cards"
| "load_files load card_id placed (f # fs) cards =
     (case load f of
        Inl e \<Rightarrow> Inl e
      | Inr crd \<Rightarrow>
          let crd = placed f crd
          in if card_id crd \<in> card_id ` set cards then Inl (Duplicate_Id (card_id crd) f)
             else load_files load card_id placed fs (cards @ [crd]))"

fun load_guidance ::
    "(string \<Rightarrow> path_state) \<Rightarrow> (string \<Rightarrow> guidance_error + 'card) \<Rightarrow> ('card \<Rightarrow> string) \<Rightarrow> (string \<Rightarrow> 'card \<Rightarrow> 'card)
     \<Rightarrow> string list \<Rightarrow> string list \<Rightarrow> 'card list \<Rightarrow> guidance_error + 'card list" where
  "load_guidance tree load card_id placed defaults [] cards = Inr cards"
| "load_guidance tree load card_id placed defaults (p # ps) cards =
     (if tree p = No_Path
      then if p \<in> set defaults then load_guidance tree load card_id placed defaults ps cards
           else Inl (Missing_Path p)
      else case load_files load card_id placed (guidance_files p (tree p)) cards of
             Inl e \<Rightarrow> Inl e
           | Inr cards' \<Rightarrow> load_guidance tree load card_id placed defaults ps cards')"

definition load_placed ::
    "(string \<Rightarrow> 'e + 'card) \<Rightarrow> (string \<Rightarrow> 'card \<Rightarrow> 'card) \<Rightarrow> string \<Rightarrow> 'e + 'card" where
  "load_placed load placed f = (case load f of Inl e \<Rightarrow> Inl e | Inr crd \<Rightarrow> Inr (placed f crd))"

text \<open>A loader that succeeds has read every file of every path there is, in order, and no two cards
  share an id.\<close>

lemma load_files_Inr:
  "distinct (map card_id cards) \<Longrightarrow>
     load_files load card_id placed fs cards = Inr out \<longleftrightarrow>
       (\<exists>new. out = cards @ new \<and> map (load_placed load placed) fs = map Inr new
              \<and> distinct (map card_id out))"
proof (induction fs arbitrary: cards)
  case (Cons f fs)
  show ?case
  proof (cases "load f")
    case (Inr crd)
    let ?crd = "placed f crd"
    show ?thesis
    proof (cases "card_id ?crd \<in> card_id ` set cards")
      case True
      with Inr show ?thesis by (auto simp: Cons_eq_map_conv load_placed_def)
    next
      case False
      with Cons.prems Inr Cons.IH[of "cards @ [?crd]"] show ?thesis
        by (auto simp: Cons_eq_map_conv load_placed_def)
    qed
  qed (auto simp: Cons_eq_map_conv load_placed_def)
qed auto

lemma Inr_prefix: "map Inr xs @ ys = map Inr zs \<longleftrightarrow> (\<exists>us. zs = xs @ us \<and> ys = map Inr us)"
  by (induction xs arbitrary: zs) (auto simp: Cons_eq_map_conv)

definition all_guidance_files :: "(string \<Rightarrow> path_state) \<Rightarrow> string list \<Rightarrow> string list" where
  "all_guidance_files tree ps = concat (map (\<lambda>p. guidance_files p (tree p)) ps)"

lemma load_guidance_Inr:
  "distinct (map card_id cards) \<Longrightarrow>
     load_guidance tree load card_id placed defaults ps cards = Inr out \<longleftrightarrow>
       list_all (\<lambda>p. tree p \<noteq> No_Path \<or> p \<in> set defaults) ps \<and>
       (\<exists>new. out = cards @ new \<and> map (load_placed load placed) (all_guidance_files tree ps) = map Inr new
              \<and> distinct (map card_id out))"
proof (induction ps arbitrary: cards)
  case (Cons p ps)
  show ?case
  proof (cases "tree p = No_Path")
    case True
    with Cons show ?thesis by (simp add: all_guidance_files_def guidance_files_def)
  next
    case False
    show ?thesis
    proof (cases "load_files load card_id placed (guidance_files p (tree p)) cards")
      case (Inl e)
      have no: False if "map (load_placed load placed) (guidance_files p (tree p)) = map Inr new"
        "distinct (map card_id (cards @ new))" for new
        using load_files_Inr[OF Cons.prems, of load placed "guidance_files p (tree p)" "cards @ new"] that Inl by simp
      show ?thesis
      proof -
        have False if m: "map (load_placed load placed) (all_guidance_files tree (p # ps)) = map Inr m"
          "distinct (map card_id (cards @ m))" for m
        proof -
          from m(1) obtain us vs where "m = us @ vs"
            "map (load_placed load placed) (guidance_files p (tree p)) = map Inr us"
            by (auto simp: all_guidance_files_def append_eq_map_conv)
          with no[of us] m(2) show False by auto
        qed
        with False Inl show ?thesis by auto
      qed
    next
      case (Inr cards')
      from load_files_Inr[OF Cons.prems, THEN iffD1, OF Inr] obtain new where
        new: "cards' = cards @ new" "map (load_placed load placed) (guidance_files p (tree p)) = map Inr new"
          "distinct (map card_id cards')" by blast
      have "(\<exists>m. out = cards' @ m \<and> map (load_placed load placed) (all_guidance_files tree ps) = map Inr m \<and> distinct (map card_id out))
        \<longleftrightarrow> (\<exists>m. out = cards @ m \<and> map Inr new @ map (load_placed load placed) (all_guidance_files tree ps) = map Inr m
              \<and> distinct (map card_id out))"
        by (auto simp: Inr_prefix new(1))
      with Cons.IH[OF new(3)] False Inr new(2) show ?thesis
        by (simp add: all_guidance_files_def)
    qed
  qed
qed (auto simp: all_guidance_files_def)


subsection \<open>The paths and the text of a pack\<close>

definition guidance_path_matches :: "string \<Rightarrow> string list \<Rightarrow> bool" where
  "guidance_path_matches path patterns \<longleftrightarrow> list_ex (fnmatch (normalize_path path)) patterns"

definition pack_paths :: "context_pack \<Rightarrow> string list" where
  "pack_paths p = cp_file p # concat (map (map ar_file) [cp_references p, cp_callees p, cp_contracts p, cp_metadata p])
     @ concat (map (map cs_file) [cp_changed_snippets p, cp_reference_snippets p, cp_callee_snippets p,
         cp_contract_snippets p, cp_metadata_snippets p, cp_related_test_snippets p])
     @ cp_related_tests p"

definition matched_symbol_names :: "context_pack \<Rightarrow> string list" where
  "matched_symbol_names p = map sy_name (cp_symbols p) @ (case cp_symbol p of None \<Rightarrow> [] | Some sy \<Rightarrow> [sy_name sy])"

definition pack_text_corpus :: "context_pack \<Rightarrow> string" where
  "pack_text_corpus p = join [CHR 0x0A]
     ([cp_id p, cp_file p] @ cp_imports p @ cp_exports p @ cp_diff_snippet p @ cp_impact_notes p
      @ matched_symbol_names p
      @ concat (map (\<lambda>refs. map ar_text refs @ map ar_file refs)
          [cp_references p, cp_callees p, cp_contracts p, cp_metadata p])
      @ concat (map (\<lambda>snippets. map cs_code snippets @ map cs_file snippets)
          [cp_changed_snippets p, cp_reference_snippets p, cp_callee_snippets p, cp_contract_snippets p,
           cp_metadata_snippets p, cp_related_test_snippets p]))"

text \<open>Each kind of trigger, as rules and memory cards both test it.\<close>

definition imports_triggered :: "rule_triggers \<Rightarrow> context_pack \<Rightarrow> bool" where
  "imports_triggered t p \<longleftrightarrow> list_ex (\<lambda>token. str_in token (pack_text_corpus p)) (rt_imports t)"

definition symbols_triggered :: "rule_triggers \<Rightarrow> context_pack \<Rightarrow> bool" where
  "symbols_triggered t p \<longleftrightarrow> list_ex (\<lambda>symbol. symbol \<in> set (matched_symbol_names p)
     \<or> str_in symbol (cp_id p) \<or> str_in symbol (pack_text_corpus p)) (rt_symbols t)"

definition risk_triggered :: "rule_triggers \<Rightarrow> context_pack \<Rightarrow> bool" where
  "risk_triggered t p \<longleftrightarrow> list_ex (\<lambda>risk. risk \<in> rs_kind ` set (cp_risk_signals p)) (rt_risk t)"

definition text_triggered :: "rule_triggers \<Rightarrow> context_pack \<Rightarrow> bool" where
  "text_triggered t p \<longleftrightarrow> list_ex (\<lambda>token. str_in token (pack_text_corpus p)) (rt_text t)"

definition has_triggers :: "rule_triggers \<Rightarrow> bool" where
  "has_triggers t \<longleftrightarrow> rt_imports t \<noteq> [] \<or> rt_symbols t \<noteq> [] \<or> rt_risk t \<noteq> [] \<or> rt_text t \<noteq> []"

definition triggers_match :: "rule_triggers \<Rightarrow> context_pack \<Rightarrow> bool" where
  "triggers_match t p \<longleftrightarrow>
     (if \<not> has_triggers t then True
      else imports_triggered t p \<or> symbols_triggered t p \<or> risk_triggered t p \<or> text_triggered t p)"

subsection \<open>Rules\<close>

definition default_rule_paths :: "string list" where
  "default_rule_paths = [''.apex-ray/rules'']"

definition load_rule_definitions ::
    "(string \<Rightarrow> path_state) \<Rightarrow> (string \<Rightarrow> string option) \<Rightarrow> (string \<Rightarrow> 'o yaml_document)
     \<Rightarrow> ((string \<times> 'o yaml_value) list \<Rightarrow> review_rule option) \<Rightarrow> (string \<Rightarrow> string) \<Rightarrow> (string \<Rightarrow> string)
     \<Rightarrow> string list \<Rightarrow> guidance_error + review_rule list" where
  "load_rule_definitions tree read_text yaml validate stem display paths =
     load_guidance tree (load_guidance_file read_text yaml validate stem) rr_id
       (\<lambda>f r. r\<lparr>rr_source_path := Some (display f)\<rparr>) default_rule_paths paths []"

definition rule_matches_pack :: "review_rule \<Rightarrow> context_pack \<Rightarrow> bool" where
  "rule_matches_pack r p \<longleftrightarrow>
     (if rr_paths r \<noteq> [] \<and> \<not> guidance_path_matches (cp_file p) (rr_paths r) then False
      else if rr_context_paths r \<noteq> []
              \<and> \<not> list_ex (\<lambda>path. guidance_path_matches path (rr_context_paths r)) (pack_paths p) then False
      else if rr_exclude_paths r \<noteq> [] \<and> guidance_path_matches (cp_file p) (rr_exclude_paths r) then False
      else triggers_match (rr_triggers r) p)"

definition match_rules_for_pack :: "context_pack \<Rightarrow> review_rule list \<Rightarrow> review_rule list" where
  "match_rules_for_pack p rules = filter (\<lambda>r. rule_matches_pack r p) rules"

definition rule_match_for_prompt :: "review_rule \<Rightarrow> rule_match" where
  "rule_match_for_prompt r = \<lparr>rm_id = rr_id r,
     rm_title = (if rr_title r = [] then rr_id r else rr_title r), rm_severity = rr_severity r,
     rm_mode = rr_mode r, rm_resolution_surfaces = rr_resolution_surfaces r, rm_model = rr_model r,
     rm_verify = rr_verify r, rm_source_path = rr_source_path r\<rparr>"

definition render_rule_for_prompt :: "review_rule \<Rightarrow> string" where
  "render_rule_for_prompt r =
     (let title = (if rr_title r = [] then rr_id r else rr_title r);
          header = ''[custom-rule:'' @ rr_id r @ ''] '' @ title @ '' (severity='' @ finding_severity_value (rr_severity r)
                     @ '', mode='' @ rule_mode_value (rr_mode r) @ '')'';
          body = py_strip (rr_body r)
      in if body \<noteq> [] then header @ [CHR 0x0A] @ body else header)"

definition path_exists :: "path_state \<Rightarrow> bool" where
  "path_exists st \<longleftrightarrow> st \<noteq> No_Path"

text \<open>C35: loading rule definitions succeeds with a list of rules exactly if every configured path exists or is
  the default one, every markdown file below them loads, in order, to the rule of that position with the file as its
  source, and no two rules share an id.\<close>

theorem load_rule_definitions_exact:
  "load_rule_definitions tree read_text yaml validate stem display paths = Inr rules \<longleftrightarrow>
     list_all (\<lambda>p. path_exists (tree p) \<or> p \<in> set default_rule_paths) paths \<and>
     map (load_placed (load_guidance_file read_text yaml validate stem) (\<lambda>f r. r\<lparr>rr_source_path := Some (display f)\<rparr>))
       (all_guidance_files tree paths) = map Inr rules \<and>
     distinct (map rr_id rules)"
  by (simp add: load_rule_definitions_def load_guidance_Inr path_exists_def)

text \<open>a markdown file that is written as a fence, frontmatter, a fence and a body is read back as just
  that frontmatter and body, whatever the body holds, as long as no frontmatter line is itself a fence.\<close>

theorem split_frontmatter_reads_back:
  assumes "list_all one_line (fm @ body)" "list_all (\<lambda>l. py_strip l \<noteq> ''---'') fm"
  shows "split_frontmatter (unlines (''---'' # fm @ ''---'' # body))
    = (Some (join [CHR 0x0A] fm), join [CHR 0x0A] body)"
  using assms by (rule split_frontmatter_fenced)

lemma split_frontmatter_reads_back_witness:
  "split_frontmatter (unlines [''---'', ''id: r1'', ''---'', ''Check it.'', ''---'', ''More.''])
     = (Some ''id: r1'', join [CHR 0x0A] [''Check it.'', ''---'', ''More.''])"
proof -
  have "list_all one_line ([''id: r1''] @ [''Check it.'', ''---'', ''More.''])"
    "list_all (\<lambda>l. py_strip l \<noteq> ''---'') [''id: r1'']" by code_simp+
  from split_frontmatter_reads_back[OF this] show ?thesis by simp
qed

end
