(* ===== verification/Memory.thy ===== *)
theory Memory
  imports Guidance Verifications Budget_Trim Selection_Limits
begin

section \<open>Repository memory\<close>

text \<open>
  \<open>src/apex_ray/memory.py\<close>: memory cards are loaded like rules (\<open>Guidance\<close>), scored against a context
  pack, ordered, and taken while they fit the card and character budgets; a card that is left out is
  recorded with the reason. A report can be turned into suggestions for new cards, each with an id of
  its own. Parameters are those of \<open>Guidance\<close> and the YAML text of a suggestion.
\<close>

subsection \<open>Loading\<close>

definition default_memory_paths :: "string list" where
  "default_memory_paths = [''.apex-ray/memory'']"

definition load_memory_cards ::
    "(string \<Rightarrow> path_state) \<Rightarrow> (string \<Rightarrow> string option) \<Rightarrow> (string \<Rightarrow> 'o yaml_document)
     \<Rightarrow> ((string \<times> 'o yaml_value) list \<Rightarrow> memory_card option) \<Rightarrow> (string \<Rightarrow> string) \<Rightarrow> (string \<Rightarrow> string)
     \<Rightarrow> string list \<Rightarrow> guidance_error + memory_card list" where
  "load_memory_cards tree read_text yaml validate stem display paths =
     load_guidance tree (load_guidance_file read_text yaml validate stem) mc_id
       (\<lambda>f c. c\<lparr>mc_source_path := Some (display f)\<rparr>) default_memory_paths paths []"

subsection \<open>Which cards apply to a pack\<close>

definition memory_card_score :: "memory_card \<Rightarrow> context_pack \<Rightarrow> int \<times> string" where
  "memory_card_score c p =
     (if mc_exclude_paths c \<noteq> [] \<and> guidance_path_matches (cp_file p) (mc_exclude_paths c)
      then (0, ''excluded path'')
      else if mc_paths c \<noteq> [] \<and> \<not> guidance_path_matches (cp_file p) (mc_paths c) then (0, ''path mismatch'')
      else if mc_context_paths c \<noteq> []
              \<and> \<not> list_ex (\<lambda>path. guidance_path_matches path (mc_context_paths c)) (pack_paths p)
      then (0, ''context path mismatch'')
      else
        let t = mc_triggers c;
            scopes = (if mc_paths c \<noteq> [] then [(100, ''path'')] else [])
                     @ (if mc_context_paths c \<noteq> [] then [(30, ''context_path'')] else []);
            hits = (if imports_triggered t p then [(60, ''imports'')] else [])
                   @ (if symbols_triggered t p then [(60, ''symbols'')] else [])
                   @ (if risk_triggered t p then [(40, ''risk'')] else [])
                   @ (if text_triggered t p then [(20, ''text'')] else []);
            score = sum_list (map fst (scopes @ hits))
        in if has_triggers t \<and> hits = [] then (0, ''trigger mismatch'')
           else if score = 0 \<and> \<not> has_triggers t \<and> mc_paths c = [] \<and> mc_context_paths c = [] then (1, ''global'')
           else (score, join '','' (map snd (scopes @ hits))))"

definition memory_severity_rank :: "finding_severity \<Rightarrow> int" where
  "memory_severity_rank s = (case s of FS_CRITICAL \<Rightarrow> 4 | FS_HIGH \<Rightarrow> 3 | FS_MEDIUM \<Rightarrow> 2 | FS_LOW \<Rightarrow> 1)"

definition memory_kind_rank :: "memory_kind \<Rightarrow> int" where
  "memory_kind_rank k = (case k of MK_INVARIANT \<Rightarrow> 5 | MK_BUG_PATTERN \<Rightarrow> 4 | MK_FALSE_POSITIVE \<Rightarrow> 3
     | MK_SEVERITY_CALIBRATION \<Rightarrow> 2 | MK_GLOSSARY \<Rightarrow> 1)"

definition memory_applies_to :: "memory_card \<Rightarrow> memory_audience" where
  "memory_applies_to c = (case mc_applies_to c of
     Some a \<Rightarrow> a
   | None \<Rightarrow> if mc_kind c \<in> {MK_FALSE_POSITIVE, MK_SEVERITY_CALIBRATION} then AU_VERIFY
             else if mc_kind c = MK_GLOSSARY then AU_REVIEW
             else AU_BOTH)"

definition memory_char_budget :: "memory_config \<Rightarrow> int \<Rightarrow> int" where
  "memory_char_budget config base_chars =
     (let ratio_budget = \<lfloor>of_int (max 0 base_chars) * mcfg_max_context_ratio config\<rfloor>
      in if mcfg_max_context_ratio config = 0 then mcfg_max_chars_per_pack config
         else min (mcfg_max_chars_per_pack config) (max (mcfg_max_chars_per_card config) ratio_budget))"

subsection \<open>The text of a card\<close>

text \<open>\<open>re.sub(r"\s+", " ", text)\<close>: every run of white space becomes one blank.\<close>

fun blanks_joined :: "bool \<Rightarrow> string \<Rightarrow> string" where
  "blanks_joined in_run [] = []"
| "blanks_joined in_run (c # cs) =
     (if py_space c then (if in_run then blanks_joined True cs else CHR '' '' # blanks_joined True cs)
      else c # blanks_joined False cs)"

definition compact_body :: "string \<Rightarrow> string" where
  "compact_body s = blanks_joined False (py_strip s)"

definition memory_card_header :: "memory_card \<Rightarrow> string" where
  "memory_card_header c = ''[memory:'' @ mc_id c @ ''] '' @ (if mc_title c = [] then mc_id c else mc_title c)
     @ '' (kind='' @ memory_kind_value (mc_kind c) @ '', severity='' @ finding_severity_value (mc_severity c)
     @ '', applies_to='' @ memory_audience_value (memory_applies_to c) @ '')''"

definition memory_card_limit :: "memory_card \<Rightarrow> memory_config \<Rightarrow> int" where
  "memory_card_limit c config =
     min (case mc_max_prompt_chars c of None \<Rightarrow> mcfg_max_chars_per_card config
          | Some n \<Rightarrow> if n = 0 then mcfg_max_chars_per_card config else n)
       (mcfg_max_chars_per_card config)"

definition memory_card_body :: "memory_card \<Rightarrow> memory_config \<Rightarrow> string" where
  "memory_card_body c config =
     (let body = compact_body (mc_body c); limit = memory_card_limit c config
      in if limit < int (length body)
         then py_rstrip (take (nat (limit - 18)) body) @ '' ... [truncated]''
         else body)"

definition render_memory_card :: "memory_card \<Rightarrow> memory_config \<Rightarrow> string" where
  "render_memory_card c config =
     (let body = memory_card_body c config
      in if body \<noteq> [] then memory_card_header c @ [CHR 0x0A] @ body else memory_card_header c)"

subsection \<open>Selection\<close>

definition new_memory_omission :: "memory_card \<Rightarrow> string \<Rightarrow> int \<Rightarrow> memory_omission" where
  "new_memory_omission c reason score = \<lparr>mo_id = mc_id c,
     mo_title = (if mc_title c = [] then mc_id c else mc_title c), mo_kind = mc_kind c, mo_reason = reason,
     mo_score = score, mo_source_path = mc_source_path c\<rparr>"

definition new_memory_match :: "memory_config \<Rightarrow> int \<times> memory_card \<times> string \<Rightarrow> memory_match" where
  "new_memory_match config = (\<lambda>(score, c, reason). \<lparr>mm_id = mc_id c,
     mm_title = (if mc_title c = [] then mc_id c else mc_title c), mm_kind = mc_kind c,
     mm_severity = mc_severity c, mm_applies_to = memory_applies_to c, mm_source_path = mc_source_path c,
     mm_score = score, mm_reason = reason, mm_rendered = render_memory_card c config,
     mm_prompt_chars = int (length (render_memory_card c config))\<rparr>)"

definition memory_order_key :: "int \<times> memory_card \<times> string \<Rightarrow> int \<times> int \<times> int \<times> string \<times> string" where
  "memory_order_key = (\<lambda>(score, c, reason).
     (- score, - memory_severity_rank (mc_severity c), - memory_kind_rank (mc_kind c), mc_id c,
      case mc_source_path c of None \<Rightarrow> [] | Some s \<Rightarrow> s))"

definition scored_cards :: "context_pack \<Rightarrow> memory_card list \<Rightarrow> (int \<times> memory_card \<times> string) list" where
  "scored_cards p cards = sort_key memory_order_key
     (filter (\<lambda>(score, c, reason). 0 < score)
        (map (\<lambda>c. let (score, reason) = memory_card_score c p in (score, c, reason)) cards))"

text \<open>\<open>n\<close> cards with \<open>used\<close> characters have been taken already.\<close>

fun take_cards :: "memory_config \<Rightarrow> int \<Rightarrow> int \<Rightarrow> int \<Rightarrow> (int \<times> memory_card \<times> string) list
    \<Rightarrow> memory_match list \<times> memory_omission list" where
  "take_cards config max_chars n used [] = ([], [])"
| "take_cards config max_chars n used ((score, c, reason) # xs) =
     (if mcfg_max_cards_per_pack config \<le> n
      then map_prod id ((#) (new_memory_omission c ''memory card count budget exceeded'' score))
             (take_cards config max_chars n used xs)
      else let m = new_memory_match config (score, c, reason)
           in if max_chars < used + mm_prompt_chars m
              then map_prod id ((#) (new_memory_omission c ''memory character budget exceeded'' score))
                     (take_cards config max_chars n used xs)
              else map_prod ((#) m) id (take_cards config max_chars (n + 1) (used + mm_prompt_chars m) xs))"

definition select_memory_for_pack ::
    "context_pack \<Rightarrow> memory_card list \<Rightarrow> memory_config \<Rightarrow> int \<Rightarrow> memory_match list \<times> memory_omission list" where
  "select_memory_for_pack p cards config base_chars =
     (if \<not> mcfg_enabled config \<or> cards = [] \<or> mcfg_max_cards_per_pack config = 0 \<or> mcfg_max_chars_per_pack config = 0
      then ([], [])
      else take_cards config (memory_char_budget config base_chars) 0 0 (scored_cards p cards))"

definition memory_cards_for_audience :: "context_pack \<Rightarrow> memory_audience \<Rightarrow> memory_match list" where
  "memory_cards_for_audience p audience =
     filter (\<lambda>m. mm_applies_to m = AU_BOTH \<or> mm_applies_to m = audience) (cp_memory_matches p)"

subsection \<open>The payload of a prompt\<close>

text \<open>The JSON object of a pack as the pack it shows and the names of the fields it has.\<close>

definition pack_field_names :: "string list" where
  "pack_field_names = [''id'', ''file'', ''file_kind'', ''changed_lines'', ''impact_notes'', ''diff_snippet'',
     ''changed_snippets'', ''symbol'', ''symbols'', ''imports'', ''exports'', ''related_tests'', ''references'',
     ''callees'', ''contracts'', ''metadata'', ''reference_snippets'', ''callee_snippets'', ''contract_snippets'',
     ''metadata_snippets'', ''related_test_snippets'', ''risk_signals'', ''rules'', ''rule_matches'',
     ''memory_matches'', ''memory_omissions'', ''reviewer'', ''warnings'', ''analyzer_coverage'', ''stats'']"

definition shallow_field_names :: "string list" where
  "shallow_field_names = [''id'', ''file'', ''file_kind'', ''changed_lines'', ''impact_notes'', ''diff_snippet'',
     ''changed_snippets'', ''symbol'', ''symbols'', ''imports'', ''exports'', ''related_tests'', ''risk_signals'',
     ''rules'', ''rule_matches'', ''memory_matches'', ''reviewer'', ''warnings'', ''analyzer_coverage'', ''stats'']"

definition pack_prompt_payload :: "context_pack \<Rightarrow> memory_audience \<Rightarrow> review_depth \<Rightarrow> context_pack \<times> string list" where
  "pack_prompt_payload p audience depth =
     (let shown = p\<lparr>cp_symbol := map_option compact_symbol_graph (cp_symbol p),
            cp_symbols := map compact_symbol_graph (cp_symbols p),
            cp_memory_matches := memory_cards_for_audience p audience, cp_memory_omissions := []\<rparr>;
          names = filter (\<lambda>k. k \<noteq> ''memory_omissions'' \<and> (k = ''analyzer_coverage'' \<longrightarrow> cp_analyzer_coverage p \<noteq> None))
            pack_field_names
      in (shown, if depth = RD_SHALLOW then filter (\<lambda>k. k \<in> set names) shallow_field_names else names))"

subsection \<open>Suggestions\<close>

fun dashes_joined :: "bool \<Rightarrow> string \<Rightarrow> string" where
  "dashes_joined in_run [] = []"
| "dashes_joined in_run (c # cs) =
     (if lower_or_digit c then c # dashes_joined False cs
      else if in_run then dashes_joined True cs
      else CHR ''-'' # dashes_joined True cs)"

definition strip_dashes :: "string \<Rightarrow> string" where
  "strip_dashes s = rev (dropWhile ((=) (CHR ''-'')) (rev (dropWhile ((=) (CHR ''-'')) s)))"

definition slugify :: "string \<Rightarrow> string" where
  "slugify value = strip_dashes (take 80 (strip_dashes (dashes_joined False (py_lower value))))"

definition numbered_slug :: "string \<Rightarrow> nat \<Rightarrow> string" where
  "numbered_slug slug k = slug @ ''-'' @ str_nat k"

lemma numbered_slug_inj: "numbered_slug slug k = numbered_slug slug j \<longleftrightarrow> k = j"
  by (metis append_same_eq nat_of_digits_str_nat numbered_slug_def same_append_eq)

text \<open>\<open>while f"{slug}-{suffix}" in seen: suffix += 1\<close>\<close>

function free_suffix :: "string list \<Rightarrow> string \<Rightarrow> nat \<Rightarrow> nat" where
  "free_suffix seen slug k =
     (if numbered_slug slug k \<in> set seen then free_suffix seen slug (k + 1) else k)"
  by pat_completeness auto
termination
proof (relation "measure (\<lambda>(seen, slug, k). card {j. k \<le> j \<and> numbered_slug slug j \<in> set seen})")
  fix seen :: "string list" and slug k
  assume hit: "numbered_slug slug k \<in> set seen"
  have "inj (numbered_slug slug)" by (auto simp: inj_on_def numbered_slug_inj)
  then have "finite (numbered_slug slug -` set seen)" by (rule finite_vimageI[rotated]) simp
  then have "finite {j. k \<le> j \<and> numbered_slug slug j \<in> set seen}"
    by (rule rev_finite_subset) auto
  then have "card {j. k + 1 \<le> j \<and> numbered_slug slug j \<in> set seen} < card {j. k \<le> j \<and> numbered_slug slug j \<in> set seen}"
  proof (rule psubset_card_mono)
    have "k \<in> {j. k \<le> j \<and> numbered_slug slug j \<in> set seen}" using hit by simp
    moreover have "k \<notin> {j. k + 1 \<le> j \<and> numbered_slug slug j \<in> set seen}" by simp
    moreover have "{j. k + 1 \<le> j \<and> numbered_slug slug j \<in> set seen} \<subseteq> {j. k \<le> j \<and> numbered_slug slug j \<in> set seen}" by auto
    ultimately show "{j. k + 1 \<le> j \<and> numbered_slug slug j \<in> set seen} \<subset> {j. k \<le> j \<and> numbered_slug slug j \<in> set seen}"
      by blast
  qed
  then show "((seen, slug, k + 1), (seen, slug, k)) \<in> measure (\<lambda>(seen, slug, k). card {j. k \<le> j \<and> numbered_slug slug j \<in> set seen})"
    by simp
qed simp

declare free_suffix.simps [simp del]

definition suggestion_slug :: "string list \<Rightarrow> finding \<Rightarrow> string" where
  "suggestion_slug seen f =
     (let slug = (if slugify (fi_title f) = [] then ''review-memory'' else slugify (fi_title f))
      in if slug \<in> set seen then numbered_slug slug (free_suffix seen slug 2) else slug)"

fun suggestion_slugs :: "string list \<Rightarrow> finding list \<Rightarrow> string list" where
  "suggestion_slugs seen [] = []"
| "suggestion_slugs seen (f # fs) =
     (let slug = suggestion_slug seen f in slug # suggestion_slugs (seen @ [slug]) fs)"

definition suggestion_lines :: "(string \<Rightarrow> finding \<Rightarrow> string) \<Rightarrow> string \<times> finding \<Rightarrow> string list" where
  "suggestion_lines frontmatter = (\<lambda>(slug, f).
     [''## '' @ fi_title f, [], ''```md'', ''---'', py_strip (frontmatter slug f), ''---'', fi_failure_mode f, [],
      ''Evidence observed in `'' @ fi_file f @ ''`: '' @ fi_evidence f, [],
      ''Preferred fix/test direction: '' @ fi_suggested_fix f @ '' '' @ fi_suggested_test f, ''```'', []])"

definition memory_suggestions ::
    "(string \<Rightarrow> finding \<Rightarrow> string) \<Rightarrow> bool \<Rightarrow> finding list \<Rightarrow> string" where
  "memory_suggestions frontmatter include_unverified findings = join [CHR 0x0A]
     ([''# Apex Ray Memory Suggestions'', [],
       ''Review these suggestions before committing them under `.apex-ray/memory/`.'',
       (if include_unverified
        then ''They are generated from unverified report findings and must be manually validated before use.''
        else ''They are generated from approved verifier findings and should be edited into stable project knowledge.''),
       []]
      @ (if findings = []
         then [(if include_unverified then ''No findings were available for memory suggestions.''
                else ''No verified approved findings were available for memory suggestions. ''
                     @ ''Use --include-unverified only when manually triaging an unverified report.''), []]
         else concat (map (suggestion_lines frontmatter) (zip (suggestion_slugs [] findings) findings))))"


definition memory_suggestions_from_report ::
    "(string set \<Rightarrow> string list) \<Rightarrow> (string \<Rightarrow> finding \<Rightarrow> string) \<Rightarrow> bool \<Rightarrow> finding list
     \<Rightarrow> finding_verification list \<Rightarrow> string" where
  "memory_suggestions_from_report enum frontmatter include_unverified findings verifications =
     memory_suggestions frontmatter include_unverified
       (if include_unverified then findings else verified_report_findings enum findings verifications)"

subsection \<open>The budgets of a selection\<close>

lemma take_cards_Cons:
  obtains (count) "mcfg_max_cards_per_pack config \<le> n"
    "take_cards config max_chars n used (x # xs)
       = map_prod id ((#) (new_memory_omission (fst (snd x)) ''memory card count budget exceeded'' (fst x)))
           (take_cards config max_chars n used xs)"
  | (chars) "n < mcfg_max_cards_per_pack config" "max_chars < used + mm_prompt_chars (new_memory_match config x)"
    "take_cards config max_chars n used (x # xs)
       = map_prod id ((#) (new_memory_omission (fst (snd x)) ''memory character budget exceeded'' (fst x)))
           (take_cards config max_chars n used xs)"
  | (taken) "n < mcfg_max_cards_per_pack config" "used + mm_prompt_chars (new_memory_match config x) \<le> max_chars"
    "take_cards config max_chars n used (x # xs)
       = map_prod ((#) (new_memory_match config x)) id
           (take_cards config max_chars (n + 1) (used + mm_prompt_chars (new_memory_match config x)) xs)"
  by (cases x) (force simp: Let_def)

definition prompt_chars_of :: "memory_match list \<Rightarrow> int" where
  "prompt_chars_of ms = sum_list (map mm_prompt_chars ms)"

lemma prompt_chars_of_simps [simp]:
  "prompt_chars_of [] = 0" "prompt_chars_of (m # ms) = mm_prompt_chars m + prompt_chars_of ms"
  by (simp_all add: prompt_chars_of_def)

lemma new_memory_match_simps [simp]:
  "mm_id (new_memory_match config x) = mc_id (fst (snd x))"
  "0 \<le> mm_prompt_chars (new_memory_match config x)"
  "mm_prompt_chars (new_memory_match config x) = int (length (mm_rendered (new_memory_match config x)))"
  "mm_rendered (new_memory_match config x) = render_memory_card (fst (snd x)) config"
  by (cases x; simp add: new_memory_match_def)+

lemma take_cards_chars_nonneg: "0 \<le> prompt_chars_of (fst (take_cards config max_chars n used xs))"
proof (induction xs arbitrary: n used)
  case (Cons x xs)
  show ?case by (cases rule: take_cards_Cons[of config n max_chars used x xs]) (use Cons in simp_all)
qed simp

lemma take_cards_full:
  "mcfg_max_cards_per_pack config \<le> n \<Longrightarrow> fst (take_cards config max_chars n used xs) = []"
  by (induction xs) auto

lemma take_cards_within:
  "\<lbrakk>used \<le> max_chars; n \<le> mcfg_max_cards_per_pack config\<rbrakk> \<Longrightarrow>
     used + prompt_chars_of (fst (take_cards config max_chars n used xs)) \<le> max_chars \<and>
     n + int (length (fst (take_cards config max_chars n used xs))) \<le> mcfg_max_cards_per_pack config"
proof (induction xs arbitrary: n used)
  case (Cons x xs)
  show ?case
  proof (cases rule: take_cards_Cons[of config n max_chars used x xs])
    case taken
    with Cons.IH[of "used + mm_prompt_chars (new_memory_match config x)" "n + 1"] show ?thesis by simp
  qed (use Cons in \<open>simp_all add: take_cards_full\<close>)
qed simp

text \<open>Taken and omitted cards together are the scored ones.\<close>

lemma take_cards_ids:
  "mset (map mm_id (fst (take_cards config max_chars n used xs)))
     + mset (map mo_id (snd (take_cards config max_chars n used xs))) = mset (map (\<lambda>x. mc_id (fst (snd x))) xs)"
proof (induction xs arbitrary: n used)
  case (Cons x xs)
  show ?case
    by (cases rule: take_cards_Cons[of config n max_chars used x xs])
      (use Cons in \<open>simp_all add: new_memory_omission_def\<close>)
qed simp

definition omission_forced ::
    "memory_config \<Rightarrow> int \<Rightarrow> memory_match list \<Rightarrow> memory_card list \<Rightarrow> memory_omission \<Rightarrow> bool" where
  "omission_forced config max_chars matches cards om \<longleftrightarrow>
     mo_reason om = ''memory card count budget exceeded'' \<and> int (length matches) = mcfg_max_cards_per_pack config \<or>
     mo_reason om = ''memory character budget exceeded'' \<and>
       list_ex (\<lambda>c. mc_id c = mo_id om
          \<and> max_chars < prompt_chars_of matches + int (length (render_memory_card c config))) cards"

lemma take_cards_forced:
  assumes "om \<in> set (snd (take_cards config max_chars n used xs))" "n \<le> mcfg_max_cards_per_pack config"
  shows "mo_reason om = ''memory card count budget exceeded'' \<and>
       n + int (length (fst (take_cards config max_chars n used xs))) = mcfg_max_cards_per_pack config \<or>
     mo_reason om = ''memory character budget exceeded'' \<and>
       (\<exists>x \<in> set xs. mc_id (fst (snd x)) = mo_id om
          \<and> max_chars < used + prompt_chars_of (fst (take_cards config max_chars n used xs))
                          + int (length (render_memory_card (fst (snd x)) config)))"
  using assms
proof (induction xs arbitrary: n used)
  case (Cons x xs)
  show ?case
  proof (cases rule: take_cards_Cons[of config n max_chars used x xs])
    case count
    then have "fst (take_cards config max_chars n used xs) = [] \<and> n = mcfg_max_cards_per_pack config"
      using Cons.prems(2) by (simp add: take_cards_full)
    with count Cons.prems(1) Cons.IH[OF _ Cons.prems(2), of used] show ?thesis
      by (auto simp: new_memory_omission_def)
  next
    case chars
    with Cons.prems Cons.IH[of n used] take_cards_chars_nonneg[of config max_chars n used xs] show ?thesis
      by (auto simp: new_memory_omission_def)
  next
    case taken
    with Cons.prems Cons.IH[of "n + 1" "used + mm_prompt_chars (new_memory_match config x)"] show ?thesis
      by (auto simp: add.assoc)
  qed
qed simp


lemma scored_card_ids:
  "mset (map (\<lambda>x. mc_id (fst (snd x))) (scored_cards p cards))
     = mset (map mc_id (filter (\<lambda>c. 0 < fst (memory_card_score c p)) cards))"
proof -
  have "map (\<lambda>x. mc_id (fst (snd x))) (filter (\<lambda>(score, c, reason). 0 < score)
      (map (\<lambda>c. let (score, reason) = memory_card_score c p in (score, c, reason)) cards))
    = map mc_id (filter (\<lambda>c. 0 < fst (memory_card_score c p)) cards)"
    by (induction cards) (auto simp: Let_def split: prod.splits)
  from arg_cong[OF this, of mset] show ?thesis unfolding scored_cards_def by (simp only: mset_map mset_sort)
qed

lemma scored_cards_member: "x \<in> set (scored_cards p cards) \<Longrightarrow> fst (snd x) \<in> set cards"
  by (auto simp: scored_cards_def Let_def split: prod.splits)

lemma memory_char_budget_bounds:
  "memory_char_budget config base \<le> mcfg_max_chars_per_pack config"
  "valid_memory_config config \<Longrightarrow> 0 \<le> memory_char_budget config base"
  by (auto simp: memory_char_budget_def valid_memory_config_def Let_def)

subsection \<open>What a selection guarantees\<close>

definition sample_card :: "string \<Rightarrow> string \<Rightarrow> memory_card" where
  "sample_card i body = \<lparr>mc_id = i, mc_title = [], mc_kind = MK_INVARIANT, mc_severity = FS_HIGH, mc_paths = [''*.py''],
     mc_context_paths = [], mc_exclude_paths = [], mc_triggers = default_rule_triggers, mc_tags = [],
     mc_applies_to = None, mc_max_prompt_chars = None, mc_body = body, mc_source_path = None\<rparr>"

definition sample_cards :: "memory_card list" where
  "sample_cards = [sample_card ''a'' ''Keep the lock.'', sample_card ''b'' ''Close the file.'',
     (sample_card ''c'' ''No.'')\<lparr>mc_paths := [''*.go'']\<rparr>]"

text \<open>the cards taken for a pack number at most \<open>max_cards_per_pack\<close>, and the characters of their texts
  together, which are the lengths of the rendered cards, at most the character budget of the pack and
  \<open>max_chars_per_pack\<close>.\<close>

theorem memory_selection_within_budgets:
  assumes "valid_memory_config config"
  shows "int (length (fst (select_memory_for_pack p cards config base))) \<le> mcfg_max_cards_per_pack config \<and>
    prompt_chars_of (fst (select_memory_for_pack p cards config base)) \<le> memory_char_budget config base \<and>
    prompt_chars_of (fst (select_memory_for_pack p cards config base)) \<le> mcfg_max_chars_per_pack config"
  using assms take_cards_within[of 0 "memory_char_budget config base" 0 config "scored_cards p cards"]
    memory_char_budget_bounds[of config base]
  by (auto simp: select_memory_for_pack_def valid_memory_config_def)

lemma memory_selection_within_budgets_witness:
  "let config = default_memory_config\<lparr>mcfg_max_cards_per_pack := 1\<rparr>;
       ms = fst (select_memory_for_pack (sample_pack ''p'' ''a.py'') sample_cards config 4000)
   in map mm_id ms = [''a''] \<and> int (length ms) \<le> 1"
proof -
  let ?config = "default_memory_config\<lparr>mcfg_max_cards_per_pack := 1\<rparr>"
  have "valid_memory_config ?config" by code_simp
  from memory_selection_within_budgets[OF this, of "sample_pack ''p'' ''a.py''" sample_cards 4000]
  have "int (length (fst (select_memory_for_pack (sample_pack ''p'' ''a.py'') sample_cards ?config 4000))) \<le> 1"
    by (simp add: default_memory_config_def)
  moreover have "map mm_id (fst (select_memory_for_pack (sample_pack ''p'' ''a.py'') sample_cards ?config 4000)) = [''a'']"
    by code_simp
  ultimately show ?thesis by (simp add: Let_def)
qed

text \<open>every card that applies to the pack is either taken or recorded as an omission, none twice, and
  an omission is forced: the card count was used up, or the card would have passed the character budget next to the
  cards that were taken.\<close>

theorem memory_selection_accounts_for_cards:
  assumes "valid_memory_config config" "mcfg_enabled config"
    "mcfg_max_cards_per_pack config \<noteq> 0" "mcfg_max_chars_per_pack config \<noteq> 0"
  shows "mset (map mm_id (fst (select_memory_for_pack p cards config base)))
      + mset (map mo_id (snd (select_memory_for_pack p cards config base)))
      = mset (map mc_id (filter (\<lambda>c. 0 < fst (memory_card_score c p)) cards)) \<and>
    list_all (omission_forced config (memory_char_budget config base)
        (fst (select_memory_for_pack p cards config base)) cards)
      (snd (select_memory_for_pack p cards config base))"
proof -
  let ?r = "take_cards config (memory_char_budget config base) 0 0 (scored_cards p cards)"
  have r: "select_memory_for_pack p cards config base = ?r"
    using assms by (auto simp: select_memory_for_pack_def scored_cards_def)
  have "omission_forced config (memory_char_budget config base) (fst ?r) cards om" if "om \<in> set (snd ?r)" for om
    using take_cards_forced[OF that] assms(1) scored_cards_member[of _ p cards]
    unfolding omission_forced_def list_ex_iff valid_memory_config_def by (metis add_0)
  then show ?thesis
    unfolding r take_cards_ids scored_card_ids list_all_iff by simp
qed

lemma memory_selection_accounts_for_cards_witness:
  "let config = default_memory_config\<lparr>mcfg_max_cards_per_pack := 1\<rparr>;
       (ms, oms) = select_memory_for_pack (sample_pack ''p'' ''a.py'') sample_cards config 4000
   in map mm_id ms = [''a''] \<and> map mo_id oms = [''b'']
      \<and> list_all (omission_forced config (memory_char_budget config 4000) ms sample_cards) oms"
proof -
  let ?config = "default_memory_config\<lparr>mcfg_max_cards_per_pack := 1\<rparr>"
  let ?r = "select_memory_for_pack (sample_pack ''p'' ''a.py'') sample_cards ?config 4000"
  have "valid_memory_config ?config" "mcfg_enabled ?config" "mcfg_max_cards_per_pack ?config \<noteq> 0"
    "mcfg_max_chars_per_pack ?config \<noteq> 0" by code_simp+
  from memory_selection_accounts_for_cards[OF this, of "sample_pack ''p'' ''a.py''" sample_cards 4000]
  have "list_all (omission_forced ?config (memory_char_budget ?config 4000) (fst ?r) sample_cards) (snd ?r)" by blast
  moreover have "map mm_id (fst ?r) = [''a''] \<and> map mo_id (snd ?r) = [''b'']" by code_simp
  ultimately show ?thesis by (simp add: Let_def case_prod_unfold)
qed

lemma blanks_joined_chars: "list_all (\<lambda>c. py_space c \<longrightarrow> c = CHR '' '') (blanks_joined r s)"
  by (induction r s rule: blanks_joined.induct) simp_all

lemma line_break_space: "line_break c \<Longrightarrow> py_space c \<and> c \<noteq> CHR '' ''"
  by (auto simp: line_break_def py_space_def Let_def)

lemma compact_body_one_line: "set t \<subseteq> set (compact_body s) \<Longrightarrow> one_line t"
  using blanks_joined_chars[of False "py_strip s"] line_break_space
  by (auto simp: one_line_def list_all_iff compact_body_def)

text \<open>C29: the text of a card in a prompt is its header, and below it a body of one line without line
  boundaries, however the card is written, of at most as many characters as the card and the configuration allow
  (the mark of a truncation has 16 characters and is kept even under a smaller limit).\<close>

theorem rendered_card_is_bounded:
  "render_memory_card c config
     = memory_card_header c @ (if memory_card_body c config = [] then [] else [CHR 0x0A] @ memory_card_body c config) \<and>
   one_line (memory_card_body c config) \<and>
   int (length (memory_card_body c config)) \<le> max 16 (memory_card_limit c config)"
proof -
  let ?body = "compact_body (mc_body c)"
  let ?cut = "py_rstrip (take (nat (memory_card_limit c config - 18)) ?body)"
  have "set ?cut \<subseteq> set ?body" using set_py_rstrip set_take_subset by (rule subset_trans)
  then have "one_line ?cut" "one_line ?body" by (auto intro: compact_body_one_line)
  moreover have "one_line '' ... [truncated]''" by code_simp
  moreover have "length ?cut \<le> nat (memory_card_limit c config - 18)"
    by (rule order_trans[OF length_py_rstrip]) simp
  ultimately show ?thesis
    by (auto simp: render_memory_card_def memory_card_body_def Let_def one_line_def)
qed

lemma free_suffix_free: "numbered_slug slug (free_suffix seen slug k) \<notin> set seen"
  by (induction seen slug k rule: free_suffix.induct) (subst free_suffix.simps, simp)

lemma suggestion_slug_free: "suggestion_slug seen f \<notin> set seen" "suggestion_slug seen f \<noteq> []"
  by (simp_all add: suggestion_slug_def Let_def free_suffix_free) (simp add: numbered_slug_def)

lemma suggestion_slugs_free:
  "distinct (suggestion_slugs seen fs) \<and> set (suggestion_slugs seen fs) \<inter> set seen = {} \<and> [] \<notin> set (suggestion_slugs seen fs)"
proof (induction fs arbitrary: seen)
  case (Cons f fs)
  show ?case
    using Cons[of "seen @ [suggestion_slug seen f]"] suggestion_slug_free[of seen f] by (auto simp: Let_def)
qed simp

text \<open>the suggestions made from a report give every finding, in order, a card id of its own that is not
  empty, also when several findings have the same title or one whose characters all vanish in the id.\<close>

theorem suggestion_ids_are_unique:
  "length (suggestion_slugs [] findings) = length findings \<and> distinct (suggestion_slugs [] findings) \<and>
   [] \<notin> set (suggestion_slugs [] findings)"
proof -
  have "length (suggestion_slugs seen fs) = length fs" for seen fs
    by (induction fs arbitrary: seen) (simp_all add: Let_def)
  with suggestion_slugs_free[of "[]" findings] show ?thesis by simp
qed

end
