(* ===== verification/Snippets.thy ===== *)
theory Snippets
  imports Model_Pack
begin

section \<open>Code snippets of a context pack\<close>

text \<open>
  \<open>src/apex_ray/context/snippets.py\<close>: the code around a changed symbol, a hunk, a reference or a
  test. A file is the list of its lines with their line ends; the parameter \<open>read_lines\<close> gives the
  lines of a path below the repository root, and none for a path that is missing, unreadable, not
  UTF-8 or outside the root. The parameter \<open>rooted\<close> is whether there is a repository root at all.
\<close>

subsection \<open>Cutting lines out of a file\<close>

definition file_snippet :: "string \<Rightarrow> string list \<Rightarrow> int \<Rightarrow> int \<Rightarrow> code_snippet" where
  "file_snippet path lines start_line end_line = \<lparr>cs_file = path, cs_start_line = start_line,
     cs_end_line = end_line, cs_code = concat (take (nat (end_line - (start_line - 1))) (drop (nat (start_line - 1)) lines))\<rparr>"

definition snippet_around_line ::
    "(string \<Rightarrow> string list) \<Rightarrow> string \<Rightarrow> int \<Rightarrow> int \<Rightarrow> code_snippet option" where
  "snippet_around_line read_lines path line context_lines =
     (let lines = read_lines path in
      if lines = [] \<or> line < 1 then None
      else Some (file_snippet path lines (max 1 (line - context_lines))
             (min (int (length lines)) (line + context_lines))))"

definition snippet_for_line_range ::
    "(string \<Rightarrow> string list) \<Rightarrow> string \<Rightarrow> int \<Rightarrow> int \<Rightarrow> int \<Rightarrow> code_snippet option" where
  "snippet_for_line_range read_lines path start_line end_line max_lines =
     (let lines = read_lines path in
      if lines = [] \<or> start_line < 1 \<or> end_line < start_line then None
      else let bounded_start = min start_line (int (length lines));
               bounded_end = min (min end_line (int (length lines))) (bounded_start + max_lines - 1)
           in Some (file_snippet path lines bounded_start bounded_end))"

definition snippet_for_line_window ::
    "(string \<Rightarrow> string list) \<Rightarrow> string \<Rightarrow> int \<Rightarrow> int \<Rightarrow> code_snippet option" where
  "snippet_for_line_window read_lines path line max_lines =
     (let lines = read_lines path in
      if lines = [] \<or> line < 1 then None
      else let start_line = max 1 (line - max 0 ((max_lines - 1) div 2))
           in Some (file_snippet path lines start_line (min (int (length lines)) (start_line + max_lines - 1))))"

definition snippet_for_file_start ::
    "(string \<Rightarrow> string list) \<Rightarrow> string \<Rightarrow> int \<Rightarrow> code_snippet option" where
  "snippet_for_file_start read_lines path max_lines =
     (let lines = read_lines path in
      if lines = [] then None else Some (file_snippet path lines 1 (min (int (length lines)) max_lines)))"

subsection \<open>The comment above a line\<close>

text \<open>The two loops walk up from the line above: to the line that opens a block comment (line 0 when
  there is none), and past the lines of a line comment.\<close>

fun block_comment_start :: "string list \<Rightarrow> nat \<Rightarrow> nat option" where
  "block_comment_start lines 0 = (if starts_with (py_strip (lines ! 0)) ''/*'' then Some 0 else None)"
| "block_comment_start lines (Suc i) =
     (if starts_with (py_strip (lines ! Suc i)) ''/*'' then Some (Suc i) else block_comment_start lines i)"

text \<open>The number of lines above and including \<open>index\<close> that are not part of the comment.\<close>

fun before_line_comment :: "string list \<Rightarrow> nat \<Rightarrow> nat" where
  "before_line_comment lines 0 = 0"
| "before_line_comment lines (Suc i) =
     (if starts_with (py_strip (lines ! i)) ''//'' then before_line_comment lines i else Suc i)"

datatype snippet_error = Line_Out_Of_Range

text \<open>A line that ends a block comment nobody opened, and looks like a line comment itself, leaves the
  first loop at index -1, which counts as a comment from the first line on.\<close>

definition leading_comment_start ::
    "(string \<Rightarrow> string list) \<Rightarrow> string \<Rightarrow> int \<Rightarrow> snippet_error + int" where
  "leading_comment_start read_lines path line =
     (let lines = read_lines path in
      if lines = [] \<or> line \<le> 1 then Inr line
      else if int (length lines) \<le> line - 2 then Inl Line_Out_Of_Range
      else let index = nat (line - 2); stripped = py_strip (lines ! index);
               block_end = ends_with stripped ''*/'';
               opened = (if block_end then block_comment_start lines index else None)
           in case opened of
                Some i \<Rightarrow> Inr (int i + 1)
              | None \<Rightarrow>
                  if starts_with stripped ''//''
                  then Inr (if block_end then 1 else int (before_line_comment lines (index + 1)) + 1)
                  else Inr line)"

subsection \<open>Changed code\<close>

definition snippet_range :: "code_snippet \<Rightarrow> string \<times> int \<times> int" where
  "snippet_range s = (cs_file s, cs_start_line s, cs_end_line s)"

text \<open>The common loop: snippets of new ranges are kept until there are \<open>limit\<close> of them.\<close>

fun collect_snippets :: "int \<Rightarrow> code_snippet list \<Rightarrow> code_snippet option list \<Rightarrow> code_snippet list" where
  "collect_snippets limit acc [] = acc"
| "collect_snippets limit acc (None # xs) = collect_snippets limit acc xs"
| "collect_snippets limit acc (Some s # xs) =
     (if snippet_range s \<in> snippet_range ` set acc then collect_snippets limit acc xs
      else if limit \<le> int (length acc) + 1 then acc @ [s]
      else collect_snippets limit (acc @ [s]) xs)"

definition symbol_position :: "analyzer_symbol \<Rightarrow> int \<times> int \<times> string" where
  "symbol_position sy = (sy_start_line sy, sy_end_line sy, sy_name sy)"

definition changed_symbol_snippets ::
    "bool \<Rightarrow> (string \<Rightarrow> string list) \<Rightarrow> string \<Rightarrow> analyzer_symbol list \<Rightarrow> context_config \<Rightarrow> code_snippet list" where
  "changed_symbol_snippets rooted read_lines path symbols config =
     (if \<not> rooted then []
      else collect_snippets (cc_max_changed_snippets config) []
             (map (\<lambda>sy. snippet_for_line_range read_lines path (sy_start_line sy) (sy_end_line sy)
                          (cc_max_changed_snippet_lines config))
                (sort_key symbol_position symbols)))"

definition hunk_end :: "changed_hunk \<Rightarrow> int" where
  "hunk_end h = hk_new_start h + max (hk_new_lines h - 1) 0"

definition changed_hunk_snippets ::
    "bool \<Rightarrow> (string \<Rightarrow> string list) \<Rightarrow> changed_file \<Rightarrow> context_config \<Rightarrow> code_snippet list" where
  "changed_hunk_snippets rooted read_lines f config =
     (if \<not> rooted then []
      else collect_snippets (cc_max_hunk_snippets config) []
             (map (\<lambda>h. snippet_for_line_range read_lines (cf_path f)
                          (max 1 (hk_new_start h - cc_hunk_context_lines config))
                          (hunk_end h + cc_hunk_context_lines config)
                          (cc_max_changed_snippet_lines config))
                (cf_hunks f)))"

subsection \<open>References, callees, contracts and metadata\<close>

definition is_import_reference :: "analyzer_reference \<Rightarrow> bool" where
  "is_import_reference r \<longleftrightarrow> ar_kind r = ''import'' \<or> starts_with (py_lstrip (ar_text r)) ''import ''"

text \<open>\<open>reference.end_line and reference.end_line > reference.line\<close>\<close>

definition reference_end :: "analyzer_reference \<Rightarrow> int option" where
  "reference_end r = (case ar_end_line r of None \<Rightarrow> None
     | Some e \<Rightarrow> if e \<noteq> 0 \<and> ar_line r < e then Some e else None)"

definition reference_snippet ::
    "(string \<Rightarrow> string list) \<Rightarrow> context_config \<Rightarrow> analyzer_reference \<Rightarrow> snippet_error + code_snippet option" where
  "reference_snippet read_lines config r =
     (case leading_comment_start read_lines (ar_file r) (ar_line r) of
        Inl e \<Rightarrow> Inl e
      | Inr start_line \<Rightarrow> Inr (case reference_end r of
            Some e \<Rightarrow> snippet_for_line_range read_lines (ar_file r) start_line e (cc_max_changed_snippet_lines config)
          | None \<Rightarrow> if start_line < ar_line r
                    then snippet_for_line_range read_lines (ar_file r) start_line (ar_line r)
                           (cc_max_changed_snippet_lines config)
                    else snippet_around_line read_lines (ar_file r) (ar_line r)
                           (cc_reference_snippet_context_lines config)))"

fun reference_loop ::
    "(string \<Rightarrow> string list) \<Rightarrow> context_config \<Rightarrow> string list \<Rightarrow> (string \<times> int) list \<Rightarrow> code_snippet list
     \<Rightarrow> analyzer_reference list \<Rightarrow> snippet_error + code_snippet list" where
  "reference_loop read_lines config excluded seen acc [] = Inr acc"
| "reference_loop read_lines config excluded seen acc (r # rs) =
     (if ar_file r \<in> set excluded \<or> is_import_reference r \<or> (ar_file r, ar_line r) \<in> set seen
      then reference_loop read_lines config excluded seen acc rs
      else let seen = (ar_file r, ar_line r) # seen in
        case reference_snippet read_lines config r of
          Inl e \<Rightarrow> Inl e
        | Inr None \<Rightarrow>
            if cc_max_reference_snippets config \<le> int (length acc) then Inr acc
            else reference_loop read_lines config excluded seen acc rs
        | Inr (Some s) \<Rightarrow>
            if snippet_range s \<in> snippet_range ` set acc
            then reference_loop read_lines config excluded seen acc rs
            else if cc_max_reference_snippets config \<le> int (length acc) + 1 then Inr (acc @ [s])
            else reference_loop read_lines config excluded seen (acc @ [s]) rs)"

definition reference_snippets ::
    "bool \<Rightarrow> (string \<Rightarrow> string list) \<Rightarrow> context_config \<Rightarrow> string list \<Rightarrow> analyzer_reference list
     \<Rightarrow> snippet_error + code_snippet list" where
  "reference_snippets rooted read_lines config excluded refs =
     (if \<not> rooted then Inr [] else reference_loop read_lines config excluded [] [] refs)"

definition callee_snippets ::
    "bool \<Rightarrow> (string \<Rightarrow> string list) \<Rightarrow> context_config \<Rightarrow> analyzer_reference list \<Rightarrow> snippet_error + code_snippet list" where
  "callee_snippets rooted read_lines config callees = reference_snippets rooted read_lines config [] callees"

definition metadata_snippets ::
    "bool \<Rightarrow> (string \<Rightarrow> string list) \<Rightarrow> context_config \<Rightarrow> analyzer_reference list \<Rightarrow> snippet_error + code_snippet list" where
  "metadata_snippets rooted read_lines config metadata = reference_snippets rooted read_lines config [] metadata"

definition contract_snippet ::
    "(string \<Rightarrow> string list) \<Rightarrow> context_config \<Rightarrow> analyzer_reference \<Rightarrow> code_snippet option" where
  "contract_snippet read_lines config r =
     (case reference_end r of
        Some e \<Rightarrow> snippet_for_line_range read_lines (ar_file r) (ar_line r) e (cc_max_changed_snippet_lines config)
      | None \<Rightarrow> snippet_around_line read_lines (ar_file r) (ar_line r) (cc_reference_snippet_context_lines config))"

fun contract_loop ::
    "(string \<Rightarrow> string list) \<Rightarrow> context_config \<Rightarrow> (string \<times> int) list \<Rightarrow> code_snippet list
     \<Rightarrow> analyzer_reference list \<Rightarrow> code_snippet list" where
  "contract_loop read_lines config seen acc [] = acc"
| "contract_loop read_lines config seen acc (r # rs) =
     (if (ar_file r, ar_line r) \<in> set seen then contract_loop read_lines config seen acc rs
      else let seen = (ar_file r, ar_line r) # seen in
        case contract_snippet read_lines config r of
          None \<Rightarrow>
            if cc_max_reference_snippets config \<le> int (length acc) then acc
            else contract_loop read_lines config seen acc rs
        | Some s \<Rightarrow>
            if snippet_range s \<in> snippet_range ` set acc then contract_loop read_lines config seen acc rs
            else if cc_max_reference_snippets config \<le> int (length acc) + 1 then acc @ [s]
            else contract_loop read_lines config seen (acc @ [s]) rs)"

definition contract_snippets ::
    "bool \<Rightarrow> (string \<Rightarrow> string list) \<Rightarrow> context_config \<Rightarrow> analyzer_reference list \<Rightarrow> code_snippet list" where
  "contract_snippets rooted read_lines config contracts =
     (if \<not> rooted then [] else contract_loop read_lines config [] [] contracts)"

subsection \<open>Tests\<close>

text \<open>\<open>["'`]([^"'`]{4,160})["'`]\<close>, from left to right without overlaps: a quoted run of 4 to 160 other
  characters.\<close>

definition quote_char :: "char \<Rightarrow> bool" where
  "quote_char c \<longleftrightarrow> c \<in> {CHR 0x22, CHR 0x27, CHR ''`''}"

lemma tl_dropWhile_shorter: "length (dropWhile P xs) - Suc 0 < Suc (length xs)"
  using length_dropWhile_le[of P xs] by simp

function quoted_terms :: "string \<Rightarrow> string list" where
  "quoted_terms [] = []"
| "quoted_terms (c # cs) =
     (let run = takeWhile (\<lambda>d. \<not> quote_char d) cs; after = dropWhile (\<lambda>d. \<not> quote_char d) cs
      in if quote_char c \<and> 4 \<le> length run \<and> length run \<le> 160 \<and> after \<noteq> []
         then run # quoted_terms (tl after)
         else quoted_terms cs)"
  by pat_completeness auto
termination
  by (relation "measure length") (auto simp: Let_def intro: tl_dropWhile_shorter)

definition changed_line_terms :: "changed_file \<Rightarrow> string list" where
  "changed_line_terms f = concat (map (\<lambda>h. concat (map (\<lambda>l.
     if dl_kind l = DL_ADD \<or> dl_kind l = DL_DELETE then quoted_terms (dl_content l) else []) (hk_lines h))) (cf_hunks f))"

definition symbol_terms :: "analyzer_symbol \<Rightarrow> string list" where
  "symbol_terms sy = sy_name sy # (if CHR '':'' \<in> set (sy_name sy) then [last (split_char CHR '':'' (sy_name sy))] else [])"

fun first_terms :: "string list \<Rightarrow> string list \<Rightarrow> string list" where
  "first_terms acc [] = acc"
| "first_terms acc (t # ts) =
     (let term = py_strip t in
      if length term < 4 \<or> term \<in> set acc then first_terms acc ts
      else if 32 \<le> length acc + 1 then acc @ [term]
      else first_terms (acc @ [term]) ts)"

definition test_anchor_terms :: "changed_file \<Rightarrow> analyzer_symbol list \<Rightarrow> string list" where
  "test_anchor_terms f symbols = first_terms [] (changed_line_terms f @ concat (map symbol_terms symbols))"

definition anchored_test_snippet ::
    "(string \<Rightarrow> string list) \<Rightarrow> string \<Rightarrow> string list \<Rightarrow> int \<Rightarrow> code_snippet option" where
  "anchored_test_snippet read_lines path anchors max_lines =
     (if anchors = [] \<or> read_lines path = [] then None
      else case first_index (\<lambda>l. list_ex (\<lambda>a. str_in a l) anchors) (read_lines path) of
             None \<Rightarrow> None
           | Some i \<Rightarrow> snippet_for_line_window read_lines path (int i + 1) max_lines)"

definition test_snippet ::
    "(string \<Rightarrow> string list) \<Rightarrow> context_config \<Rightarrow> string list \<Rightarrow> string \<Rightarrow> code_snippet option" where
  "test_snippet read_lines config anchors path =
     (case anchored_test_snippet read_lines path anchors (cc_max_related_test_snippet_lines config) of
        Some s \<Rightarrow> Some s
      | None \<Rightarrow> snippet_for_file_start read_lines path (cc_max_related_test_snippet_lines config))"

definition test_snippets ::
    "bool \<Rightarrow> (string \<Rightarrow> string list) \<Rightarrow> string list \<Rightarrow> context_config \<Rightarrow> string list \<Rightarrow> code_snippet list" where
  "test_snippets rooted read_lines paths config anchors =
     (if \<not> rooted then []
      else List.map_filter (test_snippet read_lines config anchors)
             (take (nat (cc_max_related_test_snippets config)) paths))"


subsection \<open>Snippets quote the files they name\<close>

definition quotes_file :: "(string \<Rightarrow> string list) \<Rightarrow> code_snippet \<Rightarrow> bool" where
  "quotes_file read_lines s \<longleftrightarrow>
     (\<exists>path a b. 1 \<le> a \<and> s = file_snippet path (read_lines path) a b)"

lemma quotes_file_cut [intro]:
  "snippet_around_line read_lines path line n = Some s \<Longrightarrow> quotes_file read_lines s"
  "snippet_for_line_range read_lines path a b n = Some s \<Longrightarrow> quotes_file read_lines s"
  "snippet_for_line_window read_lines path line n = Some s \<Longrightarrow> quotes_file read_lines s"
  "snippet_for_file_start read_lines path n = Some s \<Longrightarrow> quotes_file read_lines s"
proof -
  have *: "quotes_file read_lines (file_snippet path (read_lines path) a b)" if "1 \<le> a" for a b
    using that by (auto simp: quotes_file_def)
  have len: "1 \<le> int (length (read_lines path))" if "read_lines path \<noteq> []"
    using that by (cases "read_lines path") auto
  show "snippet_around_line read_lines path line n = Some s \<Longrightarrow> quotes_file read_lines s"
    by (auto simp: snippet_around_line_def Let_def * split: if_splits)
  show "snippet_for_line_range read_lines path a b n = Some s \<Longrightarrow> quotes_file read_lines s"
    using len by (auto simp: snippet_for_line_range_def Let_def split: if_splits intro!: *)
  show "snippet_for_line_window read_lines path line n = Some s \<Longrightarrow> quotes_file read_lines s"
    by (auto simp: snippet_for_line_window_def Let_def * split: if_splits)
  show "snippet_for_file_start read_lines path n = Some s \<Longrightarrow> quotes_file read_lines s"
    by (auto simp: snippet_for_file_start_def Let_def * split: if_splits)
qed

lemma collect_snippets_all:
  "\<lbrakk>list_all P acc; \<And>s. Some s \<in> set xs \<Longrightarrow> P s\<rbrakk> \<Longrightarrow> list_all P (collect_snippets limit acc xs)"
  by (induction limit acc xs rule: collect_snippets.induct) (auto simp: list_all_iff)

lemma reference_snippet_quotes:
  "reference_snippet read_lines config r = Inr (Some s) \<Longrightarrow> quotes_file read_lines s"
  by (auto simp: reference_snippet_def split: sum.splits option.splits if_splits)

lemma reference_loop_all:
  "\<lbrakk>reference_loop read_lines config excluded seen acc rs = Inr out; list_all (quotes_file read_lines) acc\<rbrakk>
     \<Longrightarrow> list_all (quotes_file read_lines) out"
proof (induction rs arbitrary: seen acc)
  case (Cons r rs)
  show ?case
  proof (cases "reference_snippet read_lines config r")
    case (Inr x)
    with Cons show ?thesis
      by (cases x) (auto simp: Let_def reference_snippet_quotes split: if_splits)
  qed (use Cons in \<open>auto simp: Let_def split: if_splits\<close>)
qed simp

lemma contract_snippet_quotes: "contract_snippet read_lines config r = Some s \<Longrightarrow> quotes_file read_lines s"
  by (auto simp: contract_snippet_def split: option.splits)

lemma contract_loop_all:
  "list_all (quotes_file read_lines) acc \<Longrightarrow> list_all (quotes_file read_lines) (contract_loop read_lines config seen acc rs)"
  by (induction rs arbitrary: seen acc) (auto simp: Let_def contract_snippet_quotes split: option.split)

lemma snippets_quote_files:
  "list_all (quotes_file read_lines) (changed_symbol_snippets rooted read_lines path symbols config)"
  "list_all (quotes_file read_lines) (changed_hunk_snippets rooted read_lines f config)"
  "reference_snippets rooted read_lines config excluded refs = Inr ss \<Longrightarrow> list_all (quotes_file read_lines) ss"
  "callee_snippets rooted read_lines config refs = Inr ss \<Longrightarrow> list_all (quotes_file read_lines) ss"
  "metadata_snippets rooted read_lines config refs = Inr ss \<Longrightarrow> list_all (quotes_file read_lines) ss"
  "list_all (quotes_file read_lines) (contract_snippets rooted read_lines config refs)"
  "list_all (quotes_file read_lines) (test_snippets rooted read_lines paths config anchors)"
proof -
  show "list_all (quotes_file read_lines) (changed_symbol_snippets rooted read_lines path symbols config)"
    "list_all (quotes_file read_lines) (changed_hunk_snippets rooted read_lines f config)"
    by (auto simp: changed_symbol_snippets_def changed_hunk_snippets_def intro!: collect_snippets_all)
      (metis quotes_file_cut(2))+
  show refs: "reference_snippets rooted read_lines config excluded refs = Inr ss \<Longrightarrow> list_all (quotes_file read_lines) ss"
    for excluded refs ss by (auto simp: reference_snippets_def intro: reference_loop_all split: if_splits)
  then show "callee_snippets rooted read_lines config refs = Inr ss \<Longrightarrow> list_all (quotes_file read_lines) ss"
    "metadata_snippets rooted read_lines config refs = Inr ss \<Longrightarrow> list_all (quotes_file read_lines) ss"
    by (auto simp: callee_snippets_def metadata_snippets_def)
  show "list_all (quotes_file read_lines) (contract_snippets rooted read_lines config refs)"
    by (simp add: contract_snippets_def contract_loop_all)
  have "quotes_file read_lines s" if "test_snippet read_lines config anchors path = Some s" for path s
    using that by (auto simp: test_snippet_def anchored_test_snippet_def split: option.splits if_splits)
  then show "list_all (quotes_file read_lines) (test_snippets rooted read_lines paths config anchors)"
    by (auto simp: test_snippets_def list_all_iff List.map_filter_def)
qed

end
