(* ===== verification/Packs.thy ===== *)
theory Packs
  imports Snippets Memory Budget_Excerpts
begin

section \<open>Building context packs\<close>

text \<open>
  \<open>src/apex_ray/context/packs.py\<close>: the result of the analyzers and the changed files become context
  packs: one cluster for a small file, chunks of twelve symbols for a very large one, one pack per
  symbol otherwise, a pack of the whole file when no symbol changed, and packs of the bare diff for
  what the analyzers did not cover. Every pack then gets its rules and memory cards and is fitted into
  the context budget (\<open>Guidance\<close>, \<open>Memory\<close>, \<open>Budget_Trim\<close>). What lies outside is collected in one
  record: whether there is a repository root, the lines of a file, the size of a prompt payload and
  the key of the context policy.
\<close>

record pack_world =
  pw_rooted :: bool
  pw_read_lines :: "string \<Rightarrow> string list"
  pw_prompt_chars :: "context_pack \<Rightarrow> int"
  pw_policy_key :: "context_config \<Rightarrow> string"

subsection \<open>Ranges, diffs and signals\<close>

definition ranges_overlap :: "int \<times> int \<Rightarrow> int \<times> int \<Rightarrow> bool" where
  "ranges_overlap a b \<longleftrightarrow> fst a \<le> snd b \<and> fst b \<le> snd a"

definition hunk_range :: "changed_hunk \<Rightarrow> int \<times> int" where
  "hunk_range h = (hk_new_start h, hunk_end h)"

definition symbol_range :: "analyzer_symbol \<Rightarrow> int \<times> int" where
  "symbol_range sy = (sy_start_line sy, sy_end_line sy)"

definition in_ranges :: "(int \<times> int) list \<Rightarrow> changed_hunk \<Rightarrow> bool" where
  "in_ranges ranges h \<longleftrightarrow> list_ex (ranges_overlap (hunk_range h)) ranges"

definition diff_line_text :: "diff_line \<Rightarrow> string" where
  "diff_line_text l = (case dl_kind l of DL_CONTEXT \<Rightarrow> CHR '' '' | DL_ADD \<Rightarrow> CHR ''+'' | DL_DELETE \<Rightarrow> CHR ''-'') # dl_content l"

definition hunk_text :: "changed_hunk \<Rightarrow> string list" where
  "hunk_text h =
     (''@@ -'' @ str_int (hk_old_start h) @ '','' @ str_int (hk_old_lines h) @ '' +'' @ str_int (hk_new_start h) @ '',''
        @ str_int (hk_new_lines h) @ '' @@''
        @ (if hk_section_header h = [] then [] else '' '' @ hk_section_header h))
     # map diff_line_text (hk_lines h)"

text \<open>No ranges, or an empty list of them, stands for the whole file.\<close>

definition diff_snippet :: "changed_file \<Rightarrow> (int \<times> int) list \<Rightarrow> string list" where
  "diff_snippet f ranges =
     concat (map hunk_text (filter (\<lambda>h. ranges = [] \<or> in_ranges ranges h) (cf_hunks f)))"

definition diff_snippet_for_symbols :: "changed_file \<Rightarrow> analyzer_symbol list \<Rightarrow> string list" where
  "diff_snippet_for_symbols f symbols = diff_snippet f (map symbol_range symbols)"

definition changed_lines_for_symbols :: "changed_file \<Rightarrow> analyzer_symbol list \<Rightarrow> (int \<times> int) list" where
  "changed_lines_for_symbols f symbols =
     (let hunk_ranges = map hunk_range (cf_hunks f);
          changed = concat (map (\<lambda>h. map (\<lambda>s. (max (fst h) (fst s), min (snd h) (snd s)))
                      (filter (ranges_overlap h) (map symbol_range symbols))) hunk_ranges);
          merged = merge_line_ranges changed
      in if merged = [] then hunk_ranges else merged)"

definition risk_signals_for_ranges :: "changed_file \<Rightarrow> (int \<times> int) list \<Rightarrow> bool \<Rightarrow> risk_signal list" where
  "risk_signals_for_ranges f ranges include_file_level =
     (if ranges = [] then cf_risk_signals f
      else filter (\<lambda>s. case rs_line s of
                      None \<Rightarrow> include_file_level
                    | Some n \<Rightarrow> list_ex (\<lambda>(a, b). a \<le> n \<and> n \<le> b) ranges) (cf_risk_signals f))"

definition risk_signals_for_symbols :: "changed_file \<Rightarrow> analyzer_symbol list \<Rightarrow> bool \<Rightarrow> risk_signal list" where
  "risk_signals_for_symbols f symbols include_file_level =
     risk_signals_for_ranges f (map symbol_range symbols)
       (include_file_level \<or> cf_file_kind f \<in> {FK_CONFIG, FK_DEPENDENCY, FK_MIGRATION, FK_SCHEMA})"

subsection \<open>Symbols\<close>

definition symbol_strictly_contains :: "analyzer_symbol \<Rightarrow> analyzer_symbol \<Rightarrow> bool" where
  "symbol_strictly_contains parent child \<longleftrightarrow>
     sy_start_line parent \<le> sy_start_line child \<and> sy_end_line child \<le> sy_end_line parent \<and>
     symbol_range parent \<noteq> symbol_range child"

definition redundant_symbol :: "analyzer_symbol list \<Rightarrow> analyzer_symbol \<Rightarrow> bool" where
  "redundant_symbol symbols sy \<longleftrightarrow>
     sy_kind sy \<in> {''class'', ''interface''} \<and> sy_metadata sy = [] \<and> sy_contracts sy = [] \<and> sy_callees sy = [] \<and>
     list_ex (symbol_strictly_contains sy) symbols"

definition non_redundant_changed_symbols :: "analyzer_symbol list \<Rightarrow> analyzer_symbol list" where
  "non_redundant_changed_symbols symbols = filter (\<lambda>sy. \<not> redundant_symbol symbols sy) symbols"

function chunks_of :: "nat \<Rightarrow> 'a list \<Rightarrow> 'a list list" where
  "chunks_of n xs = (if xs = [] \<or> n = 0 then [] else take n xs # chunks_of n (drop n xs))"
  by pat_completeness auto
termination by (relation "measure (\<lambda>(n, xs). length xs)") auto

declare chunks_of.simps [simp del]

definition symbol_chunks :: "analyzer_symbol list \<Rightarrow> nat \<Rightarrow> analyzer_symbol list list" where
  "symbol_chunks symbols n = chunks_of n (sort_key symbol_position symbols)"

definition primary_symbol :: "analyzer_symbol list \<Rightarrow> analyzer_symbol" where
  "primary_symbol symbols = hd (sort_key symbol_position symbols)"

definition should_cluster_file :: "analyzer_symbol list \<Rightarrow> string list \<Rightarrow> bool" where
  "should_cluster_file symbols diff \<longleftrightarrow> 1 < length symbols \<and> length symbols \<le> 24 \<and> length diff \<le> 160"

definition cluster_pack_id :: "string \<Rightarrow> analyzer_symbol list \<Rightarrow> string" where
  "cluster_pack_id path symbols = path @ ''#cluster:'' @ join ''+'' (map sy_name (sort_key sy_start_line symbols))"

fun unseen_references ::
    "(string \<times> int \<times> string) list \<Rightarrow> analyzer_reference list \<Rightarrow> analyzer_reference list" where
  "unseen_references seen [] = []"
| "unseen_references seen (r # rs) =
     (let key = (ar_file r, ar_line r, ar_text r) in
      if key \<in> set seen then unseen_references seen rs else r # unseen_references (key # seen) rs)"

definition references_for_symbols ::
    "(analyzer_symbol \<Rightarrow> analyzer_reference list) \<Rightarrow> analyzer_symbol list \<Rightarrow> analyzer_reference list" where
  "references_for_symbols edges symbols = unseen_references [] (concat (map edges symbols))"

subsection \<open>Impact notes\<close>

definition format_counts :: "(string \<times> int) list \<Rightarrow> string" where
  "format_counts counts = (if counts = [] then ''none''
     else join '', '' (map (\<lambda>k. k @ ''='' @ str_int (dict_get_or counts k 0)) (sorted_set (map fst counts))))"

definition format_symbol_list :: "analyzer_symbol list \<Rightarrow> string" where
  "format_symbol_list symbols = join ''; '' (map (\<lambda>sy.
     (if sy_exported sy then ''exported '' else []) @ sy_kind sy @ '' '' @ sy_name sy @ '' lines ''
       @ str_int (sy_start_line sy) @ ''-'' @ str_int (sy_end_line sy)) symbols)"

definition str_len :: "'a list \<Rightarrow> string" where
  "str_len xs = str_nat (length xs)"

definition reference_note :: "analyzer_reference list \<Rightarrow> code_snippet list \<Rightarrow> string" where
  "reference_note refs snippets =
     (if refs = [] then ''Reference impact: no references were found for the changed scope.''
      else let usages = filter (\<lambda>r. \<not> is_import_reference r) refs;
               summary = (if usages = [] then ''no non-import usage references''
                          else str_len usages @ '' non-import usage references across ''
                               @ str_len (sorted_set (map ar_file usages)) @ '' files'')
           in ''Reference impact: '' @ str_len refs @ '' total references ('' @ format_counts (counter (map ar_kind refs))
              @ ''); '' @ summary @ ''; '' @ str_len snippets @ '' usage snippets included.'')"

definition impact_notes ::
    "analyzer_symbol list \<Rightarrow> analyzer_reference list \<Rightarrow> analyzer_reference list \<Rightarrow> analyzer_reference list
     \<Rightarrow> analyzer_reference list \<Rightarrow> string list \<Rightarrow> risk_signal list \<Rightarrow> code_snippet list \<Rightarrow> code_snippet list
     \<Rightarrow> code_snippet list \<Rightarrow> code_snippet list \<Rightarrow> code_snippet list \<Rightarrow> string list" where
  "impact_notes symbols refs callees contracts metadata tests signals ref_ss callee_ss contract_ss metadata_ss test_ss =
     [if symbols \<noteq> [] then ''Changed symbols: '' @ format_symbol_list symbols @ ''.''
      else ''Changed scope: file-level change; no changed symbol was identified by the analyzer.'',
      reference_note refs ref_ss]
     @ (if callees = [] then [] else
         [''Callee contracts: '' @ str_len callees @ '' called definitions across ''
          @ str_len (sorted_set (map ar_file callees)) @ '' files; '' @ str_len callee_ss @ '' snippets included.''])
     @ (if contracts = [] then [] else
         [''Contract context: '' @ str_len contracts @ '' schema/type contracts across ''
          @ str_len (sorted_set (map ar_file contracts)) @ '' files; '' @ str_len contract_ss @ '' snippets included.''])
     @ (if metadata = [] then [] else
         [''Framework metadata: '' @ str_len metadata @ '' decorator references; '' @ str_len metadata_ss
          @ '' snippets included.''])
     @ [if tests = [] then ''Related tests: none found by import or naming heuristics.''
        else ''Related tests: '' @ str_len tests @ '' candidate files; '' @ str_len test_ss @ '' snippets included: ''
             @ join '', '' (take 3 tests) @ (if 3 < length tests then '' and '' @ str_nat (length tests - 3) @ '' more'' else [])
             @ ''.'']
     @ (if signals = [] then [] else
         [''Static risk signals: '' @ format_counts (counter (map (\<lambda>s. risk_severity_value (rs_severity s)) signals)) @ ''.''])"

subsection \<open>Warnings and analyzer coverage\<close>

definition pack_warnings :: "analyzer_result \<Rightarrow> analyzer_file \<Rightarrow> string list" where
  "pack_warnings result af =
     uniq (if ares_language result = ''typescript'' then af_warnings af else ares_warnings result @ af_warnings af)"

definition pack_analyzer_coverage :: "analyzer_result \<Rightarrow> analyzer_coverage_signal option" where
  "pack_analyzer_coverage result =
     (if ares_language result \<noteq> ''typescript'' \<or>
         \<not> (ares_partial result \<or> (case ares_coverage result of None \<Rightarrow> False | Some c \<Rightarrow> acs_partial c))
      then None
      else case ares_coverage result of
             Some c \<Rightarrow> Some c
           | None \<Rightarrow> Some \<lparr>acs_partial = True, acs_reason_codes = [APR_PARTIAL_REASON_UNSPECIFIED],
               acs_scopes = [ACS_ANALYZER], acs_failed_file_count = int (length (ares_failed_files result))\<rparr>)"

subsection \<open>Packs\<close>

definition new_pack :: "string \<Rightarrow> string \<Rightarrow> file_kind \<Rightarrow> context_pack" where
  "new_pack pack_id path kind = \<lparr>cp_id = pack_id, cp_file = path, cp_file_kind = kind, cp_changed_lines = [],
     cp_impact_notes = [], cp_diff_snippet = [], cp_changed_snippets = [], cp_symbol = None, cp_symbols = [],
     cp_imports = [], cp_exports = [], cp_related_tests = [], cp_references = [], cp_callees = [],
     cp_contracts = [], cp_metadata = [], cp_reference_snippets = [], cp_callee_snippets = [],
     cp_contract_snippets = [], cp_metadata_snippets = [], cp_related_test_snippets = [],
     cp_risk_signals = [], cp_rules = [], cp_rule_matches = [], cp_memory_matches = [],
     cp_memory_omissions = [], cp_reviewer = None, cp_warnings = [], cp_analyzer_coverage = None,
     cp_stats = default_context_pack_stats\<rparr>"

definition with_rules :: "review_config \<Rightarrow> context_pack \<Rightarrow> context_pack" where
  "with_rules config p =
     (let matched = match_rules_for_pack p (rc_rule_definitions config) in
      if rc_rules config \<noteq> [] \<or> matched \<noteq> []
      then p\<lparr>cp_rules := rc_rules config @ map render_rule_for_prompt matched,
             cp_rule_matches := map rule_match_for_prompt matched\<rparr>
      else p)"

definition with_memory :: "pack_world \<Rightarrow> review_config \<Rightarrow> context_pack \<Rightarrow> context_pack" where
  "with_memory w config p =
     (if mcfg_enabled (rc_memory config) \<and> rc_memory_definitions config \<noteq> []
      then let (matches, omissions) = select_memory_for_pack p (rc_memory_definitions config) (rc_memory config)
                 (estimated_pack_chars (pw_prompt_chars w) p)
           in p\<lparr>cp_memory_matches := matches, cp_memory_omissions := omissions\<rparr>
      else p)"

definition finalize_review_pack :: "pack_world \<Rightarrow> review_config \<Rightarrow> context_pack \<Rightarrow> context_pack" where
  "finalize_review_pack w config p =
     finalize_pack (pw_prompt_chars w) (pw_policy_key w) (rc_context config) (with_memory w config (with_rules config p))"

definition fallback_pack_for_file ::
    "pack_world \<Rightarrow> review_config \<Rightarrow> changed_file \<Rightarrow> string option \<Rightarrow> (int \<times> int) list \<Rightarrow> string option \<Rightarrow> string list
     \<Rightarrow> analyzer_coverage_signal option \<Rightarrow> context_pack" where
  "fallback_pack_for_file w config f reason ranges pack_id warnings coverage =
     (let scoped = (if ranges = [] then f else f\<lparr>cf_hunks := filter (in_ranges ranges) (cf_hunks f)\<rparr>);
          changed_ranges = (if ranges = [] then map hunk_range (cf_hunks f) else ranges);
          signals = risk_signals_for_ranges f changed_ranges True
      in finalize_review_pack w config
           ((new_pack (case pack_id of Some (c # cs) \<Rightarrow> c # cs | _ \<Rightarrow> cf_path f @ ''#diff'') (cf_path f) (cf_file_kind f))
            \<lparr>cp_changed_lines := changed_ranges,
             cp_impact_notes := impact_notes [] [] [] [] [] [] signals [] [] [] [] [],
             cp_diff_snippet := diff_snippet f ranges,
             cp_changed_snippets := changed_hunk_snippets (pw_rooted w) (pw_read_lines w) scoped (rc_context config),
             cp_risk_signals := signals,
             cp_rules := rc_rules config,
             cp_warnings := uniq ((case reason of Some r \<Rightarrow> if r = [] then [] else [r] | None \<Rightarrow> []) @ warnings),
             cp_analyzer_coverage := coverage\<rparr>))"


text \<open>The pack of a group of symbols. The code writes it out three times, for a cluster, a chunk and a
  single symbol; they differ in the id and the primary symbol, and a single symbol's references are not
  searched for duplicates.\<close>

definition symbol_pack ::
    "pack_world \<Rightarrow> review_config \<Rightarrow> analyzer_result \<Rightarrow> analyzer_file \<Rightarrow> changed_file \<Rightarrow> string list \<Rightarrow> string
     \<Rightarrow> analyzer_symbol \<Rightarrow> analyzer_symbol list \<Rightarrow> ((analyzer_symbol \<Rightarrow> analyzer_reference list) \<Rightarrow> analyzer_reference list)
     \<Rightarrow> snippet_error + context_pack" where
  "symbol_pack w config result af f anchors pack_id primary symbols edges =
     (let context = rc_context config;
          signals = risk_signals_for_symbols f symbols True;
          refs = edges sy_references; callees = edges sy_callees;
          contracts = edges sy_contracts; metadata = edges sy_metadata;
          contract_ss = contract_snippets (pw_rooted w) (pw_read_lines w) context contracts;
          test_ss = test_snippets (pw_rooted w) (pw_read_lines w) (af_related_tests af) context anchors;
          own_diff = diff_snippet_for_symbols f symbols
      in case reference_snippets (pw_rooted w) (pw_read_lines w) context (af_related_tests af) refs of
           Inl e \<Rightarrow> Inl e
         | Inr ref_ss \<Rightarrow> (case callee_snippets (pw_rooted w) (pw_read_lines w) context callees of
             Inl e \<Rightarrow> Inl e
           | Inr callee_ss \<Rightarrow> (case metadata_snippets (pw_rooted w) (pw_read_lines w) context metadata of
               Inl e \<Rightarrow> Inl e
             | Inr metadata_ss \<Rightarrow> Inr (finalize_review_pack w config
                 ((new_pack pack_id (af_path af) (cf_file_kind f))
                  \<lparr>cp_changed_lines := changed_lines_for_symbols f symbols,
                   cp_impact_notes := impact_notes symbols refs callees contracts metadata (af_related_tests af)
                     signals ref_ss callee_ss contract_ss metadata_ss test_ss,
                   cp_diff_snippet := (if own_diff = [] then diff_snippet f [] else own_diff),
                   cp_changed_snippets := changed_symbol_snippets (pw_rooted w) (pw_read_lines w) (af_path af) symbols context,
                   cp_symbol := Some primary,
                   cp_symbols := symbols,
                   cp_imports := af_imports af,
                   cp_exports := af_exports af,
                   cp_related_tests := af_related_tests af,
                   cp_references := refs,
                   cp_callees := callees,
                   cp_contracts := contracts,
                   cp_metadata := metadata,
                   cp_reference_snippets := ref_ss,
                   cp_callee_snippets := callee_ss,
                   cp_contract_snippets := contract_ss,
                   cp_metadata_snippets := metadata_ss,
                   cp_related_test_snippets := test_ss,
                   cp_risk_signals := signals,
                   cp_rules := rc_rules config,
                   cp_warnings := pack_warnings result af,
                   cp_analyzer_coverage := pack_analyzer_coverage result\<rparr>)))))"

definition file_pack ::
    "pack_world \<Rightarrow> review_config \<Rightarrow> analyzer_result \<Rightarrow> analyzer_file \<Rightarrow> changed_file \<Rightarrow> string list \<Rightarrow> context_pack" where
  "file_pack w config result af f anchors =
     (let changed_lines = map hunk_range (cf_hunks f);
          signals = risk_signals_for_ranges f changed_lines True;
          test_ss = test_snippets (pw_rooted w) (pw_read_lines w) (af_related_tests af) (rc_context config) anchors
      in finalize_review_pack w config
           ((new_pack (af_path af @ ''#file'') (af_path af) (cf_file_kind f))
            \<lparr>cp_changed_lines := changed_lines,
             cp_impact_notes := impact_notes [] [] [] [] [] (af_related_tests af) signals [] [] [] [] test_ss,
             cp_diff_snippet := diff_snippet f [],
             cp_changed_snippets := changed_hunk_snippets (pw_rooted w) (pw_read_lines w) f (rc_context config),
             cp_imports := af_imports af,
             cp_exports := af_exports af,
             cp_related_tests := af_related_tests af,
             cp_related_test_snippets := test_ss,
             cp_risk_signals := signals,
             cp_rules := rc_rules config,
             cp_warnings := pack_warnings result af,
             cp_analyzer_coverage := pack_analyzer_coverage result\<rparr>))"

text \<open>The results of a list of fallible steps, up to the first error.\<close>

fun all_results :: "('a \<Rightarrow> 'e + 'b) \<Rightarrow> 'a list \<Rightarrow> 'e + 'b list" where
  "all_results g [] = Inr []"
| "all_results g (x # xs) = (case g x of
     Inl e \<Rightarrow> Inl e
   | Inr y \<Rightarrow> (case all_results g xs of Inl e \<Rightarrow> Inl e | Inr ys \<Rightarrow> Inr (y # ys)))"

definition packs_for_file ::
    "pack_world \<Rightarrow> review_config \<Rightarrow> analyzer_result \<Rightarrow> analyzer_file \<Rightarrow> changed_file \<Rightarrow> snippet_error + context_pack list" where
  "packs_for_file w config result af f =
     (let symbols = non_redundant_changed_symbols (af_changed_symbols af);
          anchors = test_anchor_terms f symbols;
          cluster = (\<lambda>group. symbol_pack w config result af f anchors (cluster_pack_id (af_path af) group)
             (primary_symbol group) group (\<lambda>edges. references_for_symbols edges group))
      in if symbols = [] then Inr [file_pack w config result af f anchors]
         else if should_cluster_file symbols (diff_snippet f []) then all_results cluster [symbols]
         else if 24 < length symbols then all_results cluster (symbol_chunks symbols 12)
         else all_results (\<lambda>(i, sy). symbol_pack w config result af f anchors
                  (af_path af @ ''#'' @ sy_name sy @ '':'' @ str_nat (i + 1)) sy [sy] (\<lambda>edges. edges sy))
                (indexed symbols))"

text \<open>The packs of one analyzed file: none when it did not change, and one more for the ranges that the
  analyzer left uncovered.\<close>

definition packs_of_analyzed ::
    "pack_world \<Rightarrow> review_config \<Rightarrow> (string \<times> changed_file) list \<Rightarrow> analyzer_result \<times> analyzer_file
     \<Rightarrow> snippet_error + context_pack list" where
  "packs_of_analyzed w config changed_by_path = (\<lambda>(result, af).
     case dict_get changed_by_path (af_path af) of
       None \<Rightarrow> Inr []
     | Some f \<Rightarrow> (case packs_for_file w config result af f of
         Inl e \<Rightarrow> Inl e
       | Inr packs \<Rightarrow> Inr (packs @
           (if af_uncovered_changed_ranges af = [] then []
            else [fallback_pack_for_file w config f
                    (Some ''Analyzer semantic-enrichment limit reached; this remaining scope uses diff-only context.'')
                    (af_uncovered_changed_ranges af) (Some (cf_path f @ ''#diff-uncovered'')) (uniq (af_warnings af))
                    (pack_analyzer_coverage result)]))))"

definition fallback_coverage :: "analyzer_result list \<Rightarrow> string \<Rightarrow> analyzer_coverage_signal option" where
  "fallback_coverage results path =
     (case find (\<lambda>r. pack_analyzer_coverage r \<noteq> None \<and> path \<in> set (ares_failed_files r)) results of
        None \<Rightarrow> None | Some r \<Rightarrow> pack_analyzer_coverage r)"

definition should_build_fallback_pack :: "changed_file \<Rightarrow> bool" where
  "should_build_fallback_pack f \<longleftrightarrow>
     \<not> (cf_is_ignored f \<or> cf_language f = ''dart'' \<and> cf_file_kind f = FK_GENERATED) \<and>
     (cf_file_kind f \<in> {FK_SOURCE, FK_TEST, FK_CONFIG, FK_MIGRATION, FK_SCHEMA, FK_DEPENDENCY, FK_UNKNOWN}
      \<or> cf_risk_signals f \<noteq> [])"

definition analyzed_files :: "analyzer_result list \<Rightarrow> (analyzer_result \<times> analyzer_file) list" where
  "analyzed_files results = concat (map (\<lambda>r. map (Pair r) (ares_files r)) results)"

definition packed_paths :: "analyzer_result list \<Rightarrow> changed_file list \<Rightarrow> string list" where
  "packed_paths results changed_files =
     filter (\<lambda>path. path \<in> cf_path ` set changed_files) (map (af_path \<circ> snd) (analyzed_files results))"

definition build_context_packs ::
    "pack_world \<Rightarrow> review_config \<Rightarrow> (string \<times> string) list \<Rightarrow> analyzer_result list \<Rightarrow> changed_file list
     \<Rightarrow> snippet_error + context_pack list" where
  "build_context_packs w config fallback_reasons results changed_files =
     (case all_results (packs_of_analyzed w config (dict_of cf_path id changed_files)) (analyzed_files results) of
        Inl e \<Rightarrow> Inl e
      | Inr analyzed \<Rightarrow> Inr (concat analyzed @
          map (\<lambda>f. fallback_pack_for_file w config f (dict_get fallback_reasons (cf_path f)) [] None []
                     (fallback_coverage results (cf_path f)))
            (filter (\<lambda>f. cf_path f \<notin> set (packed_paths results changed_files) \<and> should_build_fallback_pack f)
               changed_files)))"

end
