(* ===== verification/Analyzers.thy ===== *)
theory Analyzers
  imports Packs Risk
begin

section \<open>Running the analyzers\<close>

text \<open>
  \<open>src/apex_ray/analyzers/common.py\<close>, \<open>go.py\<close> and the sharded run of \<open>typescript.py\<close>: which changed
  files each backend takes, the arguments of the analyzer processes, the shards of a large change, what
  a failed or timed-out shard leaves behind, and how the results of the shards are merged. Parameters
  are the processes (the analyzers themselves are other programs), the decoder of their JSON output and
  the clock.
\<close>

subsection \<open>Changed lines\<close>

fun collapse_from :: "int \<Rightarrow> int \<Rightarrow> int list \<Rightarrow> (int \<times> int) list" where
  "collapse_from a previous [] = [(a, previous)]"
| "collapse_from a previous (n # ns) =
     (if n = previous + 1 then collapse_from a n ns else (a, previous) # collapse_from n n ns)"

definition collapse_ranges :: "int list \<Rightarrow> (int \<times> int) list" where
  "collapse_ranges ns = (case ns of [] \<Rightarrow> [] | n # ms \<Rightarrow> collapse_from n n ms)"

definition added_lines :: "changed_hunk \<Rightarrow> int list" where
  "added_lines h = sort (List.map_filter (\<lambda>l. if dl_kind l = DL_ADD then dl_new_line l else None) (hk_lines h))"

definition ts_line_ranges :: "changed_file \<Rightarrow> (int \<times> int) list" where
  "ts_line_ranges f = concat (map (\<lambda>h.
     if added_lines h \<noteq> [] then collapse_ranges (added_lines h) else [(hk_new_start h, hk_new_start h)]) (cf_hunks f))"

definition go_line_ranges :: "changed_file \<Rightarrow> (int \<times> int) list" where
  "go_line_ranges f = concat (map (\<lambda>h.
     if added_lines h \<noteq> [] then collapse_ranges (added_lines h)
     else if 0 < hk_new_start h then [(hk_new_start h, hk_new_start h)] else []) (cf_hunks f))"

text \<open>The deleted lines of a hunk, each at the new line that follows it.\<close>

fun deleted_from :: "(diff_line \<Rightarrow> int \<Rightarrow> int) \<Rightarrow> int \<Rightarrow> diff_line list \<Rightarrow> (int \<times> string) list" where
  "deleted_from place next [] = []"
| "deleted_from place next (l # ls) =
     (let next' = (case dl_new_line l of None \<Rightarrow> next | Some n \<Rightarrow> n + 1)
      in (if dl_kind l = DL_DELETE then [(place l next', dl_content l)] else []) @ deleted_from place next' ls)"

definition ts_deleted_lines :: "changed_file \<Rightarrow> (int \<times> string) list" where
  "ts_deleted_lines f = concat (map (\<lambda>h.
     if list_ex (\<lambda>l. dl_kind l = DL_ADD) (hk_lines h) then []
     else deleted_from (\<lambda>l next. next) (hk_new_start h) (hk_lines h)) (cf_hunks f))"

definition go_deleted_lines :: "changed_file \<Rightarrow> (int \<times> string) list" where
  "go_deleted_lines f = concat (map (\<lambda>h.
     deleted_from (\<lambda>l next. if cf_new_path f \<noteq> None then next
        else case dl_old_line l of Some n \<Rightarrow> if n \<noteq> 0 then n else next | None \<Rightarrow> next)
       (max 1 (hk_new_start h)) (hk_lines h)) (cf_hunks f))"

subsection \<open>The files of each backend\<close>

definition analyzable :: "string list \<Rightarrow> file_kind list \<Rightarrow> changed_file \<Rightarrow> bool" where
  "analyzable languages kinds f \<longleftrightarrow> cf_language f \<in> set languages \<and> cf_file_kind f \<in> set kinds \<and> \<not> cf_is_ignored f"

definition ts_js_changed_files :: "changed_file list \<Rightarrow> changed_file list" where
  "ts_js_changed_files = filter (\<lambda>f. analyzable [''typescript'', ''javascript''] [FK_SOURCE, FK_TEST] f \<and> cf_new_path f \<noteq> None)"

definition go_changed_files :: "changed_file list \<Rightarrow> changed_file list" where
  "go_changed_files = filter (\<lambda>f. analyzable [''go''] [FK_SOURCE, FK_TEST] f \<and> (cf_new_path f \<noteq> None \<or> cf_old_path f \<noteq> None))"

definition python_changed_files :: "changed_file list \<Rightarrow> changed_file list" where
  "python_changed_files = filter (\<lambda>f. analyzable [''python''] [FK_MIGRATION, FK_SOURCE, FK_TEST] f \<and> cf_new_path f \<noteq> None)"

text \<open>Generated Dart files are left to the bare diff. The code folds the case of the path, which for the
  names it compares with is lowering it.\<close>

definition is_generated_dart_path :: "string \<Rightarrow> bool" where
  "is_generated_dart_path path =
     (let folded = map (\<lambda>c. if c = CHR 0x5C then CHR ''/'' else c) (py_lower path);
          parts = filter (\<lambda>part. part \<noteq> [] \<and> part \<noteq> ''.'') (split_char CHR ''/'' folded)
      in list_ex (ends_with folded) [''.chopper.dart'', ''.config.dart'', ''.freezed.dart'', ''.g.dart'', ''.gr.dart'', ''.mocks.dart'']
         \<or> list_ex (\<lambda>part. part \<in> {''generated'', ''__generated__'', ''build'', ''dist''}) (butlast parts))"

definition dart_changed_files :: "changed_file list \<Rightarrow> changed_file list" where
  "dart_changed_files = filter (\<lambda>f. analyzable [''dart''] [FK_SOURCE, FK_TEST] f \<and>
     (case cf_new_path f of None \<Rightarrow> False | Some path \<Rightarrow> \<not> is_generated_dart_path path))"

subsection \<open>Analyzer processes\<close>

datatype process_outcome = Timed_Out | Exited int string string

definition one_decimal :: "rat \<Rightarrow> string" where
  "one_decimal x = (let tenths = round_half_even (x * 10); n = \<bar>tenths\<bar>
     in (if tenths < 0 then ''-'' else []) @ str_int (n div 10) @ ''.'' @ str_int (n mod 10))"

definition format_seconds :: "rat \<Rightarrow> string" where
  "format_seconds x = (let rounded = round_half_even x
     in if \<bar>x - of_int rounded\<bar> < 1 / 20 then str_int rounded @ ''s'' else one_decimal x @ ''s'')"

definition analysis_time_budget_ms :: "rat \<Rightarrow> int" where
  "analysis_time_budget_ms timeout =
     (let margin = min 5 (max (1 / 4) (timeout * (1 / 20)))
      in max 1 (round_half_even (max (1 / 1000) (timeout - margin) * 1000)))"

text \<open>How a process ends, for the Go and the TypeScript analyzer; the decoder gives the result or what is
  wrong with the output.\<close>

definition process_result ::
    "string \<Rightarrow> (string \<Rightarrow> string + analyzer_result) \<Rightarrow> rat \<Rightarrow> process_outcome \<Rightarrow> string + analyzer_result" where
  "process_result label decode timeout outcome =
     (case outcome of
        Timed_Out \<Rightarrow> Inl (label @ '' analyzer timed out after '' @ format_seconds timeout)
      | Exited code out err \<Rightarrow>
          if code \<noteq> 0
          then Inl (if py_strip err \<noteq> [] then py_strip err else if py_strip out \<noteq> [] then py_strip out
                    else label @ '' analyzer failed'')
          else map_sum (\<lambda>e. ''Invalid '' @ label @ '' analyzer output: '' @ e) id (decode out))"

definition range_args :: "string \<Rightarrow> (int \<times> int) list \<Rightarrow> string list" where
  "range_args path ranges = concat (map (\<lambda>(a, b). [''--range'', path @ '':'' @ str_int a @ ''-'' @ str_int b]) ranges)"

definition deleted_args :: "string \<Rightarrow> (int \<times> string) list \<Rightarrow> string list" where
  "deleted_args path lines = concat (map (\<lambda>(n, content). [''--deleted-line'', path, str_int n, content]) lines)"

definition go_analyzer_args :: "string \<Rightarrow> changed_file list \<Rightarrow> analyzer_config \<Rightarrow> string list" where
  "go_analyzer_args repo files config =
     [''go'', ''run'', ''./cmd/apex-ray-go-analyzer'', ''--repo'', repo, ''--changed'']
     @ List.map_filter cf_new_path files
     @ [''--analysis-time-budget-ms'', str_int (analysis_time_budget_ms (of_int (ac_timeout_seconds config)))]
     @ concat (map (\<lambda>f. (case cf_new_path f of None \<Rightarrow> [] | Some path \<Rightarrow> range_args path (go_line_ranges f))
         @ deleted_args (cf_path f) (go_deleted_lines f)) files)"

text \<open>The Go backend: whether \<open>go\<close> is on the path and the runtime is there, and its process.\<close>

definition run_go_analyzer ::
    "bool \<Rightarrow> string option \<Rightarrow> string \<Rightarrow> (string list \<Rightarrow> rat \<Rightarrow> process_outcome) \<Rightarrow> (string \<Rightarrow> string + analyzer_result)
     \<Rightarrow> changed_file list \<Rightarrow> analyzer_config \<Rightarrow> string + analyzer_result option" where
  "run_go_analyzer installed missing_runtime repo process decode files config =
     (let changed = go_changed_files files; timeout = of_int (ac_timeout_seconds config) in
      if changed = [] then Inr None
      else if \<not> installed then Inl ''Go is required for the Go analyzer but was not found on PATH.''
      else case missing_runtime of
             Some dir \<Rightarrow> Inl (''Go analyzer runtime is not available: '' @ dir)
           | None \<Rightarrow> map_sum id Some (process_result ''Go'' decode timeout (process (go_analyzer_args repo changed config) timeout)))"

definition typescript_analyzer_args ::
    "string \<Rightarrow> string \<Rightarrow> changed_file list \<Rightarrow> analyzer_config \<Rightarrow> int option \<Rightarrow> int option \<Rightarrow> string option \<Rightarrow> string list" where
  "typescript_analyzer_args repo script files config large budget manifest =
     [''node'', script, ''--repo'', repo, ''--changed'']
     @ filter (\<lambda>path. path \<noteq> []) (List.map_filter cf_new_path files)
     @ (case large of None \<Rightarrow> [] | Some n \<Rightarrow> [''--large-change-set-size'', str_int n])
     @ (case budget of None \<Rightarrow> [] | Some n \<Rightarrow> [''--analysis-time-budget-ms'', str_int n])
     @ (case manifest of None \<Rightarrow> [] | Some path \<Rightarrow> [''--file-manifest'', path])
     @ (if ac_index_cache_enabled config then [] else [''--no-index-cache''])
     @ (case ac_index_cache_dir config of Some (c # cs) \<Rightarrow> [''--index-cache-dir'', c # cs] | _ \<Rightarrow> [])
     @ (if ac_refresh_index_cache config then [''--refresh-index-cache''] else [])
     @ concat (map (\<lambda>f. range_args (cf_path f) (ts_line_ranges f) @ deleted_args (cf_path f) (ts_deleted_lines f)) files)"

subsection \<open>Shards\<close>

primrec shard_severity_rank :: "risk_severity \<Rightarrow> int" where
  "shard_severity_rank RS_CRITICAL = 4"
| "shard_severity_rank RS_HIGH = 3"
| "shard_severity_rank RS_MEDIUM = 2"
| "shard_severity_rank RS_LOW = 1"

definition shard_kind_score :: "file_kind \<Rightarrow> int" where
  "shard_kind_score k = (case k of FK_SOURCE \<Rightarrow> 6 | FK_SCHEMA \<Rightarrow> 5 | FK_MIGRATION \<Rightarrow> 5 | FK_CONFIG \<Rightarrow> 4
     | FK_DEPENDENCY \<Rightarrow> 3 | FK_UNKNOWN \<Rightarrow> 2 | FK_TEST \<Rightarrow> 1 | _ \<Rightarrow> 2)"

definition changed_file_shard_priority :: "changed_file \<Rightarrow> int \<times> int \<times> int \<times> int" where
  "changed_file_shard_priority f =
     (fold max (map (shard_severity_rank \<circ> rs_severity) (cf_risk_signals f)) 0,
      sum_list (map risk_signal_score (cf_risk_signals f)),
      shard_kind_score (cf_file_kind f),
      - int (length (cf_path f)))"

definition large_change :: "analyzer_config \<Rightarrow> changed_file list \<Rightarrow> bool" where
  "large_change config files \<longleftrightarrow> ac_large_change_file_threshold config \<le> int (length files)"

definition shard_size :: "analyzer_config \<Rightarrow> changed_file list \<Rightarrow> nat" where
  "shard_size config files =
     nat (if ac_adaptive_sharding config \<and> large_change config files
          then min (ac_changed_file_shard_size config) (ac_large_change_shard_size config)
          else ac_changed_file_shard_size config)"

definition shard_changed_files :: "changed_file list \<Rightarrow> analyzer_config \<Rightarrow> changed_file list list" where
  "shard_changed_files files config =
     chunks_of (shard_size config files) (sort_desc changed_file_shard_priority files)"

definition typescript_total_timeout_seconds ::
    "changed_file list \<Rightarrow> changed_file list list \<Rightarrow> analyzer_config \<Rightarrow> int" where
  "typescript_total_timeout_seconds files shards config =
     (if length shards \<le> 1 \<or> \<not> ac_adaptive_sharding config \<or> \<not> large_change config files
      then ac_timeout_seconds config
      else ac_timeout_seconds config * min (int (length shards)) 4)"

definition shard_failure ::
    "nat \<Rightarrow> nat \<Rightarrow> changed_file list \<Rightarrow> string \<Rightarrow> shard_failure_status option \<Rightarrow> analyzer_shard_failure" where
  "shard_failure i n files reason status =
     \<lparr>sf_index = int i, sf_total = int n, sf_files = map cf_path files, sf_reason = reason,
      sf_status = (case status of Some s \<Rightarrow> s | None \<Rightarrow>
        if str_in ''timeout'' (py_lower reason) \<or> str_in ''timed out'' (py_lower reason) then SFS_TIMEOUT else SFS_FAILED)\<rparr>"

definition format_shard_failure :: "analyzer_shard_failure \<Rightarrow> string" where
  "format_shard_failure e =
     ''TypeScript analyzer shard '' @ str_int (sf_index e) @ ''/'' @ str_int (sf_total e) @ '' failed for ''
     @ join '', '' (take 3 (sf_files e))
     @ (if 3 < length (sf_files e) then '', +'' @ str_nat (length (sf_files e) - 3) @ '' more'' else [])
     @ '': '' @ sf_reason e"

primrec shard_partial_reason_code :: "shard_failure_status \<Rightarrow> analyzer_partial_reason" where
  "shard_partial_reason_code SFS_FAILED = APR_SHARD_FAILED"
| "shard_partial_reason_code SFS_TIMEOUT = APR_SHARD_TIMEOUT"
| "shard_partial_reason_code SFS_SKIPPED = APR_SHARD_SKIPPED"

primrec failed_shard_status :: "shard_failure_status \<Rightarrow> shard_status" where
  "failed_shard_status SFS_FAILED = SST_FAILED"
| "failed_shard_status SFS_TIMEOUT = SST_TIMEOUT"
| "failed_shard_status SFS_SKIPPED = SST_SKIPPED"

definition failed_shard_metrics :: "analyzer_shard_failure \<Rightarrow> int \<Rightarrow> analyzer_shard_metrics" where
  "failed_shard_metrics e duration = default_analyzer_shard_metrics
     \<lparr>sm_index := sf_index e, sm_total := sf_total e, sm_status := failed_shard_status (sf_status e),
      sm_wall_duration_ms := duration, sm_changed_file_count := int (length (sf_files e)),
      sm_analyzed_file_count := 0, sm_failed_file_count := int (length (sf_files e)), sm_warning_count := 1,
      sm_partial_reason_codes := [shard_partial_reason_code (sf_status e), APR_CHANGED_FILE_ANALYSIS_INCOMPLETE]\<rparr>"


definition is_partial :: "analyzer_result \<Rightarrow> bool" where
  "is_partial r \<longleftrightarrow> ares_partial r \<or> (case ares_coverage r of None \<Rightarrow> False | Some c \<Rightarrow> acs_partial c)"

definition with_coverage :: "analyzer_result \<Rightarrow> analyzer_result" where
  "with_coverage r =
     (if ares_coverage r \<noteq> None then r
      else r\<lparr>ares_coverage := Some \<lparr>acs_partial = is_partial r,
        acs_reason_codes = (if is_partial r then [APR_PARTIAL_REASON_UNSPECIFIED] else []),
        acs_scopes = (if is_partial r then [ACS_ANALYZER] else []),
        acs_failed_file_count = int (length (ares_failed_files r))\<rparr>\<rparr>)"

definition first_shard :: "analyzer_metrics option \<Rightarrow> analyzer_shard_metrics" where
  "first_shard m = (case m of None \<Rightarrow> default_analyzer_shard_metrics
     | Some x \<Rightarrow> case am_shards x of [] \<Rightarrow> default_analyzer_shard_metrics | sh # _ \<Rightarrow> sh)"

definition annotate_successful_shard :: "nat \<Rightarrow> nat \<Rightarrow> nat \<Rightarrow> int \<Rightarrow> analyzer_result \<Rightarrow> analyzer_result" where
  "annotate_successful_shard i n changed duration r0 =
     (let r = with_coverage r0; source = ares_metrics r; sh = first_shard source
      in r\<lparr>ares_metrics := Some \<lparr>am_wall_duration_ms = duration,
           am_stage_durations_ms = (case source of None \<Rightarrow> [] | Some m \<Rightarrow> am_stage_durations_ms m),
           am_shards = [sh\<lparr>sm_index := int i, sm_total := int n,
             sm_status := (if list_ex (\<lambda>e. sf_status e = SFS_TIMEOUT) (ares_shard_failures r) then SST_TIMEOUT
                           else if is_partial r0 then SST_PARTIAL else SST_COMPLETE),
             sm_wall_duration_ms := duration, sm_changed_file_count := int changed,
             sm_analyzed_file_count := int (length (ares_files r)),
             sm_failed_file_count := int (length (ares_failed_files r)),
             sm_warning_count := (if ares_warning_summaries r \<noteq> [] then sum_list (map ws_occurrences (ares_warning_summaries r))
                                  else int (length (ares_warnings r))),
             sm_partial_reason_codes := (case ares_coverage r of None \<Rightarrow> [] | Some c \<Rightarrow> acs_reason_codes c),
             sm_index_cache_hits := (case ares_index_cache r of Some c \<Rightarrow> ics_hits c | None \<Rightarrow> sm_index_cache_hits sh),
             sm_index_cache_misses := (case ares_index_cache r of Some c \<Rightarrow> ics_misses c | None \<Rightarrow> sm_index_cache_misses sh)\<rparr>]\<rparr>\<rparr>)"

datatype shard_outcome = Shard_Ok nat analyzer_result | Shard_Failed analyzer_shard_failure int

definition total_timeout_message :: "rat \<Rightarrow> string" where
  "total_timeout_message timeout = ''TypeScript analyzer total timeout after '' @ format_seconds timeout"

text \<open>The loop over the shards: \<open>left i\<close> is the time left before shard \<open>i\<close>, \<open>took i\<close> how long it took.
  When the time is up, the shards that are left have failed.\<close>

fun run_shards ::
    "(nat \<Rightarrow> rat) \<Rightarrow> (nat \<Rightarrow> int) \<Rightarrow> (changed_file list \<Rightarrow> rat \<Rightarrow> string + analyzer_result) \<Rightarrow> rat \<Rightarrow> rat \<Rightarrow> nat
     \<Rightarrow> (nat \<times> changed_file list) list \<Rightarrow> shard_outcome list" where
  "run_shards left took run timeout all_time n [] = []"
| "run_shards left took run timeout all_time n ((i, shard) # rest) =
     (if left i \<le> 0
      then map (\<lambda>(j, sh). Shard_Failed (shard_failure j n sh (total_timeout_message all_time) (Some SFS_TIMEOUT)) 0)
             ((i, shard) # rest)
      else (case run shard (min timeout (left i)) of
              Inl e \<Rightarrow> Shard_Failed (shard_failure i n shard e None) (took i)
            | Inr r \<Rightarrow> Shard_Ok i (annotate_successful_shard i n (length shard) (took i) r))
           # run_shards left took run timeout all_time n rest)"

fun shard_results :: "shard_outcome list \<Rightarrow> (nat \<times> analyzer_result) list" where
  "shard_results [] = []"
| "shard_results (Shard_Ok i r # os) = (i, r) # shard_results os"
| "shard_results (Shard_Failed e d # os) = shard_results os"

fun shard_failures :: "shard_outcome list \<Rightarrow> (analyzer_shard_failure \<times> int) list" where
  "shard_failures [] = []"
| "shard_failures (Shard_Ok i r # os) = shard_failures os"
| "shard_failures (Shard_Failed e d # os) = (e, d) # shard_failures os"

subsection \<open>Merging\<close>

definition append_analyzer_warning :: "string \<Rightarrow> int list \<Rightarrow> analyzer_result \<Rightarrow> analyzer_result" where
  "append_analyzer_warning message indexes r =
     (let r' = (if message \<in> set (ares_warnings r) then r else r\<lparr>ares_warnings := ares_warnings r @ [message]\<rparr>);
          summaries = ares_warning_summaries r'
      in case first_index (\<lambda>ws. ws_message ws = message) summaries of
           Some k \<Rightarrow> r'\<lparr>ares_warning_summaries := summaries[k := (summaries ! k)
             \<lparr>ws_occurrences := ws_occurrences (summaries ! k) + 1,
              ws_shard_indexes := uniq (ws_shard_indexes (summaries ! k) @ indexes)\<rparr>]\<rparr>
         | None \<Rightarrow> r'\<lparr>ares_warning_summaries := summaries @
             [\<lparr>ws_message = message, ws_occurrences = 1, ws_shard_indexes = uniq indexes\<rparr>]\<rparr>)"

type_synonym warning_counts = "(string \<times> int \<times> int list) list"

definition add_warning :: "int \<Rightarrow> string \<times> int \<Rightarrow> warning_counts \<Rightarrow> warning_counts" where
  "add_warning i = (\<lambda>(message, n) d.
     let (old, indexes) = dict_get_or d message (0, [])
     in dict_set message (old + n, if i \<in> set indexes then indexes else indexes @ [i]) d)"

definition warning_entries :: "analyzer_result \<Rightarrow> (string \<times> int) list" where
  "warning_entries r =
     map (\<lambda>ws. (ws_message ws, ws_occurrences ws)) (ares_warning_summaries r)
     @ map (\<lambda>m. (m, 1)) (filter (\<lambda>m. m \<notin> ws_message ` set (ares_warning_summaries r)) (ares_warnings r))"

definition warning_counts_of :: "(nat \<times> analyzer_result) list \<Rightarrow> warning_counts" where
  "warning_counts_of results =
     fold (\<lambda>(i, r) d. fold (add_warning (int i)) (warning_entries r) d) results []"

definition merge_warning_summaries :: "(nat \<times> analyzer_result) list \<Rightarrow> string list \<times> analyzer_warning_summary list" where
  "merge_warning_summaries results =
     (let counts = warning_counts_of results
      in (map fst counts,
          map (\<lambda>(m, n, indexes). \<lparr>ws_message = m, ws_occurrences = n, ws_shard_indexes = indexes\<rparr>) counts))"

definition add_new :: "'a list \<Rightarrow> 'a list \<Rightarrow> 'a list" where
  "add_new xs acc = fold (\<lambda>x acc. if x \<in> set acc then acc else acc @ [x]) xs acc"

definition merge_analyzer_coverage :: "analyzer_result list \<Rightarrow> string list \<Rightarrow> analyzer_coverage_signal option" where
  "merge_analyzer_coverage results failed_files =
     (let partial = list_ex is_partial results in
      if \<not> partial \<and> \<not> list_ex (\<lambda>r. ares_coverage r \<noteq> None) results then None
      else let
          codes = fold (\<lambda>r acc. case ares_coverage r of
              None \<Rightarrow> if ares_partial r then add_new [APR_PARTIAL_REASON_UNSPECIFIED] acc else acc
            | Some c \<Rightarrow> add_new (acs_reason_codes c) acc) results [];
          scopes = fold (\<lambda>r acc. case ares_coverage r of None \<Rightarrow> acc | Some c \<Rightarrow> add_new (acs_scopes c) acc) results [];
          reported = sum_list (map (\<lambda>r. case ares_coverage r of None \<Rightarrow> 0 | Some c \<Rightarrow> acs_failed_file_count c) results)
        in Some \<lparr>acs_partial = partial,
             acs_reason_codes = (if partial \<and> codes = [] then [APR_PARTIAL_REASON_UNSPECIFIED] else codes),
             acs_scopes = (if partial \<and> scopes = [] then [ACS_ANALYZER] else scopes),
             acs_failed_file_count = max (int (length failed_files)) reported\<rparr>)"

definition merge_analyzer_metrics :: "(nat \<times> analyzer_result) list \<Rightarrow> nat \<Rightarrow> analyzer_metrics option" where
  "merge_analyzer_metrics results n =
     (let with_metrics = List.map_filter (\<lambda>(i, r). map_option (Pair i) (ares_metrics r)) results
      in if with_metrics = [] then None
         else Some \<lparr>am_wall_duration_ms = sum_list (map (am_wall_duration_ms \<circ> snd) with_metrics),
           am_stage_durations_ms = fold (\<lambda>(stage, ms) d. dict_set stage (dict_get_or d stage 0 + ms) d)
             (concat (map (am_stage_durations_ms \<circ> snd) with_metrics)) [],
           am_shards = map (\<lambda>(i, m). (first_shard (Some m))\<lparr>sm_index := int i, sm_total := int n\<rparr>) with_metrics\<rparr>)"

definition merge_index_cache_stats :: "analyzer_result list \<Rightarrow> analyzer_index_cache_stats option" where
  "merge_index_cache_stats results =
     (case List.map_filter ares_index_cache results of
        [] \<Rightarrow> None
      | c # cs \<Rightarrow> Some (c\<lparr>ics_files := fold max (map ics_files cs) (ics_files c),
          ics_hits := sum_list (map ics_hits (c # cs)), ics_misses := sum_list (map ics_misses (c # cs)),
          ics_written := list_ex ics_written (c # cs)\<rparr>))"

definition merge_analyzer_results :: "(nat \<times> analyzer_result) list \<Rightarrow> nat \<Rightarrow> analyzer_result" where
  "merge_analyzer_results results n =
     (let rs = map snd results;
          (warnings, summaries) = merge_warning_summaries results;
          failed = uniq (concat (map ares_failed_files rs))
      in \<lparr>ares_language = ares_language (hd rs), ares_project_root = ares_project_root (hd rs),
          ares_tsconfig_path = (case remdups (map ares_tsconfig_path rs) of [path] \<Rightarrow> path | _ \<Rightarrow> None),
          ares_files = concat (map ares_files rs), ares_warnings = warnings, ares_warning_summaries = summaries,
          ares_index_cache = merge_index_cache_stats rs, ares_partial = list_ex is_partial rs,
          ares_coverage = merge_analyzer_coverage rs failed, ares_metrics = merge_analyzer_metrics results n,
          ares_failed_files = failed,
          ares_shard_failures = concat (map (\<lambda>(i, r).
            map (\<lambda>e. e\<lparr>sf_index := int i, sf_total := int n\<rparr>) (ares_shard_failures r)) results)\<rparr>)"

text \<open>The merged result when some shards failed.\<close>

definition partial_result ::
    "nat \<Rightarrow> (analyzer_shard_failure \<times> int) list \<Rightarrow> analyzer_result \<Rightarrow> analyzer_result" where
  "partial_result n failures merged =
     (let es = map fst failures;
          r1 = append_analyzer_warning (''Returning partial TypeScript analyzer result because '' @ str_nat (length es)
                 @ '' of '' @ str_nat n @ '' shards failed.'') (map sf_index es) merged;
          r = fold (\<lambda>e r. append_analyzer_warning (format_shard_failure e) [sf_index e] r) es r1;
          failed = uniq (ares_failed_files r @ concat (map sf_files es));
          metrics = (case ares_metrics r of None \<Rightarrow> default_analyzer_metrics | Some m \<Rightarrow> m);
          shards = sort_key sm_index (am_shards metrics @ map (\<lambda>(e, d). failed_shard_metrics e d) failures)
      in r\<lparr>ares_partial := True, ares_failed_files := failed,
           ares_shard_failures := add_new es (ares_shard_failures r),
           ares_coverage := Some \<lparr>acs_partial = True,
             acs_reason_codes = uniq ((case ares_coverage r of None \<Rightarrow> [APR_PARTIAL_REASON_UNSPECIFIED] | Some c \<Rightarrow> acs_reason_codes c)
               @ map (shard_partial_reason_code \<circ> sf_status) es @ [APR_CHANGED_FILE_ANALYSIS_INCOMPLETE]),
             acs_scopes = uniq ((case ares_coverage r of None \<Rightarrow> [ACS_ANALYZER] | Some c \<Rightarrow> acs_scopes c)
               @ [ACS_SHARDS, ACS_CHANGED_FILES]),
             acs_failed_file_count = int (length failed)\<rparr>,
           ares_metrics := Some (metrics\<lparr>am_shards := shards,
             am_wall_duration_ms := sum_list (map sm_wall_duration_ms shards)\<rparr>)\<rparr>)"

definition settle_shards :: "nat \<Rightarrow> shard_outcome list \<Rightarrow> string + analyzer_result" where
  "settle_shards n outcomes =
     (let results = shard_results outcomes; failures = shard_failures outcomes in
      if results = []
      then Inl (if n = 1 \<and> length failures = 1 then format_shard_failure (fst (hd failures))
                else ''TypeScript analyzer failed for all shards: ''
                  @ join ''; '' (map (format_shard_failure \<circ> fst) failures))
      else Inr (let merged = merge_analyzer_results results n
                in if failures = [] then merged else partial_result n failures merged))"

text \<open>\<open>run_typescript_analyzer\<close>: \<open>missing\<close> says what is not installed, \<open>manifest\<close> gives the path of the
  file manifest or the error of writing it, and the time left before a shard is counted from the total
  time.\<close>

record ts_env =
  te_missing :: "string option"
  te_manifest :: "string + string"
  te_repo :: string
  te_script :: string
  te_process :: "string list \<Rightarrow> rat \<Rightarrow> process_outcome"
  te_decode :: "string \<Rightarrow> string + analyzer_result"
  te_spent :: "nat \<Rightarrow> rat"
  te_took :: "nat \<Rightarrow> int"
  te_wall_ms :: int
  te_manifest_ms :: int

definition run_typescript_shard ::
    "ts_env \<Rightarrow> analyzer_config \<Rightarrow> int option \<Rightarrow> string \<Rightarrow> changed_file list \<Rightarrow> rat \<Rightarrow> string + analyzer_result" where
  "run_typescript_shard env config large manifest files timeout0 =
     (let timeout = max (1 / 1000) timeout0
      in process_result ''TypeScript'' (te_decode env) timeout
           (te_process env (typescript_analyzer_args (te_repo env) (te_script env) files config large
              (Some (analysis_time_budget_ms timeout)) (Some manifest)) timeout))"

definition run_typescript_analyzer ::
    "ts_env \<Rightarrow> changed_file list \<Rightarrow> analyzer_config \<Rightarrow> string + analyzer_result option" where
  "run_typescript_analyzer env files config =
     (let changed = ts_js_changed_files files;
          shards = shard_changed_files changed config;
          n = length shards;
          all_time = of_int (typescript_total_timeout_seconds changed shards config) :: rat;
          large = (if large_change config changed then Some (int (length changed)) else None)
      in if changed = [] then Inr None
         else case te_missing env of
           Some e \<Rightarrow> Inl e
         | None \<Rightarrow> (case te_manifest env of
             Inl e \<Rightarrow> Inl e
           | Inr manifest \<Rightarrow>
               map_sum id (\<lambda>r. Some (r\<lparr>ares_metrics := map_option (\<lambda>m. m\<lparr>am_wall_duration_ms := te_wall_ms env,
                     am_stage_durations_ms := dict_set ''manifest'' (te_manifest_ms env) (am_stage_durations_ms m)\<rparr>)
                   (ares_metrics r)\<rparr>))
                 (settle_shards n (run_shards (\<lambda>i. all_time - te_spent env i) (te_took env)
                   (run_typescript_shard env config large manifest) (of_int (ac_timeout_seconds config)) all_time n
                   (map (\<lambda>(i, sh). (i + 1, sh)) (indexed shards))))))"

subsection \<open>All backends\<close>

record analyzer_backend =
  ab_name :: string
  ab_display_name :: string
  ab_changed_files :: "changed_file list \<Rightarrow> changed_file list"
  ab_run :: "changed_file list \<Rightarrow> string + analyzer_result option"
  ab_partial_reason :: string

record backend_run =
  br_name :: string
  br_display_name :: string
  br_changed_files_count :: nat
  br_result :: "analyzer_result option"
  br_warning :: "string option"

record analyzer_run =
  an_results :: "analyzer_result list"
  an_reasons :: "(string \<times> string) list"
  an_warnings :: "string list"
  an_backend_runs :: "backend_run list"

definition run_backend :: "changed_file list \<Rightarrow> analyzer_backend \<Rightarrow> analyzer_run \<Rightarrow> analyzer_run" where
  "run_backend files b run =
     (let changed = ab_changed_files b files;
          logged = (\<lambda>result warning. \<lparr>br_name = ab_name b, br_display_name = ab_display_name b,
            br_changed_files_count = length changed, br_result = result, br_warning = warning\<rparr>)
      in if changed = [] then run\<lparr>an_backend_runs := an_backend_runs run @ [logged None None]\<rparr>
         else case ab_run b files of
           Inl e \<Rightarrow> (let warning = ab_display_name b @ '' analyzer unavailable: '' @ e;
                        reason = warning @ ''; using diff-only fallback context.''
                    in run\<lparr>an_warnings := an_warnings run @ [warning],
                           an_reasons := fold (\<lambda>f d. dict_set (cf_path f) reason d) changed (an_reasons run),
                           an_backend_runs := an_backend_runs run @ [logged None (Some warning)]\<rparr>)
         | Inr None \<Rightarrow> run\<lparr>an_backend_runs := an_backend_runs run @ [logged None None]\<rparr>
         | Inr (Some r) \<Rightarrow> run\<lparr>an_results := an_results run @ [r],
             an_reasons := fold (\<lambda>path d. dict_set path (ab_partial_reason b) d) (ares_failed_files r) (an_reasons run),
             an_backend_runs := an_backend_runs run @ [logged (Some r) None]\<rparr>)"

definition run_analyzers :: "analyzer_backend list \<Rightarrow> changed_file list \<Rightarrow> analyzer_run" where
  "run_analyzers backends files =
     fold (run_backend files) backends \<lparr>an_results = [], an_reasons = [], an_warnings = [], an_backend_runs = []\<rparr>"


definition analyzer_backends ::
    "(changed_file list \<Rightarrow> string + analyzer_result option) \<Rightarrow> (changed_file list \<Rightarrow> string + analyzer_result option)
     \<Rightarrow> (changed_file list \<Rightarrow> string + analyzer_result option) \<Rightarrow> (changed_file list \<Rightarrow> string + analyzer_result option)
     \<Rightarrow> analyzer_backend list" where
  "analyzer_backends typescript go python dart =
     [\<lparr>ab_name = ''typescript'', ab_display_name = ''TypeScript'', ab_changed_files = ts_js_changed_files,
       ab_run = typescript,
       ab_partial_reason = ''TypeScript analyzer shard failed; using diff-only fallback context.''\<rparr>,
      \<lparr>ab_name = ''go'', ab_display_name = ''Go'', ab_changed_files = go_changed_files, ab_run = go,
       ab_partial_reason = ''Go analyzer failed; using diff-only fallback context.''\<rparr>,
      \<lparr>ab_name = ''python'', ab_display_name = ''Python'', ab_changed_files = python_changed_files, ab_run = python,
       ab_partial_reason = ''Python analyzer failed; using diff-only fallback context.''\<rparr>,
      \<lparr>ab_name = ''dart'', ab_display_name = ''Dart'', ab_changed_files = dart_changed_files, ab_run = dart,
       ab_partial_reason = ''Dart analyzer failed for this file; using diff-only fallback context.''\<rparr>]"

end
