(* ===== verification/Pipeline.thy ===== *)
theory Pipeline
  imports Analyzers Consolidation Snapshot Classify Report_Coverage Review_Run Selection_Limits
begin

section \<open>The review pipeline\<close>

text \<open>
  \<open>run_review_pipeline\<close> of \<open>src/apex_ray/pipeline/runner.py\<close>, which puts the components together, and
  \<open>build_report\<close> of \<open>src/apex_ray/report/core.py\<close>: the diff is parsed, classified and filtered by
  language, the analyzers run, context packs are built, every reviewer gets a selection of the packs it
  matches, reviews them in two depths with one circuit breaker for the whole run, has its findings
  verified, and everything goes into the report. Outside, in \<open>pipeline_env\<close>: the model services of
  \<open>Review_Run\<close>, the file world of \<open>Packs\<close>, the analyzers, the discovered project, prompt sizes, and clocks.
\<close>

record 'p pipeline_env =
  pv_services :: "'p llm_services"
  pv_packs :: pack_world
  pv_backends :: "analyzer_backend list"
  pv_project :: project_profile
  pv_sha256 :: "string \<Rightarrow> string"
  pv_shallow_payload_chars :: "context_pack \<Rightarrow> int"
  pv_review_prompt_chars :: "review_depth \<Rightarrow> context_pack \<Rightarrow> int"
  pv_durations :: "(string \<times> int) list"
  pv_now :: datetime
  pv_version :: string
  pv_os_name :: string
  pv_enum :: "string set \<Rightarrow> string list"

subsection \<open>The report\<close>

definition add_omission :: "memory_omission \<Rightarrow> (string \<times> string) list \<Rightarrow> (string \<times> string) list" where
  "add_omission x d = (if dict_get d (mo_id x) = None then dict_set (mo_id x) (mo_reason x) d else d)"

definition build_memory_summary :: "review_config \<Rightarrow> context_pack list \<Rightarrow> memory_summary" where
  "build_memory_summary config packs =
     (let matches = concat (map cp_memory_matches packs); omissions = concat (map cp_memory_omissions packs)
      in \<lparr>msum_enabled = mcfg_enabled (rc_memory config),
          msum_loaded_cards = int (length (rc_memory_definitions config)),
          msum_matched_cards = int (length matches) + int (length omissions),
          msum_applied_cards = int (length matches),
          msum_omitted_cards = int (length omissions),
          msum_applied_card_ids = uniq (map mm_id matches),
          msum_omitted_card_reasons = fold add_omission omissions [],
          msum_total_prompt_chars = sum_list (map mm_prompt_chars matches)\<rparr>)"

definition report_summary_of :: "diff_summary \<Rightarrow> report_summary" where
  "report_summary_of d =
     (let severities = map (risk_severity_value \<circ> rs_severity)
            (concat (map cf_risk_signals (filter (\<lambda>f. \<not> cf_is_ignored f) (dsum_files d))))
      in \<lparr>rsum_files_by_kind = sorted_counts (map (file_kind_value \<circ> cf_file_kind) (dsum_files d)),
          rsum_files_by_language = sorted_counts (map cf_language (dsum_files d)),
          rsum_risk_by_severity = sorted_counts severities,
          rsum_total_risk_signals = int (length severities)\<rparr>)"

definition rule_line :: "review_rule \<Rightarrow> string" where
  "rule_line r = rr_id r @ '': '' @ (if rr_title r = [] then rr_id r else rr_title r)
     @ '' ('' @ finding_severity_value (rr_severity r) @ '', '' @ rule_mode_value (rr_mode r) @ '')''"

definition build_report ::
    "'p pipeline_env \<Rightarrow> project_profile \<Rightarrow> review_config \<Rightarrow> diff_summary \<Rightarrow> analyzer_result list \<Rightarrow> context_pack list
     \<Rightarrow> finding list \<Rightarrow> finding_verification list \<Rightarrow> llm_run list \<Rightarrow> llm_context_selection option
     \<Rightarrow> (string \<times> llm_context_selection) list \<Rightarrow> (string \<times> int) list \<Rightarrow> string list option
     \<Rightarrow> review_input_snapshot option \<Rightarrow> review_report" where
  "build_report env project config d results packs findings vs runs selection selections durations scope snapshot =
     \<lparr>rep_schema_version = ''review-report/v1'', rep_project = project, rep_config = config, rep_diff = d,
      rep_input_snapshot = snapshot, rep_summary = report_summary_of d, rep_llm_selection = selection,
      rep_reviewer_selections = selections, rep_reviewer_scope_ids = scope, rep_stage_durations_ms = durations,
      rep_llm_coverage = build_llm_coverage (pv_os_name env) (pv_enum env) config packs runs selection selections
        scope findings vs,
      rep_coverage_completion = None, rep_memory_summary = build_memory_summary config packs,
      rep_rules = rc_rules config @ map rule_line (rc_rule_definitions config), rep_analyzer_results = results,
      rep_context_packs = packs, rep_findings = findings, rep_verifications = vs, rep_llm_runs = runs,
      rep_generated_at = pv_now env, rep_version = pv_version env\<rparr>"

subsection \<open>The diff\<close>

definition apply_language_filter :: "string list \<Rightarrow> diff_summary \<Rightarrow> diff_summary" where
  "apply_language_filter languages d =
     (if languages = [] then d
      else let files = map (\<lambda>f. if cf_is_ignored f \<or> cf_language f \<in> set languages then f
             else f\<lparr>cf_is_ignored := True, cf_ignore_reason := Some (''Language not enabled: '' @ cf_language f),
                    cf_risk_signals := [], cf_hunks := map (\<lambda>h. h\<lparr>hk_risk_signals := []\<rparr>) (cf_hunks f)\<rparr>) (dsum_files d)
           in d\<lparr>dsum_files := files,
                dsum_stats := (dsum_stats d)\<lparr>ds_ignored_files := int (length (filter cf_is_ignored files))\<rparr>\<rparr>)"

subsection \<open>The packs of a reviewer\<close>

text \<open>The packs whose provider is asked for while a stage is fitted into its token budget. Routing one of
  them can fail, and then the plan fails.\<close>

definition priced_packs :: "context_pack list \<Rightarrow> changed_file list \<Rightarrow> nat list \<Rightarrow> int option \<Rightarrow> context_pack list" where
  "priced_packs packs files candidates budget =
     (if candidates = [] then []
      else case budget of
          None \<Rightarrow> map (\<lambda>i. packs ! i) candidates
        | Some b \<Rightarrow> if b \<le> 0 then []
            else map (\<lambda>i. packs ! i) (sort_desc (\<lambda>i. llm_pack_priority (packs ! i) (kinds_by_path files) i)
                   (filter (\<lambda>i. i \<in> set candidates) [0..<length packs])))"

fun first_error :: "('a \<Rightarrow> 'e + 'b) \<Rightarrow> 'a list \<Rightarrow> 'e option" where
  "first_error g [] = None"
| "first_error g (x # xs) = (case g x of Inl e \<Rightarrow> Some e | Inr _ \<Rightarrow> first_error g xs)"

definition reviewer_coverage_mode :: "llm_config \<Rightarrow> reviewer_config \<Rightarrow> llm_coverage_mode" where
  "reviewer_coverage_mode c r = (case rv_review_depth r of
     RVD_DEEP \<Rightarrow> CM_FAST | RVD_SHALLOW \<Rightarrow> CM_BALANCED | RVD_BALANCED \<Rightarrow> lc_coverage_mode c)"

definition reviewer_max_deep_packs :: "llm_config \<Rightarrow> reviewer_config \<Rightarrow> int option" where
  "reviewer_max_deep_packs c r = (if rv_review_depth r = RVD_SHALLOW then Some 0 else lc_max_deep_packs c)"

definition plan_with_routes ::
    "'p pipeline_env \<Rightarrow> llm_config \<Rightarrow> context_pack list \<Rightarrow> changed_file list \<Rightarrow> int option \<Rightarrow> int option \<Rightarrow> int option
     \<Rightarrow> int option \<Rightarrow> llm_coverage_mode \<Rightarrow> (string \<times> string) list option \<Rightarrow> routing_error + llm_context_selection" where
  "plan_with_routes env c packs files max_packs max_deep max_tokens max_chars mode priorities =
     (let route = review_config_for_pack (ls_endpoint_ok (pv_services env)) (ls_set_fields (pv_services env)) c;
          provider = (\<lambda>p. case route p of Inl _ \<Rightarrow> None | Inr (c', _) \<Rightarrow> Some (llm_provider_name_value (lc_provider c')));
          st = plan_stages (pv_shallow_payload_chars env) (pv_review_prompt_chars env) provider packs files
            max_packs max_deep max_tokens max_chars mode priorities;
          priced = priced_packs packs files (ss_deep_candidates st) max_tokens
            @ (if mode = CM_FAST then [] else priced_packs packs files (ss_shallow_capped st) (ss_left st))
      in case first_error route priced of
           Some e \<Rightarrow> Inl e
         | None \<Rightarrow> Inr (plan_llm_context_selection (pv_shallow_payload_chars env) (pv_review_prompt_chars env) provider
             packs files max_packs max_deep max_tokens max_chars mode priorities))"

definition plan_reviewer_context_selection ::
    "'p pipeline_env \<Rightarrow> llm_config \<Rightarrow> reviewer_config \<Rightarrow> context_pack list \<Rightarrow> changed_file list \<Rightarrow> int option
     \<Rightarrow> routing_error + llm_context_selection" where
  "plan_reviewer_context_selection env c r packs files max_chars =
     plan_with_routes env c (map (\<lambda>p. pack_for_reviewer p r) packs) files (Some (lc_max_packs c))
       (reviewer_max_deep_packs c r) (lc_max_input_tokens c) max_chars (reviewer_coverage_mode c r) None"

definition skipped_for :: "string \<Rightarrow> llm_context_selection \<Rightarrow> string list" where
  "skipped_for reason s = map fst (filter (\<lambda>(i, why). why = reason) (sel_skipped_context_pack_reasons s))"

definition selection_warnings :: "llm_context_selection \<Rightarrow> llm_config \<Rightarrow> reviewer_config \<Rightarrow> nat \<Rightarrow> string list" where
  "selection_warnings s c r matching =
     (let prefix = ''Reviewer '' @ rv_id r;
          capped = skipped_for ''not selected by LLM pack cap'' s;
          token_capped = skipped_for ''not selected by LLM token budget'' s;
          over = sel_over_budget_context_pack_ids s
      in if matching = 0 then [prefix @ '' matched no context packs.'']
         else (if capped = [] then [] else
             [prefix @ '' limited review to '' @ str_nat (length (sel_selected_context_pack_ids s)) @ '' of ''
              @ str_nat matching @ '' matching context packs by max_packs='' @ str_int (lc_max_packs c) @ ''.''])
           @ (if token_capped = [] then [] else
             [prefix @ '' left '' @ str_nat (length token_capped) @ '' context pack(s) unreviewed by max_input_tokens=''
              @ (case lc_max_input_tokens c of None \<Rightarrow> ''None'' | Some n \<Rightarrow> str_int n) @ ''.''])
           @ (if over = [] then [] else [prefix @ '' skipped over-budget context pack(s): '' @ join '', '' over])
           @ (if sel_selected_context_pack_ids s \<noteq> [] then []
              else if over \<noteq> [] then [prefix @ '' could not review any pack because all were over budget.'']
              else if token_capped \<noteq> [] then [prefix @ '' token budget selected no context packs.'']
              else [prefix @ '' selected no context packs.'']))"

text \<open>One selection for the report out of the selections of the reviewers.\<close>

definition merge_reviewer_context_selections ::
    "context_pack list \<Rightarrow> (string \<times> llm_context_selection) list \<Rightarrow> bool \<Rightarrow> llm_context_selection" where
  "merge_reviewer_context_selections packs selections include_unmatched =
     (let sels = map snd selections;
          picked = (\<lambda>field i. list_ex (\<lambda>s. i \<in> set (field s)) sels);
          matching = picked sel_total_context_pack_ids;
          total_ids = filter (\<lambda>i. include_unmatched \<or> matching i) (map cp_id packs);
          selected = picked sel_selected_context_pack_ids;
          deep = picked sel_deep_selected_context_pack_ids;
          shallow = (\<lambda>i. picked sel_shallow_selected_context_pack_ids i \<and> \<not> deep i);
          unselected = filter (\<lambda>i. \<not> selected i) total_ids;
          relevant = (\<lambda>i. filter (\<lambda>s. i \<in> set (sel_total_context_pack_ids s)) sels)
      in \<lparr>sel_total_context_pack_ids = total_ids,
          sel_selected_context_pack_ids = filter selected total_ids,
          sel_deep_selected_context_pack_ids = filter deep total_ids,
          sel_shallow_selected_context_pack_ids = filter shallow total_ids,
          sel_unselected_context_pack_ids = unselected,
          sel_over_budget_context_pack_ids = filter (\<lambda>i. relevant i \<noteq> [] \<and>
            list_all (\<lambda>s. i \<in> set (sel_over_budget_context_pack_ids s)) (relevant i)) unselected,
          sel_over_token_budget_context_pack_ids = filter (\<lambda>i. relevant i \<noteq> [] \<and>
            list_all (\<lambda>s. i \<in> set (sel_over_token_budget_context_pack_ids s)) (relevant i)) unselected,
          sel_skipped_context_pack_reasons = dict_of id (\<lambda>i.
            if relevant i = [] then ''not matched by any enabled reviewer''
            else join ''; '' (sorted_set (map (\<lambda>s. dict_get_or (sel_skipped_context_pack_reasons s) i ''not selected'')
                   (relevant i)))) unselected,
          sel_stages = (if length selections = 1 then concat (map sel_stages sels)
            else concat (map (\<lambda>(rid, s). map (\<lambda>stage. stage\<lparr>sst_stage := rid @ '':'' @ sst_stage stage\<rparr>) (sel_stages s))
                   selections))\<rparr>)"

subsection \<open>The reviewers\<close>

datatype pipeline_error =
    Snapshot_Error capture_error
  | Reviewer_Error reviewer_error
  | Pack_Error snippet_error
  | Route_Error routing_error
  | Verification_Error verify_error

record review_state =
  rs_findings :: "finding list"
  rs_verifications :: "finding_verification list"
  rs_runs :: "llm_run list"
  rs_selections :: "(string \<times> llm_context_selection) list"
  rs_warnings :: "string list"

definition approved_findings :: "finding_verification list \<Rightarrow> finding list" where
  "approved_findings vs = map fv_finding (filter fv_approved (active_verifications vs))"

text \<open>The findings of one reviewer, verified when the reviewer asks for it.\<close>

definition verified_findings ::
    "'p pipeline_env \<Rightarrow> llm_config \<Rightarrow> reviewer_config option \<Rightarrow> context_pack list \<Rightarrow> finding list \<Rightarrow> llm_world
     \<Rightarrow> pipeline_error + (finding list \<times> finding_verification list \<times> llm_run list) \<times> llm_world" where
  "verified_findings env c r packs findings w =
     (if lc_verify c \<and> findings \<noteq> []
      then map_sum Verification_Error id
        (verify_findings (pv_services env) \<lparr>vft_config = c, vft_reviewer = r\<rparr> findings packs w)
      else Inr ((findings, [], []), w))"

text \<open>The packs selected for a reviewer: the shallow ones, then the deep ones, then verification.\<close>

definition review_selected ::
    "'p pipeline_env \<Rightarrow> llm_config \<Rightarrow> reviewer_config \<Rightarrow> context_pack list \<Rightarrow> context_pack list \<Rightarrow> context_pack list
     \<Rightarrow> review_state \<Rightarrow> llm_world \<Rightarrow> pipeline_error + review_state \<times> llm_world" where
  "review_selected env c r packs shallow deep st w =
     (case review_context_packs (pv_services env) \<lparr>rvt_config = c, rvt_depth = RD_SHALLOW, rvt_reviewer = Some r\<rparr> shallow w of
        Inl e \<Rightarrow> Inl (Route_Error e)
      | Inr ((shallow_findings, shallow_runs), w1) \<Rightarrow>
     (case review_context_packs (pv_services env) \<lparr>rvt_config = c, rvt_depth = RD_DEEP, rvt_reviewer = Some r\<rparr> deep w1 of
        Inl e \<Rightarrow> Inl (Route_Error e)
      | Inr ((deep_findings, deep_runs), w2) \<Rightarrow>
     (case verified_findings env c (Some r) packs (consolidate_findings (shallow_findings @ deep_findings) []) w2 of
        Inl e \<Rightarrow> Inl e
      | Inr ((found, vs, verify_runs), w3) \<Rightarrow>
          Inr (st\<lparr>rs_verifications := rs_verifications st @ vs,
                 rs_runs := rs_runs st @ shallow_runs @ deep_runs @ verify_runs,
                 rs_findings := consolidate_findings (rs_findings st @ found)
                   (approved_findings (rs_verifications st @ vs))\<rparr>, w3))))"

definition review_with ::
    "'p pipeline_env \<Rightarrow> review_config \<Rightarrow> context_pack list \<Rightarrow> changed_file list \<Rightarrow> reviewer_config
     \<Rightarrow> review_state \<Rightarrow> llm_world \<Rightarrow> pipeline_error + review_state \<times> llm_world" where
  "review_with env config packs files r st w =
     (let c = llm_config_for_reviewer (rc_llm config) r; scoped = filter (reviewer_matches_pack r) packs
      in case plan_reviewer_context_selection env c r scoped files (Some (cc_max_pack_chars (rc_context config))) of
           Inl e \<Rightarrow> Inl (Route_Error e)
         | Inr s \<Rightarrow>
             (let deep = filter (\<lambda>p. cp_id p \<in> set (sel_deep_selected_context_pack_ids s)) scoped;
                  shallow = filter (\<lambda>p. cp_id p \<in> set (sel_shallow_selected_context_pack_ids s)) scoped;
                  st1 = st\<lparr>rs_selections := dict_set (rv_id r) s (rs_selections st),
                    rs_warnings := rs_warnings st @ selection_warnings s c r (length scoped)\<rparr>
              in if deep = [] \<and> shallow = [] then Inr (st1, w)
                 else review_selected env c r packs shallow deep st1 w))"

fun review_with_all ::
    "'p pipeline_env \<Rightarrow> review_config \<Rightarrow> context_pack list \<Rightarrow> changed_file list \<Rightarrow> reviewer_config list
     \<Rightarrow> review_state \<Rightarrow> llm_world \<Rightarrow> pipeline_error + review_state \<times> llm_world" where
  "review_with_all env config packs files [] st w = Inr (st, w)"
| "review_with_all env config packs files (r # rs) st w =
     (case review_with env config packs files r st w of
        Inl e \<Rightarrow> Inl e
      | Inr (st', w') \<Rightarrow> review_with_all env config packs files rs st' w')"

definition no_review :: review_state where
  "no_review = \<lparr>rs_findings = [], rs_verifications = [], rs_runs = [], rs_selections = [], rs_warnings = []\<rparr>"

subsection \<open>The pipeline\<close>

text \<open>The diff with its risk signals, the analyzers' results and the packs.\<close>

definition prepare_review ::
    "'p pipeline_env \<Rightarrow> review_config \<Rightarrow> string \<Rightarrow> target_mode \<Rightarrow> string option
     \<Rightarrow> snippet_error + diff_summary \<times> analyzer_run \<times> context_pack list" where
  "prepare_review env config diff_text mode base =
     (let d = apply_language_filter (rc_languages config)
            (classify_diff (rc_ignore config) (Some (rc_risk config)) (parse_unified_diff diff_text mode base));
          run = run_analyzers (pv_backends env) (dsum_files d)
      in map_sum id (\<lambda>packs. (d\<lparr>dsum_warnings := dsum_warnings d @ an_warnings run\<rparr>, run, packs))
           (build_context_packs (pv_packs env) config (an_reasons run) (an_results run) (dsum_files d)))"

definition run_review_pipeline ::
    "'p pipeline_env \<Rightarrow> git_env \<Rightarrow> string \<Rightarrow> target_mode \<Rightarrow> review_config \<Rightarrow> string option \<Rightarrow> string list option
     \<Rightarrow> string option \<Rightarrow> llm_cache \<Rightarrow> pipeline_error + review_report \<times> llm_world" where
  "run_review_pipeline env git diff_text mode config base reviewer_ids range_start cache =
     (case capture_review_input_snapshot (pv_sha256 env) git diff_text mode base range_start of
        Inl e \<Rightarrow> Inl (Snapshot_Error e)
      | Inr snapshot \<Rightarrow>
     (case effective_reviewers (rc_reviewers config) reviewer_ids of
        Inl e \<Rightarrow> Inl (Reviewer_Error e)
      | Inr reviewers \<Rightarrow>
     (case prepare_review env config diff_text mode base of
        Inl e \<Rightarrow> Inl (Pack_Error e)
      | Inr (d, run, packs) \<Rightarrow>
     (let w = \<lparr>lw_circuit = [], lw_cache = cache, lw_calls = []\<rparr>;
          scope = map_option (\<lambda>_. map rv_id reviewers) reviewer_ids
      in case (if lc_enabled (rc_llm config)
               then review_with_all env config packs (dsum_files d) reviewers no_review w
               else Inr (no_review, w)) of
           Inl e \<Rightarrow> Inl e
         | Inr (st, w') \<Rightarrow>
             (let selection = (if lc_enabled (rc_llm config)
                    then Some (merge_reviewer_context_selections packs (rs_selections st) (reviewer_ids = None)) else None)
              in Inr (build_report env (pv_project env) config
                   (d\<lparr>dsum_warnings := dsum_warnings d @ rs_warnings st\<rparr>) (an_results run) packs (rs_findings st)
                   (rs_verifications st) (rs_runs st) selection (rs_selections st) (pv_durations env) scope
                   (Some snapshot), w'))))))"

end
