(* ===== verification/Packs_Facts.thy ===== *)
theory Packs_Facts
  imports Packs
begin

section \<open>What the context packs show\<close>

text \<open>
  Properties of \<open>build_context_packs\<close> (\<open>src/apex_ray/context/packs.py\<close>): every file to review gets a
  pack, every changed symbol is in exactly one pack, every hunk that touches a changed symbol or an
  uncovered range is shown whole in some pack, and every snippet of every pack, after trimming, quotes
  the file it names at the lines it gives.
\<close>

subsection \<open>Finalising keeps what a pack is about\<close>

interpretation positions: trim_invariant
  "\<lambda>st. map symbol_position (cp_symbols (fst st)) = map symbol_position (cp_symbols pack)" for pack
proof unfold_locales
  have g: "cp_symbols (with_group g ss p) = cp_symbols p" for g ss p by (cases g) simp_all
  show "map symbol_position (cp_symbols (fst st')) = map symbol_position (cp_symbols pack)"
    if "truncate_longest_snippet gs st = Some st'" "map symbol_position (cp_symbols (fst st)) = map symbol_position (cp_symbols pack)"
    for gs st st' using that by (elim truncate_longest_SomeD) (simp add: g)
  show "map symbol_position (cp_symbols (fst (drop_last_snippet g st))) = map symbol_position (cp_symbols pack)"
    if "map symbol_position (cp_symbols (fst st)) = map symbol_position (cp_symbols pack)" for g st
    using that by (simp add: drop_last_snippet_def g)
  show "map symbol_position (cp_symbols (fst (compact_analyzer_graph st))) = map symbol_position (cp_symbols pack)"
    if "map symbol_position (cp_symbols (fst st)) = map symbol_position (cp_symbols pack)" for st
  proof -
    have "symbol_position (compact_symbol_graph sy) = symbol_position sy" for sy
      by (simp add: symbol_position_def compact_symbol_graph_def)
    then have "symbol_position \<circ> (\<lambda>sy. if symbol_has_graph_context sy then compact_symbol_graph sy else sy) = symbol_position"
      by (auto simp: fun_eq_iff)
    with that show ?thesis
      by (simp add: compact_analyzer_graph_def without_analyzer_graph_def Let_def)
  qed
qed (simp_all add: drop_last_card_def)

lemma with_rules_simps [simp]:
  "cp_id (with_rules config p) = cp_id p" "cp_file (with_rules config p) = cp_file p"
  "cp_diff_snippet (with_rules config p) = cp_diff_snippet p" "cp_symbols (with_rules config p) = cp_symbols p"
  "cp_changed_lines (with_rules config p) = cp_changed_lines p"
  "group_snippets g (with_rules config p) = group_snippets g p"
  by (cases g; simp add: with_rules_def Let_def)+

lemma with_memory_simps [simp]:
  "cp_id (with_memory w config p) = cp_id p" "cp_file (with_memory w config p) = cp_file p"
  "cp_diff_snippet (with_memory w config p) = cp_diff_snippet p" "cp_symbols (with_memory w config p) = cp_symbols p"
  "cp_changed_lines (with_memory w config p) = cp_changed_lines p"
  "group_snippets g (with_memory w config p) = group_snippets g p"
  by (cases g; simp add: with_memory_def Let_def case_prod_unfold)+

lemma finalize_review_pack_frame:
  "cp_file (finalize_review_pack w config p) = cp_file p"
  "cp_diff_snippet (finalize_review_pack w config p) = cp_diff_snippet p"
  "cp_changed_lines (finalize_review_pack w config p) = cp_changed_lines p"
proof -
  let ?q = "with_memory w config (with_rules config p)"
  have "trim_frame (finalize_review_pack w config p) = trim_frame ?q"
    unfolding finalize_review_pack_def using finalize_pack_frame by blast
  then have "cp_file (trim_frame (finalize_review_pack w config p)) = cp_file (trim_frame ?q) \<and>
      cp_diff_snippet (trim_frame (finalize_review_pack w config p)) = cp_diff_snippet (trim_frame ?q) \<and>
      cp_changed_lines (trim_frame (finalize_review_pack w config p)) = cp_changed_lines (trim_frame ?q)" by simp
  then show "cp_file (finalize_review_pack w config p) = cp_file p"
    "cp_diff_snippet (finalize_review_pack w config p) = cp_diff_snippet p"
    "cp_changed_lines (finalize_review_pack w config p) = cp_changed_lines p"
    by (simp_all add: trim_frame_def)
qed

lemma finalize_review_pack_positions:
  "map symbol_position (cp_symbols (finalize_review_pack w config p)) = map symbol_position (cp_symbols p)"
proof -
  let ?q = "with_memory w config (with_rules config p)"
  have g: "cp_symbols (with_group g ss p) = cp_symbols p" for g ss p by (cases g) simp_all
  have "map symbol_position (cp_symbols (fst (limited_pack (rc_context config) ?q))) = map symbol_position (cp_symbols ?q)"
    by (rule limited_pack_inv) (auto simp: g)
  from positions.enforced[OF this] show ?thesis
    by (simp add: finalize_review_pack_def finalize_pack_def Let_def)
qed

lemma new_pack_simps [simp]: "group_snippets g (new_pack i path kind) = []"
  by (cases g) (simp_all add: new_pack_def)

subsection \<open>The packs of one file\<close>

lemma all_results_Inr: "all_results g xs = Inr ys \<longleftrightarrow> map g xs = map Inr ys"
proof (induction xs arbitrary: ys)
  case (Cons x xs)
  show ?case
  proof (cases "all_results g xs")
    case (Inl e)
    with Cons.IH have "map g xs \<noteq> map Inr zs" for zs by (metis Inl_Inr_False)
    with Inl show ?thesis by (cases ys) (auto split: sum.splits)
  next
    case (Inr zs)
    with Cons.IH have "map g xs = map Inr zs" by blast
    with Inr show ?thesis by (cases ys) (auto split: sum.splits dest: map_injective)
  qed
qed auto

lemma symbol_pack_shape:
  assumes "symbol_pack w config result af f anchors pack_id primary symbols edges = Inr p"
  shows "cp_file p = af_path af"
    "cp_diff_snippet p = (if diff_snippet_for_symbols f symbols = [] then diff_snippet f []
                           else diff_snippet_for_symbols f symbols)"
    "map symbol_position (cp_symbols p) = map symbol_position symbols"
    "cp_changed_lines p = changed_lines_for_symbols f symbols"
  using assms
  by (auto simp: symbol_pack_def Let_def finalize_review_pack_frame finalize_review_pack_positions new_pack_def
      split: sum.splits)

lemma file_pack_shape:
  "cp_file (file_pack w config result af f anchors) = af_path af"
  "cp_diff_snippet (file_pack w config result af f anchors) = diff_snippet f []"
  "map symbol_position (cp_symbols (file_pack w config result af f anchors)) = []"
  by (simp_all add: file_pack_def Let_def finalize_review_pack_frame finalize_review_pack_positions new_pack_def)

lemma fallback_pack_shape:
  "cp_file (fallback_pack_for_file w config f reason ranges pack_id warnings coverage) = cf_path f"
  "cp_diff_snippet (fallback_pack_for_file w config f reason ranges pack_id warnings coverage) = diff_snippet f ranges"
  by (simp_all add: fallback_pack_for_file_def Let_def finalize_review_pack_frame new_pack_def)

lemma concat_chunks_of: "0 < n \<Longrightarrow> concat (chunks_of n xs) = xs"
  by (induction n xs rule: chunks_of.induct) (subst chunks_of.simps, simp)

lemma concat_symbol_chunks: "0 < n \<Longrightarrow> concat (symbol_chunks symbols n) = sort_key symbol_position symbols"
  by (simp add: symbol_chunks_def concat_chunks_of)

text \<open>The groups of symbols that the packs of a file are made for.\<close>

definition symbol_groups :: "changed_file \<Rightarrow> analyzer_symbol list \<Rightarrow> analyzer_symbol list list" where
  "symbol_groups f symbols =
     (if symbols = [] then []
      else if should_cluster_file symbols (diff_snippet f []) then [symbols]
      else if 24 < length symbols then symbol_chunks symbols 12
      else map (\<lambda>sy. [sy]) symbols)"

lemma mset_symbol_groups: "mset (concat (symbol_groups f symbols)) = mset symbols"
proof -
  have "concat (map (\<lambda>sy. [sy]) symbols) = symbols" by (induction symbols) simp_all
  then show ?thesis by (simp add: symbol_groups_def concat_symbol_chunks)
qed

lemma packs_for_file_groups:
  assumes "packs_for_file w config result af f = Inr packs"
    "non_redundant_changed_symbols (af_changed_symbols af) = symbols" "symbols \<noteq> []"
  shows "list_all2 (\<lambda>group p. cp_file p = af_path af \<and>
      cp_diff_snippet p = (if diff_snippet_for_symbols f group = [] then diff_snippet f []
                           else diff_snippet_for_symbols f group) \<and>
      map symbol_position (cp_symbols p) = map symbol_position group \<and>
      cp_changed_lines p = changed_lines_for_symbols f group) (symbol_groups f symbols) packs"
proof -
  let ?ok = "\<lambda>group p. cp_file p = af_path af \<and>
      cp_diff_snippet p = (if diff_snippet_for_symbols f group = [] then diff_snippet f []
                           else diff_snippet_for_symbols f group) \<and>
      map symbol_position (cp_symbols p) = map symbol_position group \<and>
      cp_changed_lines p = changed_lines_for_symbols f group"
  let ?anchors = "test_anchor_terms f symbols"
  let ?cluster = "\<lambda>group. symbol_pack w config result af f ?anchors (cluster_pack_id (af_path af) group)
             (primary_symbol group) group (\<lambda>edges. references_for_symbols edges group)"
  let ?single = "\<lambda>(i, sy). symbol_pack w config result af f ?anchors
                  (af_path af @ ''#'' @ sy_name sy @ '':'' @ str_nat (i + 1)) sy [sy] (\<lambda>edges. edges sy)"
  have cluster: "list_all2 ?ok groups ps" if "all_results ?cluster groups = Inr ps" for groups ps
  proof -
    from that have "map ?cluster groups = map Inr ps" by (simp only: all_results_Inr)
    then show ?thesis
      by (induction groups arbitrary: ps) (auto simp: Cons_eq_map_conv list_all2_Cons1 symbol_pack_shape)
  qed
  have single: "list_all2 ?ok (map (\<lambda>sy. [sy]) (map snd ixs)) ps" if "all_results ?single ixs = Inr ps" for ixs ps
  proof -
    from that have "map ?single ixs = map Inr ps" by (simp only: all_results_Inr)
    then show ?thesis
      by (induction ixs arbitrary: ps) (auto simp: Cons_eq_map_conv list_all2_Cons1 symbol_pack_shape)
  qed
  show ?thesis
    using assms cluster[of "[symbols]" packs] cluster[of "symbol_chunks symbols 12" packs]
      single[of "indexed symbols" packs]
    by (auto simp: packs_for_file_def symbol_groups_def Let_def split: if_splits)
qed


subsection \<open>All packs\<close>

lemma all_results_all:
  "\<lbrakk>all_results g xs = Inr ys; \<And>x y. g x = Inr y \<Longrightarrow> P y\<rbrakk> \<Longrightarrow> list_all P ys"
  by (induction xs arbitrary: ys) (auto split: sum.splits)

lemma packs_for_file_all:
  assumes "packs_for_file w config result af f = Inr packs"
    and symbols: "\<And>anchors i sy symbols edges p.
      symbol_pack w config result af f anchors i sy symbols edges = Inr p \<Longrightarrow> P p"
    and filed: "\<And>anchors. P (file_pack w config result af f anchors)"
  shows "list_all P packs"
  using assms(1) filed
  by (auto simp: packs_for_file_def Let_def case_prod_unfold simp del: all_results.simps split: if_splits
      intro: all_results_all symbols)

lemma built_packs_all:
  assumes "build_context_packs w config reasons results changed_files = Inr packs"
    and symbols: "\<And>result af f anchors i sy symbols edges p.
      symbol_pack w config result af f anchors i sy symbols edges = Inr p \<Longrightarrow> P p"
    and filed: "\<And>result af f anchors. P (file_pack w config result af f anchors)"
    and fallback: "\<And>f reason ranges i warnings coverage.
      P (fallback_pack_for_file w config f reason ranges i warnings coverage)"
  shows "list_all P packs"
proof -
  have analyzed: "list_all P ps"
    if "packs_of_analyzed w config by_path (result, af) = Inr ps" for by_path result af ps
    using that fallback packs_for_file_all[where P = P, OF _ symbols filed]
    by (auto simp: packs_of_analyzed_def split: option.splits sum.splits if_splits)
  obtain pss where pss: "all_results (packs_of_analyzed w config (dict_of cf_path id changed_files)) (analyzed_files results) = Inr pss"
    and packs: "packs = concat pss @ map (\<lambda>f. fallback_pack_for_file w config f (dict_get reasons (cf_path f)) [] None []
                     (fallback_coverage results (cf_path f)))
            (filter (\<lambda>f. cf_path f \<notin> set (packed_paths results changed_files) \<and> should_build_fallback_pack f)
               changed_files)"
    using assms(1) by (auto simp: build_context_packs_def split: sum.splits)
  have "list_all (list_all P) pss"
    using all_results_all[OF pss, of "list_all P"] analyzed by force
  then show ?thesis using fallback by (auto simp: packs list_all_iff)
qed

subsection \<open>Snippets of packs quote files\<close>

definition whole_file :: "(string \<Rightarrow> string) \<Rightarrow> string \<Rightarrow> code_snippet" where
  "whole_file content path = \<lparr>cs_file = path, cs_start_line = 1,
     cs_end_line = int (length (split_lines_keep (content path))), cs_code = content path\<rparr>"

definition quotes_content :: "(string \<Rightarrow> string) \<Rightarrow> code_snippet \<Rightarrow> bool" where
  "quotes_content content s \<longleftrightarrow> cs_code s = [] \<or> shows_lines (whole_file content (cs_file s)) s"

lemma quotes_file_content:
  assumes "quotes_file lines_at s" "\<And>path. lines_at path = split_lines_keep (content path)"
  shows "quotes_content content s"
proof -
  obtain path a b where s: "1 \<le> a" "s = file_snippet path (lines_at path) a b"
    using assms(1) by (auto simp: quotes_file_def)
  let ?L = "split_lines_keep (content path)"
  let ?k = "min (nat (b - (a - 1))) (length ?L - nat (a - 1))"
  have code: "cs_code s = concat (take ?k (drop (nat (a - 1)) ?L))"
    by (simp add: s file_snippet_def assms(2) take_drop[symmetric] min_def) 
  show ?thesis
  proof (cases "nat (a - 1) \<le> length ?L")
    case True
    then have "shows_lines (whole_file content path) s"
      using s(1) code unfolding shows_lines_def
      by (intro conjI exI[of _ "nat (a - 1)"] exI[of _ ?k]) (simp_all add: s(2) whole_file_def file_snippet_def)
    then show ?thesis by (simp add: quotes_content_def s(2) file_snippet_def)
  qed (simp add: quotes_content_def code)
qed

interpretation quoting: snippet_invariant "\<lambda>g. quotes_content content" for content
proof unfold_locales
  fix s :: code_snippet and g
  assume long: "128 < length (cs_code s)" and "quotes_content content s"
  then have "shows_lines (whole_file content (cs_file s)) s" by (auto simp: quotes_content_def)
  from truncated_shows_lines[OF long this, of g] show "quotes_content content (truncated_snippet g s)"
    by (auto simp: quotes_content_def shows_lines_def whole_file_def)
qed

lemma finalized_review_pack_quotes:
  "quoting.all_snippets content p \<Longrightarrow> quoting.all_snippets content (finalize_review_pack w config p)"
  using quoting.finalized_snippets[of content "with_memory w config (with_rules config p)"]
  by (simp add: quoting.all_snippets_def finalize_review_pack_def)

lemma built_packs_quote:
  assumes "build_context_packs w config reasons results changed_files = Inr packs"
    and content: "\<And>path. pw_read_lines w path = split_lines_keep (content path)"
  shows "list_all (quoting.all_snippets content) packs"
proof -
  have quotes: "list_all (quotes_content content) ss" if "list_all (quotes_file (pw_read_lines w)) ss" for ss
    using that quotes_file_content[OF _ content] by (auto simp: list_all_iff)
  note ok = snippets_quote_files[THEN quotes]
  have finalized: "quoting.all_snippets content (finalize_review_pack w config p)"
    if "list_all (\<lambda>g. list_all (quotes_content content) (group_snippets g p)) snippet_groups" for p
    using that by (intro finalized_review_pack_quotes) (simp add: quoting.all_snippets_def list_all_iff)
  show ?thesis
    using assms(1)
  proof (rule built_packs_all)
    show "quoting.all_snippets content p"
      if "symbol_pack w config result af f anchors i sy symbols edges = Inr p" for result af f anchors i sy symbols edges p
      using that
      by (auto simp: symbol_pack_def Let_def split: sum.splits intro!: finalized) (simp_all add: snippet_groups_def ok)
    show "quoting.all_snippets content (file_pack w config result af f anchors)" for result af f anchors
      unfolding file_pack_def Let_def by (rule finalized) (simp add: snippet_groups_def ok new_pack_def)
    show "quoting.all_snippets content (fallback_pack_for_file w config f reason ranges i warnings coverage)"
      for f reason ranges i warnings coverage
      unfolding fallback_pack_for_file_def Let_def by (rule finalized) (simp add: snippet_groups_def ok new_pack_def)
  qed
qed


subsection \<open>What every pack list holds\<close>

lemma all_results_rel: "all_results g xs = Inr ys \<longleftrightarrow> list_all2 (\<lambda>x y. g x = Inr y) xs ys"
  unfolding all_results_Inr by (simp add: list.rel_eq[symmetric] list.rel_map)

abbreviation diff_pack ::
    "pack_world \<Rightarrow> review_config \<Rightarrow> (string \<times> string) list \<Rightarrow> analyzer_result list \<Rightarrow> changed_file \<Rightarrow> context_pack" where
  "diff_pack w config reasons results f \<equiv>
     fallback_pack_for_file w config f (dict_get reasons (cf_path f)) [] None [] (fallback_coverage results (cf_path f))"

definition unanalyzed_files :: "analyzer_result list \<Rightarrow> changed_file list \<Rightarrow> changed_file list" where
  "unanalyzed_files results changed_files =
     filter (\<lambda>f. cf_path f \<notin> set (packed_paths results changed_files) \<and> should_build_fallback_pack f) changed_files"

lemma build_context_packsE:
  assumes "build_context_packs w config reasons results changed_files = Inr packs"
  obtains pss where
    "list_all2 (\<lambda>x ps. packs_of_analyzed w config (dict_of cf_path id changed_files) x = Inr ps) (analyzed_files results) pss"
    "packs = concat pss @ map (diff_pack w config reasons results) (unanalyzed_files results changed_files)"
  using assms by (auto simp: build_context_packs_def unanalyzed_files_def all_results_rel[symmetric] split: sum.splits)

lemma unanalyzed_files_iff:
  "f \<in> set (unanalyzed_files results changed_files) \<longleftrightarrow>
     f \<in> set changed_files \<and> should_build_fallback_pack f \<and> cf_path f \<notin> (af_path \<circ> snd) ` set (analyzed_files results)"
  by (auto simp: unanalyzed_files_def packed_paths_def)

lemma packs_for_file_shape:
  assumes "packs_for_file w config result af f = Inr ps"
  shows "ps \<noteq> []" "\<forall>p\<in>set ps. cp_file p = af_path af"
    "mset (concat (map (\<lambda>p. map symbol_position (cp_symbols p)) ps))
       = mset (map symbol_position (non_redundant_changed_symbols (af_changed_symbols af)))"
proof -
  let ?symbols = "non_redundant_changed_symbols (af_changed_symbols af)"
  have "ps \<noteq> [] \<and> (\<forall>p\<in>set ps. cp_file p = af_path af) \<and>
      mset (concat (map (\<lambda>p. map symbol_position (cp_symbols p)) ps)) = mset (map symbol_position ?symbols)"
  proof (cases "?symbols = []")
    case True
    with assms obtain anchors where "ps = [file_pack w config result af f anchors]"
      by (auto simp: packs_for_file_def Let_def)
    with True file_pack_shape show ?thesis by simp
  next
    case False
    have files: "\<forall>p\<in>set ps. cp_file p = af_path af"
      using packs_for_file_groups[OF assms refl False] by (auto simp: list_all2_conv_all_nth in_set_conv_nth)
    have positions: "map (map symbol_position) (symbol_groups f ?symbols) = map (\<lambda>p. map symbol_position (cp_symbols p)) ps"
      using packs_for_file_groups[OF assms refl False]
      by (auto simp: list_all2_conv_all_nth intro!: nth_equalityI)
    then have "concat (map (\<lambda>p. map symbol_position (cp_symbols p)) ps) = map symbol_position (concat (symbol_groups f ?symbols))"
      by (metis map_concat)
    then have "mset (concat (map (\<lambda>p. map symbol_position (cp_symbols p)) ps)) = mset (map symbol_position ?symbols)"
      by (simp add: mset_symbol_groups[unfolded mset_concat] mset_concat)
    moreover from this False have "ps \<noteq> []" by auto
    ultimately show ?thesis using files by simp
  qed
  then show "ps \<noteq> []" "\<forall>p\<in>set ps. cp_file p = af_path af"
    "mset (concat (map (\<lambda>p. map symbol_position (cp_symbols p)) ps)) = mset (map symbol_position ?symbols)" by blast+
qed

lemma packs_of_analyzed_cases:
  assumes "packs_of_analyzed w config (dict_of cf_path id changed_files) (result, af) = Inr ps"
  obtains (unchanged) "af_path af \<notin> cf_path ` set changed_files" "ps = []"
    | (changed) f qs reason warnings i where "f \<in> set changed_files" "cf_path f = af_path af"
        "packs_for_file w config result af f = Inr qs"
        "ps = qs @ (if af_uncovered_changed_ranges af = [] then [] else
           [fallback_pack_for_file w config f reason (af_uncovered_changed_ranges af) i warnings (pack_analyzer_coverage result)])"
proof (cases "dict_get (dict_of cf_path id changed_files) (af_path af)")
  case None
  then have "af_path af \<notin> cf_path ` set changed_files" by (rule dict_of_None_iff[THEN iffD1])
  moreover have "ps = []" using assms None by (simp add: packs_of_analyzed_def)
  ultimately show thesis by (rule unchanged)
next
  case (Some f)
  from dict_of_SomeD[OF this] have "f \<in> set changed_files" "cf_path f = af_path af" by auto
  with Some assms changed show thesis by (auto simp: packs_of_analyzed_def split: sum.splits)
qed


lemma packs_of_analyzed_files:
  assumes "packs_of_analyzed w config (dict_of cf_path id changed_files) x = Inr ps"
  shows "cp_file ` set ps = (if af_path (snd x) \<in> cf_path ` set changed_files then {af_path (snd x)} else {})"
proof -
  obtain result af where x: "x = (result, af)" by (cases x)
  from assms[unfolded x] show ?thesis
  proof (cases rule: packs_of_analyzed_cases)
    case (changed f qs reason warnings i)
    then have "cp_file ` set qs = {af_path af}" using packs_for_file_shape(1,2)[of w config result af f qs]
      by (auto simp: image_iff) (metis list.set_intros(1) neq_Nil_conv)
    moreover have "af_path af \<in> cf_path ` set changed_files" using changed(1,2) by force
    ultimately show ?thesis using changed(2,4) by (simp add: x image_Un fallback_pack_shape(1))
  qed (simp add: x)
qed

lemma built_packs_files:
  assumes "build_context_packs w config reasons results changed_files = Inr packs"
  shows "cp_file ` set packs = cf_path ` {f \<in> set changed_files.
    should_build_fallback_pack f \<or> cf_path f \<in> (af_path \<circ> snd) ` set (analyzed_files results)}"
proof -
  from assms obtain pss where pss:
    "list_all2 (\<lambda>x ps. packs_of_analyzed w config (dict_of cf_path id changed_files) x = Inr ps) (analyzed_files results) pss"
    and packs: "packs = concat pss @ map (diff_pack w config reasons results) (unanalyzed_files results changed_files)"
    by (rule build_context_packsE)
  from pss have "cp_file ` set (concat pss) = cf_path ` set changed_files \<inter> (af_path \<circ> snd) ` set (analyzed_files results)"
  proof (induction rule: list_all2_induct)
    case (Cons x xs ps pss)
    then show ?case using packs_of_analyzed_files[OF Cons.hyps(1)] by (simp add: image_Un)
  qed simp
  then have "cp_file ` set packs = cf_path ` set changed_files \<inter> (af_path \<circ> snd) ` set (analyzed_files results)
      \<union> cf_path ` set (unanalyzed_files results changed_files)"
    by (simp add: packs image_Un image_image fallback_pack_shape(1))
  also have "\<dots> = cf_path ` {f \<in> set changed_files.
    should_build_fallback_pack f \<or> cf_path f \<in> (af_path \<circ> snd) ` set (analyzed_files results)}"
    by (auto simp: unanalyzed_files_iff image_iff)
  finally show ?thesis .
qed

lemma built_packs_symbols:
  assumes "build_context_packs w config reasons results changed_files = Inr packs"
  shows "mset (concat (map (\<lambda>p. map symbol_position (cp_symbols p)) packs)) =
    mset (concat (map (\<lambda>x. map symbol_position (non_redundant_changed_symbols (af_changed_symbols (snd x))))
      (filter (\<lambda>x. af_path (snd x) \<in> cf_path ` set changed_files) (analyzed_files results))))"
proof -
  from assms obtain pss where pss:
    "list_all2 (\<lambda>x ps. packs_of_analyzed w config (dict_of cf_path id changed_files) x = Inr ps) (analyzed_files results) pss"
    and packs: "packs = concat pss @ map (diff_pack w config reasons results) (unanalyzed_files results changed_files)"
    by (rule build_context_packsE)
  have fallback: "map symbol_position (cp_symbols (fallback_pack_for_file w config f reason ranges i warnings coverage)) = []"
    for f reason ranges i warnings coverage
    by (simp only: fallback_pack_for_file_def Let_def finalize_review_pack_positions) (simp add: new_pack_def)
  have "mset (concat (map (\<lambda>p. map symbol_position (cp_symbols p)) ps)) =
      mset (if af_path (snd x) \<in> cf_path ` set changed_files
        then map symbol_position (non_redundant_changed_symbols (af_changed_symbols (snd x))) else [])"
    if "packs_of_analyzed w config (dict_of cf_path id changed_files) x = Inr ps" for x ps
  proof -
    obtain result af where x: "x = (result, af)" by (cases x)
    from that[unfolded x] show ?thesis
    proof (cases rule: packs_of_analyzed_cases)
      case (changed f qs reason warnings i)
      moreover have "af_path af \<in> cf_path ` set changed_files" using changed(1,2) by force
      ultimately show ?thesis using packs_for_file_shape(3)[of w config result af f qs] fallback by (simp add: x)
    qed (simp add: x)
  qed
  with pss have "mset (concat (map (\<lambda>p. map symbol_position (cp_symbols p)) (concat pss))) =
    mset (concat (map (\<lambda>x. map symbol_position (non_redundant_changed_symbols (af_changed_symbols (snd x))))
      (filter (\<lambda>x. af_path (snd x) \<in> cf_path ` set changed_files) (analyzed_files results))))"
    by (induction rule: list_all2_induct) auto
  then show ?thesis using fallback by (simp add: packs comp_def)
qed


subsection \<open>Which hunks are shown\<close>

text \<open>A hunk of an analyzed file is in scope when it meets a changed symbol or a range the analyzer left
  uncovered, or when no symbol changed; a file that was not analyzed is shown whole, if it is shown.\<close>

definition hunk_in_scope :: "changed_hunk \<Rightarrow> analyzer_file \<Rightarrow> bool" where
  "hunk_in_scope h af \<longleftrightarrow>
     (let symbols = non_redundant_changed_symbols (af_changed_symbols af)
      in symbols = [] \<or> in_ranges (map symbol_range symbols) h \<or> in_ranges (af_uncovered_changed_ranges af) h)"

definition hunk_reviewed :: "analyzer_result list \<Rightarrow> changed_file \<Rightarrow> changed_hunk \<Rightarrow> bool" where
  "hunk_reviewed results f h \<longleftrightarrow>
     (case filter (\<lambda>af. af_path af = cf_path f) (map snd (analyzed_files results)) of
        [] \<Rightarrow> should_build_fallback_pack f
      | afs \<Rightarrow> list_ex (hunk_in_scope h) afs)"

lemma sublist_concat: "x \<in> set xs \<Longrightarrow> sublist x (concat xs)"
  unfolding sublist_def by (drule split_list) (metis concat.simps(2) concat_append)

lemma list_all2_member: "\<lbrakk>list_all2 R xs ys; x \<in> set xs\<rbrakk> \<Longrightarrow> \<exists>y\<in>set ys. R x y"
  by (induction rule: list_all2_induct) auto

lemma diff_snippet_shows:
  assumes "h \<in> set (cf_hunks f)" "ranges = [] \<or> in_ranges ranges h"
  shows "sublist (hunk_text h) (diff_snippet f ranges)"
proof -
  have "hunk_text h \<in> set (map hunk_text (filter (\<lambda>h. ranges = [] \<or> in_ranges ranges h) (cf_hunks f)))"
    using assms by auto
  then show ?thesis unfolding diff_snippet_def by (rule sublist_concat)
qed

lemma packs_for_file_shows:
  assumes built: "packs_for_file w config result af f = Inr ps" and h: "h \<in> set (cf_hunks f)"
    and scope: "symbols = [] \<or> in_ranges (map symbol_range symbols) h"
    and symbols: "symbols = non_redundant_changed_symbols (af_changed_symbols af)"
  shows "\<exists>p\<in>set ps. cp_file p = af_path af \<and> sublist (hunk_text h) (cp_diff_snippet p)"
proof (cases "symbols = []")
  case True
  with built symbols obtain anchors where "ps = [file_pack w config result af f anchors]"
    by (auto simp: packs_for_file_def Let_def)
  with file_pack_shape diff_snippet_shows[OF h] show ?thesis by simp
next
  case False
  with scope obtain sy where sy: "sy \<in> set symbols" "ranges_overlap (hunk_range h) (symbol_range sy)"
    by (auto simp: in_ranges_def list_ex_iff)
  have "set (concat (symbol_groups f symbols)) = set symbols"
    using mset_symbol_groups by (metis set_mset_mset)
  with sy obtain group where group: "group \<in> set (symbol_groups f symbols)" "sy \<in> set group" by auto
  from list_all2_member[OF packs_for_file_groups[OF built symbols[symmetric] False] group(1)] obtain p where
    p: "p \<in> set ps" "cp_file p = af_path af"
      "cp_diff_snippet p = (if diff_snippet_for_symbols f group = [] then diff_snippet f []
                            else diff_snippet_for_symbols f group)"
    by blast
  have "in_ranges (map symbol_range group) h" using group(2) sy(2) by (auto simp: in_ranges_def list_ex_iff)
  then have "sublist (hunk_text h) (diff_snippet_for_symbols f group)"
    using diff_snippet_shows[OF h] by (simp add: diff_snippet_for_symbols_def)
  moreover have "sublist (hunk_text h) (diff_snippet f [])" using diff_snippet_shows[OF h] by simp
  ultimately show ?thesis using p by auto
qed

lemma built_packs_show:
  assumes built: "build_context_packs w config reasons results changed_files = Inr packs"
    and files: "distinct (map cf_path changed_files)" "f \<in> set changed_files" "h \<in> set (cf_hunks f)"
    and reviewed: "hunk_reviewed results f h"
  shows "\<exists>p\<in>set packs. cp_file p = cf_path f \<and> sublist (hunk_text h) (cp_diff_snippet p)"
proof -
  from built obtain pss where pss:
    "list_all2 (\<lambda>x ps. packs_of_analyzed w config (dict_of cf_path id changed_files) x = Inr ps) (analyzed_files results) pss"
    and packs: "packs = concat pss @ map (diff_pack w config reasons results) (unanalyzed_files results changed_files)"
    by (rule build_context_packsE)
  let ?afs = "filter (\<lambda>af. af_path af = cf_path f) (map snd (analyzed_files results))"
  show ?thesis
  proof (cases "?afs = []")
    case True
    then have "f \<in> set (unanalyzed_files results changed_files)"
      using reviewed files(2) by (auto simp: unanalyzed_files_iff hunk_reviewed_def filter_empty_conv)
    then have "diff_pack w config reasons results f \<in> set packs" by (simp add: packs)
    then show ?thesis by (rule bexI[rotated]) (simp add: fallback_pack_shape diff_snippet_shows files(3))
  next
    case False
    with reviewed have "list_ex (hunk_in_scope h) ?afs" by (auto simp: hunk_reviewed_def neq_Nil_conv)
    then obtain result af where x: "(result, af) \<in> set (analyzed_files results)" "af_path af = cf_path f"
      and scope: "hunk_in_scope h af" by (auto simp: list_ex_iff)
    from list_all2_member[OF pss x(1)] obtain ps where
      ps: "packs_of_analyzed w config (dict_of cf_path id changed_files) (result, af) = Inr ps" "set ps \<subseteq> set packs"
      by (auto simp: packs)
    from ps(1) show ?thesis
    proof (cases rule: packs_of_analyzed_cases)
      case unchanged
      with files(2) x(2) show ?thesis by auto
    next
      case (changed f' qs reason warnings i)
      with files(1,2) x(2) have f': "f' = f" by (metis inj_on_def distinct_map)
      show ?thesis
      proof (cases "in_ranges (af_uncovered_changed_ranges af) h")
        case True
        then have "af_uncovered_changed_ranges af \<noteq> []" by (auto simp: in_ranges_def)
        then have "fallback_pack_for_file w config f reason (af_uncovered_changed_ranges af) i warnings
            (pack_analyzer_coverage result) \<in> set packs" using changed(4) ps(2) f' by auto
        then show ?thesis
          by (rule bexI[rotated]) (simp add: fallback_pack_shape diff_snippet_shows files(3) True)
      next
        case False
        with scope have "non_redundant_changed_symbols (af_changed_symbols af) = [] \<or>
            in_ranges (map symbol_range (non_redundant_changed_symbols (af_changed_symbols af))) h"
          by (simp add: hunk_in_scope_def Let_def)
        from packs_for_file_shows[OF changed(3) _ this refl] files(3) f' x(2)
        show ?thesis using changed(4) ps(2) by auto
      qed
    qed
  qed
qed


subsection \<open>The packs of a change\<close>

text \<open>A changed import and a changed function of one analyzed file, and a file no analyzer read.\<close>

definition replaced_line :: "int \<Rightarrow> string \<Rightarrow> string \<Rightarrow> changed_hunk" where
  "replaced_line n old new = \<lparr>hk_old_start = n, hk_old_lines = 1, hk_new_start = n, hk_new_lines = 1,
     hk_section_header = [], hk_lines =
       [\<lparr>dl_kind = DL_DELETE, dl_content = old, dl_old_line = Some n, dl_new_line = None\<rparr>,
        \<lparr>dl_kind = DL_ADD, dl_content = new, dl_old_line = None, dl_new_line = Some n\<rparr>], hk_risk_signals = []\<rparr>"

definition import_hunk :: changed_hunk where "import_hunk = replaced_line 1 ''import os'' ''import sys''"
definition body_hunk :: changed_hunk where "body_hunk = replaced_line 4 ''  return 1'' ''  return 2''"

definition modified_file :: "string \<Rightarrow> changed_hunk list \<Rightarrow> changed_file" where
  "modified_file path hunks = \<lparr>cf_old_path = Some path, cf_new_path = Some path, cf_status = ST_MODIFIED,
     cf_language = ''python'', cf_file_kind = FK_SOURCE, cf_additions = 1, cf_deletions = 1, cf_hunks = hunks,
     cf_risk_signals = [], cf_is_ignored = False, cf_ignore_reason = None\<rparr>"

definition function_symbol :: analyzer_symbol where
  "function_symbol = \<lparr>sy_name = ''f'', sy_kind = ''function'', sy_start_line = 3, sy_end_line = 4, sy_exported = True,
     sy_signature = [], sy_references = [], sy_callees = [], sy_contracts = [], sy_metadata = []\<rparr>"

definition sample_results :: "analyzer_result list" where
  "sample_results = [\<lparr>ares_language = ''python'', ares_project_root = [], ares_tsconfig_path = None,
     ares_files = [\<lparr>af_path = ''a.py'', af_tsconfig_path = None, af_symbols = [function_symbol], af_imports = [],
       af_exports = [], af_related_tests = [], af_changed_symbols = [function_symbol],
       af_uncovered_changed_ranges = [], af_warnings = []\<rparr>],
     ares_warnings = [], ares_warning_summaries = [], ares_index_cache = None, ares_partial = False,
     ares_coverage = None, ares_metrics = None, ares_failed_files = [], ares_shard_failures = []\<rparr>]"

definition sample_changes :: "changed_file list" where
  "sample_changes = [modified_file ''a.py'' [import_hunk, body_hunk], modified_file ''b.py'' [import_hunk]]"

definition sample_content :: "string \<Rightarrow> string" where
  "sample_content path = concat (map (\<lambda>l. l @ [CHR 0x0A]) [''import sys'', [], ''def f():'', ''  return 2''])"

definition sample_world :: pack_world where
  "sample_world = \<lparr>pw_rooted = True, pw_read_lines = \<lambda>path. split_lines_keep (sample_content path),
     pw_prompt_chars = \<lambda>_. 0, pw_policy_key = \<lambda>_. []\<rparr>"

definition sample_build :: "snippet_error + context_pack list" where
  "sample_build = build_context_packs sample_world default_review_config [] sample_results sample_changes"

lemma sample_build_value:
  "case sample_build of Inl e \<Rightarrow> False | Inr packs \<Rightarrow>
     map (\<lambda>p. (cp_id p, cp_changed_lines p, map cs_start_line (cp_changed_snippets p))) packs = [(''a.py#f:1'', [(4, 4)], [3]), (''b.py#diff'', [(1, 1)], [1])]"
  by code_simp

lemma sample_build_packs: obtains packs where "sample_build = Inr packs"
proof (cases sample_build)
  case (Inl e)
  have False using sample_build_value unfolding Inl by simp
  then show thesis ..
qed

text \<open>C16: the packs of a change are about exactly the changed files that an analyzer read or that are
  eligible for a pack of the bare diff; in particular no eligible changed file is left without a pack.\<close>

theorem packs_cover_changed_files:
  assumes "build_context_packs w config reasons results changed_files = Inr packs"
  shows "cp_file ` set packs = cf_path ` {f \<in> set changed_files.
    should_build_fallback_pack f \<or> cf_path f \<in> (af_path \<circ> snd) ` set (analyzed_files results)}"
  using assms by (rule built_packs_files)

lemma packs_cover_changed_files_witness:
  "\<exists>packs. sample_build = Inr packs \<and> cp_file ` set packs = {''a.py'', ''b.py''}"
proof -
  obtain packs where packs: "sample_build = Inr packs" by (rule sample_build_packs)
  from packs_cover_changed_files[OF this[unfolded sample_build_def]]
  have "cp_file ` set packs = cf_path ` {f \<in> set sample_changes.
    should_build_fallback_pack f \<or> cf_path f \<in> (af_path \<circ> snd) ` set (analyzed_files sample_results)}" .
  also have "\<dots> = {''a.py'', ''b.py''}" by code_simp
  finally show ?thesis using packs by blast
qed

text \<open>C12: every changed symbol that the analyzers found in a changed file is in exactly one pack (as often as it
  was found), but for the classes and interfaces that only wrap other changed symbols; a pack has no other
  symbols, also after it was trimmed.\<close>

theorem packs_partition_changed_symbols:
  assumes "build_context_packs w config reasons results changed_files = Inr packs"
  shows "mset (concat (map (\<lambda>p. map symbol_position (cp_symbols p)) packs)) =
    mset (concat (map (\<lambda>x. map symbol_position (non_redundant_changed_symbols (af_changed_symbols (snd x))))
      (filter (\<lambda>x. af_path (snd x) \<in> cf_path ` set changed_files) (analyzed_files results))))"
  using assms by (rule built_packs_symbols)

lemma packs_partition_changed_symbols_witness:
  "\<exists>packs. sample_build = Inr packs \<and>
     mset (concat (map (\<lambda>p. map symbol_position (cp_symbols p)) packs)) = {#(3, 4, ''f'')#}"
proof -
  obtain packs where packs: "sample_build = Inr packs" by (rule sample_build_packs)
  have "map symbol_position (non_redundant_changed_symbols [function_symbol]) = [(3, 4, ''f'')]" by code_simp
  then show ?thesis
    using packs packs_partition_changed_symbols[OF packs[unfolded sample_build_def]]
    by (auto simp: sample_results_def analyzed_files_def sample_changes_def modified_file_def cf_path_def)
qed



text \<open>The other hunks of an analyzed file with changed symbols are not: the changed import stands in no pack of
  its file, neither in the diff nor in the changed lines.\<close>

lemma hunk_beside_symbols_is_dropped:
  "case sample_build of Inl e \<Rightarrow> False
   | Inr packs \<Rightarrow> list_all (\<lambda>p. cp_file p = ''a.py'' \<longrightarrow>
       ''+import sys'' \<notin> set (cp_diff_snippet p) \<and> \<not> list_ex (ranges_overlap (1, 1)) (cp_changed_lines p)) packs"
  by code_simp

text \<open>C13: Every snippet of every pack, after the pack was fitted into its budget, quotes the file it names: a run
  of its whole lines (or the beginning of one line) from the line number the snippet gives.\<close>

theorem pack_snippets_quote_files:
  assumes "build_context_packs w config reasons results changed_files = Inr packs"
    and "\<And>path. pw_read_lines w path = split_lines_keep (content path)"
  shows "list_all (\<lambda>p. list_all (\<lambda>g. list_all (quotes_content content) (group_snippets g p)) snippet_groups) packs"
  using built_packs_quote[OF assms] by (auto simp: quoting.all_snippets_def list_all_iff)

lemma pack_snippets_quote_files_witness:
  "\<exists>packs. sample_build = Inr packs \<and>
     list_all (\<lambda>p. list_all (\<lambda>g. list_all (quotes_content sample_content) (group_snippets g p)) snippet_groups) packs"
proof -
  obtain packs where packs: "sample_build = Inr packs" by (rule sample_build_packs)
  from packs pack_snippets_quote_files[OF packs[unfolded sample_build_def], of sample_content]
  show ?thesis by (auto simp: sample_world_def)
qed

end
