(* ===== verification/Analyzers_Facts.thy ===== *)
theory Analyzers_Facts
  imports Analyzers Packs_Facts
begin

section \<open>What the analyzer runs show\<close>

text \<open>
  Properties of \<open>analyzers/common.py\<close> and \<open>analyzers/typescript.py\<close>: the ranges handed to an analyzer are
  the changed lines, the shards split the changed files, a sharded run accounts for every file, merged
  warnings keep their counts, and a file whose analyzer failed is still shown to reviewers as a bare diff.
\<close>

subsection \<open>Ranges\<close>

definition line_runs :: "(int \<times> int) list \<Rightarrow> int list" where
  "line_runs ranges = concat (map (\<lambda>(a, b). [a..b]) ranges)"

lemma collapse_from_lines: "a \<le> p \<Longrightarrow> line_runs (collapse_from a p ns) = [a..p] @ ns"
proof (induction ns arbitrary: a p)
  case (Cons n ns)
  show ?case
  proof (cases "n = p + 1")
    case True
    with Cons.prems have "[a..n] = [a..p] @ [n]" by (simp add: upto_rec2)
    with True Cons.IH[of a n] Cons.prems show ?thesis by simp
  next
    case False
    with Cons.IH[of n n] show ?thesis by (simp add: line_runs_def)
  qed
qed (simp add: line_runs_def)

lemma collapse_from_hd: "\<exists>b rs. collapse_from a p ns = (a, b) # rs"
  by (induction ns arbitrary: a p) auto

lemma collapse_from_separated:
  "a \<le> p \<Longrightarrow> successively (\<lambda>r r'. snd r + 1 \<noteq> fst r') (collapse_from a p ns)
     \<and> list_all (\<lambda>r. fst r \<le> snd r) (collapse_from a p ns)"
proof (induction ns arbitrary: a p)
  case (Cons n ns)
  obtain b rs where rs: "collapse_from n n ns = (n, b) # rs" using collapse_from_hd by blast
  from Cons.IH[of a n] Cons.IH[of n n] Cons.prems rs show ?case by auto
qed simp

text \<open>the ranges handed to an analyzer list the changed lines one by one in order, no range is empty, and
  no range can be joined with the next one.\<close>

theorem collapse_ranges_reads_back:
  "line_runs (collapse_ranges ns) = ns \<and> list_all (\<lambda>r. fst r \<le> snd r) (collapse_ranges ns) \<and>
   successively (\<lambda>r r'. snd r + 1 \<noteq> fst r') (collapse_ranges ns)"
proof (cases ns)
  case (Cons n ms)
  with collapse_from_lines[of n n ms] collapse_from_separated[of n n ms] show ?thesis
    by (simp add: collapse_ranges_def)
qed (simp add: collapse_ranges_def line_runs_def)

subsection \<open>Shards\<close>

lemma chunks_of_bounds: "0 < n \<Longrightarrow> list_all (\<lambda>c. c \<noteq> [] \<and> length c \<le> n) (chunks_of n xs)"
proof (induction n xs rule: chunks_of.induct)
  case (1 n xs)
  then show ?case by (subst chunks_of.simps) (simp add: min_le_iff_disj)
qed

lemma shard_size_pos: "valid_analyzer_config config \<Longrightarrow> 0 < shard_size config files"
  by (simp add: shard_size_def valid_analyzer_config_def)

lemma concat_shards:
  "valid_analyzer_config config \<Longrightarrow> concat (shard_changed_files files config) = sort_desc changed_file_shard_priority files"
  by (simp add: shard_changed_files_def concat_chunks_of shard_size_pos)

text \<open>the shards split the changed files, the most risky first, into nonempty parts that respect the
  shard size.\<close>

theorem shards_partition_changed_files:
  assumes "valid_analyzer_config config"
  shows "mset (concat (shard_changed_files files config)) = mset files \<and>
    sorted (rev (map changed_file_shard_priority (concat (shard_changed_files files config)))) \<and>
    list_all (\<lambda>sh. sh \<noteq> [] \<and> int (length sh) \<le> ac_changed_file_shard_size config) (shard_changed_files files config)"
proof -
  have "int (shard_size config files) \<le> ac_changed_file_shard_size config"
    using assms by (simp add: shard_size_def valid_analyzer_config_def)
  with chunks_of_bounds[OF shard_size_pos[OF assms, of files], of "sort_desc changed_file_shard_priority files"]
  have "list_all (\<lambda>sh. sh \<noteq> [] \<and> int (length sh) \<le> ac_changed_file_shard_size config) (shard_changed_files files config)"
    by (auto simp: shard_changed_files_def list_all_iff)
  then show ?thesis unfolding concat_shards[OF assms] by (simp add: sort_desc_sorted)
qed

subsection \<open>A sharded run\<close>

lemma run_shards_outcome:
  assumes "(i, shard) \<in> set items"
  shows "(\<exists>r t. run shard t = Inr r \<and>
      Shard_Ok i (annotate_successful_shard i n (length shard) (took i) r) \<in> set (run_shards left took run timeout all_time n items))
    \<or> (\<exists>e d. Shard_Failed e d \<in> set (run_shards left took run timeout all_time n items) \<and> sf_files e = map cf_path shard)"
  using assms
proof (induction items)
  case (Cons item items)
  obtain j sh where item: "item = (j, sh)" by (cases item)
  show ?case
  proof (cases "left j \<le> 0")
    case True
    let ?e = "shard_failure i n shard (total_timeout_message all_time) (Some SFS_TIMEOUT)"
    have "Shard_Failed ?e 0 \<in> set (run_shards left took run timeout all_time n (item # items))"
      using Cons.prems True by (auto simp: item)
    moreover have "sf_files ?e = map cf_path shard" by (simp add: shard_failure_def)
    ultimately show ?thesis by blast
  next
    case False
    show ?thesis
    proof (cases "(i, shard) = item")
      case True
      with False show ?thesis
        by (cases "run shard (min timeout (left i))") (auto simp: item shard_failure_def)
    next
      case other: False
      then have "(i, shard) \<in> set items" using Cons.prems by auto
      from Cons.IH[OF this] False show ?thesis by (auto simp: item)
    qed
  qed
qed simp

lemma shard_results_iff: "(i, r) \<in> set (shard_results os) \<longleftrightarrow> Shard_Ok i r \<in> set os"
  by (induction os rule: shard_results.induct) auto

lemma shard_failures_iff: "(e, d) \<in> set (shard_failures os) \<longleftrightarrow> Shard_Failed e d \<in> set os"
  by (induction os rule: shard_failures.induct) auto

lemma annotated_files [simp]: "ares_files (annotate_successful_shard i n k d r) = ares_files r"
  by (simp add: annotate_successful_shard_def with_coverage_def Let_def)

lemma append_analyzer_warning_simps [simp]:
  "ares_files (append_analyzer_warning m idx r) = ares_files r"
  "ares_failed_files (append_analyzer_warning m idx r) = ares_failed_files r"
  by (simp_all add: append_analyzer_warning_def Let_def split: option.split)

lemma fold_warnings_simps [simp]:
  "ares_files (fold (\<lambda>e r. append_analyzer_warning (m e) (idx e) r) es r) = ares_files r"
  "ares_failed_files (fold (\<lambda>e r. append_analyzer_warning (m e) (idx e) r) es r) = ares_failed_files r"
  by (induction es arbitrary: r) simp_all

lemma partial_result_simps:
  "ares_files (partial_result n failures merged) = ares_files merged"
  "set (ares_failed_files (partial_result n failures merged)) =
     set (ares_failed_files merged) \<union> (\<Union>(e, d) \<in> set failures. set (sf_files e))"
  "is_partial (partial_result n failures merged)"
  by (auto simp: partial_result_def Let_def is_partial_def)

lemma merged_files: "set (ares_files (merge_analyzer_results results n)) = (\<Union>(i, r) \<in> set results. set (ares_files r))"
  by (auto simp: merge_analyzer_results_def Let_def split: prod.splits)

lemma settled_shards:
  assumes "settle_shards n outcomes = Inr r"
  shows "Shard_Ok i r' \<in> set outcomes \<Longrightarrow> set (ares_files r') \<subseteq> set (ares_files r)"
    "Shard_Failed e d \<in> set outcomes \<Longrightarrow> set (sf_files e) \<subseteq> set (ares_failed_files r) \<and> is_partial r"
proof -
  show "set (ares_files r') \<subseteq> set (ares_files r)" if "Shard_Ok i r' \<in> set outcomes"
  proof -
    from that have mem: "(i, r') \<in> set (shard_results outcomes)" by (simp add: shard_results_iff)
    have "ares_files r = ares_files (merge_analyzer_results (shard_results outcomes) n)"
      using assms by (auto simp: settle_shards_def Let_def partial_result_simps split: if_splits)
    with mem show ?thesis by (auto simp: merged_files)
  qed
  show "set (sf_files e) \<subseteq> set (ares_failed_files r) \<and> is_partial r" if "Shard_Failed e d \<in> set outcomes"
  proof -
    from that have mem: "(e, d) \<in> set (shard_failures outcomes)" by (simp add: shard_failures_iff)
    then have "r = partial_result n (shard_failures outcomes) (merge_analyzer_results (shard_results outcomes) n)"
      using assms by (auto simp: settle_shards_def Let_def split: if_splits)
    with mem show ?thesis by (auto simp: partial_result_simps)
  qed
qed

text \<open>a TypeScript run that returns accounts for every changed file: either the shard of the file was
  analyzed and everything found in it is in the result, or the file is listed as failed and the result is marked
  as partial. It fails as a whole only before the first shard or when every shard failed.\<close>

theorem typescript_run_accounts_for_files:
  assumes "run_typescript_analyzer env files config = Inr (Some r)" "valid_analyzer_config config"
    and "f \<in> set (ts_js_changed_files files)"
  shows "cf_path f \<in> set (ares_failed_files r) \<and> is_partial r \<or>
    (\<exists>shard \<in> set (shard_changed_files (ts_js_changed_files files) config). f \<in> set shard \<and>
      (\<exists>large manifest timeout r'. run_typescript_shard env config large manifest shard timeout = Inr r' \<and>
         set (ares_files r') \<subseteq> set (ares_files r)))"
proof -
  let ?shards = "shard_changed_files (ts_js_changed_files files) config"
  let ?items = "map (\<lambda>(i, sh). (i + 1, sh)) (indexed ?shards)"
  obtain large manifest left took timeout all_time r0 where
    settled: "settle_shards (length ?shards) (run_shards left took (run_typescript_shard env config large manifest)
      timeout all_time (length ?shards) ?items) = Inr r0"
    and r: "ares_files r = ares_files r0" "ares_failed_files r = ares_failed_files r0" "is_partial r = is_partial r0"
  proof -
    from assms(1) obtain r0 m manifest where "te_manifest env = Inr manifest" and s: "settle_shards (length ?shards)
       (run_shards (\<lambda>i. of_int (typescript_total_timeout_seconds (ts_js_changed_files files) ?shards config) - te_spent env i)
         (te_took env) (run_typescript_shard env config (if large_change config (ts_js_changed_files files)
            then Some (int (length (ts_js_changed_files files))) else None) manifest) (of_int (ac_timeout_seconds config))
         (of_int (typescript_total_timeout_seconds (ts_js_changed_files files) ?shards config)) (length ?shards) ?items) = Inr r0"
      and "r = r0\<lparr>ares_metrics := m\<rparr>"
      by (auto simp: run_typescript_analyzer_def Let_def map_sum_eq_Inr split: if_splits option.splits sum.splits)
    then show thesis by (intro that[OF s]) (simp_all add: is_partial_def)
  qed
  have "f \<in> set (concat ?shards)" unfolding concat_shards[OF assms(2)] using assms(3) by simp
  then obtain shard where shard: "shard \<in> set ?shards" "f \<in> set shard" by auto
  then obtain i where "(i, shard) \<in> set ?items"
    by (force simp: indexed_def set_zip in_set_conv_nth)
  from run_shards_outcome[OF this, of "run_typescript_shard env config large manifest" "length ?shards" took left timeout all_time]
  show ?thesis
  proof (elim disjE exE conjE)
    fix r' t assume run: "run_typescript_shard env config large manifest shard t = Inr r'"
      and "Shard_Ok i (annotate_successful_shard i (length ?shards) (length shard) (took i) r') \<in> set (run_shards left took
        (run_typescript_shard env config large manifest) timeout all_time (length ?shards) ?items)"
    from settled_shards(1)[OF settled this(2)] have "set (ares_files r') \<subseteq> set (ares_files r)" by (simp add: r)
    with run shard show ?thesis by blast
  next
    fix e d assume "Shard_Failed e d \<in> set (run_shards left took (run_typescript_shard env config large manifest)
        timeout all_time (length ?shards) ?items)" and "sf_files e = map cf_path shard"
    with settled_shards(2)[OF settled] shard(2) show ?thesis by (force simp: r)
  qed
qed


subsection \<open>Merged warnings\<close>

definition occurrences :: "string \<Rightarrow> (string \<times> int) list \<Rightarrow> int" where
  "occurrences m entries = sum_list (map snd (filter (\<lambda>(m', n). m' = m) entries))"

abbreviation counted_as :: "warning_counts \<Rightarrow> string \<Rightarrow> int" where
  "counted_as d m \<equiv> fst (dict_get_or d m (0, []))"

lemma add_warning_dict_set:
  "\<exists>idx. add_warning i (m, n) d = dict_set m (counted_as d m + n, idx) d"
  by (auto simp: add_warning_def Let_def split: prod.split)

lemma add_warning_count:
  "counted_as (add_warning i e d) m = counted_as d m + occurrences m [e]"
  "distinct (map fst d) \<Longrightarrow> distinct (map fst (add_warning i e d))"
  "fst ` set (add_warning i e d) = insert (fst e) (fst ` set d)"
proof -
  obtain m' n where e: "e = (m', n)" by (cases e)
  obtain idx where d': "add_warning i e d = dict_set m' (counted_as d m' + n, idx) d"
    using add_warning_dict_set unfolding e by blast
  show "counted_as (add_warning i e d) m = counted_as d m + occurrences m [e]"
    unfolding d' by (simp add: e dict_get_or_def occurrences_def update_conv')
  show "distinct (map fst d) \<Longrightarrow> distinct (map fst (add_warning i e d))" unfolding d' by simp
  show "fst ` set (add_warning i e d) = insert (fst e) (fst ` set d)"
    unfolding d' by (simp add: e dom_update)
qed

lemma add_warnings_count:
  "counted_as (fold (add_warning i) es d) m = counted_as d m + occurrences m es"
  "distinct (map fst d) \<Longrightarrow> distinct (map fst (fold (add_warning i) es d))"
  "fst ` set (fold (add_warning i) es d) = fst ` set es \<union> fst ` set d"
  by (induction es arbitrary: d) (auto simp: add_warning_count occurrences_def)

lemma warning_counts_fold:
  fixes results :: "(nat \<times> analyzer_result) list"
  defines "entries \<equiv> concat (map (warning_entries \<circ> snd) results)"
  shows "counted_as (fold (\<lambda>(i, r) d. fold (add_warning (int i)) (warning_entries r) d) results d) m
     = counted_as d m + occurrences m entries"
    "distinct (map fst d) \<Longrightarrow> distinct (map fst (fold (\<lambda>(i, r) d. fold (add_warning (int i)) (warning_entries r) d) results d))"
    "fst ` set (fold (\<lambda>(i, r) d. fold (add_warning (int i)) (warning_entries r) d) results d) = fst ` set entries \<union> fst ` set d"
proof -
  have *: "occurrences m (xs @ ys) = occurrences m xs + occurrences m ys" for xs ys by (simp add: occurrences_def)
  show "counted_as (fold (\<lambda>(i, r) d. fold (add_warning (int i)) (warning_entries r) d) results d) m
     = counted_as d m + occurrences m entries"
    unfolding entries_def
    by (induction results arbitrary: d) (simp_all add: case_prod_unfold add_warnings_count(1) *, simp add: occurrences_def)
  show "distinct (map fst d) \<Longrightarrow> distinct (map fst (fold (\<lambda>(i, r) d. fold (add_warning (int i)) (warning_entries r) d) results d))"
    by (induction results arbitrary: d) (simp_all add: case_prod_unfold add_warnings_count(2))
  show "fst ` set (fold (\<lambda>(i, r) d. fold (add_warning (int i)) (warning_entries r) d) results d) = fst ` set entries \<union> fst ` set d"
    unfolding entries_def
    by (induction results arbitrary: d) (simp_all add: case_prod_unfold add_warnings_count(3) image_Un Un_ac)
qed

text \<open>merging the results of the shards keeps every warning once, with as many occurrences as the
  results report together.\<close>

theorem merged_warnings_keep_counts:
  "case merge_warning_summaries results of (messages, summaries) \<Rightarrow>
     messages = map ws_message summaries \<and> distinct messages \<and>
     set messages = fst ` set (concat (map (warning_entries \<circ> snd) results)) \<and>
     list_all (\<lambda>ws. ws_occurrences ws = occurrences (ws_message ws) (concat (map (warning_entries \<circ> snd) results))) summaries"
proof -
  define d where "d = warning_counts_of results"
  have d: "distinct (map fst d)" "fst ` set d = fst ` set (concat (map (warning_entries \<circ> snd) results))"
    "counted_as d m = occurrences m (concat (map (warning_entries \<circ> snd) results))" for m
    using warning_counts_fold[where results = results and d = "[]"] by (simp_all add: d_def warning_counts_of_def dict_get_or_def dict_simps)
  have "n = counted_as d m" if "(m, n, idx) \<in> set d" for m n idx
    using that d(1) by (simp add: dict_get_or_def map_of_eq_Some_iff)
  then show ?thesis using d
    by (auto simp: merge_warning_summaries_def d_def[symmetric] list_all_iff comp_def case_prod_unfold intro!: map_cong)
qed


subsection \<open>A failed analyzer leaves the bare diff\<close>

lemma dict_get_fold_same:
  "dict_get (fold (\<lambda>x d. dict_set (key x) v d) xs d) k = (if k \<in> key ` set xs then Some v else dict_get d k)"
  by (induction xs arbitrary: d) (auto simp: dict_simps update_conv')

abbreviation reasons_ok :: "string \<Rightarrow> analyzer_run \<Rightarrow> bool" where
  "reasons_ok path run \<equiv> (\<exists>reason. dict_get (an_reasons run) path = Some reason \<and> reason \<noteq> [])"

lemma run_backend_keeps_reason:
  assumes "ab_partial_reason b \<noteq> []" "reasons_ok path run"
  shows "reasons_ok path (run_backend files b run)"
  using assms by (auto simp: run_backend_def Let_def dict_get_fold_same split: sum.splits option.splits)

lemma run_backends_keep_reason:
  "\<lbrakk>list_all (\<lambda>b. ab_partial_reason b \<noteq> []) backends; reasons_ok path run\<rbrakk>
     \<Longrightarrow> reasons_ok path (fold (run_backend files) backends run)"
proof (induction backends arbitrary: run)
  case (Cons b backends)
  then show ?case using run_backend_keeps_reason[where path = path and run = run and b = b and files = files] by simp
qed simp

lemma run_backend_gives_reason:
  assumes "f \<in> set (ab_changed_files b files)" "ab_run b files = Inl e"
  shows "reasons_ok (cf_path f) (run_backend files b run)"
  using assms by (auto simp: run_backend_def Let_def dict_get_fold_same)

lemma failed_backend_gives_reason:
  assumes "b \<in> set backends" "list_all (\<lambda>b. ab_partial_reason b \<noteq> []) backends"
    and "f \<in> set (ab_changed_files b files)" "ab_run b files = Inl e"
  shows "reasons_ok (cf_path f) (run_analyzers backends files)"
proof -
  obtain before after where backends: "backends = before @ b # after" using split_list[OF assms(1)] by blast
  with assms(2) have "list_all (\<lambda>b. ab_partial_reason b \<noteq> []) after" by simp
  from run_backends_keep_reason[OF this run_backend_gives_reason[OF assms(3,4)]] show ?thesis
    by (simp add: run_analyzers_def backends)
qed

lemma fallback_pack_warns:
  "reason \<noteq> [] \<Longrightarrow> reason \<in> set (cp_warnings (fallback_pack_for_file w config f (Some reason) ranges i warnings coverage))"
proof -
  let ?p = "\<lambda>q. with_memory w config (with_rules config q)"
  have frame: "cp_warnings (finalize_review_pack w config q) = cp_warnings q" for q
  proof -
    have "trim_frame (finalize_review_pack w config q) = trim_frame (?p q)"
      unfolding finalize_review_pack_def using finalize_pack_frame by blast
    then have "cp_warnings (trim_frame (finalize_review_pack w config q)) = cp_warnings (trim_frame (?p q))" by simp
    then show ?thesis by (simp add: trim_frame_def with_memory_def with_rules_def Let_def case_prod_unfold)
  qed
  assume "reason \<noteq> []"
  then show ?thesis by (simp add: fallback_pack_for_file_def Let_def frame)
qed

text \<open>when the analyzer of a language cannot be run at all, every eligible file it was to analyze (and no
  other analyzer did) gets a pack that shows its whole diff, lists all its changed lines and warns that no
  analysis stands behind it.\<close>

theorem failed_analyzer_leaves_diff:
  assumes "backends = analyzer_backends typescript go python dart" "run = run_analyzers backends files"
    and "b \<in> set backends" "ab_run b files = Inl e" "f \<in> set (ab_changed_files b files)" "f \<in> set files"
    and "should_build_fallback_pack f" "cf_path f \<notin> (af_path \<circ> snd) ` set (analyzed_files (an_results run))"
    and "build_context_packs w config (an_reasons run) (an_results run) files = Inr packs"
  shows "\<exists>p\<in>set packs. cp_file p = cf_path f \<and> cp_diff_snippet p = diff_snippet f [] \<and>
    cp_changed_lines p = map hunk_range (cf_hunks f) \<and>
    (\<exists>warning\<in>set (cp_warnings p). dict_get (an_reasons run) (cf_path f) = Some warning)"
proof -
  have "list_all (\<lambda>b. ab_partial_reason b \<noteq> []) backends" by (simp add: assms(1) analyzer_backends_def)
  from failed_backend_gives_reason[OF assms(3) this assms(5,4)] obtain reason where
    reason: "dict_get (an_reasons run) (cf_path f) = Some reason" "reason \<noteq> []" unfolding assms(2) by blast
  let ?p = "diff_pack w config (an_reasons run) (an_results run) f"
  have "f \<in> set (unanalyzed_files (an_results run) files)"
    using assms(6,7,8) by (simp add: unanalyzed_files_iff)
  moreover from assms(9) obtain pss where
    "packs = concat pss @ map (diff_pack w config (an_reasons run) (an_results run)) (unanalyzed_files (an_results run) files)"
    by (rule build_context_packsE)
  ultimately have "?p \<in> set packs" by simp
  moreover have "cp_changed_lines ?p = map hunk_range (cf_hunks f)"
    by (simp add: fallback_pack_for_file_def Let_def finalize_review_pack_frame new_pack_def)
  moreover have "reason \<in> set (cp_warnings ?p)" using fallback_pack_warns[OF reason(2)] by (simp only: reason(1))
  ultimately show ?thesis using reason(1) fallback_pack_shape by blast
qed

subsection \<open>Sample runs\<close>

definition ts_file :: "string \<Rightarrow> changed_file" where
  "ts_file path = (modified_file path [body_hunk])\<lparr>cf_language := ''typescript''\<rparr>"

definition analyzed_ts :: "string \<Rightarrow> analyzer_result" where
  "analyzed_ts path = (hd sample_results)\<lparr>ares_language := ''typescript'',
     ares_files := map (\<lambda>af. af\<lparr>af_path := path\<rparr>) (ares_files (hd sample_results))\<rparr>"

text \<open>Two files in two shards; the process of the second one does not end in time.\<close>

definition sample_ts_env :: ts_env where
  "sample_ts_env = \<lparr>te_missing = None, te_manifest = Inr ''files.json'', te_repo = ''/r'', te_script = ''analyze.js'',
     te_process = (\<lambda>args t. if t < 119 then Timed_Out else Exited 0 ''a.ts'' []),
     te_decode = (\<lambda>out. Inr (analyzed_ts out)), te_spent = (\<lambda>i. if i \<le> 1 then 0 else 2), te_took = (\<lambda>i. 1000),
     te_wall_ms = 2000, te_manifest_ms = 5\<rparr>"

definition one_file_shards :: analyzer_config where
  "one_file_shards = default_analyzer_config\<lparr>ac_changed_file_shard_size := 1\<rparr>"

abbreviation sample_ts_files :: "changed_file list" where
  "sample_ts_files \<equiv> [ts_file ''a.ts'', ts_file ''b.ts'']"

lemma sample_shards:
  "ts_js_changed_files sample_ts_files = sample_ts_files"
  "shard_changed_files sample_ts_files one_file_shards = [[ts_file ''a.ts''], [ts_file ''b.ts'']]"
  "typescript_total_timeout_seconds sample_ts_files [[ts_file ''a.ts''], [ts_file ''b.ts'']] one_file_shards = 120"
  by code_simp+

lemma sample_shard_ends:
  "run_typescript_shard sample_ts_env config large manifest shard 120 = Inr (analyzed_ts ''a.ts'')"
  "t < 119 \<Longrightarrow> run_typescript_shard sample_ts_env config large manifest shard t
     = Inl (''TypeScript analyzer timed out after '' @ format_seconds (max (1 / 1000) t))"
  by (simp_all add: run_typescript_shard_def sample_ts_env_def process_result_def Let_def)

lemma sample_time: "te_spent sample_ts_env i = (if i \<le> 1 then 0 else 2)"
  by (simp add: sample_ts_env_def)

lemma sample_ts_run:
  "\<exists>r. run_typescript_analyzer sample_ts_env sample_ts_files one_file_shards = Inr (Some r)"
proof -
  have settles: "shard_results os \<noteq> [] \<Longrightarrow> \<exists>r. settle_shards n os = Inr r" for n os
    by (simp add: settle_shards_def Let_def)
  have items: "map (\<lambda>(i, sh). (i + 1, sh)) (indexed [x, y]) = [(1, x), (2, y)]" for x y :: "changed_file list"
    by (simp add: indexed_def upt_rec)
  let ?run = "run_typescript_shard sample_ts_env one_file_shards (if large_change one_file_shards sample_ts_files
    then Some (int (length sample_ts_files)) else None) ''files.json''"
  have "shard_results (run_shards (\<lambda>i. 120 - te_spent sample_ts_env i) took ?run 120 120 n [(1, x), (2, y)]) \<noteq> []"
    for took n x y by (simp add: sample_shard_ends sample_time)
  from settles[OF this] obtain r where
    "settle_shards 2 (run_shards (\<lambda>i. 120 - te_spent sample_ts_env i) (te_took sample_ts_env) ?run 120 120 2
       [(1, [ts_file ''a.ts'']), (2, [ts_file ''b.ts''])]) = Inr r" by blast
  moreover have "te_missing sample_ts_env = None" "te_manifest sample_ts_env = Inr ''files.json''"
    "ac_timeout_seconds one_file_shards = 120" by code_simp+
  ultimately show ?thesis
    by (simp only: run_typescript_analyzer_def Let_def sample_shards items) (simp add: numeral_2_eq_2)
qed

lemma typescript_run_accounts_for_files_witness:
  "\<exists>r. run_typescript_analyzer sample_ts_env sample_ts_files one_file_shards = Inr (Some r) \<and>
     (''b.ts'' \<in> set (ares_failed_files r) \<and> is_partial r \<or>
      (\<exists>shard \<in> set (shard_changed_files sample_ts_files one_file_shards). ts_file ''b.ts'' \<in> set shard \<and>
        (\<exists>large manifest timeout r'. run_typescript_shard sample_ts_env one_file_shards large manifest shard timeout = Inr r' \<and>
           set (ares_files r') \<subseteq> set (ares_files r))))"
proof -
  obtain r where r: "run_typescript_analyzer sample_ts_env sample_ts_files one_file_shards = Inr (Some r)"
    using sample_ts_run by blast
  have "valid_analyzer_config one_file_shards" "cf_path (ts_file ''b.ts'') = ''b.ts''" by code_simp+
  with typescript_run_accounts_for_files[OF r, of "ts_file ''b.ts''"] show ?thesis
    using r by (simp add: sample_shards(1))
qed

lemma shards_partition_changed_files_witness:
  "mset (concat (shard_changed_files sample_ts_files one_file_shards)) = mset sample_ts_files"
  using shards_partition_changed_files[of one_file_shards sample_ts_files]
  by (simp add: one_file_shards_def default_analyzer_config_def valid_analyzer_config_def
      valid_dart_analyzer_config_def default_dart_analyzer_config_def)

text \<open>Node is not installed, and the other analyzers find nothing.\<close>

definition broken_backends :: "analyzer_backend list" where
  "broken_backends = analyzer_backends (\<lambda>_. Inl ''no node'') (\<lambda>_. Inr None) (\<lambda>_. Inr None) (\<lambda>_. Inr None)"

lemma failed_analyzer_leaves_diff_witness:
  "\<exists>packs. build_context_packs sample_world default_review_config
       [(''a.ts'', ''TypeScript analyzer unavailable: no node; using diff-only fallback context.'')] [] [ts_file ''a.ts''] = Inr packs \<and>
     (\<exists>p\<in>set packs. cp_file p = ''a.ts'' \<and> cp_diff_snippet p = hunk_text body_hunk)"
proof -
  let ?f = "ts_file ''a.ts''"
  let ?reason = "''TypeScript analyzer unavailable: no node; using diff-only fallback context.''"
  have run: "an_results (run_analyzers broken_backends [?f]) = []"
    "an_reasons (run_analyzers broken_backends [?f]) = [(''a.ts'', ?reason)]" by code_simp+
  have b: "ab_run (hd broken_backends) [?f] = Inl ''no node''"
    "?f \<in> set (ab_changed_files (hd broken_backends) [?f])" "should_build_fallback_pack ?f" "cf_path ?f = ''a.ts''"
    "diff_snippet ?f [] = hunk_text body_hunk" by code_simp+
  have mem: "hd broken_backends \<in> set broken_backends" by (simp add: broken_backends_def analyzer_backends_def)
  obtain packs where packs: "build_context_packs sample_world default_review_config [(''a.ts'', ?reason)] [] [?f] = Inr packs"
    by (simp add: build_context_packs_def analyzed_files_def)
  from failed_analyzer_leaves_diff[OF broken_backends_def refl mem b(1,2) _ b(3), of sample_world default_review_config packs]
  show ?thesis using packs by (simp add: run b analyzed_files_def) blast
qed

end
