(* ===== verification/Pipeline_Facts.thy ===== *)
theory Pipeline_Facts
  imports Pipeline Analyzers_Facts Verify_Run
begin

section \<open>What a whole review shows\<close>

text \<open>
  Properties of \<open>run_review_pipeline\<close>, which rest on the theorems about its parts: the breaker holds for
  all reviewers together, every reported finding was approved by the verifier, every pack is selected or
  left out for a stated reason, and every changed hunk in scope is in a pack of the report.
\<close>

subsection \<open>Selections\<close>

definition depths_cover :: "llm_context_selection \<Rightarrow> bool" where
  "depths_cover s \<longleftrightarrow> set (sel_selected_context_pack_ids s)
     = set (sel_deep_selected_context_pack_ids s) \<union> set (sel_shallow_selected_context_pack_ids s)"

lemma plan_with_routes_covers: "plan_with_routes env c packs files m d t k mode pr = Inr s \<Longrightarrow> depths_cover s"
proof -
  assume "plan_with_routes env c packs files m d t k mode pr = Inr s"
  then obtain provider where "s = plan_llm_context_selection (pv_shallow_payload_chars env) (pv_review_prompt_chars env)
      provider packs files m d t k mode pr"
    by (auto simp: plan_with_routes_def Let_def split: option.splits)
  then show ?thesis by (simp only: depths_cover_def plan_fields(1,2,3) ids_at_def) (simp add: image_Un)
qed

lemma fst_set_dict_of: "fst ` set (dict_of id f xs) = set xs"
  using dict_of_None_iff[of id f xs] by (simp add: map_of_eq_None_iff set_eq_iff)

lemma merged_selection:
  fixes selections packs all
  assumes "list_all (\<lambda>x. depths_cover (snd x)) selections"
  defines "s \<equiv> merge_reviewer_context_selections packs selections all"
  defines "ids \<equiv> filter (\<lambda>i. all \<or> list_ex (\<lambda>x. i \<in> set (sel_total_context_pack_ids (snd x))) selections) (map cp_id packs)"
  shows "selection_ok ids s" "fst ` set (sel_skipped_context_pack_reasons s) = set (sel_unselected_context_pack_ids s)"
    "set (sel_deep_selected_context_pack_ids s) \<inter> set (sel_shallow_selected_context_pack_ids s) = {}"
proof -
  have total: "sel_total_context_pack_ids s = ids"
    by (simp add: s_def ids_def merge_reviewer_context_selections_def Let_def list_ex_iff)
  have reasons: "fst ` set (sel_skipped_context_pack_reasons s) = set (sel_unselected_context_pack_ids s)"
    by (simp only: s_def merge_reviewer_context_selections_def Let_def llm_context_selection.simps fst_set_dict_of)
  have parts: "mset (sel_selected_context_pack_ids s) + mset (sel_unselected_context_pack_ids s) = mset ids"
    unfolding total[symmetric] s_def
    by (simp only: merge_reviewer_context_selections_def Let_def llm_context_selection.simps)
      (simp only: mset_filter multiset_partition[symmetric])
  have covers: "set (sel_selected_context_pack_ids s)
      = set (sel_deep_selected_context_pack_ids s) \<union> set (sel_shallow_selected_context_pack_ids s)"
  proof -
    have "list_ex (\<lambda>x. i \<in> set (sel_selected_context_pack_ids x)) (map snd selections) \<longleftrightarrow>
      list_ex (\<lambda>x. i \<in> set (sel_deep_selected_context_pack_ids x)) (map snd selections) \<or>
      list_ex (\<lambda>x. i \<in> set (sel_shallow_selected_context_pack_ids x)) (map snd selections)" for i
      using assms(1) by (auto simp: list_all_iff list_ex_iff depths_cover_def)
    then show ?thesis by (auto simp: s_def merge_reviewer_context_selections_def Let_def)
  qed
  have "set (sel_over_budget_context_pack_ids s) \<subseteq> set (sel_unselected_context_pack_ids s)"
    "set (sel_over_token_budget_context_pack_ids s) \<subseteq> set (sel_unselected_context_pack_ids s)"
    by (simp_all only: s_def merge_reviewer_context_selections_def Let_def llm_context_selection.simps filter_is_subset)
  then show "selection_ok ids s"
    unfolding selection_ok_def using total parts covers reasons by blast
  show "fst ` set (sel_skipped_context_pack_reasons s) = set (sel_unselected_context_pack_ids s)" by (rule reasons)
  show "set (sel_deep_selected_context_pack_ids s) \<inter> set (sel_shallow_selected_context_pack_ids s) = {}"
    by (auto simp: s_def merge_reviewer_context_selections_def Let_def)
qed

subsection \<open>The reviewers, one after another\<close>

lemma review_with_all_keeps:
  assumes "review_with_all env config packs files rs st w = Inr (st', w')" "P st w"
    and "\<And>r st w st' w'. \<lbrakk>r \<in> set rs; review_with env config packs files r st w = Inr (st', w'); P st w\<rbrakk> \<Longrightarrow> P st' w'"
  shows "P st' w'"
  using assms
proof (induction rs arbitrary: st w)
  case (Cons r rs)
  from Cons.prems(1) obtain st1 w1 where one: "review_with env config packs files r st w = Inr (st1, w1)"
    and rest: "review_with_all env config packs files rs st1 w1 = Inr (st', w')"
    by (auto split: sum.splits prod.splits)
  have "P st1 w1" using Cons.prems(3)[OF _ one Cons.prems(2)] by simp
  from Cons.IH[OF rest this] Cons.prems(3) show ?case by (meson list.set_intros(2))
qed simp

lemma review_with_cases:
  assumes "review_with env config packs files r st w = Inr (st', w')"
  obtains s shallow deep where "depths_cover s"
    "\<exists>warnings. (st' = st\<lparr>rs_selections := dict_set (rv_id r) s (rs_selections st), rs_warnings := warnings\<rparr> \<and> w' = w) \<or>
       review_selected env (llm_config_for_reviewer (rc_llm config) r) r packs shallow deep
         (st\<lparr>rs_selections := dict_set (rv_id r) s (rs_selections st), rs_warnings := warnings\<rparr>) w = Inr (st', w')"
proof -
  from assms obtain s where s: "plan_reviewer_context_selection env (llm_config_for_reviewer (rc_llm config) r) r
      (filter (reviewer_matches_pack r) packs) files (Some (cc_max_pack_chars (rc_context config))) = Inr s"
    by (auto simp: review_with_def Let_def split: sum.splits)
  then have "depths_cover s" by (auto simp: plan_reviewer_context_selection_def dest: plan_with_routes_covers)
  with assms s that show thesis by (fastforce simp: review_with_def Let_def split: if_splits)
qed

lemma review_selected_simps:
  assumes "review_selected env c r packs shallow deep st w = Inr (st', w')"
  obtains f1 r1 w1 f2 r2 w2 found vs r3 where
    "review_context_packs (pv_services env) \<lparr>rvt_config = c, rvt_depth = RD_SHALLOW, rvt_reviewer = Some r\<rparr> shallow w = Inr ((f1, r1), w1)"
    "review_context_packs (pv_services env) \<lparr>rvt_config = c, rvt_depth = RD_DEEP, rvt_reviewer = Some r\<rparr> deep w1 = Inr ((f2, r2), w2)"
    "verified_findings env c (Some r) packs (consolidate_findings (f1 @ f2) []) w2 = Inr ((found, vs, r3), w')"
    "st' = st\<lparr>rs_verifications := rs_verifications st @ vs, rs_runs := rs_runs st @ r1 @ r2 @ r3,
       rs_findings := consolidate_findings (rs_findings st @ found) (approved_findings (rs_verifications st @ vs))\<rparr>"
  using assms by (auto simp: review_selected_def split: sum.splits prod.splits)

subsection \<open>One breaker for the whole run\<close>

lemma reviewer_limit [simp]:
  "lc_max_consecutive_provider_failures (llm_config_for_reviewer c r) = lc_max_consecutive_provider_failures c"
  by (simp add: llm_config_for_reviewer_def Let_def)

lemma verified_findings_cases:
  "verified_findings env c r packs fs w = Inr ((found, vs, runs), w') \<longleftrightarrow>
    (if lc_verify c \<and> fs \<noteq> []
     then verify_findings (pv_services env) \<lparr>vft_config = c, vft_reviewer = r\<rparr> fs packs w = Inr ((found, vs, runs), w')
     else found = fs \<and> vs = [] \<and> runs = [] \<and> w' = w)"
  by (cases "verify_findings (pv_services env) \<lparr>vft_config = c, vft_reviewer = r\<rparr> fs packs w")
    (auto simp: verified_findings_def)

lemma review_with_ok:
  assumes "review_with env config packs files r st w = Inr (st', w')"
    "world_ok (lc_max_consecutive_provider_failures (rc_llm config)) w"
  shows "world_ok (lc_max_consecutive_provider_failures (rc_llm config)) w'"
  using assms(1)
proof (cases rule: review_with_cases)
  case (1 s shallow deep)
  from this(2) show ?thesis
  proof (elim exE disjE)
    fix warnings
    assume "review_selected env (llm_config_for_reviewer (rc_llm config) r) r packs shallow deep
         (st\<lparr>rs_selections := dict_set (rv_id r) s (rs_selections st), rs_warnings := warnings\<rparr>) w = Inr (st', w')"
    then show ?thesis
    proof (cases rule: review_selected_simps)
      case (1 f1 r1 w1 f2 r2 w2 found vs r3)
      from review_context_packs_ok[OF 1(1)] assms(2)
      have "world_ok (lc_max_consecutive_provider_failures (rc_llm config)) w1" by (simp add: review_limit_def)
      with review_context_packs_ok[OF 1(2)]
      have "world_ok (lc_max_consecutive_provider_failures (rc_llm config)) w2" by (simp add: review_limit_def)
      with 1(3) show ?thesis
        by (auto simp: verified_findings_cases verify_limit_def split: if_splits dest!: verify_findings_ok)
    qed
  qed (use assms(2) in simp)
qed

subsection \<open>Only approved findings\<close>

definition all_verified :: "review_state \<Rightarrow> bool" where
  "all_verified st \<longleftrightarrow> finding_decision_identity ` set (rs_findings st) \<subseteq>
     (finding_decision_identity \<circ> fv_finding) ` {v \<in> set (rs_verifications st). fv_approved v \<and> \<not> fv_superseded v}"

lemma consolidate_identities:
  "finding_decision_identity ` set (consolidate_findings fs preferred) \<subseteq> finding_decision_identity ` set fs"
  using consolidate_fold_facts[of "map finding_decision_identity preferred" fs "[]"]
  by (simp add: consolidate_findings_def)

lemma verified_findings_approved:
  assumes "verified_findings env c r packs fs w = Inr ((found, vs, runs), w')" "lc_verify c"
  shows "set found \<subseteq> fv_finding ` {v \<in> set vs. fv_approved v \<and> \<not> fv_superseded v}"
proof (cases "fs = []")
  case False
  with assms have "verify_findings (pv_services env) \<lparr>vft_config = c, vft_reviewer = r\<rparr> fs packs w = Inr ((found, vs, runs), w')"
    by (simp add: verified_findings_cases)
  then have "found = map fv_finding (filter (\<lambda>v. fv_approved v \<and> \<not> fv_superseded v) vs)"
    using False by (auto simp: verify_findings_def Let_def map_sum_eq_Inr split: sum.splits prod.splits)
  then show ?thesis by auto
qed (use assms in \<open>simp add: verified_findings_cases\<close>)

lemma review_with_verified:
  assumes "review_with env config packs files r st w = Inr (st', w')"
    "lc_verify (llm_config_for_reviewer (rc_llm config) r)" "all_verified st"
  shows "all_verified st'"
  using assms(1)
proof (cases rule: review_with_cases)
  case (1 s shallow deep)
  from this(2) show ?thesis
  proof (elim exE disjE)
    fix warnings
    let ?st = "st\<lparr>rs_selections := dict_set (rv_id r) s (rs_selections st), rs_warnings := warnings\<rparr>"
    assume "review_selected env (llm_config_for_reviewer (rc_llm config) r) r packs shallow deep ?st w = Inr (st', w')"
    then show ?thesis
    proof (cases rule: review_selected_simps)
      case (1 f1 r1 w1 f2 r2 w2 found vs r3)
      have "finding_decision_identity ` set (rs_findings st') \<subseteq> finding_decision_identity ` set (rs_findings st @ found)"
        unfolding 1(4) using consolidate_identities[of "rs_findings st @ found"] by simp
      moreover have "finding_decision_identity ` set found \<subseteq>
          (finding_decision_identity \<circ> fv_finding) ` {v \<in> set vs. fv_approved v \<and> \<not> fv_superseded v}"
        using verified_findings_approved[OF 1(3) assms(2)] by (simp only: image_comp[symmetric] image_mono)
      ultimately show ?thesis using assms(3) unfolding all_verified_def 1(4) by (simp add: image_Un) blast
    qed
  qed (use assms(3) in \<open>auto simp: all_verified_def\<close>)
qed

lemma review_with_covers:
  assumes "review_with env config packs files r st w = Inr (st', w')"
    "list_all (\<lambda>x. depths_cover (snd x)) (rs_selections st)"
  shows "list_all (\<lambda>x. depths_cover (snd x)) (rs_selections st')"
  using assms(1)
proof (cases rule: review_with_cases)
  case (1 s shallow deep)
  have set: "list_all (\<lambda>x. depths_cover (snd x)) (dict_set (rv_id r) s (rs_selections st))"
    using assms(2) 1(1) by (force simp: list_all_iff dest: dict_set_entries)
  from 1(2) show ?thesis
  proof (elim exE disjE)
    fix warnings
    assume "review_selected env (llm_config_for_reviewer (rc_llm config) r) r packs shallow deep
         (st\<lparr>rs_selections := dict_set (rv_id r) s (rs_selections st), rs_warnings := warnings\<rparr>) w = Inr (st', w')"
    then show ?thesis by (cases rule: review_selected_simps) (simp add: set)
  qed (simp add: set)
qed

subsection \<open>The report\<close>

lemma run_review_pipelineE:
  assumes "run_review_pipeline env git diff_text mode config base ids range_start cache = Inr (rep, w')"
  obtains snapshot reviewers d run packs st where
    "capture_review_input_snapshot (pv_sha256 env) git diff_text mode base range_start = Inr snapshot"
    "effective_reviewers (rc_reviewers config) ids = Inr reviewers"
    "prepare_review env config diff_text mode base = Inr (d, run, packs)"
    "if lc_enabled (rc_llm config)
     then review_with_all env config packs (dsum_files d) reviewers no_review \<lparr>lw_circuit = [], lw_cache = cache, lw_calls = []\<rparr> = Inr (st, w')
     else st = no_review \<and> lw_calls w' = []"
    "rep = build_report env (pv_project env) config (d\<lparr>dsum_warnings := dsum_warnings d @ rs_warnings st\<rparr>) (an_results run) packs
       (rs_findings st) (rs_verifications st) (rs_runs st)
       (if lc_enabled (rc_llm config) then Some (merge_reviewer_context_selections packs (rs_selections st) (ids = None)) else None)
       (rs_selections st) (pv_durations env) (map_option (\<lambda>_. map rv_id reviewers) ids) (Some snapshot)"
  using assms
  by (auto simp: run_review_pipeline_def Let_def split: sum.splits prod.splits if_splits)

lemma report_fields [simp]:
  "rep_diff (build_report env project config d results packs fs vs runs sel sels dur scope snap) = d"
  "rep_analyzer_results (build_report env project config d results packs fs vs runs sel sels dur scope snap) = results"
  "rep_context_packs (build_report env project config d results packs fs vs runs sel sels dur scope snap) = packs"
  "rep_findings (build_report env project config d results packs fs vs runs sel sels dur scope snap) = fs"
  "rep_verifications (build_report env project config d results packs fs vs runs sel sels dur scope snap) = vs"
  "rep_llm_selection (build_report env project config d results packs fs vs runs sel sels dur scope snap) = sel"
  "rep_reviewer_selections (build_report env project config d results packs fs vs runs sel sels dur scope snap) = sels"
  "rep_input_snapshot (build_report env project config d results packs fs vs runs sel sels dur scope snap) = snap"
  by (simp_all add: build_report_def)

lemma prepared_packs:
  assumes "prepare_review env config diff_text mode base = Inr (d, run, packs)"
  shows "build_context_packs (pv_packs env) config (an_reasons run) (an_results run) (dsum_files d) = Inr packs"
    "run = run_analyzers (pv_backends env) (dsum_files d)"
  using assms unfolding prepare_review_def Let_def map_sum_eq_Inr by auto

text \<open>in a whole review, over all reviewers, depths and verification, every provider call was made on a
  route that the calls before it had not tripped.\<close>

theorem pipeline_respects_circuit:
  assumes "run_review_pipeline env git diff_text mode config base ids range_start cache = Inr (rep, w)"
  shows "calls_admitted (lc_max_consecutive_provider_failures (rc_llm config)) (lw_calls w)"
  using assms
proof (cases rule: run_review_pipelineE)
  case (1 snapshot reviewers d run packs st)
  let ?n = "lc_max_consecutive_provider_failures (rc_llm config)"
  have start: "world_ok ?n \<lparr>lw_circuit = [], lw_cache = cache, lw_calls = []\<rparr>"
    by (simp add: world_ok_def calls_admitted_def)
  show ?thesis
  proof (cases "lc_enabled (rc_llm config)")
    case True
    with 1(4) have run: "review_with_all env config packs (dsum_files d) reviewers no_review
        \<lparr>lw_circuit = [], lw_cache = cache, lw_calls = []\<rparr> = Inr (st, w)" by simp
    have "world_ok ?n w"
      by (rule review_with_all_keeps[where P = "\<lambda>_. world_ok ?n", OF run start]) (rule review_with_ok)
    then show ?thesis by (simp add: world_ok_def)
  next
    case False
    with 1(4) show ?thesis by (simp add: calls_admitted_def)
  qed
qed

text \<open>when the reviewers verify their findings, every finding in the report has the decision identity of a
  finding that a verification in the report approves and that is not superseded.\<close>

theorem pipeline_reports_approved_findings:
  assumes "run_review_pipeline env git diff_text mode config base ids range_start cache = Inr (rep, w)"
    and "effective_reviewers (rc_reviewers config) ids = Inr reviewers"
    and "list_all (\<lambda>r. lc_verify (llm_config_for_reviewer (rc_llm config) r)) reviewers"
  shows "\<forall>f\<in>set (rep_findings rep). \<exists>v\<in>set (rep_verifications rep). fv_approved v \<and> \<not> fv_superseded v \<and>
    finding_decision_identity (fv_finding v) = finding_decision_identity f"
  using assms(1)
proof (cases rule: run_review_pipelineE)
  case (1 snapshot reviewers' d run packs st)
  have none: "all_verified no_review" by (simp add: all_verified_def no_review_def)
  have "all_verified st"
  proof (cases "lc_enabled (rc_llm config)")
    case True
    with 1(2,4) assms(2) have run: "review_with_all env config packs (dsum_files d) reviewers no_review
        \<lparr>lw_circuit = [], lw_cache = cache, lw_calls = []\<rparr> = Inr (st, w)" by simp
    show ?thesis
      by (rule review_with_all_keeps[where P = "\<lambda>st _. all_verified st", OF run none])
        (rule review_with_verified, assumption, use assms(3) in \<open>simp add: list_all_iff\<close>, assumption)
  qed (use 1(4) none in simp)
  then have "\<forall>f\<in>set (rs_findings st). \<exists>v\<in>set (rs_verifications st). fv_approved v \<and> \<not> fv_superseded v \<and>
      finding_decision_identity f = finding_decision_identity (fv_finding v)"
    by (simp only: all_verified_def image_subset_iff image_iff comp_apply Bex_def mem_Collect_eq conj_assoc)
  then show ?thesis by (simp only: 1(5) report_fields eq_commute[of "finding_decision_identity (fv_finding _)"])
qed

text \<open>the selection in the report accounts for every pack of the report (of a run without named reviewers):
  it is selected, in exactly one depth, or left out, and then the report says why.\<close>

theorem pipeline_accounts_for_packs:
  assumes "run_review_pipeline env git diff_text mode config base None range_start cache = Inr (rep, w)"
    and "lc_enabled (rc_llm config)"
  shows "\<exists>s. rep_llm_selection rep = Some s \<and> selection_ok (map cp_id (rep_context_packs rep)) s \<and>
    set (sel_deep_selected_context_pack_ids s) \<inter> set (sel_shallow_selected_context_pack_ids s) = {} \<and>
    fst ` set (sel_skipped_context_pack_reasons s) = set (sel_unselected_context_pack_ids s)"
  using assms(1)
proof (cases rule: run_review_pipelineE)
  case (1 snapshot reviewers d run packs st)
  have none: "list_all (\<lambda>x. depths_cover (snd x)) (rs_selections no_review)" by (simp add: no_review_def)
  from 1(4) assms(2) have run: "review_with_all env config packs (dsum_files d) reviewers no_review
      \<lparr>lw_circuit = [], lw_cache = cache, lw_calls = []\<rparr> = Inr (st, w)" by simp
  have "list_all (\<lambda>x. depths_cover (snd x)) (rs_selections st)"
    by (rule review_with_all_keeps[where P = "\<lambda>st _. list_all (\<lambda>x. depths_cover (snd x)) (rs_selections st)", OF run none])
      (rule review_with_covers)
  from merged_selection[OF this, where packs = packs and all = True] show ?thesis by (simp add: 1(5) assms(2))
qed

text \<open>every hunk in scope of every changed file, as the report shows the diff and the analyzers' results, is
  shown whole in the diff of some pack of the report.\<close>

theorem pipeline_packs_show_hunks:
  assumes "run_review_pipeline env git diff_text mode config base ids range_start cache = Inr (rep, w)"
    and "distinct (map cf_path (dsum_files (rep_diff rep)))"
    and "f \<in> set (dsum_files (rep_diff rep))" "h \<in> set (cf_hunks f)" "hunk_reviewed (rep_analyzer_results rep) f h"
  shows "\<exists>p\<in>set (rep_context_packs rep). cp_file p = cf_path f \<and> sublist (hunk_text h) (cp_diff_snippet p)"
  using assms(1)
proof (cases rule: run_review_pipelineE)
  case (1 snapshot reviewers d run packs st)
  from built_packs_show[OF prepared_packs(1)[OF 1(3)]] assms(2-5) show ?thesis by (simp add: 1(5))
qed

end
