(* ===== verification/Worker_Pool.thy ===== *)
theory Worker_Pool
  imports Route_Circuit
begin

section \<open>Several workers\<close>

text \<open>
  \<open>_rolling_thread_pool_results\<close> of \<open>src/apex_ray/llm/review.py\<close>, which runs reviews and
  verifications on \<open>max_workers\<close> threads. Which tasks have finished when the generator looks is not
  determined, so a round of its loop is a step of a relation: some of the tasks in flight are done, each
  makes room for the next one, and their results are yielded together. A task may raise; then the
  generator raises too, and the results it had collected in this round are lost. The second part is the
  circuit breaker under these workers: calls that are in flight when a route is closed still end and are
  recorded.
\<close>

subsection \<open>The rounds of the pool\<close>

record 'r pool =
  pl_next :: nat
  pl_flight :: "nat list"
  pl_out :: "(nat \<times> 'r) list"

definition start_pool :: "nat \<Rightarrow> nat \<Rightarrow> 'r pool" where
  "start_pool workers n = \<lparr>pl_next = min n workers, pl_flight = [0..<min n workers], pl_out = []\<rparr>"

definition submit_next :: "nat \<Rightarrow> 'r pool \<Rightarrow> 'r pool" where
  "submit_next n s =
     (if pl_next s < n then s\<lparr>pl_flight := pl_flight s @ [pl_next s], pl_next := Suc (pl_next s)\<rparr> else s)"

text \<open>The futures that are done, in the order of their indexes.\<close>

fun settle_futures ::
    "nat \<Rightarrow> (nat \<Rightarrow> 'e + 'r) \<Rightarrow> nat list \<Rightarrow> 'r pool \<Rightarrow> (nat \<times> 'r) list \<Rightarrow> 'e + 'r pool" where
  "settle_futures n result [] s batch = Inr (s\<lparr>pl_out := pl_out s @ batch\<rparr>)"
| "settle_futures n result (i # js) s batch =
     (case result i of
        Inl e \<Rightarrow> Inl e
      | Inr r \<Rightarrow> settle_futures n result js (submit_next n (s\<lparr>pl_flight := remove1 i (pl_flight s)\<rparr>)) (batch @ [(i, r)]))"

definition completed_ok :: "nat list \<Rightarrow> 'r pool \<Rightarrow> bool" where
  "completed_ok finished s \<longleftrightarrow>
     finished \<noteq> [] \<and> sorted finished \<and> distinct finished \<and> set finished \<subseteq> set (pl_flight s)"

inductive pool_round :: "nat \<Rightarrow> (nat \<Rightarrow> 'e + 'r) \<Rightarrow> 'r pool \<Rightarrow> 'r pool \<Rightarrow> bool" for n result where
  round: "\<lbrakk>completed_ok finished s; settle_futures n result finished s [] = Inr s'\<rbrakk> \<Longrightarrow> pool_round n result s s'"

inductive pool_raises :: "nat \<Rightarrow> (nat \<Rightarrow> 'e + 'r) \<Rightarrow> 'r pool \<Rightarrow> 'e \<Rightarrow> bool" for n result where
  raise: "\<lbrakk>completed_ok finished s; settle_futures n result finished s [] = Inl e\<rbrakk> \<Longrightarrow> pool_raises n result s e"

inductive pool_rounds :: "nat \<Rightarrow> (nat \<Rightarrow> 'e + 'r) \<Rightarrow> nat \<Rightarrow> 'r pool \<Rightarrow> 'r pool \<Rightarrow> bool" for n result where
  none: "pool_rounds n result 0 s s"
| another: "\<lbrakk>pool_rounds n result k s t; pool_round n result t u\<rbrakk> \<Longrightarrow> pool_rounds n result (Suc k) s u"

inductive_cases pool_roundE: "pool_round n result s s'"

text \<open>The callers store every result under its index and read them off in order.\<close>

definition results_in_order :: "nat \<Rightarrow> (nat \<times> 'r) list \<Rightarrow> 'r option list" where
  "results_in_order n out = map (map_of out) [0..<n]"

definition pool_inv :: "nat \<Rightarrow> nat \<Rightarrow> (nat \<Rightarrow> 'e + 'r) \<Rightarrow> 'r pool \<Rightarrow> bool" where
  "pool_inv workers n result s \<longleftrightarrow>
     mset (pl_flight s) + mset (map fst (pl_out s)) = mset [0..<pl_next s] \<and>
     pl_next s \<le> n \<and> length (pl_flight s) \<le> workers \<and>
     (pl_next s < n \<longrightarrow> length (pl_flight s) = workers) \<and>
     list_all (\<lambda>(i, r). result i = Inr r) (pl_out s)"

lemma start_pool_inv: "pool_inv workers n result (start_pool workers n)"
  by (auto simp: pool_inv_def start_pool_def)

text \<open>The invariant in the middle of a round, with the results of the round still to be yielded.\<close>

lemma settle_futures_inv:
  assumes "settle_futures n result finished s batch = Inr s'"
    "pool_inv workers n result (s\<lparr>pl_out := pl_out s @ batch\<rparr>)" "distinct finished" "set finished \<subseteq> set (pl_flight s)"
  shows "pool_inv workers n result s' \<and> length (pl_out s') = length (pl_out s) + length batch + length finished"
  using assms
proof (induction finished arbitrary: s batch)
  case (Cons i finished)
  then obtain r where r: "result i = Inr r" by (auto split: sum.splits)
  define left where "left = remove1 i (pl_flight s)"
  let ?t = "submit_next n (s\<lparr>pl_flight := left\<rparr>)"
  have i: "i \<in> set (pl_flight s)" using Cons.prems by simp
  then have m: "mset (pl_flight s) = add_mset i (mset left)" by (simp add: left_def)
  from arg_cong[OF m, of size] have l: "length (pl_flight s) = Suc (length left)"
    by (simp only: size_mset size_add_mset)
  have "pool_inv workers n result (?t\<lparr>pl_out := pl_out ?t @ (batch @ [(i, r)])\<rparr>)"
    using Cons.prems(2) r m l
    by (simp add: pool_inv_def submit_next_def atLeastLessThanSuc)
  moreover have "set finished \<subseteq> set (pl_flight ?t)"
  proof -
    have "set finished \<subseteq> set left"
    proof
      fix x assume x: "x \<in> set finished"
      with Cons.prems(3) have "x \<noteq> i" by auto
      from in_set_remove1[OF this] x Cons.prems(4) show "x \<in> set left" by (auto simp: left_def)
    qed
    then show ?thesis by (auto simp: submit_next_def)
  qed
  ultimately show ?case
    using Cons.IH[of ?t "batch @ [(i, r)]"] Cons.prems(1,3) r by (simp add: submit_next_def left_def)
qed auto

lemma pool_round_inv:
  "\<lbrakk>pool_round n result s s'; pool_inv workers n result s\<rbrakk>
     \<Longrightarrow> pool_inv workers n result s' \<and> length (pl_out s) < length (pl_out s')"
  by (elim pool_roundE) (auto simp: completed_ok_def dest: settle_futures_inv[where batch = "[]"])

lemma pool_rounds_inv:
  "\<lbrakk>pool_rounds n result k s t; pool_inv workers n result s\<rbrakk>
     \<Longrightarrow> pool_inv workers n result t \<and> length (pl_out s) + k \<le> length (pl_out t)"
proof (induction rule: pool_rounds.induct)
  case (another k s t u)
  then show ?case using pool_round_inv[of n result t u workers] by auto
qed simp

lemma pool_inv_out:
  assumes "pool_inv workers n result s"
  shows "distinct (map fst (pl_out s))" "set (map fst (pl_out s)) \<union> set (pl_flight s) = {..<pl_next s}"
    "length (pl_out s) + length (pl_flight s) = pl_next s"
proof -
  have m: "mset (pl_flight s @ map fst (pl_out s)) = mset [0..<pl_next s]"
    using assms by (simp add: pool_inv_def)
  from m have "distinct (pl_flight s @ map fst (pl_out s))" by (metis distinct_upt mset_eq_imp_distinct_iff)
  then show "distinct (map fst (pl_out s))" by simp
  from mset_eq_setD[OF m] show "set (map fst (pl_out s)) \<union> set (pl_flight s) = {..<pl_next s}"
    by (simp add: Un_commute atLeast0LessThan)
  from mset_eq_length[OF m] show "length (pl_out s) + length (pl_flight s) = pl_next s" by simp
qed

text \<open>C18: every state that the pool reaches has at most \<open>max_workers\<close> tasks in flight, exactly that many
  while tasks are waiting, has submitted and yielded no task twice, and after \<open>k\<close> rounds has yielded at least \<open>k\<close>
  results; so it makes at most as many rounds as there are tasks.\<close>

theorem pool_keeps_workers_busy:
  assumes "pool_rounds n result k (start_pool workers n) s"
  shows "length (pl_flight s) \<le> workers \<and> (n \<le> pl_next s \<or> length (pl_flight s) = workers) \<and>
    distinct (map fst (pl_out s)) \<and> set (map fst (pl_out s)) \<inter> set (pl_flight s) = {} \<and>
    k \<le> length (pl_out s) \<and> length (pl_out s) \<le> n"
proof -
  from pool_rounds_inv[OF assms start_pool_inv] have inv: "pool_inv workers n result s" and k: "k \<le> length (pl_out s)"
    by auto
  have m: "mset (pl_flight s @ map fst (pl_out s)) = mset [0..<pl_next s]"
    using inv by (simp add: pool_inv_def)
  then have "distinct (pl_flight s @ map fst (pl_out s))" by (metis distinct_upt mset_eq_imp_distinct_iff)
  with inv k pool_inv_out(3)[OF inv] show ?thesis by (auto simp: pool_inv_def)
qed

text \<open>C17: when nothing is in flight any more, the results read in the order of the tasks are the results of
  all tasks in order, whatever the order in which they finished.\<close>

theorem pool_results_schedule_free:
  assumes "pool_rounds n result k (start_pool workers n) s" "pl_flight s = []" "0 < workers"
  shows "map (map_option Inr) (results_in_order n (pl_out s)) = map (\<lambda>i. Some (result i)) [0..<n]"
proof -
  from pool_rounds_inv[OF assms(1) start_pool_inv] have inv: "pool_inv workers n result s" by auto
  with assms(2,3) have "pl_next s = n" by (auto simp: pool_inv_def)
  with pool_inv_out[OF inv] assms(2) have all: "fst ` set (pl_out s) = {..<n}" "distinct (map fst (pl_out s))" by auto
  have "map_option Inr (map_of (pl_out s) i) = Some (result i)" if "i < n" for i
  proof -
    from that all(1) obtain r where "(i, r) \<in> set (pl_out s)" by (metis imageE lessThan_iff prod.collapse)
    moreover from this inv have "result i = Inr r" by (auto simp: pool_inv_def list_all_iff)
    ultimately show ?thesis using all(2) by (simp add: map_of_eq_Some_iff)
  qed
  then show ?thesis by (simp add: results_in_order_def)
qed

text \<open>the loop is never stuck: as long as a task is in flight, every choice of finished tasks ends in a
  next round or in the exception of one of them.\<close>

theorem pool_progress:
  assumes "completed_ok finished s"
  shows "(\<exists>s'. pool_round n result s s') \<or> (\<exists>e i. i \<in> set finished \<and> result i = Inl e \<and> pool_raises n result s e)"
proof -
  have raised: "\<exists>i \<in> set js. result i = Inl e" if "settle_futures n result js t b = Inl e" for js t b e
    using that by (induction js arbitrary: t b) (auto split: sum.splits)
  show ?thesis
  proof (cases "settle_futures n result finished s []")
    case (Inl e)
    with raised assms show ?thesis by (blast intro: pool_raises.raise)
  next
    case (Inr s')
    with assms show ?thesis by (blast intro: pool_round.round)
  qed
qed


text \<open>Two workers and three tasks: the second task ends first, then the other two at once.\<close>

definition doubled :: "nat \<Rightarrow> string + nat" where
  "doubled i = Inr (2 * i)"

definition done_pool :: "nat pool" where
  "done_pool = \<lparr>pl_next = 3, pl_flight = [], pl_out = [(1, 2), (0, 0), (2, 4)]\<rparr>"

lemma sample_pool_run: "pool_rounds 3 doubled 2 (start_pool 2 3) done_pool"
proof -
  let ?s1 = "\<lparr>pl_next = 3, pl_flight = [0, 2], pl_out = [(1, 2)]\<rparr>"
  have "pool_round 3 doubled (start_pool 2 3) ?s1"
    by (rule pool_round.round[of "[1]"])
      (simp_all add: completed_ok_def start_pool_def doubled_def submit_next_def numeral_2_eq_2 upt_rec)
  moreover have "pool_round 3 doubled ?s1 done_pool"
    by (rule pool_round.round[of "[0, 2]"]) (simp_all add: completed_ok_def done_pool_def doubled_def submit_next_def)
  ultimately show ?thesis
    using pool_rounds.another[OF pool_rounds.another[OF pool_rounds.none]] by (simp add: numeral_2_eq_2)
qed

lemma pool_keeps_workers_busy_witness: "distinct (map fst (pl_out done_pool)) \<and> length (pl_out done_pool) \<le> 3"
  using pool_keeps_workers_busy[OF sample_pool_run] by blast

lemma pool_results_schedule_free_witness:
  "map (map_option Inr) (results_in_order 3 (pl_out done_pool)) = map (\<lambda>i. Some (doubled i)) [0..<3]"
  using pool_results_schedule_free[OF sample_pool_run] by (simp add: done_pool_def)

lemma pool_progress_witness:
  "(\<exists>s'. pool_round 3 doubled (start_pool 2 3) s') \<or>
   (\<exists>e i. i \<in> {1::nat} \<and> doubled i = Inl e \<and> pool_raises 3 doubled (start_pool 2 3) e)"
proof -
  have "completed_ok [1] (start_pool 2 3 :: nat pool)" by (simp add: completed_ok_def start_pool_def)
  from pool_progress[OF this, of 3 doubled] show ?thesis by auto
qed

subsection \<open>Workers and the circuit breaker\<close>

text \<open>A worker asks the breaker right before it calls a provider and records the outcome when the call
  ends; in between, other workers call and record. The log keeps, for every recorded call, whether the
  route was still open to calls when it was recorded.\<close>

record ('c, 'r) call_state =
  wc_circuit :: 'c
  wc_calling :: "'r list"
  wc_log :: "('r \<times> bool) list"

definition no_calls :: "'c \<Rightarrow> ('c, 'r) call_state" where
  "no_calls c = \<lparr>wc_circuit = c, wc_calling = [], wc_log = []\<rparr>"

inductive worker_step ::
    "('c \<Rightarrow> 'r \<Rightarrow> bool) \<Rightarrow> ('c \<Rightarrow> 'r \<Rightarrow> 's \<Rightarrow> 'c) \<Rightarrow> nat \<Rightarrow> ('c, 'r) call_state \<Rightarrow> ('c, 'r) call_state \<Rightarrow> bool"
  for admits record_call workers where
  call: "\<lbrakk>length (wc_calling s) < workers; admits (wc_circuit s) r\<rbrakk>
     \<Longrightarrow> worker_step admits record_call workers s (s\<lparr>wc_calling := r # wc_calling s\<rparr>)"
| recorded: "r \<in> set (wc_calling s)
     \<Longrightarrow> worker_step admits record_call workers s
           (s\<lparr>wc_circuit := record_call (wc_circuit s) r outcome, wc_calling := remove1 r (wc_calling s),
              wc_log := wc_log s @ [(r, admits (wc_circuit s) r)]\<rparr>)"

inductive worker_run ::
    "('c \<Rightarrow> 'r \<Rightarrow> bool) \<Rightarrow> ('c \<Rightarrow> 'r \<Rightarrow> 's \<Rightarrow> 'c) \<Rightarrow> nat \<Rightarrow> ('c, 'r) call_state \<Rightarrow> ('c, 'r) call_state \<Rightarrow> bool"
  for admits record_call workers where
  start: "worker_run admits record_call workers s s"
| step: "\<lbrakk>worker_run admits record_call workers s t; worker_step admits record_call workers t u\<rbrakk>
     \<Longrightarrow> worker_run admits record_call workers s u"

inductive_cases worker_stepE: "worker_step admits record_call workers s t"

definition late_calls :: "'r \<Rightarrow> ('r \<times> bool) list \<Rightarrow> nat" where
  "late_calls r entries = length (filter (\<lambda>(r', open_route). r' = r \<and> \<not> open_route) entries)"

context breaker begin

definition overshoot_inv :: "nat \<Rightarrow> 'r \<Rightarrow> ('c, 'r) call_state \<Rightarrow> bool" where
  "overshoot_inv workers r s \<longleftrightarrow> ok (wc_circuit s) \<and> length (wc_calling s) \<le> workers \<and>
     (if admits (wc_circuit s) r then late_calls r (wc_log s) = 0
      else late_calls r (wc_log s) + count_list (wc_calling s) r < max 1 workers)"

lemma count_remove1: "r \<in> set xs \<Longrightarrow> count_list (remove1 r xs) x = count_list xs x - (if x = r then 1 else 0)"
  by (induction xs) (auto simp: count_list_0_iff)

lemma count_in: "r \<in> set xs \<Longrightarrow> 0 < count_list xs r"
  by (metis count_list_0_iff gr0I)

lemma worker_step_overshoot:
  assumes "worker_step admits record_call workers s t" "overshoot_inv workers r s"
  shows "overshoot_inv workers r t"
  using assms(1)
proof (cases rule: worker_step.cases)
  case (call r')
  show ?thesis
  proof (cases "admits (wc_circuit s) r")
    case False
    with call have "r' \<noteq> r" by auto
    with call False assms(2) show ?thesis by (auto simp: overshoot_inv_def)
  qed (use call assms(2) in \<open>auto simp: overshoot_inv_def\<close>)
next
  case (recorded r' outcome)
  then have mem: "r' \<in> set (wc_calling s)"
    and circuit: "wc_circuit t = record_call (wc_circuit s) r' outcome"
    and calling: "wc_calling t = remove1 r' (wc_calling s)"
    and entries: "wc_log t = wc_log s @ [(r', admits (wc_circuit s) r')]" by simp_all
  have inv: "ok (wc_circuit s)" "length (wc_calling s) \<le> workers"
    "if admits (wc_circuit s) r then late_calls r (wc_log s) = 0
      else late_calls r (wc_log s) + count_list (wc_calling s) r < max 1 workers"
    using assms(2) unfolding overshoot_inv_def by blast+
  have keeps: "ok (wc_circuit t) \<and> length (wc_calling t) \<le> workers"
    using inv(1,2) mem by (simp add: circuit calling ok_record length_remove1)
  have fewer: "count_list (wc_calling t) r + (if r = r' then 1 else 0) = count_list (wc_calling s) r"
    using mem count_in[OF mem] by (simp add: calling count_remove1)
  have late: "late_calls r (wc_log t)
      = late_calls r (wc_log s) + (if r = r' \<and> \<not> admits (wc_circuit s) r then 1 else 0)"
    by (auto simp: late_calls_def entries)
  show ?thesis
  proof (cases "admits (wc_circuit s) r")
    case True
    with late inv(3) have none: "late_calls r (wc_log t) = 0" by simp
    have "count_list (wc_calling t) r < max 1 workers" if "\<not> admits (wc_circuit t) r"
    proof -
      have "r' = r" using that True independent[of r' r "wc_circuit s" outcome] by (auto simp: circuit)
      then show ?thesis using fewer inv(2) count_le_length[of "wc_calling s" r] by simp
    qed
    with none keeps show ?thesis by (simp add: overshoot_inv_def)
  next
    case False
    then have "\<not> admits (wc_circuit t) r" using stays_closed[OF inv(1)] by (simp add: circuit)
    moreover have "late_calls r (wc_log t) + count_list (wc_calling t) r < max 1 workers"
      using late False fewer inv(3) by (simp split: if_splits)
    ultimately show ?thesis using keeps by (simp add: overshoot_inv_def)
  qed
qed

lemma bounded_overshoot:
  assumes "worker_run admits record_call workers (no_calls c) s" "ok c" "admits c r"
  shows "late_calls r (wc_log s) < max 1 workers"
proof -
  have "overshoot_inv workers r t" if "worker_run admits record_call workers u t" "overshoot_inv workers r u" for t u
    using that by (induction rule: worker_run.induct) (auto intro: worker_step_overshoot)
  moreover have "overshoot_inv workers r (no_calls c)"
    using assms(2,3) by (simp add: overshoot_inv_def no_calls_def late_calls_def)
  ultimately have "overshoot_inv workers r s" using assms(1) by blast
  then show ?thesis by (auto simp: overshoot_inv_def split: if_splits)
qed

end



text \<open>Two workers call one route; the first call ends with an authentication failure, the second is
  recorded after that.\<close>

definition sample_key :: circuit_key where
  "sample_key = (''fake'', None, None, 60, None, None)"

definition late_state :: "(circuit, circuit_key) call_state" where
  "late_state =
     (let closed = record_key [] sample_key (''l'', ''failed_auth'', 3)
      in \<lparr>wc_circuit = record_key closed sample_key (''l'', ''ok'', 3), wc_calling = [],
          wc_log = [(sample_key, True), (sample_key, False)]\<rparr>)"

lemma late_run: "worker_run admits_key record_key 2 (no_calls []) late_state"
proof -
  let ?run = "worker_run admits_key record_key 2 (no_calls [])"
  let ?c = "record_key [] sample_key (''l'', ''failed_auth'', 3)"
  let ?s = "\<lambda>c calling entries. \<lparr>wc_circuit = c, wc_calling = calling, wc_log = entries\<rparr>"
  have open_start: "admits_key [] sample_key" by (simp add: admits_key_def)
  have closed: "\<not> admits_key ?c sample_key" by code_simp
  have "?run (?s [] [] [])" using worker_run.start[of admits_key record_key 2 "no_calls []"] by (simp add: no_calls_def)
  from worker_run.step[OF this worker_step.call[of _ 2 admits_key sample_key]] open_start
  have "?run (?s [] [sample_key] [])" by simp
  from worker_run.step[OF this worker_step.call[of _ 2 admits_key sample_key]] open_start
  have "?run (?s [] [sample_key, sample_key] [])" by simp
  from worker_run.step[OF this worker_step.recorded[of sample_key _ admits_key record_key 2 "(''l'', ''failed_auth'', 3)"]] open_start
  have "?run (?s ?c [sample_key] [(sample_key, True)])" by simp
  from worker_run.step[OF this worker_step.recorded[of sample_key _ admits_key record_key 2 "(''l'', ''ok'', 3)"]] closed
  show ?thesis by (simp add: late_state_def Let_def)
qed


end
