(* ===== verification/Spec2Isabelle.thy ===== *)
theory Spec2Isabelle
  imports Model_Report Line_Ranges Diff_Roundtrip Classify Consolidation Selection_Limits Report_Coverage_Facts Gate_Retry
    Snapshot Coverage_Drain Invocation Routing
    Verify_Run Budget_Excerpts Memory Pipeline_Facts Worker_Pool
begin

text \<open>
  Apex Ray (\<open>src/src/apex_ray/\<close>, Python) reviews a git diff: it parses the diff, marks risky
  changes, cuts the change into context packs, asks model providers for findings on each pack, lets
  a provider verify the findings, and reports them together with an account of what was and what was
  not reviewed; a pre-push gate reads the report and decides whether a push may go ahead. File names
  below are relative to \<open>src/src/apex_ray/\<close>.

  \<^bold>\<open>Layout.\<close> \<open>Prelude\<close> holds the parts of the Python language and library the code uses (text,
  numbers with banker's rounding, dictionaries as insertion-ordered association lists, sorted sets,
  stable sorts) with the rewrite rules all other theories share.

  \<^item> Data (\<open>models.py\<close>): \<open>Model_Config\<close>, \<open>Model_Diff\<close>, \<open>Model_Pack\<close>, \<open>Model_Finding\<close>,
    \<open>Model_Report\<close>. A pydantic model is a \<open>record\<close>, its defaults a constant, its field constraints
    and validators a bool-valued predicate \<open><model>_ok\<close>; a \<open>StrEnum\<close> or \<open>Literal\<close> is a \<open>datatype\<close>.
  \<^item> The diff: \<open>Line_Ranges\<close> (\<open>line_ranges.py\<close>), \<open>Path_Matching\<close> (\<open>path_matching.py\<close>),
    \<open>Diff_Parser\<close> (\<open>diff.py\<close>) with \<open>Diff_Roundtrip\<close>, \<open>Risk\<close> (\<open>risk.py\<close>), \<open>Classify\<close>
    (\<open>classify.py\<close>).
  \<^item> What is reviewed: \<open>Usage\<close> (\<open>llm/usage.py\<close>), \<open>Budgets\<close>, \<open>Selection\<close>, \<open>Selection_Limits\<close>
    (\<open>pipeline/selection.py\<close>), \<open>Reviewers\<close> (\<open>reviewers.py\<close>), \<open>Routing\<close> (\<open>llm/routing.py\<close>),
    \<open>Provider_Presets\<close> (tables of \<open>llm/api.py\<close>).
  \<^item> The review: \<open>Responses\<close> (\<open>llm/errors.py\<close>, \<open>llm/responses.py\<close>), \<open>LLM_Cache\<close>
    (\<open>llm/cache.py\<close>), \<open>Context_Findings\<close> (\<open>llm/findings.py\<close>), \<open>Route_Circuit\<close>, \<open>Review_Run\<close> and
    \<open>Verify_Run\<close> (\<open>llm/review.py\<close>).
  \<^item> Findings: \<open>Findings\<close>, \<open>Verifications\<close> (\<open>findings.py\<close>), \<open>Consolidation\<close>
    (\<open>pipeline/findings.py\<close>), \<open>Triage\<close> (\<open>triage.py\<close>).
  \<^item> Coverage: \<open>Run_State\<close> (\<open>report/run_state.py\<close>), \<open>Coverage_Breakdown\<close>
    (\<open>report/coverage_breakdown.py\<close>), \<open>Coverage_Gate\<close>, \<open>Report_Coverage\<close>,
    \<open>Report_Coverage_Facts\<close> (\<open>report/coverage.py\<close>), \<open>Coverage_Drain\<close> (\<open>pipeline/coverage.py\<close>).
  \<^item> The gate: \<open>Gates\<close> (\<open>gates.py\<close>), \<open>Gate_Retry\<close> (\<open>gate_retry.py\<close>, \<open>resolution.py\<close>).
  \<^item> The repository: \<open>Git_Commands\<close> (\<open>git.py\<close>), \<open>Snapshot\<close> (\<open>pipeline/snapshot.py\<close>),
    \<open>Version_Lock\<close> (\<open>version_lock.py\<close>), \<open>Invocation\<close> (\<open>invocation.py\<close>).

  Definitions keep the names of the code; \<open>PROJECT.json\<close> maps each to its lines.

  \<^bold>\<open>What the lemmas show.\<close> The parser reads back every diff git prints and counts lines as the hunks
  say; line ranges are a normal form and a partition; risk signals and marks depend on the change
  alone. The selection fills its caps in the order of priorities and never passes its budgets. Provider
  calls respect the circuit breaker, which refines the log of calls; the review of a pack ends after
  at most two rounds on one route and one fallback; every finding that is reported was shown to its
  reviewer, and every finding to verify gets exactly one decision, uncertain ones when a provider
  fails. Every pack is accounted for in the coverage; a coverage called complete owes nothing, and
  the drain stops, with a sound claim. The gate blocks exactly what its policy names, and a retry
  carries only findings whose state is the same question. Interfaces are locales,
  each interpreted on the model's own operations: \<open>range_algebra\<close> (line ranges), \<open>priced\<close> (the greedy
  budget loop, at token costs), \<open>latest_wins\<close> (the decision history), \<open>breaker\<close> (the circuit breaker)
  and \<open>answer_cache\<close> (cached reviews and cached verifications).

  \<^bold>\<open>Bounds and fuel.\<close> The only fuel is the number of batches of \<open>Coverage_Drain.drain_loop\<close>, which is
  the code's own \<open>max_batches\<close>; all other loops are structural or have a termination proof.

  \<^bold>\<open>Parameters.\<close> What the code calls and the repository does not hold is an argument of the
  definitions: hashing, JSON text and schema validation, the git program and the file system
  (values of type \<open>file_read\<close>), environment and clock, providers and prompt rendering, the order in
  which a set is iterated. Text is a list of code points below 256, floats are rational numbers, so
  rounding errors of binary floats are not modelled.

  \<^bold>\<open>Not modelled.\<close> The analyzers (they run Node, a Dart server or the \<open>ast\<close> module), configuration
  loading (YAML), the command line, prompt texts, network and process transport, report rendering,
  telemetry, and the evaluation harnesses \<open>pr_eval\<close> and \<open>benchmark\<close>: input and output around the
  modelled operations, or programs that only call third-party ones.
\<close>

end
